(* ===== verification/Prelude.thy ===== *)
theory Prelude
  imports Main "HOL-Library.Word"
begin

text \<open>
  Shared ground of the development: the machine integers of the Rust sources as words, the
  outcome of a fallible computation as a sum, byte strings and their little-endian reading, and
  the list lemmas that the component theories use.

  An outcome is either a value (\<open>Inr\<close>) or a \<open>fault\<close> (\<open>Inl\<close>). Three faults are kept apart
  because the sources treat them differently: \<open>Err\<close> is a value of an error type that a caller can
  observe and handle (\<open>anyhow::Error\<close>, \<open>ParseLevelError\<close>), \<open>Panic\<close> unwinds the thread and is never
  handled by the code modelled here, and \<open>UB\<close> is a read through a raw pointer outside of its
  buffer, which the language leaves undefined. \<open>StackOverflow\<close> is a recursion deeper than the
  stack.
\<close>

unbundle bit_operations_syntax

section \<open>Names for the machine types\<close>

type_synonym u8 = "8 word"
type_synonym u16 = "16 word"
type_synonym u32 = "32 word"
type_synonym u64 = "64 word"
type_synonym i64 = "64 word"
type_synonym bytes = "u8 list"
type_synonym uuid = "128 word"

section \<open>Collections of rewrite rules\<close>

named_theorems bytes_simps \<open>reading and writing bytes at an offset\<close>
named_theorems udt_simps \<open>unfolding of reflected types\<close>
named_theorems stream_simps \<open>operations on event blocks and streams\<close>

section \<open>Outcomes\<close>

datatype fault = Err string | Panic string | UB | StackOverflow

type_synonym 'a res = "fault + 'a"

fun and_then :: "'a res \<Rightarrow> ('a \<Rightarrow> 'b res) \<Rightarrow> 'b res" where
  "and_then (Inl e) f = Inl e"
| "and_then (Inr a) f = f a"

lemma and_then_cong [fundef_cong]:
  "m = m' \<Longrightarrow> (\<And>a. m' = Inr a \<Longrightarrow> f a = f' a) \<Longrightarrow> and_then m f = and_then m' f'"
  by (cases m') auto

lemma and_then_eq_Inr: "and_then m f = Inr b \<longleftrightarrow> (\<exists>a. m = Inr a \<and> f a = Inr b)"
  by (cases m) auto

lemma and_then_eq_Inl:
  "and_then m f = Inl e \<longleftrightarrow> m = Inl e \<or> (\<exists>a. m = Inr a \<and> f a = Inl e)"
  by (cases m) auto

lemma and_then_assoc [simp]:
  "and_then (and_then m f) g = and_then m (\<lambda>a. and_then (f a) g)"
  by (cases m) auto

text \<open>Rust's \<open>Option::unwrap\<close> and the \<open>with_context\<close> conversion of an absent value.\<close>

definition unwrap :: "'a option \<Rightarrow> 'a res" where
  "unwrap x = (case x of None \<Rightarrow> Inl (Panic ''called Option::unwrap() on a None value'') | Some a \<Rightarrow> Inr a)"

definition ok_or_err :: "string \<Rightarrow> 'a option \<Rightarrow> 'a res" where
  "ok_or_err msg x = (case x of None \<Rightarrow> Inl (Err msg) | Some a \<Rightarrow> Inr a)"

lemma unwrap_simps [simp]:
  "unwrap (Some a) = Inr a"
  "unwrap None = Inl (Panic ''called Option::unwrap() on a None value'')"
  by (simp_all add: unwrap_def)

lemma ok_or_err_simps [simp]:
  "ok_or_err msg (Some a) = Inr a"
  "ok_or_err msg None = Inl (Err msg)"
  by (simp_all add: ok_or_err_def)

text \<open>Applying a fallible function to every element in order, stopping at the first fault.\<close>

fun traverse :: "('a \<Rightarrow> 'b res) \<Rightarrow> 'a list \<Rightarrow> 'b list res" where
  "traverse f [] = Inr []"
| "traverse f (x # xs) = and_then (f x) (\<lambda>y. and_then (traverse f xs) (\<lambda>ys. Inr (y # ys)))"

lemma traverse_cong [fundef_cong]:
  "xs = ys \<Longrightarrow> (\<And>x. x \<in> set ys \<Longrightarrow> f x = g x) \<Longrightarrow> traverse f xs = traverse g ys"
proof (induction xs arbitrary: ys)
  case (Cons x xs)
  then show ?case by (cases ys) (auto cong: and_then_cong)
qed simp

lemma traverse_all_Inr:
  "(\<And>x. x \<in> set xs \<Longrightarrow> f x = Inr (g x)) \<Longrightarrow> traverse f xs = Inr (map g xs)"
  by (induction xs) auto

lemma traverse_eq_Inr:
  "traverse f xs = Inr ys \<Longrightarrow> length ys = length xs \<and> (\<forall>i < length xs. f (xs ! i) = Inr (ys ! i))"
  by (induction xs arbitrary: ys) (auto simp: and_then_eq_Inr nth_Cons split: nat.splits)

lemma traverse_nth:
  assumes "length xs = length ys" and "\<And>i. i < length xs \<Longrightarrow> f (xs ! i) = Inr (ys ! i)"
  shows "traverse f xs = Inr ys"
  using assms
proof (induction xs arbitrary: ys)
  case (Cons x xs)
  then show ?case by (cases ys) force+
qed simp

text \<open>A loop over a list whose body may fail.\<close>

fun fold_res :: "('a \<Rightarrow> 's \<Rightarrow> 's res) \<Rightarrow> 'a list \<Rightarrow> 's \<Rightarrow> 's res" where
  "fold_res f [] s = Inr s"
| "fold_res f (x # xs) s = and_then (f x s) (fold_res f xs)"

lemma fold_res_one [simp]: "and_then m (fold_res f []) = m"
  by (cases m) simp_all

lemma fold_res_append: "fold_res f (xs @ ys) s = and_then (fold_res f xs s) (fold_res f ys)"
proof (induction xs arbitrary: s)
  case (Cons x xs)
  then show ?case by (cases "f x s") auto
qed simp

lemma fold_res_map: "fold_res f (map g xs) = fold_res (\<lambda>x. f (g x)) xs"
proof
  show "fold_res f (map g xs) s = fold_res (\<lambda>x. f (g x)) xs s" for s
    by (induction xs arbitrary: s) (auto intro!: and_then_cong)
qed

lemma fold_res_simulates:
  assumes "R s t" and "list_all P xs"
    and "\<And>x s t. R s t \<Longrightarrow> P x \<Longrightarrow> \<exists>s'. f x s = Inr s' \<and> R s' (g x t)"
  shows "\<exists>s'. fold_res f xs s = Inr s' \<and> R s' (fold g xs t)"
  using assms(1,2)
proof (induction xs arbitrary: s t)
  case (Cons x xs)
  then obtain s' where "f x s = Inr s'" "R s' (g x t)" using assms(3) [of s t x] by auto
  with Cons show ?case by auto
qed simp

section \<open>Little-endian integers\<close>

fun le_bytes :: "nat \<Rightarrow> nat \<Rightarrow> bytes" where
  "le_bytes 0 x = []"
| "le_bytes (Suc k) x = word_of_nat (x mod 256) # le_bytes k (x div 256)"

fun le_nat :: "bytes \<Rightarrow> nat" where
  "le_nat [] = 0"
| "le_nat (b # bs) = unat b + 256 * le_nat bs"

lemma length_le_bytes [simp]: "length (le_bytes k x) = k"
  by (induction k arbitrary: x) auto

lemma unat_u8_less [simp]: "unat (b :: u8) < 256"
  using unsigned_less [of b, where 'a = nat] by simp

lemma unat_byte_of_nat: "unat (word_of_nat (x mod 256) :: u8) = x mod 256"
  by (simp add: unat_of_nat)

lemma le_nat_le_bytes: "le_nat (le_bytes k x) = x mod 256 ^ k"
proof (induction k arbitrary: x)
  case (Suc k)
  have "le_nat (le_bytes (Suc k) x) = x mod 256 + 256 * (x div 256 mod 256 ^ k)"
    by (simp add: Suc.IH unat_byte_of_nat)
  also have "\<dots> = x mod 256 ^ Suc k"
    using mod_mult2_eq [of x 256 "256 ^ k"] by simp
  finally show ?case .
qed simp

lemma le_nat_bound: "le_nat bs < 256 ^ length bs"
proof (induction bs)
  case (Cons b bs)
  have "unat b + 256 * le_nat bs < 256 * Suc (le_nat bs)" by simp
  also have "\<dots> \<le> 256 * 256 ^ length bs"
    using Cons.IH by (intro mult_le_mono) auto
  finally show ?case by simp
qed simp

lemma le_bytes_le_nat [simp]: "le_bytes (length bs) (le_nat bs) = bs"
proof (induction bs)
  case (Cons b bs)
  have b: "unat b < 256" by simp
  then have "(unat b + 256 * le_nat bs) mod 256 = unat b" and
    "(unat b + 256 * le_nat bs) div 256 = le_nat bs" by simp_all
  with Cons.IH show ?case by simp
qed simp

section \<open>Byte strings\<close>

text \<open>
  A Rust \<open>String\<close> is a sequence of bytes, kept as a \<^typ>\<open>string\<close> whose characters are its UTF-8
  bytes; its \<open>len()\<close> is the number of bytes.
\<close>

definition byte_of_char :: "char \<Rightarrow> u8" where
  "byte_of_char c = word_of_nat (of_char c)"

definition char_of_byte :: "u8 \<Rightarrow> char" where
  "char_of_byte b = char_of (unat b)"

definition bytes_of_string :: "string \<Rightarrow> bytes" where
  "bytes_of_string s = map byte_of_char s"

definition string_of_bytes :: "bytes \<Rightarrow> string" where
  "string_of_bytes bs = map char_of_byte bs"

lemma char_of_byte_of_char [simp]: "char_of_byte (byte_of_char c) = c"
  by (simp add: char_of_byte_def byte_of_char_def unat_of_nat)

lemma byte_of_char_of_byte [simp]: "byte_of_char (char_of_byte b) = b"
proof -
  have "unat b mod 256 = unat b" by simp
  then show ?thesis by (simp add: char_of_byte_def byte_of_char_def)
qed

lemma string_of_bytes_of_string [simp]: "string_of_bytes (bytes_of_string s) = s"
  by (simp add: string_of_bytes_def bytes_of_string_def comp_def)

lemma bytes_of_string_of_bytes [simp]: "bytes_of_string (string_of_bytes bs) = bs"
  by (simp add: string_of_bytes_def bytes_of_string_def comp_def)

lemma length_bytes_of_string [simp]: "length (bytes_of_string s) = length s"
  by (simp add: bytes_of_string_def)

lemma length_string_of_bytes [simp]: "length (string_of_bytes bs) = length bs"
  by (simp add: string_of_bytes_def)

section \<open>Signed words\<close>

lemma sint_i64: "- (2 ^ 63) \<le> x \<Longrightarrow> x < 2 ^ 63 \<Longrightarrow> sint (word_of_int x :: i64) = x"
  by (simp add: sint_sbintrunc' signed_take_bit_int_eq_self)

section \<open>Windows of a buffer\<close>

definition window :: "nat \<Rightarrow> nat \<Rightarrow> 'a list \<Rightarrow> 'a list" where
  "window off n buf = take n (drop off buf)"

definition overwrite :: "nat \<Rightarrow> 'a list \<Rightarrow> 'a list \<Rightarrow> 'a list" where
  "overwrite off bs img = take off img @ bs @ drop (off + length bs) img"

lemma length_window: "off + n \<le> length buf \<Longrightarrow> length (window off n buf) = n"
  by (simp add: window_def)

lemma length_overwrite [simp]:
  "off + length bs \<le> length img \<Longrightarrow> length (overwrite off bs img) = length img"
  by (simp add: overwrite_def)

lemma window_overwrite_same:
  "off + length bs \<le> length img \<Longrightarrow> window off (length bs) (overwrite off bs img) = bs"
  by (simp add: window_def overwrite_def)

lemma nth_overwrite:
  assumes "off + length bs \<le> length img" and "k < length img"
  shows "overwrite off bs img ! k
    = (if off \<le> k \<and> k < off + length bs then bs ! (k - off) else img ! k)"
  using assms by (auto simp: overwrite_def nth_append)

lemma window_overwrite_disjoint:
  assumes "off + length bs \<le> length img" and "o2 + n \<le> length img"
    and "o2 + n \<le> off \<or> off + length bs \<le> o2"
  shows "window o2 n (overwrite off bs img) = window o2 n img"
  using assms by (intro nth_equalityI) (auto simp: window_def nth_overwrite)

lemma window_append_front:
  "off + n \<le> length xs \<Longrightarrow> window off n (xs @ ys) = window off n xs"
  by (simp add: window_def)

lemma window_append_shift:
  "window (length xs + off) n (xs @ ys) = window off n ys"
  by (simp add: window_def)

end
