(* ===== verification/Transit_Serialize.thy ===== *)
theory Transit_Serialize
  imports Prelude
begin

text \<open>
  The in-process serialization of the transit crate: raw reads and writes of integers
  (\<open>serialize.rs\<close>), the two string types with a dynamic size (\<open>dyn_string.rs\<close>,
  \<open>static_string.rs\<close>), the standard library's UTF-8 and UTF-16 decoders as far as the crate calls
  them, and \<open>parse_string.rs\<close>. A raw pointer into a buffer is an offset; reading past the end of
  the buffer is the fault \<open>UB\<close>. The memory of the instrumented process, from which static strings
  are read, is a partial map from addresses to bytes.
\<close>

section \<open>Raw reads and writes\<close>

definition read_bytes :: "nat \<Rightarrow> bytes \<Rightarrow> nat \<Rightarrow> bytes res" where
  "read_bytes n buf off = (if off + n \<le> length buf then Inr (window off n buf) else Inl UB)"

definition read_u8 :: "bytes \<Rightarrow> nat \<Rightarrow> u8 res" where
  "read_u8 buf off = and_then (read_bytes 1 buf off) (\<lambda>bs. Inr (word_of_nat (le_nat bs)))"

definition read_u32 :: "bytes \<Rightarrow> nat \<Rightarrow> u32 res" where
  "read_u32 buf off = and_then (read_bytes 4 buf off) (\<lambda>bs. Inr (word_of_nat (le_nat bs)))"

definition read_u64 :: "bytes \<Rightarrow> nat \<Rightarrow> u64 res" where
  "read_u64 buf off = and_then (read_bytes 8 buf off) (\<lambda>bs. Inr (word_of_nat (le_nat bs)))"

definition write_u8 :: "u8 \<Rightarrow> bytes" where
  "write_u8 w = le_bytes 1 (unat w)"

definition write_u32 :: "u32 \<Rightarrow> bytes" where
  "write_u32 w = le_bytes 4 (unat w)"

definition write_u64 :: "u64 \<Rightarrow> bytes" where
  "write_u64 w = le_bytes 8 (unat w)"

lemma length_write [simp, bytes_simps]:
  "length (write_u8 a) = 1" "length (write_u32 b) = 4" "length (write_u64 c) = 8"
  by (simp_all add: write_u8_def write_u32_def write_u64_def)

lemma word_of_le_nat_bytes:
  assumes "LENGTH('a) = 8 * k"
  shows "(word_of_nat (le_nat (le_bytes k (unat w))) :: 'a::len word) = w"
proof -
  have "unat w < 2 ^ (8 * k)" using unsigned_less [of w, where 'a = nat] assms by simp
  then have "unat w < 256 ^ k" by (simp add: power_mult)
  then show ?thesis by (simp add: le_nat_le_bytes)
qed

lemma word_of_le_nat_write [simp]:
  "word_of_nat (le_nat (write_u8 a)) = a"
  "word_of_nat (le_nat (write_u32 b)) = b"
  "word_of_nat (le_nat (write_u64 c)) = c"
  by (simp_all add: write_u8_def write_u32_def write_u64_def word_of_le_nat_bytes
      del: le_bytes.simps One_nat_def)

lemma read_bytes_Inr: "read_bytes n buf off = Inr bs \<longleftrightarrow> off + n \<le> length buf \<and> bs = window off n buf"
  by (auto simp: read_bytes_def)

lemma read_bytes_at [bytes_simps]:
  assumes "off = length pre" and "n = length bs"
  shows "read_bytes n (pre @ bs @ post) off = Inr bs"
  using assms by (simp add: read_bytes_def window_def)

lemma read_window:
  assumes "off + n \<le> length buf" and "window off n buf = bs"
  shows "read_bytes n buf off = Inr bs"
  using assms by (simp add: read_bytes_def)

lemma read_int_window:
  "off + 1 \<le> length buf \<Longrightarrow> window off 1 buf = write_u8 a \<Longrightarrow> read_u8 buf off = Inr a"
  "off + 4 \<le> length buf \<Longrightarrow> window off 4 buf = write_u32 b \<Longrightarrow> read_u32 buf off = Inr b"
  "off + 8 \<le> length buf \<Longrightarrow> window off 8 buf = write_u64 c \<Longrightarrow> read_u64 buf off = Inr c"
  by (simp_all add: read_u8_def read_u32_def read_u64_def read_bytes_def)

lemma read_int_at [bytes_simps]:
  "off = length pre \<Longrightarrow> read_u8 (pre @ write_u8 a @ post) off = Inr a"
  "off = length pre \<Longrightarrow> read_u32 (pre @ write_u32 b @ post) off = Inr b"
  "off = length pre \<Longrightarrow> read_u64 (pre @ write_u64 c @ post) off = Inr c"
  by (simp_all add: read_u8_def read_u32_def read_u64_def read_bytes_at)

section \<open>UTF-8 and UTF-16 in the standard library\<close>

text \<open>
  \<open>utf8_step\<close> looks at the first character of a non-empty buffer the way the standard library's
  decoder does: it returns how many bytes the character takes, or, for a malformed one, how many
  bytes belong to the maximal malformed prefix. Reads past the end see the byte 0.
\<close>

definition byte_at :: "bytes \<Rightarrow> nat \<Rightarrow> u8" where
  "byte_at bs i = (if i < length bs then bs ! i else 0)"

definition is_cont :: "u8 \<Rightarrow> bool" where
  "is_cont b = (128 \<le> b \<and> b < 192)"

definition utf8_second_ok :: "u8 \<Rightarrow> u8 \<Rightarrow> bool" where
  "utf8_second_ok b c =
     (if b = 0xE0 then 0xA0 \<le> c \<and> c \<le> 0xBF
      else if b = 0xED then 0x80 \<le> c \<and> c \<le> 0x9F
      else if b = 0xF0 then 0x90 \<le> c \<and> c \<le> 0xBF
      else if b = 0xF4 then 0x80 \<le> c \<and> c \<le> 0x8F
      else is_cont c)"

definition utf8_width :: "u8 \<Rightarrow> nat" where
  "utf8_width b =
     (if b < 0x80 then 1
      else if 0xC2 \<le> b \<and> b \<le> 0xDF then 2
      else if 0xE0 \<le> b \<and> b \<le> 0xEF then 3
      else if 0xF0 \<le> b \<and> b \<le> 0xF4 then 4
      else 0)"

definition utf8_step :: "bytes \<Rightarrow> nat \<times> bool" where
  "utf8_step bs = (let b = byte_at bs 0; w = utf8_width b in
     if w = 1 then (1, True)
     else if w = 0 then (1, False)
     else if \<not> utf8_second_ok b (byte_at bs 1) then (1, False)
     else if w = 2 then (2, True)
     else if \<not> is_cont (byte_at bs 2) then (2, False)
     else if w = 3 then (3, True)
     else if \<not> is_cont (byte_at bs 3) then (3, False)
     else (4, True))"

function is_utf8 :: "bytes \<Rightarrow> bool" where
  "is_utf8 [] = True"
| "is_utf8 (b # bs) =
     (snd (utf8_step (b # bs)) \<and> is_utf8 (drop (fst (utf8_step (b # bs)) - 1) bs))"
  by pat_completeness auto
termination
  by (relation "measure length") auto

definition from_utf8 :: "bytes \<Rightarrow> string option" where
  "from_utf8 bs = (if is_utf8 bs then Some (string_of_bytes bs) else None)"

definition replacement :: bytes where
  "replacement = [0xEF, 0xBF, 0xBD]"

function utf8_lossy :: "bytes \<Rightarrow> bytes" where
  "utf8_lossy [] = []"
| "utf8_lossy (b # bs) = (let (n, ok) = utf8_step (b # bs) in
     (if ok then take n (b # bs) else replacement) @ utf8_lossy (drop (n - 1) bs))"
  by pat_completeness auto
termination
  by (relation "measure length") auto

definition from_utf8_lossy :: "bytes \<Rightarrow> string" where
  "from_utf8_lossy bs = string_of_bytes (utf8_lossy bs)"

definition utf8_encode :: "nat \<Rightarrow> bytes" where
  "utf8_encode cp = map word_of_nat
     (if cp < 0x80 then [cp]
      else if cp < 0x800 then [0xC0 + cp div 64, 0x80 + cp mod 64]
      else if cp < 0x10000 then [0xE0 + cp div 4096, 0x80 + cp div 64 mod 64, 0x80 + cp mod 64]
      else [0xF0 + cp div 262144, 0x80 + cp div 4096 mod 64, 0x80 + cp div 64 mod 64, 0x80 + cp mod 64])"

fun decode_utf16_lossy :: "nat list \<Rightarrow> nat list" where
  "decode_utf16_lossy [] = []"
| "decode_utf16_lossy [u] = (if 0xD800 \<le> u \<and> u \<le> 0xDFFF then [0xFFFD] else [u])"
| "decode_utf16_lossy (u # v # us) =
     (if u < 0xD800 \<or> 0xDFFF < u then u # decode_utf16_lossy (v # us)
      else if 0xDC00 \<le> u \<or> v < 0xDC00 \<or> 0xDFFF < v then 0xFFFD # decode_utf16_lossy (v # us)
      else (0x10000 + (u - 0xD800) * 0x400 + (v - 0xDC00)) # decode_utf16_lossy us)"

definition from_utf16_lossy :: "nat list \<Rightarrow> string" where
  "from_utf16_lossy us = string_of_bytes (concat (map utf8_encode (decode_utf16_lossy us)))"

fun u16s_of_bytes :: "bytes \<Rightarrow> nat list" where
  "u16s_of_bytes (a # b # bs) = le_nat [a, b] # u16s_of_bytes bs"
| "u16s_of_bytes _ = []"

lemma utf8_step_pos: "0 < fst (utf8_step bs)"
  by (simp add: utf8_step_def Let_def)

lemma utf8_step_ok_bound:
  assumes "snd (utf8_step (b # bs))"
  shows "fst (utf8_step (b # bs)) \<le> length (b # bs)"
proof -
  have c: "\<not> is_cont 0" and s: "\<not> utf8_second_ok x 0" for x
    by (simp_all add: is_cont_def utf8_second_ok_def)
  show ?thesis
    using assms
    by (cases bs; cases "tl bs"; cases "tl (tl bs)")
      (auto simp: utf8_step_def Let_def byte_at_def c s split: if_splits)
qed

lemma is_utf8_ascii: "list_all (\<lambda>b. b < 0x80) bs \<Longrightarrow> is_utf8 bs"
  by (induction bs) (auto simp: utf8_step_def Let_def byte_at_def utf8_width_def)

lemma utf8_lossy_valid: "is_utf8 bs \<Longrightarrow> utf8_lossy bs = bs"
proof (induction bs rule: utf8_lossy.induct)
  case (2 b bs)
  obtain n ok where st: "utf8_step (b # bs) = (n, ok)" by fastforce
  with "2.prems" have ok and rest: "is_utf8 (drop (n - 1) bs)" by auto
  have "utf8_lossy (drop (n - 1) bs) = drop (n - 1) bs"
    by (rule "2.IH"(1) [OF st [symmetric] refl rest])
  moreover have "0 < n" using utf8_step_pos [of "b # bs"] st by simp
  ultimately show ?case
    using st \<open>ok\<close> by (cases n) simp_all
qed simp

lemma from_utf8_lossy_valid: "is_utf8 bs \<Longrightarrow> from_utf8_lossy bs = string_of_bytes bs"
  by (simp add: from_utf8_lossy_def utf8_lossy_valid)

section \<open>Sizes known at compile time or written per instance\<close>

datatype InProcSize = Const nat | Dynamic

section \<open>Strings with a dynamic size\<close>

definition DynString_get_value_size :: "string \<Rightarrow> u32 option" where
  "DynString_get_value_size s = Some (word_of_nat (length s))"

definition DynString_write_value :: "string \<Rightarrow> bytes" where
  "DynString_write_value s = bytes_of_string s"

definition DynString_read_value :: "bytes \<Rightarrow> nat \<Rightarrow> u32 option \<Rightarrow> string res" where
  "DynString_read_value buf ptr value_size =
     and_then (unwrap value_size) (\<lambda>buffer_size.
     and_then (read_bytes (unat buffer_size) buf ptr) (\<lambda>slice.
     unwrap (from_utf8 slice)))"

record StaticString =
  ss_len :: u32
  ss_ptr :: u64

text \<open>A \<open>&'static str\<close> is a pointer and a length; the bytes are those of the process memory.\<close>

record static_str =
  str_ptr :: u64
  str_len :: nat

definition StaticString_from_str :: "static_str \<Rightarrow> StaticString" where
  "StaticString_from_str src = \<lparr>ss_len = word_of_nat (str_len src), ss_ptr = str_ptr src\<rparr>"

type_synonym memory = "u64 \<Rightarrow> u8 option"

fun mem_slice :: "memory \<Rightarrow> u64 \<Rightarrow> nat \<Rightarrow> bytes res" where
  "mem_slice mem p 0 = Inr []"
| "mem_slice mem p (Suc n) = (case mem p of
       None \<Rightarrow> Inl UB
     | Some b \<Rightarrow> and_then (mem_slice mem (p + 1) n) (\<lambda>bs. Inr (b # bs)))"

definition StaticString_get_value_size :: "StaticString \<Rightarrow> u32 option" where
  "StaticString_get_value_size s = Some (ss_len s + 8)"

definition StaticString_write_value :: "memory \<Rightarrow> StaticString \<Rightarrow> bytes res" where
  "StaticString_write_value mem s =
     and_then (mem_slice mem (ss_ptr s) (unat (ss_len s))) (\<lambda>slice.
     Inr (write_u64 (ss_ptr s) @ slice))"

definition StaticString_read_value :: "bytes \<Rightarrow> nat \<Rightarrow> u32 option \<Rightarrow> StaticString res" where
  "StaticString_read_value buf ptr value_size_opt =
     and_then (unwrap value_size_opt) (\<lambda>value_size.
     if \<not> 8 \<le> value_size then Inl (Panic ''assertion failed: id_size <= value_size'')
     else and_then (read_u64 buf ptr) (\<lambda>static_buffer_ptr.
       Inr \<lparr>ss_len = value_size - 8, ss_ptr = static_buffer_ptr\<rparr>))"

lemma mem_slice_length: "mem_slice mem p n = Inr bs \<Longrightarrow> length bs = n"
  by (induction n arbitrary: p bs) (auto simp: and_then_eq_Inr split: option.splits)

lemma DynString_roundtrip:
  assumes "off = length pre" and "length s < 2 ^ 32" and "is_utf8 (bytes_of_string s)"
  shows "DynString_read_value (pre @ DynString_write_value s @ post) off (DynString_get_value_size s) = Inr s"
proof -
  have "unat (word_of_nat (length s) :: u32) = length s"
    using assms(2) by (simp add: unat_of_nat)
  then show ?thesis
    using assms
    by (simp add: DynString_read_value_def DynString_write_value_def DynString_get_value_size_def
        read_bytes_at from_utf8_def)
qed

section \<open>Strings written with a codec byte\<close>

definition parse_string :: "bytes \<Rightarrow> nat \<Rightarrow> (string \<times> nat) res" where
  "parse_string buffer cursor =
     (if length buffer \<le> cursor then Inl (Panic ''index out of bounds'')
      else let codec_id = buffer ! cursor; cursor = cursor + 1 in
        and_then (read_u32 buffer cursor) (\<lambda>len32.
        let string_len_bytes = unat len32; cursor = cursor + 4 in
        if length buffer < cursor + string_len_bytes then Inl (Panic ''range end index out of range'')
        else let string_buffer = window cursor string_len_bytes buffer;
                 cursor' = cursor + string_len_bytes in
          if codec_id = 0 then Inr (from_utf8_lossy string_buffer, cursor')
          else if codec_id = 1 then
            (if string_len_bytes mod 2 \<noteq> 0 then Inl (Err ''wrong utf-16 buffer size'')
             else Inr (from_utf16_lossy (u16s_of_bytes string_buffer), cursor'))
          else if codec_id = 2 then Inr (from_utf8_lossy string_buffer, cursor')
          else Inl (Err ''invalid codec in string'')))"

lemma parse_string_cursor:
  assumes "parse_string buffer cursor = Inr (s, cursor')"
  shows "cursor + 5 \<le> cursor' \<and> cursor' \<le> length buffer"
  using assms
  by (auto simp: parse_string_def Let_def and_then_eq_Inr split: if_splits)

text \<open>
  C18. A string written with the codec of UTF-8 or of ASCII is read back, and the cursor moves just behind it.
\<close>

theorem parse_string_utf8:
  assumes "is_utf8 (bytes_of_string s)" and "length s < 2 ^ 32" and "codec = 0 \<or> codec = 2"
  shows "parse_string (pre @ codec # write_u32 (word_of_nat (length s)) @ bytes_of_string s @ post) (length pre)
    = Inr (s, length pre + 5 + length s)"
proof -
  let ?buf = "\<lambda>cd. pre @ cd # write_u32 (word_of_nat (length s)) @ bytes_of_string s @ post"
  have len: "unat (word_of_nat (length s) :: u32) = length s"
    using assms(2) by (simp add: unat_of_nat)
  have r: "read_u32 (?buf cd) (Suc (length pre)) = Inr (word_of_nat (length s))" for cd
    using read_int_at(2) [of "Suc (length pre)" "pre @ [cd]" "word_of_nat (length s)"
        "bytes_of_string s @ post"] by simp
  have w: "window (length pre + 5) (length s) (?buf cd) = bytes_of_string s" for cd
    by (simp add: window_def)
  show ?thesis
    using assms(3)
    by (auto simp: parse_string_def Let_def r w len from_utf8_lossy_valid [OF assms(1)]
        algebra_simps)
qed

end
