(* ===== verification/Transit_Queue.thy ===== *)
theory Transit_Queue
  imports Transit_Serialize
begin

text \<open>
  The heterogeneous queue of the transit crate (\<open>heterogeneous_queue.rs\<close> and the code that the
  macro of \<open>derive/src/declare_queue.rs\<close> generates). A queue stores objects of several types in
  one byte buffer: a type index, the size of the object when its type has no constant size, then
  the bytes of the object. What the queue needs of a type is the trait \<open>InProcSerialize\<close>, here a
  record of its operations; the contract of the trait is the locale \<open>in_proc_serialize\<close>, and the
  queue's own lemmas are proved once, in the locale \<open>hetero_queue\<close>, for any list of types that
  keep the contract. The queues of the tracing crate are interpretations of it.
\<close>

section \<open>The trait InProcSerialize\<close>

record 'v InProcSerialize =
  IN_PROC_SIZE :: InProcSize
  get_value_size :: "'v \<Rightarrow> u32 option"
  write_value :: "'v \<Rightarrow> bytes res"
  read_value :: "bytes \<Rightarrow> nat \<Rightarrow> u32 option \<Rightarrow> 'v res"

text \<open>The trait's default methods: a plain old data type is written and read as its image.\<close>

definition default_get_value_size :: "'v \<Rightarrow> u32 option" where
  "default_get_value_size v = None"

definition default_write_value :: "InProcSize \<Rightarrow> ('v \<Rightarrow> bytes) \<Rightarrow> 'v \<Rightarrow> bytes res" where
  "default_write_value in_proc_size write_any v = (case in_proc_size of
     Const _ \<Rightarrow> Inr (write_any v)
   | Dynamic \<Rightarrow> Inl (Panic ''assertion failed: matches!(Self::IN_PROC_SIZE, InProcSize::Const(_))''))"

definition default_read_value ::
  "(bytes \<Rightarrow> nat \<Rightarrow> 'v res) \<Rightarrow> bytes \<Rightarrow> nat \<Rightarrow> u32 option \<Rightarrow> 'v res" where
  "default_read_value read_any buf ptr value_size = read_any buf ptr"

definition pod_serialize :: "nat \<Rightarrow> ('v \<Rightarrow> bytes) \<Rightarrow> (bytes \<Rightarrow> nat \<Rightarrow> 'v res) \<Rightarrow> 'v InProcSerialize" where
  "pod_serialize size_of write_any read_any =
     \<lparr>IN_PROC_SIZE = Const size_of,
      get_value_size = default_get_value_size,
      write_value = default_write_value (Const size_of) write_any,
      read_value = default_read_value read_any\<rparr>"

text \<open>The variant of the generated \<open>Any\<close> enumeration that holds a value of one of the types.\<close>

definition variant :: "('v \<Rightarrow> 'a) \<Rightarrow> ('a \<Rightarrow> 'v) \<Rightarrow> 'v InProcSerialize \<Rightarrow> 'a InProcSerialize" where
  "variant con sel ser =
     \<lparr>IN_PROC_SIZE = IN_PROC_SIZE ser,
      get_value_size = (\<lambda>a. get_value_size ser (sel a)),
      write_value = (\<lambda>a. write_value ser (sel a)),
      read_value = (\<lambda>buf ptr sz. and_then (read_value ser buf ptr sz) (\<lambda>v. Inr (con v)))\<rparr>"

definition DynString_serialize :: "string InProcSerialize" where
  "DynString_serialize =
     \<lparr>IN_PROC_SIZE = Dynamic,
      get_value_size = DynString_get_value_size,
      write_value = (\<lambda>s. Inr (DynString_write_value s)),
      read_value = DynString_read_value\<rparr>"

definition StaticString_serialize :: "memory \<Rightarrow> StaticString InProcSerialize" where
  "StaticString_serialize mem =
     \<lparr>IN_PROC_SIZE = Dynamic,
      get_value_size = StaticString_get_value_size,
      write_value = StaticString_write_value mem,
      read_value = StaticString_read_value\<rparr>"

section \<open>The queue\<close>

text \<open>
  The capacity of a vector is the allocator's choice: \<open>with_capacity\<close> is what a fresh vector of a
  requested capacity gets, \<open>grown\<close> what an extension gets. The documentation of \<open>Vec\<close> promises
  that neither is below the request.
\<close>

record vec_alloc =
  with_capacity :: "nat \<Rightarrow> nat"
  grown :: "nat \<Rightarrow> nat \<Rightarrow> nat"

definition vec_alloc_ok :: "vec_alloc \<Rightarrow> bool" where
  "vec_alloc_ok al \<longleftrightarrow> (\<forall>n. n \<le> with_capacity al n) \<and> (\<forall>c n. n \<le> grown al c n)"

record hqueue =
  q_buffer :: bytes
  q_obj_counter :: nat
  q_capacity :: nat

definition queue_new :: "vec_alloc \<Rightarrow> nat \<Rightarrow> hqueue" where
  "queue_new al buffer_size =
     \<lparr>q_buffer = [], q_obj_counter = 0, q_capacity = with_capacity al buffer_size\<rparr>"

definition len_bytes :: "hqueue \<Rightarrow> nat" where
  "len_bytes q = length (q_buffer q)"

definition nb_objects :: "hqueue \<Rightarrow> nat" where
  "nb_objects q = q_obj_counter q"

definition capacity_bytes :: "hqueue \<Rightarrow> nat" where
  "capacity_bytes q = q_capacity q"

definition extend_from_slice :: "vec_alloc \<Rightarrow> bytes \<Rightarrow> hqueue \<Rightarrow> hqueue" where
  "extend_from_slice al bs q = (let n = length (q_buffer q) + length bs in
     q\<lparr>q_buffer := q_buffer q @ bs,
       q_capacity := (if n \<le> q_capacity q then q_capacity q else grown al (q_capacity q) n)\<rparr>)"

definition push :: "vec_alloc \<Rightarrow> 'a InProcSerialize list \<Rightarrow> ('a \<Rightarrow> nat) \<Rightarrow> 'a \<Rightarrow> hqueue \<Rightarrow> hqueue res" where
  "push al items type_index value q =
     (let ser = items ! type_index value;
          q1 = q\<lparr>q_obj_counter := q_obj_counter q + 1\<rparr>;
          q2 = extend_from_slice al [word_of_nat (type_index value)] q1;
          buffer_size_before = len_bytes q2 in
      case IN_PROC_SIZE ser of
        Const sz \<Rightarrow>
          and_then (write_value ser value) (\<lambda>bs.
          let q3 = extend_from_slice al bs q2 in
          if len_bytes q3 = buffer_size_before + sz then Inr q3
          else Inl (Panic ''assertion failed: wrong constant size''))
      | Dynamic \<Rightarrow>
          and_then (unwrap (get_value_size ser value)) (\<lambda>value_size.
          let q3 = extend_from_slice al (write_u32 value_size) q2 in
          and_then (write_value ser value) (\<lambda>bs.
          let q4 = extend_from_slice al bs q3 in
          if len_bytes q4 = buffer_size_before + 4 + unat value_size then Inr q4
          else Inl (Panic ''assertion failed: wrong value size''))))"

definition read_value_at_offset :: "'a InProcSerialize list \<Rightarrow> bytes \<Rightarrow> nat \<Rightarrow> ('a \<times> nat) res" where
  "read_value_at_offset items buffer offset =
     (if length buffer \<le> offset then Inl (Panic ''index out of bounds'')
      else let index = unat (buffer ! offset) in
        if length items \<le> index then Inl (Panic ''unknown type index'')
        else let ser = items ! index; begin_obj = offset + 1 in
          case IN_PROC_SIZE ser of
            Const sz \<Rightarrow>
              and_then (read_value ser buffer begin_obj None) (\<lambda>obj.
              Inr (obj, offset + 1 + sz))
          | Dynamic \<Rightarrow>
              and_then (read_u32 buffer begin_obj) (\<lambda>size_instance.
              and_then (read_value ser buffer (begin_obj + 4) (Some size_instance)) (\<lambda>obj.
              Inr (obj, offset + 1 + 4 + unat size_instance))))"

text \<open>The iterator: one call of \<open>next\<close>, and the list of the values that a loop over it sees.\<close>

definition iter_next :: "'a InProcSerialize list \<Rightarrow> bytes \<Rightarrow> nat \<Rightarrow> (('a \<times> nat) option) res" where
  "iter_next items buffer offset =
     (if length buffer \<le> offset then Inr None
      else and_then (read_value_at_offset items buffer offset) (\<lambda>r. Inr (Some r)))"

lemma read_value_at_offset_advances:
  "read_value_at_offset items buffer offset = Inr (v, next_offset) \<Longrightarrow> offset < next_offset"
  by (auto simp: read_value_at_offset_def Let_def and_then_eq_Inr
      split: if_splits InProcSize.splits)

lemma iter_next_advances:
  "iter_next items buffer offset = Inr (Some (v, next_offset)) \<Longrightarrow>
     offset < next_offset \<and> offset < length buffer"
  by (auto simp: iter_next_def and_then_eq_Inr read_value_at_offset_advances split: if_splits)

function iter_from :: "'a InProcSerialize list \<Rightarrow> bytes \<Rightarrow> nat \<Rightarrow> 'a list res" where
  "iter_from items buffer offset =
     and_then (iter_next items buffer offset) (\<lambda>r. case r of
       None \<Rightarrow> Inr []
     | Some (v, next_offset) \<Rightarrow>
         and_then (iter_from items buffer next_offset) (\<lambda>vs. Inr (v # vs)))"
  by pat_completeness auto
termination
  by (relation "measure (\<lambda>(items, buffer, offset). length buffer - offset)")
    (auto dest: iter_next_advances)

declare iter_from.simps [simp del]

definition queue_iter :: "'a InProcSerialize list \<Rightarrow> hqueue \<Rightarrow> 'a list res" where
  "queue_iter items q = iter_from items (q_buffer q) 0"

fun push_all :: "vec_alloc \<Rightarrow> 'a InProcSerialize list \<Rightarrow> ('a \<Rightarrow> nat) \<Rightarrow> 'a list \<Rightarrow> hqueue \<Rightarrow> hqueue res" where
  "push_all al items type_index [] q = Inr q"
| "push_all al items type_index (v # vs) q =
     and_then (push al items type_index v q) (push_all al items type_index vs)"

lemma extend_simps [simp]:
  "q_buffer (extend_from_slice al bs q) = q_buffer q @ bs"
  "q_obj_counter (extend_from_slice al bs q) = q_obj_counter q"
  "len_bytes (extend_from_slice al bs q) = len_bytes q + length bs"
  by (simp_all add: extend_from_slice_def Let_def len_bytes_def)

lemma queue_new_simps [simp]:
  "q_buffer (queue_new al n) = []" "q_obj_counter (queue_new al n) = 0"
  "len_bytes (queue_new al n) = 0" "nb_objects (queue_new al n) = 0"
  "capacity_bytes (queue_new al n) = with_capacity al n"
  by (simp_all add: queue_new_def len_bytes_def nb_objects_def capacity_bytes_def)

section \<open>The contract of a serializable type\<close>

definition value_size_arg :: "'v InProcSerialize \<Rightarrow> 'v \<Rightarrow> u32 option" where
  "value_size_arg ser v = (case IN_PROC_SIZE ser of Const _ \<Rightarrow> None | Dynamic \<Rightarrow> get_value_size ser v)"

definition size_agrees :: "'v InProcSerialize \<Rightarrow> 'v \<Rightarrow> bytes \<Rightarrow> bool" where
  "size_agrees ser v bs \<longleftrightarrow> (case IN_PROC_SIZE ser of
     Const sz \<Rightarrow> length bs = sz
   | Dynamic \<Rightarrow> (\<exists>k. get_value_size ser v = Some k \<and> unat k = length bs))"

locale in_proc_serialize =
  fixes ser :: "'v InProcSerialize" and valid :: "'v \<Rightarrow> bool"
  assumes writes: "valid v \<Longrightarrow> \<exists>bs. write_value ser v = Inr bs"
    and sized: "valid v \<Longrightarrow> write_value ser v = Inr bs \<Longrightarrow> size_agrees ser v bs"
    and reads_back: "valid v \<Longrightarrow> write_value ser v = Inr bs \<Longrightarrow>
      read_value ser (pre @ bs @ post) (length pre) (value_size_arg ser v) = Inr v"

lemma variant_simps [simp]:
  "IN_PROC_SIZE (variant con sel ser) = IN_PROC_SIZE ser"
  "get_value_size (variant con sel ser) a = get_value_size ser (sel a)"
  "write_value (variant con sel ser) a = write_value ser (sel a)"
  "read_value (variant con sel ser) buf ptr sz
     = and_then (read_value ser buf ptr sz) (\<lambda>v. Inr (con v))"
  by (simp_all add: variant_def)

text \<open>A variant keeps the contract on the values of its constructor.\<close>

lemma variant_serialize:
  assumes "in_proc_serialize ser valid"
    and "\<And>a. valid' a \<Longrightarrow> \<exists>v. valid v \<and> a = con v" and "\<And>v. sel (con v) = v"
  shows "in_proc_serialize (variant con sel ser) valid'"
proof
  fix a bs pre post
  assume "valid' a"
  with assms(2) obtain v where v: "valid v" "a = con v" by blast
  show "\<exists>bs. write_value (variant con sel ser) a = Inr bs"
    using in_proc_serialize.writes [OF assms(1) v(1)] by (simp add: v assms(3))
  assume w: "write_value (variant con sel ser) a = Inr bs"
  then have w': "write_value ser v = Inr bs" by (simp add: v assms(3))
  show "size_agrees (variant con sel ser) a bs"
    using in_proc_serialize.sized [OF assms(1) v(1) w']
    by (simp add: size_agrees_def v assms(3) split: InProcSize.splits)
  show "read_value (variant con sel ser) (pre @ bs @ post) (length pre)
      (value_size_arg (variant con sel ser) a) = Inr a"
    using in_proc_serialize.reads_back [OF assms(1) v(1) w', of pre post]
    by (simp add: value_size_arg_def v assms(3) split: InProcSize.splits)
qed

definition DynString_valid :: "string \<Rightarrow> bool" where
  "DynString_valid s \<longleftrightarrow> length s < 2 ^ 32 \<and> is_utf8 (bytes_of_string s)"

definition StaticString_valid :: "memory \<Rightarrow> StaticString \<Rightarrow> bool" where
  "StaticString_valid mem s \<longleftrightarrow>
     unat (ss_len s) + 8 < 2 ^ 32 \<and> (\<exists>bs. mem_slice mem (ss_ptr s) (unat (ss_len s)) = Inr bs)"

lemma unat_u32_add:
  "unat (x :: u32) + k < 2 ^ 32 \<Longrightarrow> unat (x + word_of_nat k) = unat x + k"
proof -
  assume "unat (x :: u32) + k < 2 ^ 32"
  then show "unat (x + word_of_nat k) = unat x + k"
    by (simp add: unat_word_ariths unat_of_nat)
qed

interpretation dyn_string: in_proc_serialize DynString_serialize DynString_valid
  by unfold_locales
    (auto simp: DynString_serialize_def size_agrees_def value_size_arg_def DynString_valid_def
      DynString_get_value_size_def DynString_write_value_def DynString_read_value_def
      unat_of_nat read_bytes_at from_utf8_def)

interpretation static_string: in_proc_serialize "StaticString_serialize mem" "StaticString_valid mem" for mem
proof
  fix v bs pre post
  assume valid: "StaticString_valid mem v"
  then show "\<exists>bs. write_value (StaticString_serialize mem) v = Inr bs"
    by (auto simp: StaticString_valid_def StaticString_serialize_def StaticString_write_value_def)
  have n: "unat (ss_len v + 8) = unat (ss_len v) + 8"
    using unat_u32_add [of "ss_len v" 8] valid by (simp add: StaticString_valid_def)
  assume "write_value (StaticString_serialize mem) v = Inr bs"
  then obtain sl where sl: "mem_slice mem (ss_ptr v) (unat (ss_len v)) = Inr sl"
    and bs: "bs = write_u64 (ss_ptr v) @ sl"
    by (auto simp: StaticString_serialize_def StaticString_write_value_def and_then_eq_Inr)
  show "size_agrees (StaticString_serialize mem) v bs"
    by (simp add: size_agrees_def StaticString_serialize_def StaticString_get_value_size_def n bs
        mem_slice_length [OF sl])
  have "8 \<le> ss_len v + 8" using n by (simp add: word_le_nat_alt)
  then show "read_value (StaticString_serialize mem) (pre @ bs @ post) (length pre)
      (value_size_arg (StaticString_serialize mem) v) = Inr v"
    by (simp add: value_size_arg_def StaticString_serialize_def StaticString_get_value_size_def
        StaticString_read_value_def bs read_int_at(3))
qed

section \<open>The queue as a list of values\<close>

locale hetero_queue =
  fixes items :: "'a InProcSerialize list" and type_index :: "'a \<Rightarrow> nat" and valid :: "'a \<Rightarrow> bool"
  assumes few_types: "length items \<le> 256"
    and index_ok: "valid v \<Longrightarrow> type_index v < length items"
    and item_ok: "i < length items \<Longrightarrow>
      in_proc_serialize (items ! i) (\<lambda>v. valid v \<and> type_index v = i)"
begin

definition body :: "'a \<Rightarrow> bytes" where
  "body v = (case write_value (items ! type_index v) v of Inl _ \<Rightarrow> [] | Inr bs \<Rightarrow> bs)"

definition encode :: "'a \<Rightarrow> bytes" where
  "encode v = word_of_nat (type_index v) #
     (case IN_PROC_SIZE (items ! type_index v) of
        Const _ \<Rightarrow> []
      | Dynamic \<Rightarrow> write_u32 (the (get_value_size (items ! type_index v) v))) @ body v"

definition represents :: "hqueue \<Rightarrow> 'a list \<Rightarrow> bool" where
  "represents q vs \<longleftrightarrow> list_all valid vs \<and> q_buffer q = concat (map encode vs)
     \<and> q_obj_counter q = length vs"

lemma write_body: "valid v \<Longrightarrow> write_value (items ! type_index v) v = Inr (body v)"
  using in_proc_serialize.writes [OF item_ok [OF index_ok], of v v] by (auto simp: body_def)

lemma sized_body: "valid v \<Longrightarrow> size_agrees (items ! type_index v) v (body v)"
  using in_proc_serialize.sized [OF item_ok [OF index_ok], of v v] write_body by simp

lemma read_body:
  "valid v \<Longrightarrow> off = length pre \<Longrightarrow> read_value (items ! type_index v) (pre @ body v @ post) off
     (value_size_arg (items ! type_index v) v) = Inr v"
  using in_proc_serialize.reads_back [OF item_ok [OF index_ok], of v v] write_body by simp

lemma index_byte: "valid v \<Longrightarrow> unat (word_of_nat (type_index v) :: u8) = type_index v"
  using index_ok [of v] few_types by (simp add: unat_of_nat)

lemma read_encoded:
  assumes "valid v" and "off = length pre"
  shows "read_value_at_offset items (pre @ encode v @ post) off = Inr (v, off + length (encode v))"
proof (cases "IN_PROC_SIZE (items ! type_index v)")
  case (Const n)
  have "read_value (items ! type_index v) ((pre @ [word_of_nat (type_index v)]) @ body v @ post)
      (Suc off) None = Inr v"
    using read_body [OF assms(1), of "Suc off" "pre @ [word_of_nat (type_index v)]" post] assms(2)
    by (simp add: value_size_arg_def Const)
  then show ?thesis
    using assms index_ok [OF assms(1)] sized_body [OF assms(1)]
    by (simp add: read_value_at_offset_def Let_def encode_def index_byte Const size_agrees_def)
next
  case Dynamic
  then obtain k where k: "get_value_size (items ! type_index v) v = Some k" "unat k = length (body v)"
    using sized_body [OF assms(1)] by (auto simp: size_agrees_def)
  let ?p = "pre @ [word_of_nat (type_index v)]"
  have r: "read_u32 (?p @ write_u32 k @ body v @ post) (Suc off) = Inr k"
    by (rule read_int_at) (simp add: assms(2))
  have "read_value (items ! type_index v) ((?p @ write_u32 k) @ body v @ post) (5 + off) (Some k) = Inr v"
    using read_body [OF assms(1), of "5 + off" "?p @ write_u32 k" post] assms(2)
    by (simp add: value_size_arg_def Dynamic k)
  with r show ?thesis
    using assms index_ok [OF assms(1)]
    by (simp add: read_value_at_offset_def Let_def encode_def index_byte Dynamic k)
qed

lemma push_encoded:
  assumes "valid v"
  shows "\<exists>q'. push al items type_index v q = Inr q' \<and> q_buffer q' = q_buffer q @ encode v
    \<and> q_obj_counter q' = q_obj_counter q + 1"
proof (cases "IN_PROC_SIZE (items ! type_index v)")
  case (Const n)
  then show ?thesis
    using sized_body [OF assms] write_body [OF assms]
    by (simp add: push_def Let_def encode_def size_agrees_def)
next
  case Dynamic
  then obtain k where "get_value_size (items ! type_index v) v = Some k" "unat k = length (body v)"
    using sized_body [OF assms] by (auto simp: size_agrees_def)
  then show ?thesis
    using Dynamic write_body [OF assms] by (simp add: push_def Let_def encode_def)
qed

lemma iter_from_encoded:
  assumes "list_all valid vs" and "off = length pre"
  shows "iter_from items (pre @ concat (map encode vs)) off = Inr vs"
  using assms
proof (induction vs arbitrary: pre off)
  case Nil
  then show ?case by (subst iter_from.simps) (simp add: iter_next_def)
next
  case (Cons v vs)
  have "off < length (pre @ concat (map encode (v # vs)))"
    using Cons.prems by (simp add: encode_def)
  then have "iter_next items (pre @ concat (map encode (v # vs))) off
      = Inr (Some (v, off + length (encode v)))"
    using read_encoded [of v off pre "concat (map encode vs)"] Cons.prems by (simp add: iter_next_def)
  then show ?case
    using Cons.IH [of "off + length (encode v)" "pre @ encode v"] Cons.prems
    by (subst iter_from.simps) simp
qed

lemma represents_new: "represents (queue_new al n) []"
  by (simp add: represents_def)

lemma represents_push:
  "represents q vs \<Longrightarrow> valid v \<Longrightarrow>
     \<exists>q'. push al items type_index v q = Inr q' \<and> represents q' (vs @ [v]) \<and> len_bytes q < len_bytes q'"
  using push_encoded [of v al q]
  by (force simp: represents_def len_bytes_def encode_def)

lemma represents_iter: "represents q vs \<Longrightarrow> queue_iter items q = Inr vs"
  using iter_from_encoded [of vs 0 "[]"] by (simp add: represents_def queue_iter_def)

lemma represents_push_all:
  "represents q us \<Longrightarrow> list_all valid vs \<Longrightarrow>
     \<exists>q'. push_all al items type_index vs q = Inr q' \<and> represents q' (us @ vs)"
proof (induction vs arbitrary: q us)
  case (Cons v vs)
  then obtain q1 where q1: "push al items type_index v q = Inr q1" "represents q1 (us @ [v])"
    using represents_push [of q us v al] by auto
  then show ?case using Cons.IH [of q1 "us @ [v]"] Cons.prems by auto
qed simp

lemma queue_roundtrip:
  assumes "list_all valid vs"
  shows "\<exists>q. push_all al items type_index vs (queue_new al n) = Inr q
    \<and> queue_iter items q = Inr vs \<and> nb_objects q = length vs"
proof -
  obtain q where q: "push_all al items type_index vs (queue_new al n) = Inr q" "represents q vs"
    using represents_push_all [of "queue_new al n" "[]" vs al, OF represents_new assms] by auto
  then show ?thesis
    using represents_iter [OF q(2)] by (simp add: represents_def nb_objects_def)
qed

lemma represents_unique: "represents q vs \<Longrightarrow> represents q ws \<Longrightarrow> vs = ws"
  using represents_iter [of q vs] represents_iter [of q ws] by simp

end

text \<open>The contract of a queue, one type at a time.\<close>

lemma hetero_queueI:
  assumes "length items \<le> 256" and "\<And>v. valid v \<Longrightarrow> type_index v < length items"
    and "list_all (\<lambda>(i, ser). in_proc_serialize ser (\<lambda>v. valid v \<and> type_index v = i)) (enumerate 0 items)"
  shows "hetero_queue items type_index valid"
proof (rule hetero_queue.intro)
  fix i
  assume "i < length items"
  then have "(i, items ! i) \<in> set (enumerate 0 items)"
    by (auto simp: in_set_enumerate_eq)
  then show "in_proc_serialize (items ! i) (\<lambda>v. valid v \<and> type_index v = i)"
    using assms(3) by (auto simp: list_all_iff)
qed (use assms in auto)

end
