(* ===== verification/Transit_Reflect.thy ===== *)
theory Transit_Reflect
  imports Transit_Queue
begin

text \<open>
  Reflection of plain old data: \<open>reflect.rs\<close>, the derive macro \<open>derive/src/derive_reflect.rs\<close> over
  the part of a parsed declaration that it looks at, and the memory image of a structure, which
  \<open>write_any\<close> and \<open>read_any\<close> copy. The compiler chooses the size of a structure, the offsets of its
  fields and the content of its padding; that choice is the parameter \<open>abi\<close>, and \<open>layout_ok\<close> says
  that the fields lie inside of the structure without overlap.
\<close>

section \<open>User-defined types\<close>

record Member =
  mem_name :: string
  mem_type_name :: string
  mem_offset :: nat
  mem_size :: nat
  mem_is_reference :: bool

datatype UserDefinedType = UserDefinedType
  (udt_name: string) (udt_size: nat) (udt_members: "Member list") (udt_is_reference: bool)
  (udt_secondary_udts: "UserDefinedType list")

section \<open>Declarations and layouts\<close>

text \<open>
  A type of a field, with its tokens printed as a string (without lifetimes; the printed name of a
  reference is not used by any reader).
\<close>

datatype syn_type = Path string | Reference string | Ptr string | BareFn string | Unsupported string

datatype syn_fields = Named "(string \<times> syn_type) list" | Unnamed | UnitFields

datatype syn_data = Struct syn_fields | Enum | Union

record struct_decl =
  sd_name :: string
  sd_fields :: "(string \<times> syn_type) list"

record abi =
  abi_size :: "string \<Rightarrow> nat"
  abi_offset :: "string \<Rightarrow> string \<Rightarrow> nat"
  abi_pad :: "string \<Rightarrow> nat \<Rightarrow> u8"

text \<open>
  References and pointers to a string, a slice or a trait object are fat: an address with a length or with
  a table of methods. All others are one machine word. (A named type stands for a sized one.)
\<close>

definition strip_tokens :: "string \<Rightarrow> string \<Rightarrow> string" where
  "strip_tokens pre t = (if take (length pre) t = pre then drop (length pre) t else t)"

definition pointee :: "string \<Rightarrow> string" where
  "pointee t = strip_tokens ''mut '' (strip_tokens ''const '' (strip_tokens ''* '' (strip_tokens ''& '' t)))"

definition is_array_type :: "string \<Rightarrow> bool" where
  "is_array_type t \<longleftrightarrow> CHR '';'' \<in> set t \<and> count_list (takeWhile (\<lambda>c. c \<noteq> CHR '';'') (rev t)) (CHR '']'') = 1"

definition is_unsized :: "string \<Rightarrow> bool" where
  "is_unsized t \<longleftrightarrow> t = ''str'' \<or> take 4 t = ''dyn '' \<or> take 1 t = ''['' \<and> \<not> is_array_type t"

definition pointer_size :: "string \<Rightarrow> nat" where
  "pointer_size t = (if is_unsized (pointee t) then 16 else 8)"

lemma pointer_size_thin [simp]:
  "pointer_size ''* const u8'' = 8" "pointer_size ''& LogMetadata'' = 8" "pointer_size ''& MetricMetadata'' = 8"
  "pointer_size ''& SpanMetadata'' = 8" "pointer_size ''& SpanLocation'' = 8"
  by (simp_all add: pointer_size_def pointee_def strip_tokens_def is_unsized_def)

lemma pointer_size_word [simp]: "8 \<le> pointer_size t" "\<not> pointer_size t < 8"
  by (simp_all add: pointer_size_def)

fun size_of :: "abi \<Rightarrow> syn_type \<Rightarrow> nat" where
  "size_of abi (Path t) =
     (if t = ''u8'' then 1
      else if t = ''u32'' \<or> t = ''i32'' then 4
      else if t = ''u64'' \<or> t = ''i64'' \<or> t = ''f64'' \<or> t = ''usize'' then 8
      else abi_size abi t)"
| "size_of abi (Reference t) = pointer_size t"
| "size_of abi (Ptr t) = pointer_size t"
| "size_of abi _ = 8"

section \<open>The derive macro\<close>

fun metadata_from_type :: "syn_type \<Rightarrow> (string \<times> bool) res" where
  "metadata_from_type (BareFn fun) = Inr (fun, True)"
| "metadata_from_type (Path type_path) = Inr (type_path, False)"
| "metadata_from_type (Ptr pointer_type) = Inr (pointer_type, True)"
| "metadata_from_type (Reference reference) = Inr (reference, True)"
| "metadata_from_type (Unsupported t) = Inl (Panic (t @ '' field type not supported''))"

definition is_secondary :: "string \<times> bool \<Rightarrow> bool" where
  "is_secondary m = (case m of (type_name, is_reference) \<Rightarrow>
     \<not> (is_reference \<or> type_name \<in> {''i64'', ''u64'', ''u32'', ''i32'', ''f64''}))"

definition derive_reflect_impl ::
  "abi \<Rightarrow> (string \<Rightarrow> UserDefinedType) \<Rightarrow> string \<Rightarrow> syn_data \<Rightarrow> UserDefinedType res" where
  "derive_reflect_impl abi reflect_of ident ast_data =
     and_then (case ast_data of
         Struct (Named named) \<Rightarrow>
           traverse (\<lambda>(field_name, ty). and_then (metadata_from_type ty) (\<lambda>(field_type, is_reference).
             Inr (field_name, ty, field_type, is_reference))) named
       | Struct Unnamed \<Rightarrow> Inl (Panic ''only named fields are supported'')
       | Struct UnitFields \<Rightarrow> Inl (Panic ''unit fields not expected'')
       | Enum \<Rightarrow> Inl (Panic ''enums not supported'')
       | Union \<Rightarrow> Inl (Panic ''bunions not supported'')) (\<lambda>members.
     let secondary_types = filter is_secondary (map (\<lambda>(_, _, m). m) members);
         members_toks = map (\<lambda>(field_name, ty, field_type, is_reference).
           \<lparr>mem_name = field_name, mem_type_name = field_type,
            mem_offset = abi_offset abi ident field_name, mem_size = size_of abi ty,
            mem_is_reference = is_reference\<rparr>) members in
     Inr (UserDefinedType ident (abi_size abi ident) members_toks False
       (map (\<lambda>(t, _). reflect_of t) secondary_types)))"

text \<open>The dummy reflection of a type that serializes itself.\<close>

definition custom_udt :: "string \<Rightarrow> UserDefinedType" where
  "custom_udt name = UserDefinedType name 0 [] False []"

definition StaticString_reflect :: UserDefinedType where
  "StaticString_reflect = custom_udt ''StaticString''"

fun type_metadata :: "syn_type \<Rightarrow> string \<times> bool" where
  "type_metadata (Path t) = (t, False)"
| "type_metadata (Reference t) = (t, True)"
| "type_metadata (Ptr t) = (t, True)"
| "type_metadata (BareFn t) = (t, True)"
| "type_metadata (Unsupported t) = (t, False)"

fun is_supported :: "syn_type \<Rightarrow> bool" where
  "is_supported (Unsupported _) = False"
| "is_supported _ = True"

definition member_of :: "abi \<Rightarrow> string \<Rightarrow> string \<times> syn_type \<Rightarrow> Member" where
  "member_of abi name f = (case f of (n, ty) \<Rightarrow>
     \<lparr>mem_name = n, mem_type_name = fst (type_metadata ty), mem_offset = abi_offset abi name n,
      mem_size = size_of abi ty, mem_is_reference = snd (type_metadata ty)\<rparr>)"

definition reflect_decl :: "abi \<Rightarrow> (string \<Rightarrow> UserDefinedType) \<Rightarrow> struct_decl \<Rightarrow> UserDefinedType" where
  "reflect_decl abi reflect_of d =
     UserDefinedType (sd_name d) (abi_size abi (sd_name d))
       (map (member_of abi (sd_name d)) (sd_fields d)) False
       (map (reflect_of \<circ> fst) (filter is_secondary (map (type_metadata \<circ> snd) (sd_fields d))))"

lemma metadata_from_type_supported:
  "is_supported ty \<Longrightarrow> metadata_from_type ty = Inr (type_metadata ty)"
  by (cases ty) auto

text \<open>What the derive macro makes of a declaration whose fields have supported types.\<close>

lemma derive_reflect_decl:
  assumes "list_all (is_supported \<circ> snd) (sd_fields d)"
  shows "derive_reflect_impl abi reflect_of (sd_name d) (Struct (Named (sd_fields d)))
    = Inr (reflect_decl abi reflect_of d)"
proof -
  have "traverse (\<lambda>(field_name, ty). and_then (metadata_from_type ty) (\<lambda>(field_type, is_reference).
      Inr (field_name, ty, field_type, is_reference))) (sd_fields d)
    = Inr (map (\<lambda>(n, ty). (n, ty, type_metadata ty)) (sd_fields d))"
    using assms
    by (intro traverse_all_Inr)
      (auto simp: list_all_iff metadata_from_type_supported split: prod.splits)
  then show ?thesis
    by (auto simp: derive_reflect_impl_def reflect_decl_def Let_def member_of_def comp_def
        filter_map case_prod_beta)
qed

section \<open>Memory images\<close>

definition apart :: "nat \<times> nat \<Rightarrow> nat \<times> nat \<Rightarrow> bool" where
  "apart a b = (fst a + snd a \<le> fst b \<or> fst b + snd b \<le> fst a)"

definition extents :: "abi \<Rightarrow> struct_decl \<Rightarrow> (nat \<times> nat) list" where
  "extents abi d = map (\<lambda>(n, ty). (abi_offset abi (sd_name d) n, size_of abi ty)) (sd_fields d)"

definition layout_ok :: "abi \<Rightarrow> struct_decl \<Rightarrow> bool" where
  "layout_ok abi d \<longleftrightarrow> 0 < abi_size abi (sd_name d)
     \<and> list_all (\<lambda>(off, n). off + n \<le> abi_size abi (sd_name d)) (extents abi d)
     \<and> sorted_wrt apart (extents abi d)"

definition write_any :: "abi \<Rightarrow> struct_decl \<Rightarrow> bytes list \<Rightarrow> bytes" where
  "write_any abi d vals =
     fold (\<lambda>((off, n), bs) img. overwrite off bs img) (zip (extents abi d) vals)
       (map (abi_pad abi (sd_name d)) [0..<abi_size abi (sd_name d)])"

definition read_any :: "abi \<Rightarrow> struct_decl \<Rightarrow> bytes \<Rightarrow> nat \<Rightarrow> bytes list res" where
  "read_any abi d buf ptr = traverse (\<lambda>(off, n). read_bytes n buf (ptr + off)) (extents abi d)"

definition vals_ok :: "abi \<Rightarrow> struct_decl \<Rightarrow> bytes list \<Rightarrow> bool" where
  "vals_ok abi d vals \<longleftrightarrow> map length vals = map snd (extents abi d)"

lemma fold_overwrite_apart:
  assumes "\<forall>((off, n), bs) \<in> set ps. length bs = n \<and> off + n \<le> length img \<and> apart (o1, n1) (off, n)"
    and "o1 + n1 \<le> length img"
  shows "window o1 n1 (fold (\<lambda>((off, n), bs) img. overwrite off bs img) ps img) = window o1 n1 img"
  using assms
proof (induction ps arbitrary: img)
  case (Cons p ps)
  obtain off n bs where p: "p = ((off, n), bs)" by (metis surj_pair)
  have "window o1 n1 (overwrite off bs img) = window o1 n1 img"
    using Cons.prems by (intro window_overwrite_disjoint) (auto simp: p apart_def)
  with Cons show ?case by (auto simp: p)
qed simp

lemma length_fold_overwrite:
  assumes "\<forall>((off, n), bs) \<in> set ps. length bs = n \<and> off + n \<le> length img"
  shows "length (fold (\<lambda>((off, n), bs) img. overwrite off bs img) ps img) = length img"
  using assms by (induction ps arbitrary: img) auto

lemma fold_overwrite_window:
  assumes "\<forall>((off, n), bs) \<in> set ps. length bs = n \<and> off + n \<le> length img"
    and "sorted_wrt (\<lambda>p q. apart (fst p) (fst q)) ps" and "((o1, n1), b1) \<in> set ps"
  shows "window o1 n1 (fold (\<lambda>((off, n), bs) img. overwrite off bs img) ps img) = b1"
  using assms
proof (induction ps arbitrary: img)
  case (Cons p ps)
  obtain off n bs where p: "p = ((off, n), bs)" by (metis surj_pair)
  have fit: "length bs = n" "off + n \<le> length img" using Cons.prems by (auto simp: p)
  show ?case
  proof (cases "((o1, n1), b1) = p")
    case True
    with Cons.prems fit
    have "window o1 n1 (fold (\<lambda>((off, n), bs) img. overwrite off bs img) ps (overwrite off bs img))
        = window o1 n1 (overwrite off bs img)"
      by (intro fold_overwrite_apart) (auto simp: p)
    with True fit show ?thesis by (auto simp: p window_overwrite_same)
  next
    case False
    with Cons fit show ?thesis by (auto simp: p)
  qed
qed simp

lemma layout_fits:
  assumes "layout_ok abi d" and "i < length (extents abi d)"
  shows "fst (extents abi d ! i) + snd (extents abi d ! i) \<le> abi_size abi (sd_name d)"
proof -
  have "extents abi d ! i \<in> set (extents abi d)" using assms(2) by simp
  then show ?thesis using assms(1) by (auto simp: layout_ok_def list_all_iff)
qed

lemma vals_ok_length: "vals_ok abi d vals \<Longrightarrow> length vals = length (extents abi d)"
  by (metis vals_ok_def length_map)

lemma vals_ok_nth: "vals_ok abi d vals \<Longrightarrow> i < length vals \<Longrightarrow> length (vals ! i) = snd (extents abi d ! i)"
  by (metis vals_ok_def vals_ok_length nth_map)

lemma zip_fits:
  assumes "layout_ok abi d" and "vals_ok abi d vals"
  shows "\<forall>((off, n), bs) \<in> set (zip (extents abi d) vals).
    length bs = n \<and> off + n \<le> length (map (abi_pad abi (sd_name d)) [0..<abi_size abi (sd_name d)])"
proof (clarify)
  fix off n bs
  assume "((off, n), bs) \<in> set (zip (extents abi d) vals)"
  then obtain i where i: "i < length (extents abi d)" "i < length vals"
    "extents abi d ! i = (off, n)" "vals ! i = bs" by (auto simp: in_set_zip)
  show "length bs = n \<and> off + n \<le> length (map (abi_pad abi (sd_name d)) [0..<abi_size abi (sd_name d)])"
    using layout_fits [OF assms(1) i(1)] vals_ok_nth [OF assms(2) i(2)] i(3,4) by simp
qed

lemma length_write_any:
  assumes "layout_ok abi d" and "vals_ok abi d vals"
  shows "length (write_any abi d vals) = abi_size abi (sd_name d)"
  using length_fold_overwrite [OF zip_fits [OF assms]] by (simp add: write_any_def)

lemma window_write_any:
  assumes "layout_ok abi d" and "vals_ok abi d vals" and "i < length vals"
  shows "window (fst (extents abi d ! i)) (snd (extents abi d ! i)) (write_any abi d vals) = vals ! i"
proof -
  let ?ps = "zip (extents abi d) vals"
  have len: "length vals = length (extents abi d)" by (rule vals_ok_length [OF assms(2)])
  have "sorted_wrt (\<lambda>p q. apart (fst p) (fst q)) ?ps"
    using assms(1) len by (auto simp: layout_ok_def sorted_wrt_iff_nth_less)
  moreover have "((fst (extents abi d ! i), snd (extents abi d ! i)), vals ! i) \<in> set ?ps"
    using assms(3) len by (auto simp: in_set_zip)
  ultimately show ?thesis
    unfolding write_any_def by (rule fold_overwrite_window [OF zip_fits [OF assms(1,2)]])
qed

text \<open>Reading a field of an image that lies anywhere in a buffer.\<close>

lemma read_field:
  assumes "layout_ok abi d" and "vals_ok abi d vals" and "i < length vals" and "p = length pre"
  shows "read_bytes (snd (extents abi d ! i)) (pre @ write_any abi d vals @ post)
    (p + fst (extents abi d ! i)) = Inr (vals ! i)"
proof -
  have "i < length (extents abi d)" using assms(2,3) by (metis vals_ok_def length_map)
  then have fit: "fst (extents abi d ! i) + snd (extents abi d ! i) \<le> length (write_any abi d vals)"
    using assms by (simp add: length_write_any layout_fits)
  then show ?thesis
    using window_write_any [OF assms(1-3)] assms(4)
    by (intro read_window) (simp_all add: window_append_shift window_append_front)
qed

lemma read_any_write_any:
  assumes "layout_ok abi d" and "vals_ok abi d vals"
  shows "read_any abi d (pre @ write_any abi d vals @ post) (length pre) = Inr vals"
proof -
  have len: "length vals = length (extents abi d)" using assms(2) by (metis vals_ok_def length_map)
  show ?thesis
    using read_field [OF assms] len unfolding read_any_def
    by (intro traverse_nth) (auto simp: case_prod_beta)
qed

text \<open>
  A structure whose values are read from and written to lists of field images serializes by the
  default methods of the trait.
\<close>

definition pod :: "abi \<Rightarrow> struct_decl \<Rightarrow> ('v \<Rightarrow> bytes list) \<Rightarrow> (bytes list \<Rightarrow> 'v) \<Rightarrow> 'v InProcSerialize" where
  "pod abi d to_vals of_vals =
     pod_serialize (abi_size abi (sd_name d)) (\<lambda>v. write_any abi d (to_vals v))
       (\<lambda>buf ptr. and_then (read_any abi d buf ptr) (\<lambda>vals. Inr (of_vals vals)))"

lemma pod_in_proc_serialize:
  assumes "layout_ok abi d" and "\<And>v. valid v \<Longrightarrow> vals_ok abi d (to_vals v) \<and> of_vals (to_vals v) = v"
  shows "in_proc_serialize (pod abi d to_vals of_vals) valid"
  using assms
  by unfold_locales
    (auto simp: pod_def pod_serialize_def default_write_value_def default_read_value_def
      size_agrees_def value_size_arg_def length_write_any read_any_write_any)

lemma pod_in_proc_serialize_if:
  assumes "\<And>v. vals_ok abi d (to_vals v)" and "\<And>v. of_vals (to_vals v) = v"
  shows "in_proc_serialize (pod abi d to_vals of_vals) (\<lambda>v. layout_ok abi d)"
proof (cases "layout_ok abi d")
  case True
  then show ?thesis by (intro pod_in_proc_serialize) (simp_all add: assms)
qed (simp add: in_proc_serialize_def)

lemma pod_simps [simp]:
  "IN_PROC_SIZE (pod abi d to_vals of_vals) = Const (abi_size abi (sd_name d))"
  "write_value (pod abi d to_vals of_vals) v = Inr (write_any abi d (to_vals v))"
  by (simp_all add: pod_def pod_serialize_def default_write_value_def)

text \<open>The bytes of an integer field and the integer of the bytes.\<close>

definition word_of_bytes :: "bytes \<Rightarrow> 'a::len word" where
  "word_of_bytes bs = word_of_nat (le_nat bs)"

lemma word_of_bytes_write [simp]:
  "word_of_bytes (write_u8 a) = a" "word_of_bytes (write_u32 b) = b" "word_of_bytes (write_u64 c) = c"
  by (simp_all add: word_of_bytes_def)

end
