(* ===== verification/Transit_Parser.thy ===== *)
theory Transit_Parser
  imports Transit_Reflect
begin

text \<open>
  The out-of-process parser of the transit crate (\<open>parser.rs\<close>): dynamic values, the dependencies
  section of a block, plain old data read through the metadata of its type, the custom log events,
  and the loop over the objects of a block.

  Offsets are natural numbers. A subtraction on \<open>usize\<close> that underflows wraps, as in a release
  build, and the wrapped size is what the following raw read uses. The recursion of
  \<open>parse_pod_instance\<close> follows the names in the metadata, which the sender of a block chooses; the
  argument \<open>stack\<close> is the number of nested calls that the stack has room for.
\<close>

section \<open>Values\<close>

datatype Value =
    VString string
  | VObject Object
  | VU8 u8
  | VU32 u32
  | VU64 u64
  | VI64 i64
  | VF64 u64
  | VNone
and Object = Object (obj_type_name: string) (obj_members: "(string \<times> Value) list")

text \<open>\<open>VF64\<close> holds the bit pattern of the floating-point number.\<close>

type_synonym deps = "u64 \<rightharpoonup> Value"

fun get_u8 :: "Value \<Rightarrow> u8 res" where
  "get_u8 (VU8 val) = Inr val"
| "get_u8 _ = Inl (Err ''bad type cast u8'')"

fun get_u32 :: "Value \<Rightarrow> u32 res" where
  "get_u32 (VU32 val) = Inr val"
| "get_u32 (VU8 val) = Inr (ucast val)"
| "get_u32 _ = Inl (Err ''bad type cast u32'')"

fun get_u64 :: "Value \<Rightarrow> u64 res" where
  "get_u64 (VI64 val) = Inr val"
| "get_u64 (VU64 val) = Inr val"
| "get_u64 _ = Inl (Err ''bad type cast u64'')"

fun get_i64 :: "Value \<Rightarrow> i64 res" where
  "get_i64 (VI64 val) = Inr val"
| "get_i64 (VU64 val) = Inr val"
| "get_i64 _ = Inl (Err ''bad type cast i64'')"

fun get_f64 :: "Value \<Rightarrow> u64 res" where
  "get_f64 (VF64 val) = Inr val"
| "get_f64 _ = Inl (Err ''bad type cast f64'')"

fun get_string :: "Value \<Rightarrow> string res" where
  "get_string (VString val) = Inr val"
| "get_string _ = Inl (Err ''bad type cast String'')"

fun get_object :: "Value \<Rightarrow> Object res" where
  "get_object (VObject val) = Inr val"
| "get_object _ = Inl (Err ''bad type cast String'')"

fun as_str :: "Value \<Rightarrow> string option" where
  "as_str (VString s) = Some s"
| "as_str _ = None"

definition obj_get_ref :: "Object \<Rightarrow> string \<Rightarrow> Value res" where
  "obj_get_ref obj member_name =
     (case find (\<lambda>m. fst m = member_name) (obj_members obj) of
        Some m \<Rightarrow> Inr (snd m)
      | None \<Rightarrow> Inl (Err (''member '' @ member_name @ '' not found'')))"

definition obj_get :: "(Value \<Rightarrow> 't res) \<Rightarrow> Object \<Rightarrow> string \<Rightarrow> 't res" where
  "obj_get get_t obj member_name =
     (case find (\<lambda>m. fst m = member_name) (obj_members obj) of
        Some m \<Rightarrow> get_t (snd m)
      | None \<Rightarrow> Inl (Err (''member '' @ member_name @ '' not found'')))"

section \<open>Plain old data\<close>

definition deref :: "deps \<Rightarrow> u64 \<Rightarrow> Value" where
  "deref dependencies key = (case dependencies key of Some v \<Rightarrow> v | None \<Rightarrow> VNone)"

definition parse_intrinsic :: "nat \<Rightarrow> (bytes \<Rightarrow> nat \<Rightarrow> Value res) \<Rightarrow> nat \<Rightarrow> Member \<Rightarrow> bytes \<Rightarrow> Value res" where
  "parse_intrinsic n read offset m buffer =
     (if n \<noteq> mem_size m then Inl (Panic ''assertion failed: size of member'')
      else read buffer (offset + mem_offset m))"

definition parse_member ::
  "(UserDefinedType \<Rightarrow> nat \<Rightarrow> Value res) \<Rightarrow> UserDefinedType list \<Rightarrow> deps \<Rightarrow> nat \<Rightarrow> bytes \<Rightarrow> Member \<Rightarrow> Value res" where
  "parse_member recurse udts dependencies offset buffer m =
     (if mem_is_reference m then
        if mem_size m < 8 then Inr VNone
        else and_then (read_u64 buffer (offset + mem_offset m)) (\<lambda>key. Inr (deref dependencies key))
      else if mem_type_name m \<in> {''u8'', ''uint8''} then
        parse_intrinsic 1 (\<lambda>b p. and_then (read_u8 b p) (\<lambda>x. Inr (VU8 x))) offset m buffer
      else if mem_type_name m \<in> {''u32'', ''uint32''} then
        parse_intrinsic 4 (\<lambda>b p. and_then (read_u32 b p) (\<lambda>x. Inr (VU32 x))) offset m buffer
      else if mem_type_name m \<in> {''u64'', ''uint64''} then
        parse_intrinsic 8 (\<lambda>b p. and_then (read_u64 b p) (\<lambda>x. Inr (VU64 x))) offset m buffer
      else if mem_type_name m \<in> {''i64'', ''int64''} then
        parse_intrinsic 8 (\<lambda>b p. and_then (read_u64 b p) (\<lambda>x. Inr (VI64 x))) offset m buffer
      else if mem_type_name m = ''f64'' then
        parse_intrinsic 8 (\<lambda>b p. and_then (read_u64 b p) (\<lambda>x. Inr (VF64 x))) offset m buffer
      else case find (\<lambda>t. udt_name t = mem_type_name m) udts of
          Some member_udt \<Rightarrow> recurse member_udt (offset + mem_offset m)
        | None \<Rightarrow> Inr VNone)"

definition close_instance :: "UserDefinedType \<Rightarrow> (string \<times> Value) list \<Rightarrow> Value" where
  "close_instance udt members =
     (let obj = VObject (Object (udt_name udt) members) in
      if udt_is_reference udt then
        case find (\<lambda>m. fst m = ''id'') members of Some m \<Rightarrow> snd m | None \<Rightarrow> obj
      else obj)"

primrec parse_pod_instance ::
  "nat \<Rightarrow> UserDefinedType \<Rightarrow> UserDefinedType list \<Rightarrow> deps \<Rightarrow> nat \<Rightarrow> bytes \<Rightarrow> Value res" where
  "parse_pod_instance 0 udt udts dependencies offset buffer = Inl StackOverflow"
| "parse_pod_instance (Suc stack) udt udts dependencies offset buffer =
     and_then (traverse (\<lambda>m. and_then
         (parse_member (\<lambda>u off. parse_pod_instance stack u udts dependencies off buffer)
            udts dependencies offset buffer m)
         (\<lambda>v. Inr (mem_name m, v))) (udt_members udt))
       (\<lambda>members. Inr (close_instance udt members))"

section \<open>The custom log events\<close>

text \<open>\<open>(a - b) as u32\<close> on \<open>usize\<close>.\<close>

definition usize_sub_u32 :: "nat \<Rightarrow> nat \<Rightarrow> u32" where
  "usize_sub_u32 a b = ucast (word_of_nat a - word_of_nat b :: u64)"

definition parse_log_string_event :: "deps \<Rightarrow> nat \<Rightarrow> nat \<Rightarrow> bytes \<Rightarrow> (string \<times> Value) list res" where
  "parse_log_string_event dependencies offset object_size buffer =
     and_then (read_u64 buffer offset) (\<lambda>desc_id.
     and_then (read_u64 buffer (offset + 8)) (\<lambda>time.
     and_then (DynString_read_value buffer (offset + 16) (Some (usize_sub_u32 object_size 16))) (\<lambda>msg.
     Inr [(''time'', VI64 time), (''msg'', VString msg), (''desc'', deref dependencies desc_id)])))"

definition parse_log_string_interop_event_v3 ::
  "nat \<Rightarrow> UserDefinedType list \<Rightarrow> deps \<Rightarrow> bytes \<Rightarrow> (string \<times> Value) list res" where
  "parse_log_string_interop_event_v3 stack udts dependencies buffer =
     (case find (\<lambda>t. udt_name t = ''StaticStringRef'') udts of
        None \<Rightarrow> Inl (Err ''no metadata for StaticStringRef'')
      | Some string_ref_metadata \<Rightarrow>
          and_then (read_u64 buffer 0) (\<lambda>time.
          and_then (read_u8 buffer 8) (\<lambda>level.
          and_then (parse_pod_instance stack string_ref_metadata udts dependencies 9 buffer) (\<lambda>target.
          and_then (parse_string buffer (9 + udt_size string_ref_metadata)) (\<lambda>(msg, cursor).
          Inr [(''time'', VI64 time), (''level'', VU8 level), (''target'', target),
               (''msg'', VString msg)])))))"

definition parse_log_string_interop_event ::
  "nat \<Rightarrow> UserDefinedType list \<Rightarrow> deps \<Rightarrow> nat \<Rightarrow> nat \<Rightarrow> bytes \<Rightarrow> (string \<times> Value) list res" where
  "parse_log_string_interop_event stack udts dependencies offset object_size buffer =
     (case find (\<lambda>t. udt_name t = ''StringId'') udts of
        None \<Rightarrow> Inr []
      | Some stringid_metadata \<Rightarrow>
          and_then (read_u64 buffer offset) (\<lambda>time.
          and_then (read_u32 buffer (offset + 8)) (\<lambda>level.
          let target_offset = offset + 12 in
          and_then (parse_pod_instance stack stringid_metadata udts dependencies target_offset buffer) (\<lambda>target.
          let message_offset = target_offset + udt_size stringid_metadata in
          and_then (DynString_read_value buffer message_offset
            (Some (usize_sub_u32 object_size (message_offset - offset)))) (\<lambda>msg.
          Inr [(''time'', VI64 time), (''level'', VU32 level), (''target'', target),
               (''msg'', VString msg)])))))"

text \<open>An error of the third version of the interop event is logged and gives no members.\<close>

definition members_or_none :: "(string \<times> Value) list res \<Rightarrow> (string \<times> Value) list res" where
  "members_or_none r = (case r of Inl (Err _) \<Rightarrow> Inr [] | _ \<Rightarrow> r)"

definition parse_custom_instance ::
  "nat \<Rightarrow> UserDefinedType \<Rightarrow> UserDefinedType list \<Rightarrow> deps \<Rightarrow> nat \<Rightarrow> nat \<Rightarrow> bytes \<Rightarrow> Value res" where
  "parse_custom_instance stack udt udts dependencies offset object_size buffer =
     and_then
       (if udt_name udt = ''LogStringEvent'' then
          parse_log_string_event dependencies offset object_size buffer
        else if udt_name udt = ''LogStringInteropEventV2'' then
          parse_log_string_interop_event stack udts dependencies offset object_size buffer
        else if udt_name udt = ''LogStringInteropEventV3'' then
          if length buffer < offset + object_size then Inl (Panic ''range end index out of range'')
          else members_or_none
            (parse_log_string_interop_event_v3 stack udts dependencies (window offset object_size buffer))
        else Inr [])
       (\<lambda>members. Inr (VObject (Object (udt_name udt) members)))"

section \<open>The dependencies section\<close>

definition dep_insert :: "deps \<Rightarrow> u64 \<Rightarrow> Value \<Rightarrow> deps res" where
  "dep_insert hash key v = (case hash key of
     None \<Rightarrow> Inr (hash(key \<mapsto> v))
   | Some _ \<Rightarrow> Inl (Panic ''assertion failed: insert_res.is_none()''))"

definition read_object_size :: "UserDefinedType \<Rightarrow> bytes \<Rightarrow> nat \<Rightarrow> (nat \<times> nat) res" where
  "read_object_size udt buffer offset =
     (if udt_size udt = 0 then
        and_then (read_u32 buffer offset) (\<lambda>obj_size. Inr (unat obj_size, offset + 4))
      else Inr (udt_size udt, offset))"

definition read_dependency ::
  "nat \<Rightarrow> UserDefinedType list \<Rightarrow> bytes \<Rightarrow> UserDefinedType \<Rightarrow> nat \<Rightarrow> nat \<Rightarrow> deps \<Rightarrow> deps res" where
  "read_dependency stack udts buffer udt offset object_size hash =
     (if udt_name udt = ''StaticString'' then
        and_then (read_u64 buffer offset) (\<lambda>string_id.
        let nb_utf8_bytes = unat (word_of_nat object_size - 8 :: u64) in
        and_then (read_bytes nb_utf8_bytes buffer (offset + 8)) (\<lambda>slice.
        and_then (unwrap (from_utf8 slice)) (\<lambda>string.
        dep_insert hash string_id (VString string))))
      else if udt_name udt = ''StaticStringDependency'' then
        and_then (read_u64 buffer offset) (\<lambda>string_id.
        and_then (parse_string buffer (offset + 8)) (\<lambda>(string, cursor).
        dep_insert hash string_id (VString string)))
      else if udt_size udt = 0 then Inl (Err ''invalid user-defined type'')
      else and_then (parse_pod_instance stack udt udts hash offset buffer) (\<lambda>instance.
        case instance of
          VObject obj \<Rightarrow> and_then (obj_get get_u64 obj ''id'') (\<lambda>id. dep_insert hash id (VObject obj))
        | _ \<Rightarrow> Inr hash))"

lemma read_object_size_advances:
  "read_object_size udt buffer offset = Inr (n, offset') \<Longrightarrow> offset \<le> offset'"
  by (auto simp: read_object_size_def and_then_eq_Inr split: if_splits)

function read_dependencies_loop ::
  "nat \<Rightarrow> UserDefinedType list \<Rightarrow> bytes \<Rightarrow> nat \<Rightarrow> deps \<Rightarrow> deps res" where
  "read_dependencies_loop stack udts buffer offset hash =
     (if length buffer \<le> offset then Inr hash
      else let type_index = unat (buffer ! offset) in
        if length udts \<le> type_index then Inl (Err ''Invalid type index parsing transit dependencies'')
        else let udt = udts ! type_index in
          and_then (read_object_size udt buffer (offset + 1)) (\<lambda>(object_size, obj_offset).
          and_then (read_dependency stack udts buffer udt obj_offset object_size hash) (\<lambda>hash'.
          read_dependencies_loop stack udts buffer (obj_offset + object_size) hash')))"
  by pat_completeness auto
termination
  by (relation "measure (\<lambda>(_, _, buffer, offset, _). length buffer - offset)")
    (auto dest!: read_object_size_advances)

declare read_dependencies_loop.simps [simp del]

definition read_dependencies :: "nat \<Rightarrow> UserDefinedType list \<Rightarrow> bytes \<Rightarrow> deps res" where
  "read_dependencies stack udts buffer = read_dependencies_loop stack udts buffer 0 Map.empty"

section \<open>The objects of a block\<close>

definition parse_instance ::
  "nat \<Rightarrow> UserDefinedType \<Rightarrow> UserDefinedType list \<Rightarrow> deps \<Rightarrow> nat \<Rightarrow> nat \<Rightarrow> bytes \<Rightarrow> Value res" where
  "parse_instance stack udt udts dependencies offset object_size buffer =
     (if udt_size udt = 0 then parse_custom_instance stack udt udts dependencies offset object_size buffer
      else parse_pod_instance stack udt udts dependencies offset buffer)"

function parse_object_loop ::
  "nat \<Rightarrow> deps \<Rightarrow> UserDefinedType list \<Rightarrow> bytes \<Rightarrow> ('s \<Rightarrow> Value \<Rightarrow> ('s \<times> bool) res) \<Rightarrow> nat \<Rightarrow> 's \<Rightarrow> ('s \<times> bool) res" where
  "parse_object_loop stack dependencies udts buffer f offset s =
     (if length buffer \<le> offset then Inr (s, True)
      else let type_index = unat (buffer ! offset) in
        if length udts \<le> type_index then Inl (Err ''Invalid type index parsing transit objects'')
        else let udt = udts ! type_index in
          and_then (read_object_size udt buffer (offset + 1)) (\<lambda>(object_size, obj_offset).
          and_then (parse_instance stack udt udts dependencies obj_offset object_size buffer) (\<lambda>instance.
          and_then (f s instance) (\<lambda>(s', continue).
          if \<not> continue then Inr (s', False)
          else parse_object_loop stack dependencies udts buffer f (obj_offset + object_size) s'))))"
  by pat_completeness auto
termination
  by (relation "measure (\<lambda>(_, _, _, buffer, _, offset, _). length buffer - offset)")
    (auto dest!: read_object_size_advances)

declare parse_object_loop.simps [simp del]

definition parse_object_buffer ::
  "nat \<Rightarrow> deps \<Rightarrow> UserDefinedType list \<Rightarrow> bytes \<Rightarrow> ('s \<Rightarrow> Value \<Rightarrow> ('s \<times> bool) res) \<Rightarrow> 's \<Rightarrow> ('s \<times> bool) res" where
  "parse_object_buffer stack dependencies udts buffer f s =
     parse_object_loop stack dependencies udts buffer f 0 s"

text \<open>What the callback's contract says: it sees the objects in order until it returns false.\<close>

fun feed :: "('s \<Rightarrow> 'v \<Rightarrow> ('s \<times> bool) res) \<Rightarrow> 's \<Rightarrow> 'v list \<Rightarrow> ('s \<times> bool) res" where
  "feed f s [] = Inr (s, True)"
| "feed f s (v # vs) = and_then (f s v) (\<lambda>(s', continue).
     if continue then feed f s' vs else Inr (s', False))"

end
