(* ===== verification/Transit_Codec.thy ===== *)
theory Transit_Codec
  imports Transit_Parser
begin

text \<open>
  The two ends of the transit format together. A queue is written in the instrumented process and
  parsed out of process, knowing only the user-defined types that its metadata lists. The locale
  \<open>parsed_queue\<close> states what a queue of objects owes to the parser and shows that the parser's
  callback then sees the pushed objects, in order; \<open>deps_queue\<close> does the same for a queue of
  dependencies and the map that \<open>read_dependencies\<close> builds.
\<close>

lemma read_dependencies_step:
  assumes "off < length buf" and "unat (buf ! off) = i" and "i < length udts"
    and "read_object_size (udts ! i) buf (off + 1) = Inr (n, o')"
    and "read_dependency stack udts buf (udts ! i) o' n hash = Inr hash'"
  shows "read_dependencies_loop stack udts buf off hash = read_dependencies_loop stack udts buf (o' + n) hash'"
  using assms by (subst read_dependencies_loop.simps) (simp add: Let_def)

lemma parse_object_step:
  assumes "off < length buf" and "unat (buf ! off) = i" and "i < length udts"
    and "read_object_size (udts ! i) buf (off + 1) = Inr (n, o')"
    and "parse_instance stack (udts ! i) udts dependencies o' n buf = Inr v"
  shows "parse_object_loop stack dependencies udts buf f off s
    = and_then (f s v) (\<lambda>(s', continue).
        if continue then parse_object_loop stack dependencies udts buf f (o' + n) s' else Inr (s', False))"
  using assms
  by (subst parse_object_loop.simps) (auto simp: Let_def intro!: and_then_cong)

definition udt_matches :: "UserDefinedType \<Rightarrow> 'v InProcSerialize \<Rightarrow> bool" where
  "udt_matches udt ser = (case IN_PROC_SIZE ser of
     Const n \<Rightarrow> 0 < n \<and> udt_size udt = n
   | Dynamic \<Rightarrow> udt_size udt = 0)"

section \<open>Where the parser finds the objects of a queue\<close>

locale described_queue = hetero_queue items type_index valid
  for items :: "'a InProcSerialize list" and type_index :: "'a \<Rightarrow> nat" and valid :: "'a \<Rightarrow> bool" +
  fixes udts :: "UserDefinedType list"
  assumes described: "valid v \<Longrightarrow> type_index v < length udts \<and>
    udt_matches (udts ! type_index v) (items ! type_index v)"
begin

lemma locate:
  assumes "valid v" and "off = length pre"
  shows "\<exists>pre'. pre @ encode v @ post = pre' @ body v @ post
    \<and> (pre @ encode v @ post) ! off = word_of_nat (type_index v)
    \<and> read_object_size (udts ! type_index v) (pre @ encode v @ post) (off + 1)
        = Inr (length (body v), length pre')
    \<and> length pre' + length (body v) = off + length (encode v)"
proof (cases "IN_PROC_SIZE (items ! type_index v)")
  case (Const n)
  have "length (body v) = n" using sized_body [OF assms(1)] by (simp add: size_agrees_def Const)
  then show ?thesis
    using assms described [OF assms(1)]
    by (intro exI [of _ "pre @ [word_of_nat (type_index v)]"])
      (simp add: udt_matches_def Const encode_def read_object_size_def)
next
  case Dynamic
  then obtain k where k: "get_value_size (items ! type_index v) v = Some k" "unat k = length (body v)"
    using sized_body [OF assms(1)] by (auto simp: size_agrees_def)
  let ?p = "pre @ [word_of_nat (type_index v)]"
  have "read_u32 (?p @ write_u32 k @ body v @ post) (Suc off) = Inr k"
    by (rule read_int_at) (simp add: assms(2))
  then show ?thesis
    using assms(2) described [OF assms(1)]
    by (intro exI [of _ "?p @ write_u32 k"])
      (simp add: udt_matches_def Dynamic encode_def read_object_size_def k)
qed

lemma byte_index: "valid v \<Longrightarrow> off = length pre \<Longrightarrow> unat ((pre @ encode v @ post) ! off) = type_index v"
  using locate [of v off pre post] by (auto simp: index_byte)

end

section \<open>Objects\<close>

locale parsed_queue = described_queue items type_index valid udts
  for items :: "'a InProcSerialize list" and type_index :: "'a \<Rightarrow> nat" and valid :: "'a \<Rightarrow> bool"
    and udts :: "UserDefinedType list" +
  fixes stack :: nat and denote :: "deps \<Rightarrow> 'a \<Rightarrow> Value"
  assumes parses: "valid v \<Longrightarrow> write_value (items ! type_index v) v = Inr bs \<Longrightarrow>
    parse_instance stack (udts ! type_index v) udts dependencies (length pre) (length bs) (pre @ bs @ post)
      = Inr (denote dependencies v)"
begin

lemma parse_encoded:
  assumes "list_all valid vs" and "off = length pre"
  shows "parse_object_loop stack dependencies udts (pre @ concat (map encode vs)) f off s
    = feed f s (map (denote dependencies) vs)"
  using assms
proof (induction vs arbitrary: pre off s)
  case Nil
  then show ?case by (subst parse_object_loop.simps) simp
next
  case (Cons v vs)
  let ?rest = "concat (map encode vs)"
  from Cons.prems have v: "valid v" by simp
  obtain pre' where pre': "pre @ encode v @ ?rest = pre' @ body v @ ?rest"
    "read_object_size (udts ! type_index v) (pre @ encode v @ ?rest) (off + 1) = Inr (length (body v), length pre')"
    "length pre' + length (body v) = off + length (encode v)"
    using locate [OF v Cons.prems(2), of ?rest] by blast
  have inside: "off < length (pre @ encode v @ ?rest)"
    using Cons.prems(2) by (simp add: encode_def)
  have inst: "parse_instance stack (udts ! type_index v) udts dependencies (length pre') (length (body v))
      (pre @ encode v @ ?rest) = Inr (denote dependencies v)"
    using parses [OF v write_body [OF v]] by (simp add: pre'(1))
  have "type_index v < length udts" using described [OF v] by blast
  then have "parse_object_loop stack dependencies udts (pre @ encode v @ ?rest) f off s
    = and_then (f s (denote dependencies v)) (\<lambda>(s', continue).
        if continue then parse_object_loop stack dependencies udts (pre @ encode v @ ?rest) f
          (off + length (encode v)) s' else Inr (s', False))"
    unfolding pre'(3) [symmetric]
    by (rule parse_object_step [OF inside byte_index [OF v Cons.prems(2)] _ pre'(2) inst])
  moreover have "parse_object_loop stack dependencies udts (pre @ encode v @ ?rest) f
      (off + length (encode v)) s' = feed f s' (map (denote dependencies) vs)" for s'
    using Cons.IH [of "off + length (encode v)" "pre @ encode v"] Cons.prems by simp
  ultimately show ?case by (simp only: list.map concat.simps feed.simps)
qed

lemma parse_represents:
  assumes "represents q vs"
  shows "parse_object_buffer stack dependencies udts (q_buffer q) f s = feed f s (map (denote dependencies) vs)"
  using parse_encoded [of vs 0 "[]"] assms by (simp add: represents_def parse_object_buffer_def)

end

section \<open>Dependencies\<close>

text \<open>The map that a list of dependencies means: each one sees the ones before it.\<close>

definition add_deps :: "('a \<Rightarrow> u64) \<Rightarrow> (deps \<Rightarrow> 'a \<Rightarrow> Value) \<Rightarrow> 'a list \<Rightarrow> deps \<Rightarrow> deps" where
  "add_deps dep_id dep_denote vs hash = fold (\<lambda>v h. h(dep_id v \<mapsto> dep_denote h v)) vs hash"

lemma add_deps_simps [simp]:
  "add_deps dep_id dep_denote [] hash = hash"
  "add_deps dep_id dep_denote (v # vs) hash
     = add_deps dep_id dep_denote vs (hash(dep_id v \<mapsto> dep_denote hash v))"
  "add_deps dep_id dep_denote (vs @ ws) hash
     = add_deps dep_id dep_denote ws (add_deps dep_id dep_denote vs hash)"
  by (simp_all add: add_deps_def)

lemma dom_add_deps: "dom (add_deps dep_id dep_denote vs hash) = dom hash \<union> dep_id ` set vs"
  by (induction vs arbitrary: hash) auto

lemma add_deps_other: "k \<notin> dep_id ` set vs \<Longrightarrow> add_deps dep_id dep_denote vs hash k = hash k"
  by (induction vs arbitrary: hash) auto

locale deps_queue = described_queue items type_index valid udts
  for items :: "'a InProcSerialize list" and type_index :: "'a \<Rightarrow> nat" and valid :: "'a \<Rightarrow> bool"
    and udts :: "UserDefinedType list" +
  fixes stack :: nat and dep_id :: "'a \<Rightarrow> u64" and dep_denote :: "deps \<Rightarrow> 'a \<Rightarrow> Value"
  assumes reads_dependency: "valid v \<Longrightarrow> write_value (items ! type_index v) v = Inr bs \<Longrightarrow>
    read_dependency stack udts (pre @ bs @ post) (udts ! type_index v) (length pre) (length bs) hash
      = dep_insert hash (dep_id v) (dep_denote hash v)"
begin

lemma read_dependencies_encoded:
  assumes "list_all valid vs" and "off = length pre" and "distinct (map dep_id vs)"
    and "dom hash \<inter> dep_id ` set vs = {}"
  shows "read_dependencies_loop stack udts (pre @ concat (map encode vs)) off hash
    = Inr (add_deps dep_id dep_denote vs hash)"
  using assms
proof (induction vs arbitrary: pre off hash)
  case Nil
  then show ?case by (subst read_dependencies_loop.simps) simp
next
  case (Cons v vs)
  let ?rest = "concat (map encode vs)"
  from Cons.prems have v: "valid v" by simp
  obtain pre' where pre': "pre @ encode v @ ?rest = pre' @ body v @ ?rest"
    "read_object_size (udts ! type_index v) (pre @ encode v @ ?rest) (off + 1) = Inr (length (body v), length pre')"
    "length pre' + length (body v) = off + length (encode v)"
    using locate [OF v Cons.prems(2), of ?rest] by blast
  have inside: "off < length (pre @ encode v @ ?rest)"
    using Cons.prems(2) by (simp add: encode_def)
  have "hash (dep_id v) = None" using Cons.prems(4) by auto
  then have "read_dependency stack udts (pre @ encode v @ ?rest) (udts ! type_index v) (length pre')
      (length (body v)) hash = Inr (hash(dep_id v \<mapsto> dep_denote hash v))"
    using reads_dependency [OF v write_body [OF v]] by (simp add: pre'(1) dep_insert_def)
  then have "read_dependencies_loop stack udts (pre @ encode v @ ?rest) off hash
    = read_dependencies_loop stack udts (pre @ encode v @ ?rest) (off + length (encode v))
        (hash(dep_id v \<mapsto> dep_denote hash v))"
    using read_dependencies_step [OF inside byte_index [OF v Cons.prems(2)] _ pre'(2)] described [OF v] pre'(3)
    by simp
  moreover have "dom (hash(dep_id v \<mapsto> dep_denote hash v)) \<inter> dep_id ` set vs = {}"
    using Cons.prems(3,4) by auto
  ultimately show ?case
    using Cons.IH [of "off + length (encode v)" "pre @ encode v"] Cons.prems by simp
qed

lemma read_dependencies_represents:
  assumes "represents q vs" and "distinct (map dep_id vs)"
  shows "read_dependencies stack udts (q_buffer q) = Inr (add_deps dep_id dep_denote vs Map.empty)"
  using read_dependencies_encoded [of vs 0 "[]" Map.empty] assms
  by (simp add: represents_def read_dependencies_def)

end

end
