(* ===== verification/Tracing_Strings.thy ===== *)
theory Tracing_Strings
  imports Transit_Codec
begin

text \<open>
  String identifiers of the tracing crate (\<open>string_id.rs\<close>), the interning table
  (\<open>intern_string.rs\<close>), and how the parser reads the structures that the crate reflects: every
  field is an integer, a floating-point number, a pointer to a dependency or a \<open>StringId\<close>.
\<close>

section \<open>String identifiers\<close>

record StringId =
  sid_ptr :: u64
  sid_len :: u32

definition StringId_from_str :: "static_str \<Rightarrow> StringId" where
  "StringId_from_str src = \<lparr>sid_ptr = str_ptr src, sid_len = word_of_nat (str_len src)\<rparr>"

definition StaticString_from_StringId :: "StringId \<Rightarrow> StaticString" where
  "StaticString_from_StringId src = \<lparr>ss_len = sid_len src, ss_ptr = sid_ptr src\<rparr>"

definition StringId_id :: "StringId \<Rightarrow> u64" where
  "StringId_id s = sid_ptr s"

definition StringId_decl :: struct_decl where
  "StringId_decl = \<lparr>sd_name = ''StringId'', sd_fields = [(''ptr'', Ptr ''* const u8''), (''len'', Path ''u32'')]\<rparr>"

definition StringId_reflect :: "abi \<Rightarrow> UserDefinedType" where
  "StringId_reflect abi = UserDefinedType ''StringId'' (abi_size abi ''StringId'')
     [\<lparr>mem_name = ''id'', mem_type_name = ''usize'', mem_offset = abi_offset abi ''StringId'' ''ptr'',
       mem_size = 8, mem_is_reference = True\<rparr>] True []"

definition StringId_vals :: "StringId \<Rightarrow> bytes list" where
  "StringId_vals s = [write_u64 (sid_ptr s), write_u32 (sid_len s)]"

definition StringId_of :: "bytes list \<Rightarrow> StringId" where
  "StringId_of vals = \<lparr>sid_ptr = word_of_bytes (vals ! 0), sid_len = word_of_bytes (vals ! 1)\<rparr>"

text \<open>The image of an identifier inside of a larger structure, and the identifier of an image.\<close>

definition write_StringId :: "abi \<Rightarrow> StringId \<Rightarrow> bytes" where
  "write_StringId abi s = write_any abi StringId_decl (StringId_vals s)"

definition bytes_StringId :: "abi \<Rightarrow> bytes \<Rightarrow> StringId" where
  "bytes_StringId abi bs = StringId_of
     (map (\<lambda>(off, n). window off n bs) (extents abi StringId_decl))"

definition StringId_serialize :: "abi \<Rightarrow> StringId InProcSerialize" where
  "StringId_serialize abi = pod abi StringId_decl StringId_vals StringId_of"

lemma StringId_vals_ok: "vals_ok abi StringId_decl (StringId_vals s)"
  by (simp add: vals_ok_def extents_def StringId_decl_def StringId_vals_def)

lemma StringId_of_vals [simp]: "StringId_of (StringId_vals s) = s"
  by (simp add: StringId_of_def StringId_vals_def)

interpretation string_id: in_proc_serialize "StringId_serialize abi" "\<lambda>s. layout_ok abi StringId_decl" for abi
  unfolding StringId_serialize_def
  by (rule pod_in_proc_serialize_if) (simp_all add: StringId_vals_ok)

lemma bytes_write_StringId:
  assumes "layout_ok abi StringId_decl"
  shows "bytes_StringId abi (write_StringId abi s) = s"
    and "length (write_StringId abi s) = abi_size abi ''StringId''"
    and "window (abi_offset abi ''StringId'' ''ptr'') 8 (write_StringId abi s) = write_u64 (sid_ptr s)"
proof -
  have w: "window (fst (extents abi StringId_decl ! i)) (snd (extents abi StringId_decl ! i))
      (write_StringId abi s) = StringId_vals s ! i" if "i < 2" for i
    using window_write_any [OF assms StringId_vals_ok, of i] that
    by (simp add: write_StringId_def StringId_vals_def)
  show "length (write_StringId abi s) = abi_size abi ''StringId''"
    using length_write_any [OF assms StringId_vals_ok, of s]
    by (simp add: write_StringId_def StringId_decl_def)
  show "window (abi_offset abi ''StringId'' ''ptr'') 8 (write_StringId abi s) = write_u64 (sid_ptr s)"
    using w [of 0] by (simp add: extents_def StringId_decl_def StringId_vals_def)
  then show "bytes_StringId abi (write_StringId abi s) = s"
    using w [of 1]
    by (simp add: bytes_StringId_def extents_def StringId_decl_def StringId_vals_def StringId_of_def)
qed

section \<open>Interning\<close>

text \<open>
  The table of interned strings, with the address of each. A string that is not there yet is
  copied to memory that the allocator returns.
\<close>

type_synonym interner = "string \<rightharpoonup> static_str"

definition intern_string :: "(interner \<Rightarrow> string \<Rightarrow> u64) \<Rightarrow> string \<Rightarrow> interner \<Rightarrow> static_str \<times> interner" where
  "intern_string alloc input lock = (case lock input of
     Some val \<Rightarrow> (val, lock)
   | None \<Rightarrow> (let interned = \<lparr>str_ptr = alloc lock input, str_len = length input\<rparr> in
       (interned, lock(input \<mapsto> interned))))"

definition interner_ok :: "interner \<Rightarrow> bool" where
  "interner_ok lock \<longleftrightarrow> (\<forall>s v. lock s = Some v \<longrightarrow> str_len v = length s)
     \<and> (\<forall>s t v w. lock s = Some v \<and> lock t = Some w \<and> str_ptr v = str_ptr w \<longrightarrow> s = t)"

text \<open>What the allocator promises: a new allocation does not share its address with a live one.\<close>

definition fresh_address :: "interner \<Rightarrow> u64 \<Rightarrow> bool" where
  "fresh_address lock p \<longleftrightarrow> (\<forall>t v. lock t = Some v \<longrightarrow> str_ptr v \<noteq> p)"

text \<open>
  C17. Interning keeps the table consistent, gives a text with an entry that entry, and never moves or
  removes an entry: equal texts get equal addresses and different texts different ones.
\<close>

theorem intern_string_ok:
  assumes "fresh_address lock (alloc lock input)" and "interner_ok lock" and "intern_string alloc input lock = (v, lock')"
  shows "interner_ok lock' \<and> lock' input = Some v \<and> lock \<subseteq>\<^sub>m lock'"
proof (cases "lock input")
  case None
  have "interner_ok (lock(input \<mapsto> \<lparr>str_ptr = alloc lock input, str_len = length input\<rparr>))"
    using assms(1,2) unfolding interner_ok_def fresh_address_def
    by (auto split: if_splits) blast+
  with None assms(3) show ?thesis
    by (auto simp: intern_string_def Let_def map_le_def)
qed (use assms in \<open>auto simp: intern_string_def\<close>)

section \<open>Reading a reflected structure\<close>

fun field_ok :: "syn_type \<Rightarrow> bool" where
  "field_ok (Path t) = (t \<in> {''u32'', ''u64'', ''i64'', ''f64'', ''StringId''})"
| "field_ok (Reference _) = True"
| "field_ok (Ptr _) = True"
| "field_ok (BareFn _) = True"
| "field_ok _ = False"

fun field_denote :: "abi \<Rightarrow> deps \<Rightarrow> syn_type \<Rightarrow> bytes \<Rightarrow> Value" where
  "field_denote abi dependencies (Path t) bs =
     (if t = ''u32'' then VU32 (word_of_bytes bs)
      else if t = ''u64'' then VU64 (word_of_bytes bs)
      else if t = ''i64'' then VI64 (word_of_bytes bs)
      else if t = ''f64'' then VF64 (word_of_bytes bs)
      else deref dependencies (StringId_id (bytes_StringId abi bs)))"
| "field_denote abi dependencies _ bs = deref dependencies (word_of_bytes (take 8 bs))"

definition finds_StringId :: "abi \<Rightarrow> UserDefinedType list \<Rightarrow> bool" where
  "finds_StringId abi udts \<longleftrightarrow> layout_ok abi StringId_decl
     \<and> find (\<lambda>t. udt_name t = ''StringId'') udts = Some (StringId_reflect abi)"

definition fields_ok :: "abi \<Rightarrow> UserDefinedType list \<Rightarrow> struct_decl \<Rightarrow> bool" where
  "fields_ok abi udts d \<longleftrightarrow> list_all (\<lambda>(n, ty). field_ok ty) (sd_fields d)
     \<and> (Path ''StringId'' \<in> snd ` set (sd_fields d) \<longrightarrow> finds_StringId abi udts)"

definition describes :: "abi \<Rightarrow> struct_decl \<Rightarrow> UserDefinedType \<Rightarrow> bool" where
  "describes abi d udt \<longleftrightarrow> udt_name udt = sd_name d \<and> udt_size udt = abi_size abi (sd_name d)
     \<and> udt_members udt = map (member_of abi (sd_name d)) (sd_fields d) \<and> \<not> udt_is_reference udt"

definition pod_object :: "abi \<Rightarrow> deps \<Rightarrow> struct_decl \<Rightarrow> bytes list \<Rightarrow> Value" where
  "pod_object abi dependencies d vals = VObject (Object (sd_name d)
     (map (\<lambda>((n, ty), bs). (n, field_denote abi dependencies ty bs)) (zip (sd_fields d) vals)))"

lemma read_bytes_inner:
  "read_bytes n buf p = Inr bs \<Longrightarrow> k + m \<le> n \<Longrightarrow> read_bytes m buf (p + k) = Inr (window k m bs)"
  by (auto simp: read_bytes_def window_def drop_take min_def add.commute split: if_splits)

lemma read_int_bytes:
  "read_bytes 4 buf p = Inr bs \<Longrightarrow> read_u32 buf p = Inr (word_of_bytes bs)"
  "read_bytes 8 buf p = Inr bs \<Longrightarrow> read_u64 buf p = Inr (word_of_bytes bs)"
  by (simp_all add: read_u32_def read_u64_def word_of_bytes_def)

lemma read_pointer_bytes:
  assumes "read_bytes n buf p = Inr bs" and "8 \<le> n"
  shows "read_u64 buf p = Inr (word_of_bytes (take 8 bs))"
  using read_bytes_inner [OF assms(1), of 0 8] assms(2) by (simp add: read_int_bytes window_def)

lemma StringId_layout:
  assumes "layout_ok abi StringId_decl"
  shows "abi_offset abi ''StringId'' ''ptr'' + 8 \<le> abi_size abi ''StringId''"
  using layout_fits [OF assms, of 0] by (simp add: extents_def StringId_decl_def)

lemma parse_StringId:
  assumes "layout_ok abi StringId_decl" and "read_bytes (abi_size abi ''StringId'') buf p = Inr bs"
  shows "parse_pod_instance (Suc stack) (StringId_reflect abi) udts dependencies p buf
    = Inr (deref dependencies (StringId_id (bytes_StringId abi bs)))"
  using read_int_bytes(2) [OF read_bytes_inner [OF assms(2) StringId_layout [OF assms(1)]]]
  by (simp add: StringId_reflect_def parse_member_def close_instance_def bytes_StringId_def
      StringId_id_def StringId_of_def extents_def StringId_decl_def)

lemma parse_field:
  assumes "field_ok ty" and "ty = Path ''StringId'' \<Longrightarrow> finds_StringId abi udts"
    and "read_bytes (size_of abi ty) buf (p + abi_offset abi d n) = Inr bs"
  shows "parse_member (\<lambda>u off. parse_pod_instance (Suc stack) u udts dependencies off buf)
      udts dependencies p buf (member_of abi d (n, ty)) = Inr (field_denote abi dependencies ty bs)"
proof (cases ty)
  case (Path t)
  then have "t = ''u32'' \<or> t = ''u64'' \<or> t = ''i64'' \<or> t = ''f64'' \<or> t = ''StringId''"
    using assms(1) by simp
  then show ?thesis
    using assms(2,3) Path
    by (elim disjE) (simp_all add: parse_member_def member_of_def parse_intrinsic_def
        finds_StringId_def read_int_bytes parse_StringId del: parse_pod_instance.simps)
qed (use assms in \<open>auto simp: parse_member_def member_of_def dest!: read_pointer_bytes\<close>)

definition strip_secondary :: "UserDefinedType \<Rightarrow> UserDefinedType" where
  "strip_secondary udt = UserDefinedType (udt_name udt) (udt_size udt) (udt_members udt) (udt_is_reference udt) []"

lemma strip_secondary_simps [simp]:
  "udt_name (strip_secondary u) = udt_name u" "udt_size (strip_secondary u) = udt_size u"
  "udt_members (strip_secondary u) = udt_members u"
  "udt_is_reference (strip_secondary u) = udt_is_reference u"
  by (simp_all add: strip_secondary_def)

lemma parse_reflected:
  assumes "layout_ok abi d" and "vals_ok abi d vals" and "fields_ok abi udts d" and "describes abi d udt"
  shows "parse_pod_instance (Suc (Suc stack)) udt udts dependencies (length pre)
    (pre @ write_any abi d vals @ post) = Inr (pod_object abi dependencies d vals)"
proof -
  let ?buf = "pre @ write_any abi d vals @ post"
  let ?recurse = "\<lambda>u off. parse_pod_instance (Suc stack) u udts dependencies off ?buf"
  let ?obj = "map (\<lambda>((n, ty), bs). (n, field_denote abi dependencies ty bs)) (zip (sd_fields d) vals)"
  have len: "length vals = length (sd_fields d)"
    using vals_ok_length [OF assms(2)] by (simp add: extents_def)
  have "traverse (\<lambda>m. and_then (parse_member ?recurse udts dependencies (length pre) ?buf m)
      (\<lambda>v. Inr (mem_name m, v))) (map (member_of abi (sd_name d)) (sd_fields d)) = Inr ?obj"
  proof (rule traverse_nth)
    fix i
    assume "i < length (map (member_of abi (sd_name d)) (sd_fields d))"
    then have i: "i < length (sd_fields d)" by simp
    obtain n ty where f: "sd_fields d ! i = (n, ty)" by fastforce
    have ext: "extents abi d ! i = (abi_offset abi (sd_name d) n, size_of abi ty)"
      using i f by (simp add: extents_def)
    have "read_bytes (size_of abi ty) ?buf (length pre + abi_offset abi (sd_name d) n) = Inr (vals ! i)"
      using read_field [OF assms(1,2), of i "length pre" pre post] i len by (simp add: ext)
    moreover have "field_ok ty"
      using assms(3) i f by (auto simp: fields_ok_def list_all_length)
    moreover have "ty = Path ''StringId'' \<Longrightarrow> finds_StringId abi udts"
      using assms(3) i f by (force simp: fields_ok_def in_set_conv_nth image_iff)
    ultimately show "and_then (parse_member ?recurse udts dependencies (length pre) ?buf
          (map (member_of abi (sd_name d)) (sd_fields d) ! i))
        (\<lambda>v. Inr (mem_name (map (member_of abi (sd_name d)) (sd_fields d) ! i), v)) = Inr (?obj ! i)"
      using parse_field i len by (simp add: f member_of_def)
  qed (simp add: len)
  then show ?thesis
    using assms(4) by (simp add: describes_def close_instance_def pod_object_def)
qed

lemma parse_instance_reflected:
  assumes "layout_ok abi d" and "vals_ok abi d vals" and "fields_ok abi udts d" and "describes abi d udt"
  shows "parse_instance (Suc (Suc stack)) udt udts dependencies (length pre) n
    (pre @ write_any abi d vals @ post) = Inr (pod_object abi dependencies d vals)"
proof -
  have "0 < udt_size udt" using assms(1,4) by (simp add: layout_ok_def describes_def)
  then show ?thesis
    using parse_reflected [OF assms] by (simp add: parse_instance_def del: parse_pod_instance.simps)
qed

section \<open>A derived type describes the memory of its structure\<close>

text \<open>
  Values of fields as a program has them. An address is a thin reference, pointer or function; a fat one
  has a second word.
\<close>

datatype field_value = U32 u32 | U64 u64 | I64 i64 | F64 u64 | Address u64 | Fat u64 u64 | Text StringId

fun pointer_value :: "string \<Rightarrow> field_value \<Rightarrow> bool" where
  "pointer_value t (Address _) = (\<not> is_unsized (pointee t))"
| "pointer_value t (Fat _ _) = is_unsized (pointee t)"
| "pointer_value t _ = False"

fun has_type :: "syn_type \<Rightarrow> field_value \<Rightarrow> bool" where
  "has_type (Path t) v = (case v of U32 _ \<Rightarrow> t = ''u32'' | U64 _ \<Rightarrow> t = ''u64'' | I64 _ \<Rightarrow> t = ''i64'' | F64 _ \<Rightarrow> t = ''f64''
     | Text _ \<Rightarrow> t = ''StringId'' | _ \<Rightarrow> False)"
| "has_type (Reference t) v = pointer_value t v"
| "has_type (Ptr t) v = pointer_value t v"
| "has_type (BareFn _) v = (case v of Address _ \<Rightarrow> True | _ \<Rightarrow> False)"
| "has_type (Unsupported _) v = False"

fun field_size :: "abi \<Rightarrow> field_value \<Rightarrow> nat" where
  "field_size abi (U32 _) = 4"
| "field_size abi (Fat _ _) = 16"
| "field_size abi (Text _) = abi_size abi ''StringId''"
| "field_size abi _ = 8"

fun value_bytes :: "abi \<Rightarrow> field_value \<Rightarrow> bytes" where
  "value_bytes abi (U32 x) = write_u32 x"
| "value_bytes abi (U64 x) = write_u64 x"
| "value_bytes abi (I64 x) = write_u64 x"
| "value_bytes abi (F64 x) = write_u64 x"
| "value_bytes abi (Address x) = write_u64 x"
| "value_bytes abi (Fat x y) = write_u64 x @ write_u64 y"
| "value_bytes abi (Text s) = write_StringId abi s"

text \<open>What a reader should see: numbers as they are, and what the dependencies hold for an address.\<close>

fun value_read :: "deps \<Rightarrow> field_value \<Rightarrow> Value" where
  "value_read dependencies (U32 x) = VU32 x"
| "value_read dependencies (U64 x) = VU64 x"
| "value_read dependencies (I64 x) = VI64 x"
| "value_read dependencies (F64 x) = VF64 x"
| "value_read dependencies (Address x) = deref dependencies x"
| "value_read dependencies (Fat x _) = deref dependencies x"
| "value_read dependencies (Text s) = deref dependencies (sid_ptr s)"

fun is_text :: "field_value \<Rightarrow> bool" where
  "is_text (Text _) = True"
| "is_text _ = False"

text \<open>The memory of a structure: as long as the structure, and the bytes of each value at the offset of its field.\<close>

definition image_of :: "abi \<Rightarrow> struct_decl \<Rightarrow> field_value list \<Rightarrow> bytes \<Rightarrow> bool" where
  "image_of abi d vals img \<longleftrightarrow> length img = abi_size abi (sd_name d)
     \<and> list_all2 (\<lambda>(n, ty) v. has_type ty v \<and> abi_offset abi (sd_name d) n + field_size abi v \<le> length img
         \<and> window (abi_offset abi (sd_name d) n) (field_size abi v) img = value_bytes abi v) (sd_fields d) vals"

lemma has_type_field:
  assumes "has_type ty v"
  shows "is_supported ty" "field_ok ty" "size_of abi ty = field_size abi v" "is_secondary (type_metadata ty) \<longleftrightarrow> is_text v"
    "is_text v \<Longrightarrow> ty = Path ''StringId''"
  using assms by (cases ty; cases v; auto simp: pointer_size_def is_secondary_def)+

lemma has_type_denote:
  assumes "has_type ty v" and "layout_ok abi StringId_decl"
  shows "field_denote abi dependencies ty (value_bytes abi v) = value_read dependencies v" "length (value_bytes abi v) = field_size abi v"
  using assms bytes_write_StringId [OF assms(2)] by (cases ty; cases v; simp add: StringId_id_def)+


lemma image_write_any:
  assumes "layout_ok abi d" and "layout_ok abi StringId_decl" and "list_all2 (\<lambda>(n, ty). has_type ty) (sd_fields d) vals"
  shows "image_of abi d vals (write_any abi d (map (value_bytes abi) vals))"
proof -
  have len: "length (sd_fields d) = length vals" using assms(3) by (rule list_all2_lengthD)
  have typed: "has_type (snd (sd_fields d ! i)) (vals ! i)" if "i < length vals" for i
    using list_all2_nthD2 [OF assms(3) that] by (simp add: case_prod_beta)
  have vals: "vals_ok abi d (map (value_bytes abi) vals)"
    using len by (auto simp: vals_ok_def extents_def case_prod_beta has_type_field(3) [OF typed] has_type_denote(2) [OF typed assms(2)] intro!: nth_equalityI)
  show ?thesis
    using typed layout_fits [OF assms(1)] window_write_any [OF assms(1) vals] length_write_any [OF assms(1) vals] len
    by (auto simp: image_of_def list_all2_conv_all_nth extents_def case_prod_beta has_type_field(3) [OF typed])
qed


end
