(* ===== verification/Dependencies.thy ===== *)
theory Dependencies
  imports Tracing_Strings
begin

text \<open>
  What the three \<open>ExtractDeps\<close> implementations of the tracing crate share. Walking over the events
  of a block, each dependency (a static string, a record that describes a call site) is pushed once,
  the first time that its address is seen, strings before the records that point to them. The
  abstract extraction is a fold over lists, and \<open>dependency_graph\<close> shows what the reader gets
  from such a list: a map that is closed under the references of its values.
\<close>

section \<open>Recording a dependency once\<close>

definition record_new ::
  "(hqueue \<Rightarrow> hqueue res) \<Rightarrow> u64 \<Rightarrow> u64 set \<times> hqueue \<Rightarrow> (u64 set \<times> hqueue) res" where
  "record_new push_dep key st = (case st of (recorded_deps, deps) \<Rightarrow>
     if key \<in> recorded_deps then Inr (recorded_deps, deps)
     else and_then (push_dep deps) (\<lambda>deps'. Inr (insert key recorded_deps, deps')))"

text \<open>
  The body that a record guards: when the record's address is new, its strings are recorded and
  then the record itself is pushed.
\<close>

definition record_described ::
  "u64 \<Rightarrow> (u64 set \<times> hqueue \<Rightarrow> (u64 set \<times> hqueue) res) \<Rightarrow> (hqueue \<Rightarrow> hqueue res)
    \<Rightarrow> u64 set \<times> hqueue \<Rightarrow> (u64 set \<times> hqueue) res" where
  "record_described key record_strings push_dep st = (case st of (recorded_deps, deps) \<Rightarrow>
     if key \<in> recorded_deps then Inr (recorded_deps, deps)
     else and_then (record_strings (insert key recorded_deps, deps)) (\<lambda>(recorded_deps', deps').
       and_then (push_dep deps') (\<lambda>deps''. Inr (recorded_deps', deps''))))"

section \<open>The abstract extraction\<close>

definition abs_new :: "('d \<Rightarrow> u64) \<Rightarrow> 'd \<Rightarrow> u64 set \<times> 'd list \<Rightarrow> u64 set \<times> 'd list" where
  "abs_new dep_id d st = (case st of (recorded, ds) \<Rightarrow>
     if dep_id d \<in> recorded then (recorded, ds) else (insert (dep_id d) recorded, ds @ [d]))"

definition abs_described :: "('d \<Rightarrow> u64) \<Rightarrow> 'd list \<Rightarrow> 'd \<Rightarrow> u64 set \<times> 'd list \<Rightarrow> u64 set \<times> 'd list" where
  "abs_described dep_id strings r st = (case st of (recorded, ds) \<Rightarrow>
     if dep_id r \<in> recorded then (recorded, ds)
     else (case fold (abs_new dep_id) strings (insert (dep_id r) recorded, ds) of
       (recorded', ds') \<Rightarrow> (recorded', ds' @ [r])))"

definition refs_before :: "('d \<Rightarrow> u64) \<Rightarrow> ('d \<Rightarrow> u64 set) \<Rightarrow> 'd list \<Rightarrow> bool" where
  "refs_before dep_id refs ds \<longleftrightarrow> (\<forall>i < length ds. refs (ds ! i) \<subseteq> dep_id ` set (take i ds))"

lemma refs_before_simps [simp]:
  "refs_before dep_id refs []"
  "refs_before dep_id refs (ds @ [d]) \<longleftrightarrow> refs_before dep_id refs ds \<and> refs d \<subseteq> dep_id ` set ds"
  by (auto simp: refs_before_def nth_append less_Suc_eq)

lemma refs_before_subset:
  assumes "refs_before dep_id refs ds" and "d \<in> set ds"
  shows "refs d \<subseteq> dep_id ` set ds"
proof -
  obtain i where "i < length ds" "ds ! i = d" using assms(2) by (auto simp: in_set_conv_nth)
  then have "refs d \<subseteq> dep_id ` set (take i ds)" using assms(1) by (auto simp: refs_before_def)
  then show ?thesis using set_take_subset [of i ds] by blast
qed

text \<open>
  The invariant of the extraction. \<open>pending\<close> is the address of the record whose strings are being
  recorded: it is marked as seen before it is pushed.
\<close>

definition deps_inv :: "('d \<Rightarrow> u64) \<Rightarrow> ('d \<Rightarrow> u64 set) \<Rightarrow> 'd set \<Rightarrow> u64 set \<Rightarrow> u64 set \<times> 'd list \<Rightarrow> bool" where
  "deps_inv dep_id refs universe pending st \<longleftrightarrow> (case st of (recorded, ds) \<Rightarrow>
     distinct (map dep_id ds) \<and> recorded = dep_id ` set ds \<union> pending
     \<and> set ds \<subseteq> universe \<and> refs_before dep_id refs ds)"

lemma abs_new_inv:
  assumes "deps_inv dep_id refs universe pending st" and "d \<in> universe" and "refs d = {}"
    and "dep_id d \<notin> pending" and "inj_on dep_id universe"
  shows "deps_inv dep_id refs universe pending (abs_new dep_id d st) \<and> d \<in> set (snd (abs_new dep_id d st))
    \<and> set (snd st) \<subseteq> set (snd (abs_new dep_id d st))"
proof (cases "dep_id d \<in> fst st")
  case True
  then obtain e where "e \<in> set (snd st)" "dep_id e = dep_id d"
    using assms(1,4) by (auto simp: deps_inv_def)
  moreover have "e \<in> universe" using assms(1) calculation(1) by (auto simp: deps_inv_def)
  ultimately have "d \<in> set (snd st)" using assms(2,5) by (metis inj_onD)
  with True assms(1) show ?thesis by (auto simp: abs_new_def split: prod.splits)
qed (use assms in \<open>auto simp: abs_new_def deps_inv_def split: prod.splits\<close>)

lemma abs_new_fold_inv:
  assumes "deps_inv dep_id refs universe pending st" and "inj_on dep_id universe"
    and "\<forall>d \<in> set ds. d \<in> universe \<and> refs d = {} \<and> dep_id d \<notin> pending"
  shows "deps_inv dep_id refs universe pending (fold (abs_new dep_id) ds st)
    \<and> set ds \<subseteq> set (snd (fold (abs_new dep_id) ds st))
    \<and> set (snd st) \<subseteq> set (snd (fold (abs_new dep_id) ds st))"
  using assms
proof (induction ds arbitrary: st)
  case (Cons d ds)
  then have "deps_inv dep_id refs universe pending (abs_new dep_id d st) \<and> d \<in> set (snd (abs_new dep_id d st))
      \<and> set (snd st) \<subseteq> set (snd (abs_new dep_id d st))"
    by (intro abs_new_inv) auto
  then show ?case using Cons.IH [of "abs_new dep_id d st"] Cons.prems by auto
qed simp

lemma abs_new_fold_set:
  "set (snd (fold (abs_new dep_id) ss st)) \<subseteq> set (snd st) \<union> set ss"
proof (induction ss arbitrary: st)
  case (Cons s ss)
  have "set (snd (abs_new dep_id s st)) \<subseteq> insert s (set (snd st))"
    by (auto simp: abs_new_def split: prod.splits if_splits)
  with Cons.IH [of "abs_new dep_id s st"] show ?case by auto
qed simp

lemma abs_described_inv:
  assumes inv: "deps_inv dep_id refs universe {} st" and inj: "inj_on dep_id universe"
    and strings: "\<forall>d \<in> set strings. d \<in> universe \<and> refs d = {} \<and> dep_id d \<noteq> dep_id r"
    and r: "r \<in> universe" "refs r = dep_id ` set strings"
  shows "deps_inv dep_id refs universe {} (abs_described dep_id strings r st)
    \<and> set (strings @ [r]) \<subseteq> set (snd (abs_described dep_id strings r st))
    \<and> set (snd st) \<subseteq> set (snd (abs_described dep_id strings r st))"
proof (cases "dep_id r \<in> fst st")
  case True
  then obtain e where "e \<in> set (snd st)" "dep_id e = dep_id r" using inv by (auto simp: deps_inv_def)
  moreover have "e \<in> universe" using inv calculation(1) by (auto simp: deps_inv_def)
  ultimately have "r \<in> set (snd st)" using r(1) inj by (metis inj_onD)
  moreover have "s \<in> set (snd st)" if "s \<in> set strings" for s
  proof -
    have "dep_id s \<in> refs r" using r(2) that by simp
    then have "dep_id s \<in> dep_id ` set (snd st)"
      using refs_before_subset [of dep_id refs "snd st" r] \<open>r \<in> set (snd st)\<close> inv
      by (auto simp: deps_inv_def split: prod.splits)
    moreover have "set (snd st) \<subseteq> universe" using inv by (auto simp: deps_inv_def)
    ultimately show ?thesis using strings that inj by (auto dest: inj_onD)
  qed
  ultimately show ?thesis using True inv by (auto simp: abs_described_def split: prod.splits)
next
  case False
  obtain recorded ds where st: "st = (recorded, ds)" by fastforce
  let ?mid = "fold (abs_new dep_id) strings (insert (dep_id r) recorded, ds)"
  have "deps_inv dep_id refs universe {dep_id r} (insert (dep_id r) recorded, ds)"
    using inv st by (auto simp: deps_inv_def)
  then have mid: "deps_inv dep_id refs universe {dep_id r} ?mid \<and> set strings \<subseteq> set (snd ?mid)
      \<and> set ds \<subseteq> set (snd ?mid)"
    using abs_new_fold_inv [OF _ inj, of refs "{dep_id r}" "(insert (dep_id r) recorded, ds)" strings] strings
    by auto
  obtain recorded' ds' where m: "?mid = (recorded', ds')" by fastforce
  have fresh: "dep_id r \<notin> dep_id ` set ds'"
  proof
    assume "dep_id r \<in> dep_id ` set ds'"
    then have "r \<in> set ds'" using mid m r(1) inj by (auto simp: deps_inv_def dest: inj_onD)
    moreover have "set ds' \<subseteq> set ds \<union> set strings"
      using abs_new_fold_set [of dep_id strings "(insert (dep_id r) recorded, ds)"] by (simp add: m)
    ultimately show False using False strings inv st by (auto simp: deps_inv_def)
  qed
  have "refs r \<subseteq> dep_id ` set ds'" using r(2) mid m by fastforce
  with fresh mid m r(1) have "deps_inv dep_id refs universe {} (recorded', ds' @ [r])"
    by (auto simp: deps_inv_def)
  with mid m False st show ?thesis by (auto simp: abs_described_def)
qed

section \<open>What the reader gets\<close>

locale dependency_graph =
  fixes dep_id :: "'d \<Rightarrow> u64" and dep_denote :: "deps \<Rightarrow> 'd \<Rightarrow> Value" and refs :: "'d \<Rightarrow> u64 set"
  assumes denote_refs: "(\<And>k. k \<in> refs d \<Longrightarrow> h k = h' k) \<Longrightarrow> dep_denote h d = dep_denote h' d"
begin

lemma add_deps_closed:
  assumes "distinct (map dep_id ds)" and "refs_before dep_id refs ds" and "d \<in> set ds"
  shows "add_deps dep_id dep_denote ds Map.empty (dep_id d)
    = Some (dep_denote (add_deps dep_id dep_denote ds Map.empty) d)"
  using assms
proof (induction ds rule: rev_induct)
  case (snoc e ds)
  let ?h = "add_deps dep_id dep_denote ds Map.empty"
  let ?h' = "?h(dep_id e \<mapsto> dep_denote ?h e)"
  have old: "dep_denote ?h x = dep_denote ?h' x" if "refs x \<subseteq> dep_id ` set ds" for x
    using that snoc.prems(1) by (intro denote_refs) auto
  have step: "add_deps dep_id dep_denote (ds @ [e]) Map.empty = ?h'"
    by (simp only: add_deps_simps)
  have "?h' (dep_id d) = Some (dep_denote ?h' d)"
  proof (cases "d = e")
    case True
    have "?h' (dep_id e) = Some (dep_denote ?h e)" by simp
    then show ?thesis using snoc.prems(2) old [of e] True by simp
  next
    case False
    then have d: "d \<in> set ds" using snoc.prems(3) by simp
    have "refs d \<subseteq> dep_id ` set ds" using snoc.prems(2) d by (intro refs_before_subset) simp_all
    moreover have "?h' (dep_id d) = ?h (dep_id d)"
      using imageI [OF d, of dep_id] snoc.prems(1) by auto
    moreover have "?h (dep_id d) = Some (dep_denote ?h d)" using snoc d by simp
    ultimately show ?thesis using old [of d] by (simp del: fun_upd_apply)
  qed
  then show ?case by (simp only: step)
qed simp

lemma closed_of_inv:
  "deps_inv dep_id refs universe {} (recorded, ds) \<Longrightarrow> d \<in> set ds \<Longrightarrow>
     add_deps dep_id dep_denote ds Map.empty (dep_id d)
       = Some (dep_denote (add_deps dep_id dep_denote ds Map.empty) d)"
  by (rule add_deps_closed) (auto simp: deps_inv_def)

end

section \<open>From the queue to the list\<close>

definition deps_rel :: "(hqueue \<Rightarrow> 'd list \<Rightarrow> bool) \<Rightarrow> u64 set \<times> hqueue \<Rightarrow> u64 set \<times> 'd list \<Rightarrow> bool" where
  "deps_rel rep s t \<longleftrightarrow> fst s = fst t \<and> rep (snd s) (snd t)"

lemma record_new_simulates:
  assumes "deps_rel rep s t" and "\<And>q ds. rep q ds \<Longrightarrow> \<exists>q'. push_dep q = Inr q' \<and> rep q' (ds @ [d])"
  shows "\<exists>s'. record_new push_dep (dep_id d) s = Inr s' \<and> deps_rel rep s' (abs_new dep_id d t)"
proof (cases s)
  case (Pair recorded q)
  with assms(1) obtain ds where t: "t = (recorded, ds)" "rep q ds"
    by (cases t) (auto simp: deps_rel_def)
  obtain q' where "push_dep q = Inr q'" "rep q' (ds @ [d])" using assms(2) [OF t(2)] by blast
  with Pair t show ?thesis by (auto simp: record_new_def abs_new_def deps_rel_def)
qed

lemma record_described_simulates:
  assumes "deps_rel rep s t"
    and "\<And>s t. deps_rel rep s t \<Longrightarrow>
      \<exists>s'. record_strings s = Inr s' \<and> deps_rel rep s' (fold (abs_new dep_id) strings t)"
    and "\<And>q ds. rep q ds \<Longrightarrow> \<exists>q'. push_dep q = Inr q' \<and> rep q' (ds @ [r])"
  shows "\<exists>s'. record_described (dep_id r) record_strings push_dep s = Inr s'
    \<and> deps_rel rep s' (abs_described dep_id strings r t)"
proof (cases s)
  case (Pair recorded q)
  with assms(1) obtain ds where t: "t = (recorded, ds)" "rep q ds"
    by (cases t) (auto simp: deps_rel_def)
  obtain s1 where s1: "record_strings (insert (dep_id r) recorded, q) = Inr s1"
    "deps_rel rep s1 (fold (abs_new dep_id) strings (insert (dep_id r) recorded, ds))"
    using assms(2) [of "(insert (dep_id r) recorded, q)" "(insert (dep_id r) recorded, ds)"] t
    by (auto simp: deps_rel_def)
  obtain q1 where "push_dep (snd s1) = Inr q1"
    "rep q1 (snd (fold (abs_new dep_id) strings (insert (dep_id r) recorded, ds)) @ [r])"
    using assms(3) s1(2) unfolding deps_rel_def by blast
  with s1 Pair t show ?thesis
    by (auto simp: record_described_def abs_described_def deps_rel_def split: prod.splits)
qed

section \<open>Actions of an extraction\<close>

text \<open>
  What the extraction does for an event is a sequence of actions: record a string, or record a
  call site with its strings.
\<close>

datatype 'd action = New 'd | Described "'d list" 'd

fun run_action :: "('d \<Rightarrow> hqueue \<Rightarrow> hqueue res) \<Rightarrow> ('d \<Rightarrow> u64) \<Rightarrow> 'd action \<Rightarrow> u64 set \<times> hqueue \<Rightarrow> (u64 set \<times> hqueue) res" where
  "run_action push_dep dep_id (New d) = record_new (push_dep d) (dep_id d)"
| "run_action push_dep dep_id (Described strings r) =
     record_described (dep_id r) (fold_res (\<lambda>s. record_new (push_dep s) (dep_id s)) strings) (push_dep r)"

fun abs_action :: "('d \<Rightarrow> u64) \<Rightarrow> 'd action \<Rightarrow> u64 set \<times> 'd list \<Rightarrow> u64 set \<times> 'd list" where
  "abs_action dep_id (New d) = abs_new dep_id d"
| "abs_action dep_id (Described strings r) = abs_described dep_id strings r"

fun action_deps :: "'d action \<Rightarrow> 'd list" where
  "action_deps (New d) = [d]"
| "action_deps (Described strings r) = strings @ [r]"

fun action_ok :: "('d \<Rightarrow> u64) \<Rightarrow> ('d \<Rightarrow> u64 set) \<Rightarrow> 'd action \<Rightarrow> bool" where
  "action_ok dep_id refs (New d) = (refs d = {})"
| "action_ok dep_id refs (Described strings r) =
     (list_all (\<lambda>s. refs s = {} \<and> dep_id s \<noteq> dep_id r) strings \<and> refs r = dep_id ` set strings)"

text \<open>
  The addresses of a sequence of actions are consistent: an address means one dependency, and the
  address of a call site is not that of one of its strings.
\<close>

definition consistent_actions :: "('d \<Rightarrow> u64) \<Rightarrow> ('d \<Rightarrow> u64 set) \<Rightarrow> 'd action list \<Rightarrow> bool" where
  "consistent_actions dep_id refs as \<longleftrightarrow> inj_on dep_id (set (concat (map action_deps as)))
     \<and> list_all (action_ok dep_id refs) as"

lemma abs_action_inv:
  assumes "deps_inv dep_id refs universe {} st" and "inj_on dep_id universe"
    and "action_ok dep_id refs a" and "set (action_deps a) \<subseteq> universe"
  shows "deps_inv dep_id refs universe {} (abs_action dep_id a st)
    \<and> set (action_deps a) \<subseteq> set (snd (abs_action dep_id a st))
    \<and> set (snd st) \<subseteq> set (snd (abs_action dep_id a st))"
proof (cases a)
  case (New d)
  then show ?thesis using assms abs_new_inv [of dep_id refs universe "{}" st d] by simp
next
  case (Described strings r)
  then show ?thesis
    using assms abs_described_inv [of dep_id refs universe st strings r] by (auto simp: list_all_iff)
qed

lemma abs_actions_inv:
  assumes "deps_inv dep_id refs universe {} st" and "inj_on dep_id universe"
    and "list_all (action_ok dep_id refs) as" and "set (concat (map action_deps as)) \<subseteq> universe"
  shows "deps_inv dep_id refs universe {} (fold (abs_action dep_id) as st)
    \<and> set (concat (map action_deps as)) \<subseteq> set (snd (fold (abs_action dep_id) as st))
    \<and> set (snd st) \<subseteq> set (snd (fold (abs_action dep_id) as st))"
  using assms
proof (induction as arbitrary: st)
  case (Cons a as)
  then have "deps_inv dep_id refs universe {} (abs_action dep_id a st)
    \<and> set (action_deps a) \<subseteq> set (snd (abs_action dep_id a st))
    \<and> set (snd st) \<subseteq> set (snd (abs_action dep_id a st))"
    by (intro abs_action_inv) auto
  then show ?case using Cons.IH [of "abs_action dep_id a st"] Cons.prems by auto
qed simp

lemma run_action_simulates:
  assumes "deps_rel rep s t" and "list_all valid (action_deps a)"
    and push: "\<And>d q ds. valid d \<Longrightarrow> rep q ds \<Longrightarrow> \<exists>q'. push_dep d q = Inr q' \<and> rep q' (ds @ [d])"
  shows "\<exists>s'. run_action push_dep dep_id a s = Inr s' \<and> deps_rel rep s' (abs_action dep_id a t)"
proof (cases a)
  case (New d)
  then show ?thesis
    using assms(2) record_new_simulates [OF assms(1), of "push_dep d" d dep_id] push by simp
next
  case (Described strings r)
  have "\<exists>s'. fold_res (\<lambda>s. record_new (push_dep s) (dep_id s)) strings s = Inr s'
      \<and> deps_rel rep s' (fold (abs_new dep_id) strings t)" if "deps_rel rep s t" for s t
  proof (rule fold_res_simulates [where R = "deps_rel rep" and P = valid])
    show "deps_rel rep s t" by (rule that)
    show "list_all valid strings" using assms(2) Described by simp
    show "\<exists>s'. record_new (push_dep d) (dep_id d) s = Inr s' \<and> deps_rel rep s' (abs_new dep_id d t)"
      if "deps_rel rep s t" "valid d" for d s t
      using push that by (intro record_new_simulates) blast+
  qed
  moreover have "valid r" using assms(2) Described by simp
  ultimately show ?thesis
    using record_described_simulates [OF assms(1), where dep_id = dep_id and strings = strings and r = r] push Described
    by simp
qed

section \<open>Reading back a static string or a record\<close>

definition static_text :: "memory \<Rightarrow> u64 \<Rightarrow> nat \<Rightarrow> string" where
  "static_text mem p n = (case mem_slice mem p n of Inl _ \<Rightarrow> [] | Inr bs \<Rightarrow> string_of_bytes bs)"

definition StaticString_readable :: "memory \<Rightarrow> StaticString \<Rightarrow> bool" where
  "StaticString_readable mem s \<longleftrightarrow> StaticString_valid mem s
     \<and> (case mem_slice mem (ss_ptr s) (unat (ss_len s)) of Inl _ \<Rightarrow> False | Inr bs \<Rightarrow> is_utf8 bs)"

lemma u64_sub_8: "n < 2 ^ 63 \<Longrightarrow> unat (word_of_nat (8 + n) - 8 :: u64) = n"
  by (simp add: unat_of_nat)

lemma read_static_string_dependency:
  assumes "StaticString_readable mem s" and "StaticString_write_value mem s = Inr bs"
    and "udt_name udt = ''StaticString''"
  shows "read_dependency stack udts (pre @ bs @ post) udt (length pre) (length bs) hash
    = dep_insert hash (ss_ptr s) (VString (static_text mem (ss_ptr s) (unat (ss_len s))))"
proof -
  obtain sl where sl: "mem_slice mem (ss_ptr s) (unat (ss_len s)) = Inr sl" "is_utf8 sl"
    using assms(1) by (auto simp: StaticString_readable_def split: sum.splits)
  then have bs: "bs = write_u64 (ss_ptr s) @ sl"
    using assms(2) by (simp add: StaticString_write_value_def)
  have n: "length sl < 2 ^ 63"
    using mem_slice_length [OF sl(1)] unsigned_less [of "ss_len s", where 'a = nat] by simp
  have "read_bytes (length sl) ((pre @ write_u64 (ss_ptr s)) @ sl @ post) (length pre + 8) = Inr sl"
    by (rule read_bytes_at) simp_all
  moreover have "read_u64 (pre @ write_u64 (ss_ptr s) @ sl @ post) (length pre) = Inr (ss_ptr s)"
    by (rule read_int_at) simp
  ultimately show ?thesis
    using assms(3) sl u64_sub_8 [OF n]
    by (simp add: read_dependency_def Let_def bs from_utf8_def static_text_def)
qed

lemma read_record_dependency:
  assumes "layout_ok abi d" and "vals_ok abi d vals" and "fields_ok abi udts d" and "describes abi d udt"
    and "sd_name d \<notin> {''StaticString'', ''StaticStringDependency''}"
    and "sd_fields d = (''id'', Path ''u64'') # rest" and "vals = write_u64 key # vals'"
  shows "read_dependency (Suc (Suc stack)) udts (pre @ write_any abi d vals @ post) udt (length pre) n hash
    = dep_insert hash key (pod_object abi hash d vals)"
proof -
  have "0 < udt_size udt" using assms(1,4) by (simp add: layout_ok_def describes_def)
  then show ?thesis
    using parse_reflected [OF assms(1-4), of stack hash pre post] assms(4-7)
    by (simp add: read_dependency_def describes_def pod_object_def obj_get_def del: parse_pod_instance.simps)
qed

lemma deref_Some [simp]: "h k = Some v \<Longrightarrow> deref h k = v"
  by (simp add: deref_def)

text \<open>The text of a string of the process, and what the code requires of such a string.\<close>

definition str_text :: "memory \<Rightarrow> static_str \<Rightarrow> string" where
  "str_text mem s = static_text mem (str_ptr s) (str_len s)"

definition str_ok :: "memory \<Rightarrow> static_str \<Rightarrow> bool" where
  "str_ok mem s \<longleftrightarrow> str_len s + 8 < 2 ^ 32
     \<and> (case mem_slice mem (str_ptr s) (str_len s) of Inl _ \<Rightarrow> False | Inr bs \<Rightarrow> is_utf8 bs)"

lemma str_ok_readable:
  assumes "str_ok mem s"
  shows "StaticString_readable mem (StaticString_from_str s)"
    and "static_text mem (str_ptr s) (unat (word_of_nat (str_len s) :: u32)) = str_text mem s"
proof -
  have n: "unat (word_of_nat (str_len s) :: u32) = str_len s"
    using assms by (simp add: str_ok_def unat_of_nat)
  then show "static_text mem (str_ptr s) (unat (word_of_nat (str_len s) :: u32)) = str_text mem s"
    by (simp add: str_text_def)
  show "StaticString_readable mem (StaticString_from_str s)"
    using assms n
    by (auto simp: str_ok_def StaticString_readable_def StaticString_valid_def StaticString_from_str_def
        split: sum.splits)
qed

lemma StaticString_from_str_simps [simp]:
  "ss_ptr (StaticString_from_str s) = str_ptr s"
  "ss_len (StaticString_from_str s) = word_of_nat (str_len s)"
  by (simp_all add: StaticString_from_str_def)

end
