(* ===== verification/Stream_Info.thy ===== *)
theory Stream_Info
  imports Tracing_Strings "HOL-Library.Multiset"
begin

text \<open>
  The metadata that describes a stream to its readers (\<open>telemetry-sink/src/stream_info.rs\<close>,
  \<open>telemetry/src/stream_info.rs\<close>): the types that a queue contains, in the order of their type
  index, followed by the types of their members. The latter come out of a hash map, whose order is
  the parameter \<open>shuffle\<close>.
\<close>

text \<open>The secondary types, by name; an insertion replaces the type of that name.\<close>

type_synonym udt_map = "(string \<times> UserDefinedType) list"

definition udt_insert :: "string \<Rightarrow> UserDefinedType \<Rightarrow> udt_map \<Rightarrow> udt_map" where
  "udt_insert k v m = (k, v) # filter (\<lambda>(k', _). k' \<noteq> k) m"

fun extract_secondary_udts :: "UserDefinedType \<Rightarrow> udt_map \<Rightarrow> udt_map" where
  "extract_secondary_udts (UserDefinedType n s ms r secondary_udts) secondary_types =
     fold (\<lambda>secondary types. extract_secondary_udts secondary (udt_insert (udt_name secondary) secondary types))
       secondary_udts secondary_types"

definition flatten_metadata ::
  "(UserDefinedType list \<Rightarrow> UserDefinedType list) \<Rightarrow> UserDefinedType list \<Rightarrow> UserDefinedType list" where
  "flatten_metadata shuffle udts =
     udts @ shuffle (map snd (fold extract_secondary_udts udts []))"

text \<open>A reader sees the types without their secondary types, which are not serialized.\<close>

definition stream_metadata ::
  "(UserDefinedType list \<Rightarrow> UserDefinedType list) \<Rightarrow> UserDefinedType list \<Rightarrow> UserDefinedType list" where
  "stream_metadata shuffle udts = map strip_secondary (flatten_metadata shuffle udts)"

definition is_shuffle :: "('a list \<Rightarrow> 'a list) \<Rightarrow> bool" where
  "is_shuffle shuffle \<longleftrightarrow> (\<forall>xs. mset (shuffle xs) = mset xs)"

record StreamInfo =
  si_process_id :: uuid
  si_stream_id :: uuid
  si_dependencies_metadata :: "UserDefinedType list"
  si_objects_metadata :: "UserDefinedType list"
  si_tags :: "string list"
  si_properties :: "string \<rightharpoonup> string"

text \<open>The textual form of an identifier is the parameter \<open>uuid_to_string\<close>.\<close>

definition get_thread_name :: "(uuid \<Rightarrow> string) \<Rightarrow> StreamInfo \<Rightarrow> string" where
  "get_thread_name uuid_to_string s =
     (case si_properties s ''thread-name'' of
        Some name \<Rightarrow> name
      | None \<Rightarrow> (case si_properties s ''thread-id'' of
          Some name \<Rightarrow> name
        | None \<Rightarrow> uuid_to_string (si_stream_id s)))"

lemma stream_metadata_nth:
  "i < length udts \<Longrightarrow> stream_metadata shuffle udts ! i = strip_secondary (udts ! i)"
  "length udts \<le> length (stream_metadata shuffle udts)"
  by (simp_all add: stream_metadata_def flatten_metadata_def nth_append)

lemma describes_reflect_decl:
  "describes abi d (strip_secondary (reflect_decl abi reflect_of d))"
  by (simp add: describes_def reflect_decl_def)

lemma shuffle_single [simp]: "is_shuffle shuffle \<Longrightarrow> shuffle [x] = [x]"
  by (metis is_shuffle_def mset_single_iff_right)

lemma find_append: "find P (xs @ ys) = (case find P xs of None \<Rightarrow> find P ys | Some x \<Rightarrow> Some x)"
  by (induction xs) auto

lemma stream_metadata_finds_StringId:
  assumes "layout_ok abi StringId_decl" and "is_shuffle shuffle"
    and "list_all (\<lambda>u. udt_name u \<noteq> ''StringId'') udts"
    and "map snd (fold extract_secondary_udts udts []) = [StringId_reflect abi]"
  shows "finds_StringId abi (stream_metadata shuffle udts)"
proof -
  have "find (\<lambda>t. udt_name t = ''StringId'') (map strip_secondary udts) = None"
    using assms(3) by (auto simp: find_None_iff list_all_iff)
  then have "find (\<lambda>t. udt_name t = ''StringId'') (map strip_secondary udts @ [strip_secondary (StringId_reflect abi)])
      = Some (StringId_reflect abi)"
    by (simp add: find_append StringId_reflect_def strip_secondary_def)
  then show ?thesis
    using assms(1,2,4) by (simp add: finds_StringId_def stream_metadata_def flatten_metadata_def)
qed

end
