(* ===== verification/Event_Stream.thy ===== *)
theory Event_Stream
  imports Transit_Codec
begin

text \<open>
  Blocks and streams of events (\<open>event/block.rs\<close>, \<open>event/stream.rs\<close>). A stream holds the block that
  is being filled behind an atomic reference count, and the size above which that block is full.
  The time that \<open>DualTime::now()\<close> returns and the random identifiers are arguments of the
  operations. Sizes are machine words where the code subtracts them, so that a stream whose buffer
  is smaller than the reserve for one object gets the wrapped threshold of a release build.
\<close>

record DualTime =
  dt_ticks :: i64
  dt_time :: int

record 'b arc =
  arc_value :: 'b
  arc_strong :: nat

definition arc_new :: "'b \<Rightarrow> 'b arc" where
  "arc_new b = \<lparr>arc_value = b, arc_strong = 1\<rparr>"

definition arc_get_mut :: "'b arc \<Rightarrow> 'b option" where
  "arc_get_mut a = (if arc_strong a = 1 then Some (arc_value a) else None)"

definition arc_clone :: "'b arc \<Rightarrow> 'b arc" where
  "arc_clone a = a\<lparr>arc_strong := arc_strong a + 1\<rparr>"

definition arc_drop :: "'b arc \<Rightarrow> 'b arc" where
  "arc_drop a = a\<lparr>arc_strong := arc_strong a - 1\<rparr>"

section \<open>Blocks\<close>

record EventBlock =
  eb_process_id :: uuid
  eb_stream_id :: uuid
  eb_begin :: DualTime
  eb_events :: hqueue
  eb_end :: "DualTime option"
  eb_event_offset :: nat

definition EventBlock_new :: "vec_alloc \<Rightarrow> DualTime \<Rightarrow> nat \<Rightarrow> uuid \<Rightarrow> uuid \<Rightarrow> nat \<Rightarrow> EventBlock" where
  "EventBlock_new al now buffer_size process_id stream_id event_offset =
     \<lparr>eb_process_id = process_id, eb_stream_id = stream_id, eb_begin = now,
      eb_events = queue_new al buffer_size, eb_end = None, eb_event_offset = event_offset\<rparr>"

definition EventBlock_close :: "DualTime \<Rightarrow> EventBlock \<Rightarrow> EventBlock" where
  "EventBlock_close now b = b\<lparr>eb_end := Some now\<rparr>"

definition block_len_bytes :: "EventBlock \<Rightarrow> nat" where
  "block_len_bytes b = len_bytes (eb_events b)"

definition block_capacity_bytes :: "EventBlock \<Rightarrow> nat" where
  "block_capacity_bytes b = capacity_bytes (eb_events b)"

definition block_nb_objects :: "EventBlock \<Rightarrow> nat" where
  "block_nb_objects b = nb_objects (eb_events b)"

definition object_offset :: "EventBlock \<Rightarrow> nat" where
  "object_offset b = eb_event_offset b"

definition hint_max_obj_size :: nat where
  "hint_max_obj_size = 128"

section \<open>Streams\<close>

record StreamDesc =
  sde_stream_id :: uuid
  sde_process_id :: uuid
  sde_tags :: "string list"
  sde_properties :: "string \<rightharpoonup> string"

definition StreamDesc_new :: "uuid \<Rightarrow> uuid \<Rightarrow> string list \<Rightarrow> (string \<rightharpoonup> string) \<Rightarrow> StreamDesc" where
  "StreamDesc_new new_v4 process_id tags properties =
     \<lparr>sde_stream_id = new_v4, sde_process_id = process_id, sde_tags = tags, sde_properties = properties\<rparr>"

record EventStream =
  es_stream_desc :: StreamDesc
  es_current_block :: "EventBlock arc"
  es_full_threshold :: u64

definition EventStream_new ::
  "vec_alloc \<Rightarrow> uuid \<Rightarrow> DualTime \<Rightarrow> nat \<Rightarrow> uuid \<Rightarrow> string list \<Rightarrow> (string \<rightharpoonup> string) \<Rightarrow> EventStream" where
  "EventStream_new al new_v4 now buffer_size process_id tags properties =
     (let stream_desc = StreamDesc_new new_v4 process_id tags properties;
          block = arc_new (EventBlock_new al now buffer_size process_id (sde_stream_id stream_desc) 0) in
      \<lparr>es_stream_desc = stream_desc, es_current_block = block,
       es_full_threshold = word_of_nat buffer_size - word_of_nat hint_max_obj_size\<rparr>)"

definition stream_id :: "EventStream \<Rightarrow> uuid" where
  "stream_id s = sde_stream_id (es_stream_desc s)"

definition set_full :: "EventStream \<Rightarrow> EventStream" where
  "set_full s = s\<lparr>es_full_threshold := 0\<rparr>"

definition get_block_ref :: "EventStream \<Rightarrow> EventBlock" where
  "get_block_ref s = arc_value (es_current_block s)"

text \<open>The old block is cloned out, then overwriting the field drops the stream's own handle.\<close>

definition replace_block :: "EventBlock arc \<Rightarrow> EventStream \<Rightarrow> EventStream \<times> EventBlock arc" where
  "replace_block new_block s =
     (let old_block = arc_clone (es_current_block s);
          s' = s\<lparr>es_full_threshold := word_of_nat (block_capacity_bytes (arc_value new_block)) - word_of_nat hint_max_obj_size,
                 es_current_block := new_block\<rparr> in
      (s', arc_drop old_block))"

definition is_full :: "EventStream \<Rightarrow> bool" where
  "is_full s \<longleftrightarrow> block_len_bytes (get_block_ref s) > unat (es_full_threshold s)"

definition is_empty :: "EventStream \<Rightarrow> bool" where
  "is_empty s \<longleftrightarrow> block_len_bytes (get_block_ref s) = 0"

definition get_events_mut :: "EventStream \<Rightarrow> hqueue res" where
  "get_events_mut s = and_then (unwrap (arc_get_mut (es_current_block s))) (\<lambda>b. Inr (eb_events b))"

definition put_events :: "hqueue \<Rightarrow> EventStream \<Rightarrow> EventStream" where
  "put_events q s = s\<lparr>es_current_block := (es_current_block s)\<lparr>arc_value := (get_block_ref s)\<lparr>eb_events := q\<rparr>\<rparr>\<rparr>"

text \<open>\<open>stream.get_events_mut().push(event)\<close>\<close>

definition stream_push ::
  "vec_alloc \<Rightarrow> 'a InProcSerialize list \<Rightarrow> ('a \<Rightarrow> nat) \<Rightarrow> 'a \<Rightarrow> EventStream \<Rightarrow> EventStream res" where
  "stream_push al items type_index event s =
     and_then (get_events_mut s) (\<lambda>q.
     and_then (push al items type_index event q) (\<lambda>q'.
     Inr (put_events q' s)))"

text \<open>
  What the three flush functions of the dispatcher do to a stream: nothing when it is empty;
  otherwise a new block takes the place of the current one, which is closed and handed over.
\<close>

definition flush_stream ::
  "vec_alloc \<Rightarrow> DualTime \<Rightarrow> DualTime \<Rightarrow> nat \<Rightarrow> uuid \<Rightarrow> EventStream \<Rightarrow> (EventStream \<times> EventBlock option) res" where
  "flush_stream al begin_now end_now buffer_size process_id s =
     (if is_empty s then Inr (s, None)
      else let next_offset = object_offset (get_block_ref s) + block_nb_objects (get_block_ref s);
               new_block = arc_new (EventBlock_new al begin_now buffer_size process_id (stream_id s) next_offset);
               (s', old_block) = replace_block new_block s in
        if is_full s' then Inl (Panic ''assertion failed: !stream.is_full()'')
        else and_then (unwrap (arc_get_mut old_block)) (\<lambda>b. Inr (s', Some (EventBlock_close end_now b))))"

section \<open>Sequences of pushes\<close>

text \<open>
  A buffer size that the code can work with: room for one object of the expected size, and a
  capacity that fits a machine word.
\<close>

definition buffer_size_ok :: "vec_alloc \<Rightarrow> nat \<Rightarrow> bool" where
  "buffer_size_ok al n \<longleftrightarrow> 128 \<le> n \<and> n \<le> with_capacity al n \<and> with_capacity al n < 2 ^ 63"

text \<open>
  What the blocks \<open>bs\<close> that a sink received of a stream tell about the events \<open>vs\<close> that were pushed:
  each block can be read, none is empty, the offsets count the events before it, and read one after
  the other they are the first events, without gap or repetition. While the sink listens, the
  events that are missing are those of the current block.
\<close>

definition accounted ::
  "'a InProcSerialize list \<Rightarrow> bool \<Rightarrow> EventBlock list \<Rightarrow> 'a list \<Rightarrow> EventStream \<Rightarrow> bool" where
  "accounted items live bs vs s \<longleftrightarrow> (\<exists>vss rest.
     traverse (\<lambda>b. queue_iter items (eb_events b)) bs = Inr vss \<and> concat vss @ rest = vs \<and> [] \<notin> set vss
     \<and> (\<forall>i < length bs. eb_event_offset (bs ! i) = length (concat (take i vss)))
     \<and> (live \<longrightarrow> queue_iter items (eb_events (get_block_ref s)) = Inr rest))"

context hetero_queue
begin

text \<open>A stream whose current block holds the events \<open>vs\<close>, the first of which is number \<open>k\<close>.\<close>

definition stream_holds :: "nat \<Rightarrow> 'a list \<Rightarrow> EventStream \<Rightarrow> bool" where
  "stream_holds k vs s \<longleftrightarrow> arc_strong (es_current_block s) = 1
     \<and> represents (eb_events (get_block_ref s)) vs \<and> eb_event_offset (get_block_ref s) = k
     \<and> eb_end (get_block_ref s) = None"

lemma represents_empty_iff: "represents q vs \<Longrightarrow> len_bytes q = 0 \<longleftrightarrow> vs = []"
  by (auto simp: represents_def len_bytes_def encode_def)

lemma stream_holds_new: "stream_holds 0 [] (EventStream_new al u now n p tags props)"
  by (simp add: stream_holds_def EventStream_new_def Let_def get_block_ref_def arc_new_def
      EventBlock_new_def represents_new)

lemma stream_push_holds:
  assumes "stream_holds k vs s" and "valid v"
  shows "\<exists>s'. stream_push al items type_index v s = Inr s' \<and> stream_holds k (vs @ [v]) s'
    \<and> es_full_threshold s' = es_full_threshold s \<and> es_stream_desc s' = es_stream_desc s"
proof -
  obtain q' where "push al items type_index v (eb_events (get_block_ref s)) = Inr q'" "represents q' (vs @ [v])"
    using represents_push [of "eb_events (get_block_ref s)" vs v al] assms by (auto simp: stream_holds_def)
  then show ?thesis
    using assms(1)
    by (auto simp: stream_push_def get_events_mut_def arc_get_mut_def get_block_ref_def put_events_def stream_holds_def)
qed

lemma stream_holds_empty: "stream_holds k vs s \<Longrightarrow> is_empty s \<longleftrightarrow> vs = []"
  by (simp add: is_empty_def block_len_bytes_def stream_holds_def represents_empty_iff)

lemma stream_holds_set_full: "stream_holds k vs s \<Longrightarrow> stream_holds k vs (set_full s)"
  by (simp add: stream_holds_def set_full_def get_block_ref_def)

lemma flush_stream_empty:
  "stream_holds k [] s \<Longrightarrow> flush_stream al t1 t2 n p s = Inr (s, None)"
  by (simp add: flush_stream_def stream_holds_empty)

lemma flush_stream_block:
  assumes "stream_holds k vs s" and "vs \<noteq> []" and "buffer_size_ok al n"
  shows "\<exists>s' b. flush_stream al t1 t2 n p s = Inr (s', Some b) \<and> stream_holds (k + length vs) [] s'
    \<and> represents (eb_events b) vs \<and> eb_event_offset b = k \<and> eb_end b = Some t2 \<and> \<not> is_full s'
    \<and> es_stream_desc s' = es_stream_desc s \<and> eb_begin b = eb_begin (get_block_ref s)"
proof -
  have "\<not> is_empty s" using assms(1,2) by (simp add: stream_holds_empty)
  moreover have "block_nb_objects (get_block_ref s) = length vs"
    using assms(1) by (simp add: stream_holds_def block_nb_objects_def nb_objects_def represents_def)
  ultimately show ?thesis
    using assms(1,3)
    by (auto simp: flush_stream_def Let_def replace_block_def is_full_def get_block_ref_def arc_new_def arc_clone_def
        arc_drop_def arc_get_mut_def EventBlock_new_def block_len_bytes_def EventBlock_close_def stream_holds_def
        represents_new object_offset_def)
qed

text \<open>A stream that was declared full hands over its block at the next event.\<close>

lemma set_full_then_push:
  assumes "stream_holds k vs s" and "valid v" and "stream_push al items type_index v (set_full s) = Inr s'"
  shows "is_full s'"
proof -
  obtain s'' where "stream_push al items type_index v (set_full s) = Inr s''" "stream_holds k (vs @ [v]) s''"
    "es_full_threshold s'' = 0"
    using stream_push_holds [OF stream_holds_set_full [OF assms(1)] assms(2), of al]
    by (auto simp: set_full_def)
  with assms(3) show ?thesis
    using represents_empty_iff [of "eb_events (get_block_ref s')" "vs @ [v]"]
    by (simp add: is_full_def block_len_bytes_def stream_holds_def)
qed

text \<open>
  The blocks that a stream has handed over, in order: each starts where the one before it ended,
  none is empty, and together they hold the given events.
\<close>

fun handed_over :: "nat \<Rightarrow> EventBlock list \<Rightarrow> 'a list \<Rightarrow> bool" where
  "handed_over k [] vs = (vs = [])"
| "handed_over k (b # bs) vs = (\<exists>us ws. vs = us @ ws \<and> us \<noteq> [] \<and> represents (eb_events b) us
     \<and> eb_event_offset b = k \<and> eb_end b \<noteq> None \<and> handed_over (k + length us) bs ws)"

lemma handed_over_snoc:
  assumes "handed_over k bs us" and "represents (eb_events b) vs" and "vs \<noteq> []"
    and "eb_event_offset b = k + length us" and "eb_end b \<noteq> None"
  shows "handed_over k (bs @ [b]) (us @ vs)"
  using assms
proof (induction bs arbitrary: k us)
  case (Cons c cs)
  then obtain xs ws where split: "us = xs @ ws" "xs \<noteq> []" "represents (eb_events c) xs" "eb_event_offset c = k"
    "eb_end c \<noteq> None" "handed_over (k + length xs) cs ws" by auto
  have "handed_over (k + length xs) (cs @ [b]) (ws @ vs)"
    using Cons.IH [OF split(6)] Cons.prems split(1) by (simp add: add.assoc)
  with split show ?case by fastforce
qed auto

text \<open>The invariant of a stream with its history: \<open>vs\<close> are all the events pushed so far.\<close>

definition stream_history :: "EventBlock list \<Rightarrow> 'a list \<Rightarrow> EventStream \<Rightarrow> bool" where
  "stream_history bs vs s \<longleftrightarrow> (\<exists>us ws. vs = us @ ws \<and> handed_over 0 bs us \<and> stream_holds (length us) ws s)"

lemma stream_history_new: "stream_history [] [] (EventStream_new al u now n p tags props)"
  unfolding stream_history_def by (rule exI [of _ "[]"], rule exI [of _ "[]"]) (simp add: stream_holds_new)

lemma stream_history_push:
  assumes "stream_history bs vs s" and "valid v"
  shows "\<exists>s'. stream_push al items type_index v s = Inr s' \<and> stream_history bs (vs @ [v]) s'
    \<and> es_stream_desc s' = es_stream_desc s"
proof -
  obtain us ws where "vs = us @ ws" "handed_over 0 bs us" "stream_holds (length us) ws s"
    using assms(1) by (auto simp: stream_history_def)
  then show ?thesis
    using stream_push_holds [OF _ assms(2), of "length us" ws s al] by (fastforce simp: stream_history_def)
qed

lemma stream_history_set_full: "stream_history bs vs s \<Longrightarrow> stream_history bs vs (set_full s)"
  by (auto simp: stream_history_def intro: stream_holds_set_full)

lemma stream_history_flush:
  assumes "stream_history bs vs s" and "buffer_size_ok al n"
  shows "\<exists>s' ob. flush_stream al t1 t2 n p s = Inr (s', ob)
    \<and> stream_history (bs @ (case ob of None \<Rightarrow> [] | Some b \<Rightarrow> [b])) vs s' \<and> is_empty s'
    \<and> es_stream_desc s' = es_stream_desc s"
proof -
  obtain us ws where h: "vs = us @ ws" "handed_over 0 bs us" "stream_holds (length us) ws s"
    using assms(1) by (auto simp: stream_history_def)
  show ?thesis
  proof (cases "ws = []")
    case True
    then show ?thesis using h assms(1) flush_stream_empty by (auto simp: stream_holds_empty)
  next
    case False
    obtain s' b where f: "flush_stream al t1 t2 n p s = Inr (s', Some b)" "stream_holds (length us + length ws) [] s'"
      "represents (eb_events b) ws" "eb_event_offset b = length us" "eb_end b = Some t2"
      "es_stream_desc s' = es_stream_desc s"
      using flush_stream_block [OF h(3) False assms(2)] by blast
    have "handed_over 0 (bs @ [b]) (us @ ws)"
      by (rule handed_over_snoc [OF h(2) f(3) False]) (simp_all add: f)
    then have "stream_history (bs @ [b]) vs s'"
      unfolding stream_history_def using f(2) h(1) by (intro exI [of _ "us @ ws"] exI [of _ "[]"]) simp
    then show ?thesis using f by (auto simp: stream_holds_empty)
  qed
qed

lemma handed_over_valid: "handed_over k bs us \<Longrightarrow> list_all valid us"
proof (induction bs arbitrary: k us)
  case (Cons b bs)
  then show ?case by (auto simp: represents_def)
qed simp

lemma handed_over_append:
  "handed_over k (bs @ cs) us \<Longrightarrow> \<exists>us1 us2. us = us1 @ us2 \<and> handed_over k bs us1"
proof (induction bs arbitrary: k us)
  case (Cons b bs)
  then obtain xs ws where split: "us = xs @ ws" "xs \<noteq> []" "represents (eb_events b) xs" "eb_event_offset b = k"
    "eb_end b \<noteq> None" "handed_over (k + length xs) (bs @ cs) ws" by auto
  obtain us1 us2 where "ws = us1 @ us2" "handed_over (k + length xs) bs us1" using Cons.IH [OF split(6)] by blast
  then show ?case using split by (intro exI [of _ "xs @ us1"] exI [of _ us2]) auto
qed auto

text \<open>Reading the blocks back gives the events, and the offsets say where each block starts.\<close>

lemma handed_over_read:
  "handed_over k bs us \<Longrightarrow> \<exists>vss. traverse (\<lambda>b. queue_iter items (eb_events b)) bs = Inr vss
    \<and> concat vss = us \<and> [] \<notin> set vss \<and> length vss = length bs
    \<and> (\<forall>i < length bs. eb_event_offset (bs ! i) = k + length (concat (take i vss)))"
proof (induction bs arbitrary: k us)
  case (Cons b bs)
  then obtain xs ws where split: "us = xs @ ws" "xs \<noteq> []" "represents (eb_events b) xs" "eb_event_offset b = k"
    "handed_over (k + length xs) bs ws" by auto
  obtain vss where vss: "traverse (\<lambda>b. queue_iter items (eb_events b)) bs = Inr vss" "concat vss = ws" "[] \<notin> set vss"
    "length vss = length bs"
    "\<forall>i < length bs. eb_event_offset (bs ! i) = k + length xs + length (concat (take i vss))"
    using Cons.IH [OF split(5)] by auto
  show ?case
    by (rule exI [of _ "xs # vss"]) (use split vss in \<open>auto simp: represents_iter nth_Cons split: nat.splits\<close>)
qed simp

section \<open>What a sink receives of a stream\<close>

text \<open>
  The blocks \<open>bs\<close> that a sink has received of a stream to which \<open>vs\<close> were pushed: all that were
  handed over while the sink listens, and the first of them once it no longer does.
\<close>

definition delivers :: "bool \<Rightarrow> EventBlock list \<Rightarrow> 'a list \<Rightarrow> EventStream \<Rightarrow> bool" where
  "delivers live bs vs s \<longleftrightarrow> (\<exists>extra. stream_history (bs @ extra) vs s \<and> (live \<longrightarrow> extra = []))"

lemma delivers_new: "delivers live [] [] (EventStream_new al u now n p tags props)"
  unfolding delivers_def by (rule exI [of _ "[]"]) (simp add: stream_history_new)

lemma delivers_push:
  assumes "delivers live bs vs s" and "valid v"
  shows "\<exists>s'. stream_push al items type_index v s = Inr s' \<and> delivers live bs (vs @ [v]) s'"
  using assms stream_history_push [OF _ assms(2)] by (fastforce simp: delivers_def)

lemma delivers_set_full: "delivers live bs vs s \<Longrightarrow> delivers live bs vs (set_full s)"
  by (auto simp: delivers_def intro: stream_history_set_full)

lemma delivers_stop: "delivers live bs vs s \<Longrightarrow> delivers False bs vs s"
  by (auto simp: delivers_def)

lemma delivers_flush:
  assumes "delivers live bs vs s" and "buffer_size_ok al n"
  shows "\<exists>s' ob. flush_stream al t1 t2 n p s = Inr (s', ob) \<and> is_empty s'
    \<and> delivers live (bs @ (if live then case ob of None \<Rightarrow> [] | Some b \<Rightarrow> [b] else [])) vs s'"
proof -
  obtain extra where "stream_history (bs @ extra) vs s" "live \<longrightarrow> extra = []"
    using assms(1) by (auto simp: delivers_def)
  moreover obtain s' ob where "flush_stream al t1 t2 n p s = Inr (s', ob)" "is_empty s'"
    "stream_history ((bs @ extra) @ (case ob of None \<Rightarrow> [] | Some b \<Rightarrow> [b])) vs s'"
    using stream_history_flush [OF calculation(1) assms(2), of t1 t2 p] by blast
  ultimately show ?thesis by (intro exI [of _ s'] exI [of _ ob]) (auto simp: delivers_def)
qed

lemma delivers_read:
  assumes "delivers live bs vs s"
  shows "accounted items live bs vs s"
proof -
  obtain extra us ws where h: "vs = us @ ws" "handed_over 0 (bs @ extra) us" "stream_holds (length us) ws s"
    "live \<longrightarrow> extra = []"
    using assms by (auto simp: delivers_def stream_history_def)
  obtain us1 us2 where u: "us = us1 @ us2" "handed_over 0 bs us1" using handed_over_append [OF h(2)] by blast
  obtain vss where "traverse (\<lambda>b. queue_iter items (eb_events b)) bs = Inr vss" "concat vss = us1" "[] \<notin> set vss"
    "\<forall>i < length bs. eb_event_offset (bs ! i) = length (concat (take i vss))"
    using handed_over_read [OF u(2)] by auto
  moreover have "queue_iter items (eb_events (get_block_ref s)) = Inr ws"
    using h(3) by (auto simp: stream_holds_def represents_iter)
  moreover have "us2 = []" if "live"
  proof -
    have "handed_over 0 bs us" using h(2,4) that by simp
    then show ?thesis using handed_over_read [OF u(2)] handed_over_read [of 0 bs us] u(1) by auto
  qed
  ultimately show ?thesis
    unfolding accounted_def using h(1) u(1) by (intro exI [of _ vss] exI [of _ "us2 @ ws"]) auto
qed

text \<open>Once the stream is empty, a sink that listens has everything.\<close>

lemma delivers_empty:
  assumes "delivers True bs vs s" and "is_empty s"
  shows "\<exists>vss. traverse (\<lambda>b. queue_iter items (eb_events b)) bs = Inr vss \<and> concat vss = vs"
proof -
  obtain us ws where h: "vs = us @ ws" "handed_over 0 bs us" "stream_holds (length us) ws s"
    using assms(1) by (auto simp: delivers_def stream_history_def)
  then show ?thesis using handed_over_read [OF h(2)] stream_holds_empty [OF h(3)] assms(2) by auto
qed

lemma handed_over_blocks:
  "handed_over k bs us \<Longrightarrow> \<exists>uss. list_all2 (\<lambda>b. represents (eb_events b)) bs uss \<and> concat uss = us"
proof (induction bs arbitrary: k us)
  case (Cons b bs)
  then obtain xs ys where "us = xs @ ys" "represents (eb_events b) xs" "handed_over (k + length xs) bs ys" by auto
  moreover obtain yss where "list_all2 (\<lambda>b. represents (eb_events b)) bs yss" "concat yss = ys"
    using Cons.IH [OF calculation(3)] by blast
  ultimately show ?case by (intro exI [of _ "xs # yss"]) simp
qed simp

lemma delivers_blocks:
  assumes "delivers True bs vs s" and "is_empty s"
  shows "\<exists>vss. list_all2 (\<lambda>b. represents (eb_events b)) bs vss \<and> concat vss = vs"
proof -
  obtain us ws where h: "vs = us @ ws" "handed_over 0 bs us" "stream_holds (length us) ws s"
    using assms(1) by (auto simp: delivers_def stream_history_def)
  then show ?thesis using handed_over_blocks [OF h(2)] stream_holds_empty [OF h(3)] assms(2) by simp
qed

text \<open>The same, with the place of each block among the events.\<close>

lemma handed_over_offsets:
  "handed_over k bs us \<Longrightarrow> \<exists>uss. list_all2 (\<lambda>b. represents (eb_events b)) bs uss \<and> concat uss = us
    \<and> map eb_event_offset bs = map (\<lambda>i. k + length (concat (take i uss))) [0..<length bs]"
proof (induction bs arbitrary: k us)
  case (Cons b bs)
  then obtain xs ys where split: "us = xs @ ys" "represents (eb_events b) xs" "eb_event_offset b = k" "handed_over (k + length xs) bs ys" by auto
  obtain yss where "list_all2 (\<lambda>b. represents (eb_events b)) bs yss" "concat yss = ys"
    "map eb_event_offset bs = map (\<lambda>i. k + length xs + length (concat (take i yss))) [0..<length bs]"
    using Cons.IH [OF split(4)] by blast
  then show ?case using split
    by (intro exI [of _ "xs # yss"]) (simp add: upt_conv_Cons map_Suc_upt [symmetric] add.assoc del: upt_Suc)
qed simp

lemma delivers_offsets:
  assumes "delivers True bs vs s" and "is_empty s"
  shows "\<exists>vss. list_all2 (\<lambda>b. represents (eb_events b)) bs vss \<and> concat vss = vs
    \<and> map eb_event_offset bs = map (\<lambda>i. length (concat (take i vss))) [0..<length bs]"
proof -
  obtain us ws where h: "vs = us @ ws" "handed_over 0 bs us" "stream_holds (length us) ws s"
    using assms(1) by (auto simp: delivers_def stream_history_def)
  then show ?thesis using handed_over_offsets [OF h(2)] stream_holds_empty [OF h(3)] assms(2) by simp
qed

lemma delivers_push_full:
  assumes "delivers live bs vs s" and "valid v" and "stream_push al items type_index v s = Inr s'"
    and "es_full_threshold s = 0"
  shows "is_full s'"
proof -
  obtain k ws where "stream_holds k ws s" using assms(1) by (auto simp: delivers_def stream_history_def)
  moreover have "set_full s = s" using assms(4) by (simp add: set_full_def)
  ultimately show ?thesis using set_full_then_push [of k ws s v al s'] assms(2,3) by simp
qed

end

section \<open>Blocks carry the identifier of their stream\<close>

definition owns_block :: "EventStream \<Rightarrow> bool" where
  "owns_block s \<longleftrightarrow> eb_stream_id (get_block_ref s) = stream_id s"

lemma owns_block_new: "owns_block (EventStream_new al u now n p tags props)"
  and stream_id_new [simp]: "stream_id (EventStream_new al u now n p tags props) = u"
  by (simp_all add: owns_block_def EventStream_new_def Let_def get_block_ref_def stream_id_def EventBlock_new_def
      arc_new_def StreamDesc_new_def)

lemma owns_block_set_full: "owns_block s \<Longrightarrow> owns_block (set_full s)"
  and stream_id_set_full [simp]: "stream_id (set_full s) = stream_id s"
  by (simp_all add: owns_block_def set_full_def get_block_ref_def stream_id_def)

lemma owns_block_push:
  "stream_push al items type_index v s = Inr s' \<Longrightarrow> owns_block s \<Longrightarrow> owns_block s' \<and> stream_id s' = stream_id s"
  by (auto simp: stream_push_def and_then_eq_Inr put_events_def owns_block_def get_block_ref_def stream_id_def)

lemma owns_block_flush:
  assumes "flush_stream al t1 t2 n p s = Inr (s', ob)" and "owns_block s"
  shows "owns_block s' \<and> stream_id s' = stream_id s \<and> (\<forall>b. ob = Some b \<longrightarrow> eb_stream_id b = stream_id s)"
  using assms
  by (auto simp: flush_stream_def Let_def replace_block_def and_then_eq_Inr owns_block_def get_block_ref_def stream_id_def
      arc_new_def arc_clone_def arc_drop_def arc_get_mut_def EventBlock_new_def EventBlock_close_def unwrap_def
      split: if_splits option.splits)

end
