(* ===== verification/Block_Codec.thy ===== *)
theory Block_Codec
  imports Dependencies Stream_Info Event_Stream
begin

text \<open>
  The contract of a kind of block as a whole, from the events that are pushed to the values that
  the analytics side sees. The three kinds (logs, metrics, thread spans) are interpretations of
  \<open>block_codec\<close>; the lemma \<open>block_roundtrip\<close> is proved once for all of them: the extraction of the
  dependencies succeeds, the reader accepts them, and parsing the objects against them gives for
  every event its full meaning, with the strings and call sites that it refers to.
\<close>

lemma in_proc_serialize_mono:
  "in_proc_serialize ser valid \<Longrightarrow> (\<And>v. valid' v \<Longrightarrow> valid v) \<Longrightarrow> in_proc_serialize ser valid'"
  by (simp add: in_proc_serialize_def)

text \<open>A structure with string identifiers among its fields.\<close>

lemma pod_with_StringId:
  assumes "\<And>v. layout_ok abi StringId_decl \<Longrightarrow> vals_ok abi d (to_vals v)"
    and "\<And>v. layout_ok abi StringId_decl \<Longrightarrow> of_vals (to_vals v) = v"
  shows "in_proc_serialize (pod abi d to_vals of_vals) (\<lambda>v. layout_ok abi StringId_decl \<and> layout_ok abi d)"
proof (cases "layout_ok abi StringId_decl")
  case True
  then show ?thesis using pod_in_proc_serialize_if [of abi d to_vals of_vals] assms by simp
qed (simp add: in_proc_serialize_def)

lemma hetero_queue_mono:
  assumes "hetero_queue items type_index valid" and "\<And>v. valid' v \<Longrightarrow> valid v"
  shows "hetero_queue items type_index valid'"
proof (rule hetero_queue.intro)
  show "in_proc_serialize (items ! i) (\<lambda>v. valid' v \<and> type_index v = i)" if "i < length items" for i
    by (rule in_proc_serialize_mono [OF hetero_queue.item_ok [OF assms(1) that]]) (auto simp: assms(2))
  show "length items \<le> 256" by (rule hetero_queue.few_types [OF assms(1)])
  show "type_index v < length items" if "valid' v" for v
    by (rule hetero_queue.index_ok [OF assms(1) assms(2) [OF that]])
qed

locale block_codec =
  objects: parsed_queue items type_index valid udts stack denote +
  dependencies: deps_queue dep_items dep_type_index dep_valid dep_udts stack dep_id dep_denote +
  dependency_graph dep_id dep_denote refs
  for items :: "'a InProcSerialize list" and type_index valid udts stack denote
    and dep_items :: "'d InProcSerialize list" and dep_type_index dep_valid dep_udts dep_id dep_denote refs +
  fixes al :: vec_alloc and extract_deps :: "hqueue \<Rightarrow> hqueue res" and actions :: "'a \<Rightarrow> 'd action list"
    and meaning :: "'a \<Rightarrow> Value"
  assumes extract_runs: "queue_iter items q = Inr es \<Longrightarrow> list_all valid es \<Longrightarrow>
      extract_deps q = and_then (fold_res (run_action (push al dep_items dep_type_index) dep_id)
        (concat (map actions es)) ({}, queue_new al (1024 * 1024))) (\<lambda>(_, deps). Inr deps)"
    and actions_ok: "valid e \<Longrightarrow> list_all (\<lambda>a. list_all dep_valid (action_deps a)) (actions e)"
    and denote_meaning: "valid e \<Longrightarrow>
      (\<And>a d. a \<in> set (actions e) \<Longrightarrow> d \<in> set (action_deps a) \<Longrightarrow> h (dep_id d) = Some (dep_denote h d)) \<Longrightarrow>
      denote h e = meaning e"
begin

lemma extract_represents:
  assumes "objects.represents q es"
  shows "\<exists>dq. extract_deps q = Inr dq
    \<and> dependencies.represents dq (snd (fold (abs_action dep_id) (concat (map actions es)) ({}, [])))"
proof -
  have es: "list_all valid es" using assms by (simp add: objects.represents_def)
  have "\<exists>s. fold_res (run_action (push al dep_items dep_type_index) dep_id)
        (concat (map actions es)) ({}, queue_new al (1024 * 1024)) = Inr s
      \<and> deps_rel dependencies.represents s (fold (abs_action dep_id) (concat (map actions es)) ({}, []))"
  proof (rule fold_res_simulates [where R = "deps_rel dependencies.represents"
        and P = "\<lambda>a. list_all dep_valid (action_deps a)"])
    show "deps_rel dependencies.represents ({}, queue_new al (1024 * 1024)) ({}, [])"
      by (simp add: deps_rel_def dependencies.represents_new)
    show "list_all (\<lambda>a. list_all dep_valid (action_deps a)) (concat (map actions es))"
      using es actions_ok by (auto simp: list_all_iff)
    show "\<exists>s'. run_action (push al dep_items dep_type_index) dep_id a s = Inr s'
        \<and> deps_rel dependencies.represents s' (abs_action dep_id a t)"
      if "deps_rel dependencies.represents s t" "list_all dep_valid (action_deps a)" for a s t
      by (rule run_action_simulates [OF that]) (use dependencies.represents_push in blast)
  qed
  then show ?thesis
    using extract_runs [OF objects.represents_iter [OF assms] es]
    by (auto simp: deps_rel_def split: prod.splits)
qed

lemma abs_actions_closed:
  assumes "consistent_actions dep_id refs (concat (map actions es))"
  defines "ds \<equiv> snd (fold (abs_action dep_id) (concat (map actions es)) ({}, []))"
  shows "distinct (map dep_id ds)"
    and "e \<in> set es \<Longrightarrow> a \<in> set (actions e) \<Longrightarrow> d \<in> set (action_deps a) \<Longrightarrow>
      add_deps dep_id dep_denote ds Map.empty (dep_id d)
        = Some (dep_denote (add_deps dep_id dep_denote ds Map.empty) d)"
proof -
  let ?as = "concat (map actions es)"
  let ?U = "set (concat (map action_deps ?as))"
  have inj: "inj_on dep_id ?U" and ok: "list_all (action_ok dep_id refs) ?as"
    using assms(1) by (simp_all add: consistent_actions_def)
  have "deps_inv dep_id refs ?U {} ({}, [])" by (simp add: deps_inv_def)
  from abs_actions_inv [OF this inj ok subset_refl]
  have inv: "deps_inv dep_id refs ?U {} (fold (abs_action dep_id) ?as ({}, []))"
    and all: "set (concat (map action_deps ?as)) \<subseteq> set ds" by (simp_all add: ds_def)
  then show "distinct (map dep_id ds)" by (auto simp: deps_inv_def ds_def split: prod.splits)
  have before: "refs_before dep_id refs ds"
    using inv by (auto simp: deps_inv_def ds_def split: prod.splits)
  show "add_deps dep_id dep_denote ds Map.empty (dep_id d)
        = Some (dep_denote (add_deps dep_id dep_denote ds Map.empty) d)"
    if "e \<in> set es" "a \<in> set (actions e)" "d \<in> set (action_deps a)" for e a d
    using add_deps_closed [OF \<open>distinct (map dep_id ds)\<close> before] all that by force
qed

lemma block_roundtrip:
  assumes "objects.represents q es" and "consistent_actions dep_id refs (concat (map actions es))"
  shows "\<exists>dq h. extract_deps q = Inr dq \<and> read_dependencies stack dep_udts (q_buffer dq) = Inr h
    \<and> parse_object_buffer stack h udts (q_buffer q) f s = feed f s (map meaning es)"
proof -
  let ?ds = "snd (fold (abs_action dep_id) (concat (map actions es)) ({}, []))"
  let ?h = "add_deps dep_id dep_denote ?ds Map.empty"
  obtain dq where dq: "extract_deps q = Inr dq" "dependencies.represents dq ?ds"
    using extract_represents [OF assms(1)] by blast
  have "read_dependencies stack dep_udts (q_buffer dq) = Inr ?h"
    by (rule dependencies.read_dependencies_represents [OF dq(2) abs_actions_closed(1) [OF assms(2)]])
  moreover have "map (denote ?h) es = map meaning es"
  proof (rule map_cong [OF refl])
    fix e
    assume e: "e \<in> set es"
    then have "valid e" using assms(1) by (auto simp: objects.represents_def list_all_iff)
    then show "denote ?h e = meaning e"
      by (rule denote_meaning) (rule abs_actions_closed(2) [OF assms(2) e])
  qed
  ultimately show ?thesis
    using dq(1) objects.parse_represents [OF assms(1), of ?h f s] by metis
qed

lemma full_roundtrip:
  assumes "list_all valid es" and "consistent_actions dep_id refs (concat (map actions es))"
  shows "\<exists>q dq h. push_all al items type_index es (queue_new al n) = Inr q
    \<and> extract_deps q = Inr dq \<and> read_dependencies stack dep_udts (q_buffer dq) = Inr h
    \<and> parse_object_buffer stack h udts (q_buffer q) f s = feed f s (map meaning es)"
proof -
  obtain q where "push_all al items type_index es (queue_new al n) = Inr q" "objects.represents q ([] @ es)"
    using objects.represents_push_all [OF objects.represents_new [of al n] assms(1), of al] by blast
  then show ?thesis using block_roundtrip [OF _ assms(2), of q] by auto
qed

end

end
