(* ===== verification/Levels.thy ===== *)
theory Levels
  imports Prelude
begin

text \<open>
  The levels of the tracing crate (\<open>levels.rs\<close>): the severities of logs and the verbosities of
  metrics and spans, each with its filter type, their conversions, comparisons and names, and the
  two process-wide maxima. An implementation of \<open>PartialOrd\<close> is a record of its five methods;
  \<open>coherent_ord\<close> is the contract of that trait, and all eight implementations keep it.
\<close>

section \<open>Comparison\<close>

datatype ordering = Less | Equal | Greater

definition cmp_u32 :: "u32 \<Rightarrow> u32 \<Rightarrow> ordering" where
  "cmp_u32 a b = (if a < b then Less else if a = b then Equal else Greater)"

record ('a, 'b) partial_ord =
  partial_cmp :: "'a \<Rightarrow> 'b \<Rightarrow> ordering option"
  po_lt :: "'a \<Rightarrow> 'b \<Rightarrow> bool"
  po_le :: "'a \<Rightarrow> 'b \<Rightarrow> bool"
  po_gt :: "'a \<Rightarrow> 'b \<Rightarrow> bool"
  po_ge :: "'a \<Rightarrow> 'b \<Rightarrow> bool"

locale coherent_ord =
  fixes d :: "('a, 'b) partial_ord"
  assumes total: "partial_cmp d a b \<noteq> None"
    and lt_iff: "po_lt d a b \<longleftrightarrow> partial_cmp d a b = Some Less"
    and le_iff: "po_le d a b \<longleftrightarrow> partial_cmp d a b \<in> {Some Less, Some Equal}"
    and gt_iff: "po_gt d a b \<longleftrightarrow> partial_cmp d a b = Some Greater"
    and ge_iff: "po_ge d a b \<longleftrightarrow> partial_cmp d a b \<in> {Some Greater, Some Equal}"
begin

lemma not_le: "\<not> po_le d a b \<longleftrightarrow> po_gt d a b"
  using total [of a b] by (auto simp: le_iff gt_iff) (metis (full_types) ordering.exhaust)

lemma not_ge: "\<not> po_ge d a b \<longleftrightarrow> po_lt d a b"
  using total [of a b] by (auto simp: ge_iff lt_iff) (metis (full_types) ordering.exhaust)

end

section \<open>Names\<close>

definition to_ascii_lower :: "char \<Rightarrow> char" where
  "to_ascii_lower c = (let n = of_char c :: nat in if 65 \<le> n \<and> n \<le> 90 then char_of (n + 32) else c)"

definition eq_ignore_ascii_case :: "string \<Rightarrow> string \<Rightarrow> bool" where
  "eq_ignore_ascii_case a b = (map to_ascii_lower a = map to_ascii_lower b)"

fun position :: "('a \<Rightarrow> bool) \<Rightarrow> 'a list \<Rightarrow> nat option" where
  "position P [] = None"
| "position P (x # xs) = (if P x then Some 0 else map_option Suc (position P xs))"

definition index :: "'a list \<Rightarrow> nat \<Rightarrow> 'a res" where
  "index xs i = (if i < length xs then Inr (xs ! i) else Inl (Panic ''index out of bounds''))"

definition parse_level_error :: fault where
  "parse_level_error = Err ''ParseLevelError''"

definition ok_or :: "'t option \<Rightarrow> fault \<Rightarrow> 't res" where
  "ok_or t e = (case t of Some t \<Rightarrow> Inr t | None \<Rightarrow> Inl e)"

definition LEVEL_NAMES :: "string list" where
  "LEVEL_NAMES = [''OFF'', ''FATAL'', ''ERROR'', ''WARN'', ''INFO'', ''DEBUG'', ''TRACE'']"

definition LOD_NAMES :: "string list" where
  "LOD_NAMES = [''OFF'', ''LOW'', ''MED'', ''HIGH'']"

section \<open>Severities\<close>

datatype Level = Fatal | Error | Warn | Info | Debug | Trace

fun Level_as_u32 :: "Level \<Rightarrow> u32" where
  "Level_as_u32 Fatal = 1"
| "Level_as_u32 Error = 2"
| "Level_as_u32 Warn = 3"
| "Level_as_u32 Info = 4"
| "Level_as_u32 Debug = 5"
| "Level_as_u32 Trace = 6"

definition Level_from_value :: "u32 \<Rightarrow> Level option" where
  "Level_from_value v =
     (if v = 1 then Some Fatal else if v = 2 then Some Error else if v = 3 then Some Warn
      else if v = 4 then Some Info else if v = 5 then Some Debug else if v = 6 then Some Trace
      else None)"

datatype LevelFilter = FilterOff | FilterFatal | FilterError | FilterWarn | FilterInfo | FilterDebug | FilterTrace

fun LevelFilter_as_u32 :: "LevelFilter \<Rightarrow> u32" where
  "LevelFilter_as_u32 FilterOff = 0"
| "LevelFilter_as_u32 FilterFatal = 1"
| "LevelFilter_as_u32 FilterError = 2"
| "LevelFilter_as_u32 FilterWarn = 3"
| "LevelFilter_as_u32 FilterInfo = 4"
| "LevelFilter_as_u32 FilterDebug = 5"
| "LevelFilter_as_u32 FilterTrace = 6"

definition Level_eq_LevelFilter :: "Level \<Rightarrow> LevelFilter \<Rightarrow> bool" where
  "Level_eq_LevelFilter a b = (Level_as_u32 a = LevelFilter_as_u32 b)"

definition Level_cmp :: "Level \<Rightarrow> Level \<Rightarrow> ordering" where
  "Level_cmp a b = cmp_u32 (Level_as_u32 a) (Level_as_u32 b)"

definition Level_PartialOrd :: "(Level, Level) partial_ord" where
  "Level_PartialOrd =
     \<lparr>partial_cmp = (\<lambda>a b. Some (Level_cmp a b)),
      po_lt = (\<lambda>a b. Level_as_u32 a < Level_as_u32 b),
      po_le = (\<lambda>a b. Level_as_u32 a \<le> Level_as_u32 b),
      po_gt = (\<lambda>a b. Level_as_u32 a > Level_as_u32 b),
      po_ge = (\<lambda>a b. Level_as_u32 a \<ge> Level_as_u32 b)\<rparr>"

definition Level_PartialOrd_LevelFilter :: "(Level, LevelFilter) partial_ord" where
  "Level_PartialOrd_LevelFilter =
     \<lparr>partial_cmp = (\<lambda>a b. Some (cmp_u32 (Level_as_u32 a) (LevelFilter_as_u32 b))),
      po_lt = (\<lambda>a b. Level_as_u32 a < LevelFilter_as_u32 b),
      po_le = (\<lambda>a b. Level_as_u32 a \<le> LevelFilter_as_u32 b),
      po_gt = (\<lambda>a b. Level_as_u32 a > LevelFilter_as_u32 b),
      po_ge = (\<lambda>a b. Level_as_u32 a \<ge> LevelFilter_as_u32 b)\<rparr>"

definition Level_from_u32 :: "u32 \<Rightarrow> Level option" where
  "Level_from_u32 u =
     (if u = 1 then Some Fatal else if u = 2 then Some Error else if u = 3 then Some Warn
      else if u = 4 then Some Info else if u = 5 then Some Debug else if u = 6 then Some Trace
      else None)"

definition LevelFilter_from_u32 :: "u32 \<Rightarrow> LevelFilter option" where
  "LevelFilter_from_u32 u =
     (if u = 0 then Some FilterOff else if u = 1 then Some FilterFatal
      else if u = 2 then Some FilterError else if u = 3 then Some FilterWarn
      else if u = 4 then Some FilterInfo else if u = 5 then Some FilterDebug
      else if u = 6 then Some FilterTrace else None)"

definition Level_from_str :: "string \<Rightarrow> Level res" where
  "Level_from_str level =
     (case Option.bind (position (\<lambda>name. eq_ignore_ascii_case name level) LEVEL_NAMES)
             (\<lambda>idx. if idx \<noteq> 0 then Some idx else None) of
        None \<Rightarrow> ok_or None parse_level_error
      | Some idx \<Rightarrow> and_then (unwrap (Level_from_u32 (word_of_nat idx)))
          (\<lambda>l. ok_or (Some l) parse_level_error))"

definition Level_max :: Level where
  "Level_max = Trace"

definition Level_to_level_filter :: "Level \<Rightarrow> LevelFilter res" where
  "Level_to_level_filter l = unwrap (LevelFilter_from_u32 (Level_as_u32 l))"

definition Level_as_str :: "Level \<Rightarrow> string res" where
  "Level_as_str l = index LEVEL_NAMES (unat (Level_as_u32 l))"

definition Level_iter :: "Level list res" where
  "Level_iter = traverse (\<lambda>i. unwrap (Level_from_u32 (word_of_nat i))) [1..<7]"

definition LevelFilter_eq_Level :: "LevelFilter \<Rightarrow> Level \<Rightarrow> bool" where
  "LevelFilter_eq_Level a b = Level_eq_LevelFilter b a"

definition LevelFilter_cmp :: "LevelFilter \<Rightarrow> LevelFilter \<Rightarrow> ordering" where
  "LevelFilter_cmp a b = cmp_u32 (LevelFilter_as_u32 a) (LevelFilter_as_u32 b)"

definition LevelFilter_PartialOrd :: "(LevelFilter, LevelFilter) partial_ord" where
  "LevelFilter_PartialOrd =
     \<lparr>partial_cmp = (\<lambda>a b. Some (LevelFilter_cmp a b)),
      po_lt = (\<lambda>a b. LevelFilter_as_u32 a < LevelFilter_as_u32 b),
      po_le = (\<lambda>a b. LevelFilter_as_u32 a \<le> LevelFilter_as_u32 b),
      po_gt = (\<lambda>a b. LevelFilter_as_u32 a > LevelFilter_as_u32 b),
      po_ge = (\<lambda>a b. LevelFilter_as_u32 a \<ge> LevelFilter_as_u32 b)\<rparr>"

definition LevelFilter_PartialOrd_Level :: "(LevelFilter, Level) partial_ord" where
  "LevelFilter_PartialOrd_Level =
     \<lparr>partial_cmp = (\<lambda>a b. Some (cmp_u32 (LevelFilter_as_u32 a) (Level_as_u32 b))),
      po_lt = (\<lambda>a b. LevelFilter_as_u32 a < Level_as_u32 b),
      po_le = (\<lambda>a b. LevelFilter_as_u32 a \<le> Level_as_u32 b),
      po_gt = (\<lambda>a b. LevelFilter_as_u32 a > Level_as_u32 b),
      po_ge = (\<lambda>a b. LevelFilter_as_u32 a \<ge> Level_as_u32 b)\<rparr>"

definition LevelFilter_from_str :: "string \<Rightarrow> LevelFilter res" where
  "LevelFilter_from_str level =
     (case position (\<lambda>name. eq_ignore_ascii_case name level) LEVEL_NAMES of
        None \<Rightarrow> ok_or None parse_level_error
      | Some p \<Rightarrow> and_then (unwrap (LevelFilter_from_u32 (word_of_nat p)))
          (\<lambda>l. ok_or (Some l) parse_level_error))"

definition LevelFilter_max :: LevelFilter where
  "LevelFilter_max = FilterTrace"

definition LevelFilter_to_level :: "LevelFilter \<Rightarrow> Level option" where
  "LevelFilter_to_level f = Level_from_u32 (LevelFilter_as_u32 f)"

definition LevelFilter_as_str :: "LevelFilter \<Rightarrow> string res" where
  "LevelFilter_as_str f = index LEVEL_NAMES (unat (LevelFilter_as_u32 f))"

definition LevelFilter_iter :: "LevelFilter list res" where
  "LevelFilter_iter = traverse (\<lambda>i. unwrap (LevelFilter_from_u32 (word_of_nat i))) [0..<7]"

section \<open>Verbosities\<close>

datatype Verbosity = MinLod | MedLod | MaxLod

fun Verbosity_as_u32 :: "Verbosity \<Rightarrow> u32" where
  "Verbosity_as_u32 MinLod = 1"
| "Verbosity_as_u32 MedLod = 2"
| "Verbosity_as_u32 MaxLod = 3"

datatype LodFilter = LodOff | LodMin | LodMed | LodMax

fun LodFilter_as_u32 :: "LodFilter \<Rightarrow> u32" where
  "LodFilter_as_u32 LodOff = 0"
| "LodFilter_as_u32 LodMin = 1"
| "LodFilter_as_u32 LodMed = 2"
| "LodFilter_as_u32 LodMax = 3"

definition Verbosity_eq_LodFilter :: "Verbosity \<Rightarrow> LodFilter \<Rightarrow> bool" where
  "Verbosity_eq_LodFilter a b = (Verbosity_as_u32 a = LodFilter_as_u32 b)"

definition Verbosity_cmp :: "Verbosity \<Rightarrow> Verbosity \<Rightarrow> ordering" where
  "Verbosity_cmp a b = cmp_u32 (Verbosity_as_u32 a) (Verbosity_as_u32 b)"

definition Verbosity_PartialOrd :: "(Verbosity, Verbosity) partial_ord" where
  "Verbosity_PartialOrd =
     \<lparr>partial_cmp = (\<lambda>a b. Some (Verbosity_cmp a b)),
      po_lt = (\<lambda>a b. Verbosity_as_u32 a < Verbosity_as_u32 b),
      po_le = (\<lambda>a b. Verbosity_as_u32 a \<le> Verbosity_as_u32 b),
      po_gt = (\<lambda>a b. Verbosity_as_u32 a > Verbosity_as_u32 b),
      po_ge = (\<lambda>a b. Verbosity_as_u32 a \<ge> Verbosity_as_u32 b)\<rparr>"

definition Verbosity_PartialOrd_LodFilter :: "(Verbosity, LodFilter) partial_ord" where
  "Verbosity_PartialOrd_LodFilter =
     \<lparr>partial_cmp = (\<lambda>a b. Some (cmp_u32 (Verbosity_as_u32 a) (LodFilter_as_u32 b))),
      po_lt = (\<lambda>a b. Verbosity_as_u32 a < LodFilter_as_u32 b),
      po_le = (\<lambda>a b. Verbosity_as_u32 a \<le> LodFilter_as_u32 b),
      po_gt = (\<lambda>a b. Verbosity_as_u32 a > LodFilter_as_u32 b),
      po_ge = (\<lambda>a b. Verbosity_as_u32 a \<ge> LodFilter_as_u32 b)\<rparr>"

definition Verbosity_from_usize :: "nat \<Rightarrow> Verbosity option" where
  "Verbosity_from_usize u =
     (if u = 1 then Some MinLod else if u = 2 then Some MedLod else if u = 3 then Some MaxLod else None)"

definition Verbosity_from_u32 :: "u32 \<Rightarrow> Verbosity option" where
  "Verbosity_from_u32 u =
     (if u = 1 then Some MinLod else if u = 2 then Some MedLod else if u = 3 then Some MaxLod else None)"

definition Verbosity_from_str :: "string \<Rightarrow> Verbosity res" where
  "Verbosity_from_str level =
     (case Option.bind (position (\<lambda>name. eq_ignore_ascii_case name level) LOD_NAMES)
             (\<lambda>idx. if idx \<noteq> 0 then Some idx else None) of
        None \<Rightarrow> ok_or None parse_level_error
      | Some idx \<Rightarrow> and_then (unwrap (Verbosity_from_usize idx))
          (\<lambda>l. ok_or (Some l) parse_level_error))"

definition LodFilter_from_usize :: "nat \<Rightarrow> LodFilter option" where
  "LodFilter_from_usize u =
     (if u = 0 then Some LodOff else if u = 1 then Some LodMin else if u = 2 then Some LodMed
      else if u = 3 then Some LodMax else None)"

definition LodFilter_from_u32 :: "u32 \<Rightarrow> LodFilter option" where
  "LodFilter_from_u32 u =
     (if u = 0 then Some LodOff else if u = 1 then Some LodMin else if u = 2 then Some LodMed
      else if u = 3 then Some LodMax else None)"

definition Verbosity_max :: Verbosity where
  "Verbosity_max = MaxLod"

definition Verbosity_to_level_filter :: "Verbosity \<Rightarrow> LodFilter res" where
  "Verbosity_to_level_filter l = unwrap (LodFilter_from_u32 (Verbosity_as_u32 l))"

definition Verbosity_as_str :: "Verbosity \<Rightarrow> string res" where
  "Verbosity_as_str l = index LOD_NAMES (unat (Verbosity_as_u32 l))"

definition Verbosity_iter :: "Verbosity list res" where
  "Verbosity_iter = traverse (\<lambda>i. unwrap (Verbosity_from_usize i)) [1..<4]"

definition LodFilter_eq_Verbosity :: "LodFilter \<Rightarrow> Verbosity \<Rightarrow> bool" where
  "LodFilter_eq_Verbosity a b = Verbosity_eq_LodFilter b a"

definition LodFilter_cmp :: "LodFilter \<Rightarrow> LodFilter \<Rightarrow> ordering" where
  "LodFilter_cmp a b = cmp_u32 (LodFilter_as_u32 a) (LodFilter_as_u32 b)"

definition LodFilter_PartialOrd :: "(LodFilter, LodFilter) partial_ord" where
  "LodFilter_PartialOrd =
     \<lparr>partial_cmp = (\<lambda>a b. Some (LodFilter_cmp a b)),
      po_lt = (\<lambda>a b. LodFilter_as_u32 a < LodFilter_as_u32 b),
      po_le = (\<lambda>a b. LodFilter_as_u32 a \<le> LodFilter_as_u32 b),
      po_gt = (\<lambda>a b. LodFilter_as_u32 a > LodFilter_as_u32 b),
      po_ge = (\<lambda>a b. LodFilter_as_u32 a \<ge> LodFilter_as_u32 b)\<rparr>"

definition LodFilter_PartialOrd_Verbosity :: "(LodFilter, Verbosity) partial_ord" where
  "LodFilter_PartialOrd_Verbosity =
     \<lparr>partial_cmp = (\<lambda>a b. Some (cmp_u32 (LodFilter_as_u32 a) (Verbosity_as_u32 b))),
      po_lt = (\<lambda>a b. LodFilter_as_u32 a < Verbosity_as_u32 b),
      po_le = (\<lambda>a b. LodFilter_as_u32 a \<le> Verbosity_as_u32 b),
      po_gt = (\<lambda>a b. LodFilter_as_u32 a > Verbosity_as_u32 b),
      po_ge = (\<lambda>a b. LodFilter_as_u32 a \<ge> Verbosity_as_u32 b)\<rparr>"

definition LodFilter_from_str :: "string \<Rightarrow> LodFilter res" where
  "LodFilter_from_str level =
     (case position (\<lambda>name. eq_ignore_ascii_case name level) LOD_NAMES of
        None \<Rightarrow> ok_or None parse_level_error
      | Some p \<Rightarrow> and_then (unwrap (LodFilter_from_usize p))
          (\<lambda>l. ok_or (Some l) parse_level_error))"

definition LodFilter_max :: LodFilter where
  "LodFilter_max = LodMax"

definition LodFilter_to_level :: "LodFilter \<Rightarrow> Verbosity option" where
  "LodFilter_to_level f = Verbosity_from_u32 (LodFilter_as_u32 f)"

definition LodFilter_as_str :: "LodFilter \<Rightarrow> string res" where
  "LodFilter_as_str f = index LOD_NAMES (unat (LodFilter_as_u32 f))"

definition LodFilter_iter :: "LodFilter list res" where
  "LodFilter_iter = traverse (\<lambda>i. unwrap (LodFilter_from_usize i)) [0..<4]"

section \<open>The process-wide maxima\<close>

record maxima =
  MAX_LEVEL_FILTER :: u32
  MAX_LOD_FILTER :: u32

definition maxima_init :: maxima where
  "maxima_init = \<lparr>MAX_LEVEL_FILTER = 0, MAX_LOD_FILTER = 0\<rparr>"

text \<open>A transmute of an integer that is not a discriminant of the enumeration is undefined.\<close>

definition transmute :: "'a option \<Rightarrow> 'a res" where
  "transmute x = (case x of Some a \<Rightarrow> Inr a | None \<Rightarrow> Inl UB)"

definition set_max_level :: "LevelFilter \<Rightarrow> maxima \<Rightarrow> maxima" where
  "set_max_level level m = m\<lparr>MAX_LEVEL_FILTER := LevelFilter_as_u32 level\<rparr>"

definition max_level :: "maxima \<Rightarrow> LevelFilter res" where
  "max_level m = transmute (LevelFilter_from_u32 (MAX_LEVEL_FILTER m))"

definition set_max_lod :: "LodFilter \<Rightarrow> maxima \<Rightarrow> maxima" where
  "set_max_lod level m = m\<lparr>MAX_LOD_FILTER := LodFilter_as_u32 level\<rparr>"

definition max_lod :: "maxima \<Rightarrow> LodFilter res" where
  "max_lod m = transmute (LodFilter_from_u32 (MAX_LOD_FILTER m))"

text \<open>The static maxima, by the build's profile and features.\<close>

definition STATIC_MAX_LEVEL :: "bool \<Rightarrow> (string \<Rightarrow> bool) \<Rightarrow> LevelFilter" where
  "STATIC_MAX_LEVEL debug_assertions feature =
     (if \<not> debug_assertions \<and> feature ''release_max_level_off'' then FilterOff
      else if \<not> debug_assertions \<and> feature ''release_max_level_error'' then FilterError
      else if \<not> debug_assertions \<and> feature ''release_max_level_warn'' then FilterWarn
      else if \<not> debug_assertions \<and> feature ''release_max_level_info'' then FilterInfo
      else if \<not> debug_assertions \<and> feature ''release_max_level_debug'' then FilterDebug
      else if \<not> debug_assertions \<and> feature ''release_max_level_trace'' then FilterTrace
      else if feature ''max_level_off'' then FilterOff
      else if feature ''max_level_error'' then FilterError
      else if feature ''max_level_warn'' then FilterWarn
      else if feature ''max_level_info'' then FilterInfo
      else if feature ''max_level_debug'' then FilterDebug
      else FilterTrace)"

definition STATIC_MAX_LOD :: "bool \<Rightarrow> (string \<Rightarrow> bool) \<Rightarrow> LodFilter" where
  "STATIC_MAX_LOD debug_assertions feature =
     (if \<not> debug_assertions \<and> feature ''release_max_lod_off'' then LodOff
      else if \<not> debug_assertions \<and> feature ''release_max_lod_min'' then LodMin
      else if \<not> debug_assertions \<and> feature ''release_max_lod_med'' then LodMed
      else if \<not> debug_assertions \<and> feature ''release_max_lod_max'' then LodMax
      else if feature ''max_lod_off'' then LodOff
      else if feature ''max_lod_min'' then LodMin
      else if feature ''max_lod_med'' then LodMed
      else LodMax)"

section \<open>The contract of PartialOrd\<close>

lemmas partial_ord_defs = Level_PartialOrd_def Level_PartialOrd_LevelFilter_def
  LevelFilter_PartialOrd_def LevelFilter_PartialOrd_Level_def Verbosity_PartialOrd_def
  Verbosity_PartialOrd_LodFilter_def LodFilter_PartialOrd_def LodFilter_PartialOrd_Verbosity_def
  Level_cmp_def LevelFilter_cmp_def Verbosity_cmp_def LodFilter_cmp_def

lemma u32_coherent:
  "coherent_ord \<lparr>partial_cmp = (\<lambda>a b. Some (cmp_u32 (f a) (g b))),
     po_lt = (\<lambda>a b. f a < g b), po_le = (\<lambda>a b. f a \<le> g b),
     po_gt = (\<lambda>a b. f a > g b), po_ge = (\<lambda>a b. f a \<ge> g b)\<rparr>"
  by unfold_locales (auto simp: cmp_u32_def)

interpretation level_ord: coherent_ord Level_PartialOrd
  unfolding partial_ord_defs by (rule u32_coherent)

interpretation level_filter_ord: coherent_ord LevelFilter_PartialOrd
  unfolding partial_ord_defs by (rule u32_coherent)

interpretation level_to_filter_ord: coherent_ord Level_PartialOrd_LevelFilter
  unfolding partial_ord_defs by (rule u32_coherent)

interpretation filter_to_level_ord: coherent_ord LevelFilter_PartialOrd_Level
  unfolding partial_ord_defs by (rule u32_coherent)

interpretation verbosity_ord: coherent_ord Verbosity_PartialOrd
  unfolding partial_ord_defs by (rule u32_coherent)

interpretation lod_filter_ord: coherent_ord LodFilter_PartialOrd
  unfolding partial_ord_defs by (rule u32_coherent)

interpretation verbosity_to_lod_ord: coherent_ord Verbosity_PartialOrd_LodFilter
  unfolding partial_ord_defs by (rule u32_coherent)

interpretation lod_to_verbosity_ord: coherent_ord LodFilter_PartialOrd_Verbosity
  unfolding partial_ord_defs by (rule u32_coherent)

text \<open>The order of the enumerations themselves.\<close>

lemma Level_as_u32_inj: "Level_as_u32 a = Level_as_u32 b \<Longrightarrow> a = b"
  by (cases a; cases b) simp_all

lemma LevelFilter_as_u32_inj: "LevelFilter_as_u32 a = LevelFilter_as_u32 b \<Longrightarrow> a = b"
  by (cases a; cases b) simp_all

lemma LodFilter_as_u32_inj: "LodFilter_as_u32 a = LodFilter_as_u32 b \<Longrightarrow> a = b"
  by (cases a; cases b) simp_all

instantiation Level :: linorder
begin

definition less_eq_Level :: "Level \<Rightarrow> Level \<Rightarrow> bool" where
  "less_eq_Level = po_le Level_PartialOrd"

definition less_Level :: "Level \<Rightarrow> Level \<Rightarrow> bool" where
  "less_Level = po_lt Level_PartialOrd"

instance
  by standard (auto simp: less_eq_Level_def less_Level_def Level_PartialOrd_def Level_as_u32_inj)

end

instantiation LevelFilter :: linorder
begin

definition less_eq_LevelFilter :: "LevelFilter \<Rightarrow> LevelFilter \<Rightarrow> bool" where
  "less_eq_LevelFilter = po_le LevelFilter_PartialOrd"

definition less_LevelFilter :: "LevelFilter \<Rightarrow> LevelFilter \<Rightarrow> bool" where
  "less_LevelFilter = po_lt LevelFilter_PartialOrd"

instance
  by standard (auto simp: less_eq_LevelFilter_def less_LevelFilter_def LevelFilter_PartialOrd_def
      LevelFilter_as_u32_inj)

end

instantiation LodFilter :: linorder
begin

definition less_eq_LodFilter :: "LodFilter \<Rightarrow> LodFilter \<Rightarrow> bool" where
  "less_eq_LodFilter = po_le LodFilter_PartialOrd"

definition less_LodFilter :: "LodFilter \<Rightarrow> LodFilter \<Rightarrow> bool" where
  "less_LodFilter = po_lt LodFilter_PartialOrd"

instance
  by standard (auto simp: less_eq_LodFilter_def less_LodFilter_def LodFilter_PartialOrd_def
      LodFilter_as_u32_inj)

end

lemma LevelFilter_le_iff: "a \<le> b \<longleftrightarrow> LevelFilter_as_u32 a \<le> LevelFilter_as_u32 b"
  by (simp add: less_eq_LevelFilter_def LevelFilter_PartialOrd_def)

lemma LevelFilter_le_max [simp]: "f \<le> FilterTrace"
  by (cases f) (simp_all add: LevelFilter_le_iff)

section \<open>Conversions\<close>

lemma LevelFilter_from_as_u32 [simp]: "LevelFilter_from_u32 (LevelFilter_as_u32 f) = Some f"
  by (cases f) (simp_all add: LevelFilter_from_u32_def)

lemma LodFilter_from_as_u32 [simp]: "LodFilter_from_u32 (LodFilter_as_u32 f) = Some f"
  by (cases f) (simp_all add: LodFilter_from_u32_def)

lemma Level_from_as_u32 [simp]: "Level_from_u32 (Level_as_u32 l) = Some l"
  by (cases l) (simp_all add: Level_from_u32_def)

lemma Level_from_value_as_u32 [simp]: "Level_from_value (Level_as_u32 l) = Some l"
  by (cases l) (simp_all add: Level_from_value_def)

lemma Level_filter_key: "\<exists>f. Level_to_level_filter l = Inr f \<and> LevelFilter_as_u32 f = Level_as_u32 l"
  by (cases l) (simp_all add: Level_to_level_filter_def LevelFilter_from_u32_def)

section \<open>Parsing and printing\<close>

lemma lower_names:
  "map to_ascii_lower ''OFF'' = ''off''"
  "map to_ascii_lower ''FATAL'' = ''fatal''"
  "map to_ascii_lower ''ERROR'' = ''error''"
  "map to_ascii_lower ''WARN'' = ''warn''"
  "map to_ascii_lower ''INFO'' = ''info''"
  "map to_ascii_lower ''DEBUG'' = ''debug''"
  "map to_ascii_lower ''TRACE'' = ''trace''"
  "map to_ascii_lower ''LOW'' = ''low''"
  "map to_ascii_lower ''MED'' = ''med''"
  "map to_ascii_lower ''HIGH'' = ''high''"
  by code_simp+

lemma eq_ignore_names:
  "eq_ignore_ascii_case ''OFF'' s \<longleftrightarrow> map to_ascii_lower s = ''off''"
  "eq_ignore_ascii_case ''FATAL'' s \<longleftrightarrow> map to_ascii_lower s = ''fatal''"
  "eq_ignore_ascii_case ''ERROR'' s \<longleftrightarrow> map to_ascii_lower s = ''error''"
  "eq_ignore_ascii_case ''WARN'' s \<longleftrightarrow> map to_ascii_lower s = ''warn''"
  "eq_ignore_ascii_case ''INFO'' s \<longleftrightarrow> map to_ascii_lower s = ''info''"
  "eq_ignore_ascii_case ''DEBUG'' s \<longleftrightarrow> map to_ascii_lower s = ''debug''"
  "eq_ignore_ascii_case ''TRACE'' s \<longleftrightarrow> map to_ascii_lower s = ''trace''"
  "eq_ignore_ascii_case ''LOW'' s \<longleftrightarrow> map to_ascii_lower s = ''low''"
  "eq_ignore_ascii_case ''MED'' s \<longleftrightarrow> map to_ascii_lower s = ''med''"
  "eq_ignore_ascii_case ''HIGH'' s \<longleftrightarrow> map to_ascii_lower s = ''high''"
  unfolding eq_ignore_ascii_case_def lower_names by (rule eq_commute)+

lemma LevelFilter_from_str_cases:
  "LevelFilter_from_str s =
     (let t = map to_ascii_lower s in
      if t = ''off'' then Inr FilterOff else if t = ''fatal'' then Inr FilterFatal
      else if t = ''error'' then Inr FilterError else if t = ''warn'' then Inr FilterWarn
      else if t = ''info'' then Inr FilterInfo else if t = ''debug'' then Inr FilterDebug
      else if t = ''trace'' then Inr FilterTrace else Inl parse_level_error)"
  by (simp add: LevelFilter_from_str_def LEVEL_NAMES_def eq_ignore_names Let_def ok_or_def
      LevelFilter_from_u32_def)

lemma Level_from_str_cases:
  "Level_from_str s =
     (let t = map to_ascii_lower s in
      if t = ''fatal'' then Inr Fatal
      else if t = ''error'' then Inr Error else if t = ''warn'' then Inr Warn
      else if t = ''info'' then Inr Info else if t = ''debug'' then Inr Debug
      else if t = ''trace'' then Inr Trace else Inl parse_level_error)"
  by (simp add: Level_from_str_def LEVEL_NAMES_def eq_ignore_names Let_def ok_or_def
      Level_from_u32_def)

lemma LodFilter_from_str_cases:
  "LodFilter_from_str s =
     (let t = map to_ascii_lower s in
      if t = ''off'' then Inr LodOff else if t = ''low'' then Inr LodMin
      else if t = ''med'' then Inr LodMed else if t = ''high'' then Inr LodMax
      else Inl parse_level_error)"
  by (simp add: LodFilter_from_str_def LOD_NAMES_def eq_ignore_names Let_def ok_or_def
      LodFilter_from_usize_def)

lemma Verbosity_from_str_cases:
  "Verbosity_from_str s =
     (let t = map to_ascii_lower s in
      if t = ''low'' then Inr MinLod
      else if t = ''med'' then Inr MedLod else if t = ''high'' then Inr MaxLod
      else Inl parse_level_error)"
  by (simp add: Verbosity_from_str_def LOD_NAMES_def eq_ignore_names Let_def ok_or_def
      Verbosity_from_usize_def)

lemma Level_from_str_iff:
  "Level_from_str t = Inr l \<longleftrightarrow> (\<exists>s. Level_as_str l = Inr s \<and> eq_ignore_ascii_case s t)"
  by (cases l) (auto simp: Level_as_str_def index_def LEVEL_NAMES_def eq_ignore_names Level_from_str_cases Let_def)

lemma LevelFilter_from_str_iff:
  "LevelFilter_from_str t = Inr f \<longleftrightarrow> (\<exists>s. LevelFilter_as_str f = Inr s \<and> eq_ignore_ascii_case s t)"
  by (cases f) (auto simp: LevelFilter_as_str_def index_def LEVEL_NAMES_def eq_ignore_names LevelFilter_from_str_cases Let_def)

lemma Verbosity_from_str_iff:
  "Verbosity_from_str t = Inr v \<longleftrightarrow> (\<exists>s. Verbosity_as_str v = Inr s \<and> eq_ignore_ascii_case s t)"
  by (cases v) (auto simp: Verbosity_as_str_def index_def LOD_NAMES_def eq_ignore_names Verbosity_from_str_cases Let_def)

lemma LodFilter_from_str_iff:
  "LodFilter_from_str t = Inr g \<longleftrightarrow> (\<exists>s. LodFilter_as_str g = Inr s \<and> eq_ignore_ascii_case s t)"
  by (cases g) (auto simp: LodFilter_as_str_def index_def LOD_NAMES_def eq_ignore_names LodFilter_from_str_cases Let_def)

end
