(* ===== verification/Metrics.thy ===== *)
theory Metrics
  imports Block_Codec Levels
begin

text \<open>
  Metrics of the tracing crate (\<open>metrics/events.rs\<close>, \<open>metrics/block.rs\<close>): the two events, the
  record of a call site, the queues that hold them and the extraction of the dependencies of a
  block. A reference to a call site is the address of its \<open>MetricMetadata\<close>; the map \<open>descs\<close> holds
  the call sites of the process.
\<close>

section \<open>Events\<close>

record MetricMetadata =
  mm_lod :: Verbosity
  mm_name :: static_str
  mm_unit :: static_str
  mm_target :: static_str
  mm_module_path :: static_str
  mm_file :: static_str
  mm_line :: u32

record IntegerMetricEvent =
  ime_desc :: u64
  ime_value :: u64
  ime_time :: i64

record FloatMetricEvent =
  fme_desc :: u64
  fme_value :: u64
  fme_time :: i64

record MetricMetadataRecord =
  mr_id :: u64
  mr_name :: u64
  mr_unit :: u64
  mr_target :: u64
  mr_module_path :: u64
  mr_file :: u64
  mr_line :: u32
  mr_lod :: u32

definition IntegerMetricEvent_decl :: struct_decl where
  "IntegerMetricEvent_decl = \<lparr>sd_name = ''IntegerMetricEvent'',
     sd_fields = [(''desc'', Reference ''& MetricMetadata''), (''value'', Path ''u64''), (''time'', Path ''i64'')]\<rparr>"

definition FloatMetricEvent_decl :: struct_decl where
  "FloatMetricEvent_decl = \<lparr>sd_name = ''FloatMetricEvent'',
     sd_fields = [(''desc'', Reference ''& MetricMetadata''), (''value'', Path ''f64''), (''time'', Path ''i64'')]\<rparr>"

definition MetricMetadataRecord_decl :: struct_decl where
  "MetricMetadataRecord_decl = \<lparr>sd_name = ''MetricMetadataRecord'',
     sd_fields = [(''id'', Path ''u64''), (''name'', Ptr ''* const u8''), (''unit'', Ptr ''* const u8''),
       (''target'', Ptr ''* const u8''), (''module_path'', Ptr ''* const u8''), (''file'', Ptr ''* const u8''),
       (''line'', Path ''u32''), (''lod'', Path ''u32'')]\<rparr>"

definition IntegerMetricEvent_vals :: "IntegerMetricEvent \<Rightarrow> bytes list" where
  "IntegerMetricEvent_vals e = [write_u64 (ime_desc e), write_u64 (ime_value e), write_u64 (ime_time e)]"

definition IntegerMetricEvent_of :: "bytes list \<Rightarrow> IntegerMetricEvent" where
  "IntegerMetricEvent_of vs = \<lparr>ime_desc = word_of_bytes (vs ! 0), ime_value = word_of_bytes (vs ! 1),
     ime_time = word_of_bytes (vs ! 2)\<rparr>"

definition FloatMetricEvent_vals :: "FloatMetricEvent \<Rightarrow> bytes list" where
  "FloatMetricEvent_vals e = [write_u64 (fme_desc e), write_u64 (fme_value e), write_u64 (fme_time e)]"

definition FloatMetricEvent_of :: "bytes list \<Rightarrow> FloatMetricEvent" where
  "FloatMetricEvent_of vs = \<lparr>fme_desc = word_of_bytes (vs ! 0), fme_value = word_of_bytes (vs ! 1),
     fme_time = word_of_bytes (vs ! 2)\<rparr>"

definition MetricMetadataRecord_vals :: "MetricMetadataRecord \<Rightarrow> bytes list" where
  "MetricMetadataRecord_vals r =
     [write_u64 (mr_id r), write_u64 (mr_name r), write_u64 (mr_unit r), write_u64 (mr_target r),
      write_u64 (mr_module_path r), write_u64 (mr_file r), write_u32 (mr_line r), write_u32 (mr_lod r)]"

definition MetricMetadataRecord_of :: "bytes list \<Rightarrow> MetricMetadataRecord" where
  "MetricMetadataRecord_of vs =
     \<lparr>mr_id = word_of_bytes (vs ! 0), mr_name = word_of_bytes (vs ! 1), mr_unit = word_of_bytes (vs ! 2),
      mr_target = word_of_bytes (vs ! 3), mr_module_path = word_of_bytes (vs ! 4),
      mr_file = word_of_bytes (vs ! 5), mr_line = word_of_bytes (vs ! 6), mr_lod = word_of_bytes (vs ! 7)\<rparr>"

section \<open>Queues\<close>

datatype MetricsMsgQueueAny =
    IntegerMetricEvent (get_IntegerMetricEvent: IntegerMetricEvent)
  | FloatMetricEvent (get_FloatMetricEvent: FloatMetricEvent)

datatype MetricsDepsQueueAny =
    MetricsStaticString (get_MetricsStaticString: StaticString)
  | MetricMetadataRecord (get_MetricMetadataRecord: MetricMetadataRecord)

definition MetricsMsgQueue_items :: "abi \<Rightarrow> MetricsMsgQueueAny InProcSerialize list" where
  "MetricsMsgQueue_items abi =
     [variant IntegerMetricEvent get_IntegerMetricEvent
        (pod abi IntegerMetricEvent_decl IntegerMetricEvent_vals IntegerMetricEvent_of),
      variant FloatMetricEvent get_FloatMetricEvent
        (pod abi FloatMetricEvent_decl FloatMetricEvent_vals FloatMetricEvent_of)]"

fun MetricsMsgQueue_type_index :: "MetricsMsgQueueAny \<Rightarrow> nat" where
  "MetricsMsgQueue_type_index (IntegerMetricEvent _) = 0"
| "MetricsMsgQueue_type_index (FloatMetricEvent _) = 1"

definition MetricsMsgQueue_reflect_contained :: "abi \<Rightarrow> UserDefinedType list" where
  "MetricsMsgQueue_reflect_contained abi =
     [reflect_decl abi (\<lambda>_. StringId_reflect abi) IntegerMetricEvent_decl,
      reflect_decl abi (\<lambda>_. StringId_reflect abi) FloatMetricEvent_decl]"

definition MetricsDepsQueue_items :: "abi \<Rightarrow> memory \<Rightarrow> MetricsDepsQueueAny InProcSerialize list" where
  "MetricsDepsQueue_items abi mem =
     [variant MetricsStaticString get_MetricsStaticString (StaticString_serialize mem),
      variant MetricMetadataRecord get_MetricMetadataRecord
        (pod abi MetricMetadataRecord_decl MetricMetadataRecord_vals MetricMetadataRecord_of)]"

fun MetricsDepsQueue_type_index :: "MetricsDepsQueueAny \<Rightarrow> nat" where
  "MetricsDepsQueue_type_index (MetricsStaticString _) = 0"
| "MetricsDepsQueue_type_index (MetricMetadataRecord _) = 1"

definition MetricsDepsQueue_reflect_contained :: "abi \<Rightarrow> UserDefinedType list" where
  "MetricsDepsQueue_reflect_contained abi =
     [StaticString_reflect, reflect_decl abi (\<lambda>_. StringId_reflect abi) MetricMetadataRecord_decl]"

section \<open>Extraction of the dependencies\<close>

definition push_metric_dep ::
  "vec_alloc \<Rightarrow> abi \<Rightarrow> memory \<Rightarrow> MetricsDepsQueueAny \<Rightarrow> hqueue \<Rightarrow> hqueue res" where
  "push_metric_dep al abi mem = push al (MetricsDepsQueue_items abi mem) MetricsDepsQueue_type_index"

definition metric_record :: "u64 \<Rightarrow> MetricMetadata \<Rightarrow> MetricMetadataRecord" where
  "metric_record metric_ptr m =
     \<lparr>mr_id = metric_ptr, mr_name = str_ptr (mm_name m), mr_unit = str_ptr (mm_unit m),
      mr_target = str_ptr (mm_target m), mr_module_path = str_ptr (mm_module_path m),
      mr_file = str_ptr (mm_file m), mr_line = mm_line m, mr_lod = Verbosity_as_u32 (mm_lod m)\<rparr>"

definition record_metric_event_dependencies ::
  "vec_alloc \<Rightarrow> abi \<Rightarrow> memory \<Rightarrow> u64 \<Rightarrow> MetricMetadata \<Rightarrow> u64 set \<times> hqueue \<Rightarrow> (u64 set \<times> hqueue) res" where
  "record_metric_event_dependencies al abi mem metric_ptr m =
     record_described metric_ptr
       (fold_res (\<lambda>s. record_new (push_metric_dep al abi mem (MetricsStaticString (StaticString_from_str s))) (str_ptr s))
          [mm_name m, mm_unit m, mm_target m, mm_module_path m, mm_file m])
       (push_metric_dep al abi mem (MetricMetadataRecord (metric_record metric_ptr m)))"

fun metric_desc :: "MetricsMsgQueueAny \<Rightarrow> u64" where
  "metric_desc (IntegerMetricEvent evt) = ime_desc evt"
| "metric_desc (FloatMetricEvent evt) = fme_desc evt"

definition MetricsMsgQueue_extract ::
  "vec_alloc \<Rightarrow> abi \<Rightarrow> memory \<Rightarrow> (u64 \<rightharpoonup> MetricMetadata) \<Rightarrow> hqueue \<Rightarrow> hqueue res" where
  "MetricsMsgQueue_extract al abi mem descs q =
     and_then (queue_iter (MetricsMsgQueue_items abi) q) (\<lambda>events.
     and_then (fold_res (\<lambda>x st. case descs (metric_desc x) of
         None \<Rightarrow> Inl UB
       | Some m \<Rightarrow> record_metric_event_dependencies al abi mem (metric_desc x) m st)
       events ({}, queue_new al (1024 * 1024))) (\<lambda>(_, deps). Inr deps))"

section \<open>The contracts of the queues\<close>

lemmas metric_pod_defs = IntegerMetricEvent_decl_def IntegerMetricEvent_vals_def IntegerMetricEvent_of_def
  FloatMetricEvent_decl_def FloatMetricEvent_vals_def FloatMetricEvent_of_def
  MetricMetadataRecord_decl_def MetricMetadataRecord_vals_def MetricMetadataRecord_of_def

lemma metric_pods:
  "vals_ok abi IntegerMetricEvent_decl (IntegerMetricEvent_vals a)"
  "IntegerMetricEvent_of (IntegerMetricEvent_vals a) = a"
  "vals_ok abi FloatMetricEvent_decl (FloatMetricEvent_vals b)"
  "FloatMetricEvent_of (FloatMetricEvent_vals b) = b"
  "vals_ok abi MetricMetadataRecord_decl (MetricMetadataRecord_vals c)"
  "MetricMetadataRecord_of (MetricMetadataRecord_vals c) = c"
  by (simp_all add: vals_ok_def extents_def metric_pod_defs)

fun MetricsMsgQueue_decl :: "MetricsMsgQueueAny \<Rightarrow> struct_decl" where
  "MetricsMsgQueue_decl (IntegerMetricEvent _) = IntegerMetricEvent_decl"
| "MetricsMsgQueue_decl (FloatMetricEvent _) = FloatMetricEvent_decl"

fun MetricsMsgQueue_vals :: "MetricsMsgQueueAny \<Rightarrow> bytes list" where
  "MetricsMsgQueue_vals (IntegerMetricEvent e) = IntegerMetricEvent_vals e"
| "MetricsMsgQueue_vals (FloatMetricEvent e) = FloatMetricEvent_vals e"

definition MetricsMsgQueue_valid :: "abi \<Rightarrow> MetricsMsgQueueAny \<Rightarrow> bool" where
  "MetricsMsgQueue_valid abi v = layout_ok abi (MetricsMsgQueue_decl v)"

lemma MetricsMsgQueue_index_iff:
  "MetricsMsgQueue_type_index v = 0 \<longleftrightarrow> (\<exists>e. v = IntegerMetricEvent e)"
  "MetricsMsgQueue_type_index v = Suc 0 \<longleftrightarrow> (\<exists>e. v = FloatMetricEvent e)"
  by (cases v; simp)+

interpretation metrics_msg: hetero_queue "MetricsMsgQueue_items abi" MetricsMsgQueue_type_index
    "MetricsMsgQueue_valid abi" for abi
proof (rule hetero_queueI)
  show "MetricsMsgQueue_type_index v < length (MetricsMsgQueue_items abi)" for v
    by (cases v) (simp_all add: MetricsMsgQueue_items_def)
  show "list_all (\<lambda>(i, ser). in_proc_serialize ser
      (\<lambda>v. MetricsMsgQueue_valid abi v \<and> MetricsMsgQueue_type_index v = i)) (enumerate 0 (MetricsMsgQueue_items abi))"
    unfolding MetricsMsgQueue_items_def enumerate_simps list.pred_inject prod.case
    by (intro conjI variant_serialize [OF pod_in_proc_serialize_if])
      (auto simp: metric_pods MetricsMsgQueue_valid_def MetricsMsgQueue_index_iff)
qed (simp add: MetricsMsgQueue_items_def)

section \<open>Reading a block of metrics\<close>

definition MetricsMsgQueue_denote :: "abi \<Rightarrow> deps \<Rightarrow> MetricsMsgQueueAny \<Rightarrow> Value" where
  "MetricsMsgQueue_denote abi dependencies v =
     pod_object abi dependencies (MetricsMsgQueue_decl v) (MetricsMsgQueue_vals v)"

fun MetricsDepsQueue_dep_id :: "MetricsDepsQueueAny \<Rightarrow> u64" where
  "MetricsDepsQueue_dep_id (MetricsStaticString s) = ss_ptr s"
| "MetricsDepsQueue_dep_id (MetricMetadataRecord r) = mr_id r"

fun MetricsDepsQueue_denote :: "abi \<Rightarrow> memory \<Rightarrow> deps \<Rightarrow> MetricsDepsQueueAny \<Rightarrow> Value" where
  "MetricsDepsQueue_denote abi mem h (MetricsStaticString s) =
     VString (static_text mem (ss_ptr s) (unat (ss_len s)))"
| "MetricsDepsQueue_denote abi mem h (MetricMetadataRecord r) =
     pod_object abi h MetricMetadataRecord_decl (MetricMetadataRecord_vals r)"

fun MetricsDepsQueue_refs :: "MetricsDepsQueueAny \<Rightarrow> u64 set" where
  "MetricsDepsQueue_refs (MetricsStaticString s) = {}"
| "MetricsDepsQueue_refs (MetricMetadataRecord r) = {mr_name r, mr_unit r, mr_target r, mr_module_path r, mr_file r}"

definition metric_strings :: "MetricMetadata \<Rightarrow> static_str list" where
  "metric_strings m = [mm_name m, mm_unit m, mm_target m, mm_module_path m, mm_file m]"

definition metric_actions :: "(u64 \<rightharpoonup> MetricMetadata) \<Rightarrow> MetricsMsgQueueAny \<Rightarrow> MetricsDepsQueueAny action list" where
  "metric_actions descs e = (case descs (metric_desc e) of
     None \<Rightarrow> []
   | Some m \<Rightarrow> [Described (map (\<lambda>s. MetricsStaticString (StaticString_from_str s)) (metric_strings m))
       (MetricMetadataRecord (metric_record (metric_desc e) m))])"

text \<open>What an event means to a reader: its own fields and the call site with its texts.\<close>

definition metric_desc_meaning :: "memory \<Rightarrow> u64 \<Rightarrow> MetricMetadata \<Rightarrow> Value" where
  "metric_desc_meaning mem p m = VObject (Object ''MetricMetadataRecord''
     [(''id'', VU64 p), (''name'', VString (str_text mem (mm_name m))),
      (''unit'', VString (str_text mem (mm_unit m))), (''target'', VString (str_text mem (mm_target m))),
      (''module_path'', VString (str_text mem (mm_module_path m))),
      (''file'', VString (str_text mem (mm_file m))), (''line'', VU32 (mm_line m)),
      (''lod'', VU32 (Verbosity_as_u32 (mm_lod m)))])"

fun metric_meaning :: "memory \<Rightarrow> (u64 \<rightharpoonup> MetricMetadata) \<Rightarrow> MetricsMsgQueueAny \<Rightarrow> Value" where
  "metric_meaning mem descs (IntegerMetricEvent e) = VObject (Object ''IntegerMetricEvent''
     [(''desc'', metric_desc_meaning mem (ime_desc e) (the (descs (ime_desc e)))),
      (''value'', VU64 (ime_value e)), (''time'', VI64 (ime_time e))])"
| "metric_meaning mem descs (FloatMetricEvent e) = VObject (Object ''FloatMetricEvent''
     [(''desc'', metric_desc_meaning mem (fme_desc e) (the (descs (fme_desc e)))),
      (''value'', VF64 (fme_value e)), (''time'', VI64 (fme_time e))])"

definition MetricsDepsQueue_ready :: "abi \<Rightarrow> memory \<Rightarrow> UserDefinedType list \<Rightarrow> MetricsDepsQueueAny \<Rightarrow> bool" where
  "MetricsDepsQueue_ready abi mem dep_udts d \<longleftrightarrow> 2 \<le> length dep_udts \<and> (case d of
     MetricsStaticString s \<Rightarrow> StaticString_readable mem s \<and> udt_name (dep_udts ! 0) = ''StaticString''
       \<and> udt_size (dep_udts ! 0) = 0
   | MetricMetadataRecord r \<Rightarrow> layout_ok abi MetricMetadataRecord_decl
       \<and> describes abi MetricMetadataRecord_decl (dep_udts ! 1))"

definition MetricsMsgQueue_ready ::
  "abi \<Rightarrow> memory \<Rightarrow> (u64 \<rightharpoonup> MetricMetadata) \<Rightarrow> UserDefinedType list \<Rightarrow> UserDefinedType list \<Rightarrow> MetricsMsgQueueAny \<Rightarrow> bool" where
  "MetricsMsgQueue_ready abi mem descs udts dep_udts e \<longleftrightarrow> MetricsMsgQueue_valid abi e
     \<and> MetricsMsgQueue_type_index e < length udts
     \<and> describes abi (MetricsMsgQueue_decl e) (udts ! MetricsMsgQueue_type_index e)
     \<and> (\<exists>m. descs (metric_desc e) = Some m \<and> list_all (str_ok mem) (metric_strings m))
     \<and> list_all (\<lambda>a. list_all (MetricsDepsQueue_ready abi mem dep_udts) (action_deps a)) (metric_actions descs e)"

lemma MetricsDepsQueue_index_iff:
  "MetricsDepsQueue_type_index v = 0 \<longleftrightarrow> (\<exists>s. v = MetricsStaticString s)"
  "MetricsDepsQueue_type_index v = Suc 0 \<longleftrightarrow> (\<exists>r. v = MetricMetadataRecord r)"
  by (cases v; simp)+

lemma MetricsDepsQueue_hetero:
  "hetero_queue (MetricsDepsQueue_items abi mem) MetricsDepsQueue_type_index (MetricsDepsQueue_ready abi mem dep_udts)"
proof (rule hetero_queueI)
  show "MetricsDepsQueue_type_index v < length (MetricsDepsQueue_items abi mem)" for v
    by (cases v) (simp_all add: MetricsDepsQueue_items_def)
  show "list_all (\<lambda>(i, ser). in_proc_serialize ser
      (\<lambda>v. MetricsDepsQueue_ready abi mem dep_udts v \<and> MetricsDepsQueue_type_index v = i))
      (enumerate 0 (MetricsDepsQueue_items abi mem))"
    unfolding MetricsDepsQueue_items_def enumerate_simps list.pred_inject prod.case
    by (intro conjI variant_serialize [OF pod_in_proc_serialize_if]
        variant_serialize [OF static_string.in_proc_serialize_axioms])
      (auto simp: metric_pods MetricsDepsQueue_ready_def StaticString_readable_def MetricsDepsQueue_index_iff)
qed (simp add: MetricsDepsQueue_items_def)

lemma metric_fields_ok:
  "fields_ok abi udts (MetricsMsgQueue_decl e)" "fields_ok abi udts MetricMetadataRecord_decl"
  by (cases e) (auto simp: fields_ok_def metric_pod_defs)

lemma MetricsDepsQueue_reads:
  assumes "MetricsDepsQueue_ready abi mem dep_udts v"
    and "write_value (MetricsDepsQueue_items abi mem ! MetricsDepsQueue_type_index v) v = Inr bs"
  shows "read_dependency (Suc (Suc stack)) dep_udts (pre @ bs @ post) (dep_udts ! MetricsDepsQueue_type_index v)
      (length pre) (length bs) hash
    = dep_insert hash (MetricsDepsQueue_dep_id v) (MetricsDepsQueue_denote abi mem hash v)"
proof (cases v)
  case (MetricsStaticString s)
  then show ?thesis
    using assms read_static_string_dependency [of mem s bs "dep_udts ! 0"]
    by (simp add: MetricsDepsQueue_ready_def MetricsDepsQueue_items_def StaticString_serialize_def)
next
  case (MetricMetadataRecord r)
  have "bs = write_any abi MetricMetadataRecord_decl (MetricMetadataRecord_vals r)"
    using assms(2) MetricMetadataRecord by (simp add: MetricsDepsQueue_items_def)
  moreover have "layout_ok abi MetricMetadataRecord_decl" "describes abi MetricMetadataRecord_decl (dep_udts ! 1)"
    using assms(1) MetricMetadataRecord by (simp_all add: MetricsDepsQueue_ready_def)
  ultimately show ?thesis
    using read_record_dependency [OF _ metric_pods(5) [of abi r] metric_fields_ok(2), of "dep_udts ! 1"
        "tl (sd_fields MetricMetadataRecord_decl)" "mr_id r" "tl (MetricMetadataRecord_vals r)"]
    by (simp add: MetricMetadataRecord MetricMetadataRecord_decl_def MetricMetadataRecord_vals_def)
qed

interpretation metrics_graph: dependency_graph MetricsDepsQueue_dep_id "MetricsDepsQueue_denote abi mem"
    MetricsDepsQueue_refs for abi mem
proof
  show "MetricsDepsQueue_denote abi mem h d = MetricsDepsQueue_denote abi mem h' d"
    if "\<And>k. k \<in> MetricsDepsQueue_refs d \<Longrightarrow> h k = h' k" for d h h'
    using that
    by (cases d) (simp_all add: pod_object_def deref_def MetricMetadataRecord_decl_def MetricMetadataRecord_vals_def)
qed

lemma metric_record_id [simp]: "mr_id (metric_record p m) = p"
  by (simp add: metric_record_def)

lemma record_metric_action:
  "record_metric_event_dependencies al abi mem p m =
     run_action (push al (MetricsDepsQueue_items abi mem) MetricsDepsQueue_type_index) MetricsDepsQueue_dep_id
       (Described (map (\<lambda>s. MetricsStaticString (StaticString_from_str s)) (metric_strings m))
         (MetricMetadataRecord (metric_record p m)))"
  by (simp add: record_metric_event_dependencies_def metric_strings_def [symmetric] push_metric_dep_def fold_res_map)

lemma metric_extract_runs:
  assumes "queue_iter (MetricsMsgQueue_items abi) q = Inr es"
    and "list_all (\<lambda>e. \<exists>m. descs (metric_desc e) = Some m) es"
  shows "MetricsMsgQueue_extract al abi mem descs q =
    and_then (fold_res (run_action (push al (MetricsDepsQueue_items abi mem) MetricsDepsQueue_type_index) MetricsDepsQueue_dep_id)
      (concat (map (metric_actions descs) es)) ({}, queue_new al (1024 * 1024))) (\<lambda>(_, deps). Inr deps)"
proof -
  have "fold_res (\<lambda>x st. case descs (metric_desc x) of None \<Rightarrow> Inl UB
        | Some m \<Rightarrow> record_metric_event_dependencies al abi mem (metric_desc x) m st) es st
      = fold_res (run_action (push al (MetricsDepsQueue_items abi mem) MetricsDepsQueue_type_index) MetricsDepsQueue_dep_id)
          (concat (map (metric_actions descs) es)) st" for st
    using assms(2)
  proof (induction es arbitrary: st)
    case (Cons e es)
    then obtain m where "descs (metric_desc e) = Some m" by auto
    with Cons show ?case
      by (simp add: metric_actions_def record_metric_action del: run_action.simps)
        (auto intro!: and_then_cong)
  qed simp
  then show ?thesis by (simp add: MetricsMsgQueue_extract_def assms(1))
qed

lemma metric_denote_meaning:
  assumes "MetricsMsgQueue_ready abi mem descs udts dep_udts e"
    and "\<And>a d. a \<in> set (metric_actions descs e) \<Longrightarrow> d \<in> set (action_deps a) \<Longrightarrow>
      h (MetricsDepsQueue_dep_id d) = Some (MetricsDepsQueue_denote abi mem h d)"
  shows "MetricsMsgQueue_denote abi h e = metric_meaning mem descs e"
proof -
  obtain m where m: "descs (metric_desc e) = Some m" "list_all (str_ok mem) (metric_strings m)"
    using assms(1) by (auto simp: MetricsMsgQueue_ready_def)
  have "h (str_ptr s) = Some (VString (str_text mem s))" if "s \<in> set (metric_strings m)" for s
    using assms(2) [of "hd (metric_actions descs e)" "MetricsStaticString (StaticString_from_str s)"] that m
    by (auto simp: metric_actions_def str_ok_readable(2) list_all_iff)
  moreover have "h (metric_desc e) = Some (pod_object abi h MetricMetadataRecord_decl
      (MetricMetadataRecord_vals (metric_record (metric_desc e) m)))"
    using assms(2) [of "hd (metric_actions descs e)" "MetricMetadataRecord (metric_record (metric_desc e) m)"] m
    by (simp add: metric_actions_def metric_record_def)
  ultimately have "deref h (metric_desc e) = metric_desc_meaning mem (metric_desc e) m"
    by (simp add: metric_strings_def pod_object_def MetricMetadataRecord_decl_def
        MetricMetadataRecord_vals_def metric_record_def metric_desc_meaning_def)
  then show ?thesis
    using m by (cases e) (simp_all add: MetricsMsgQueue_denote_def pod_object_def metric_pod_defs)
qed

interpretation metrics_block: block_codec "MetricsMsgQueue_items abi" MetricsMsgQueue_type_index
    "MetricsMsgQueue_ready abi mem descs udts dep_udts" udts "Suc (Suc stack)" "MetricsMsgQueue_denote abi"
    "MetricsDepsQueue_items abi mem" MetricsDepsQueue_type_index "MetricsDepsQueue_ready abi mem dep_udts"
    dep_udts MetricsDepsQueue_dep_id "MetricsDepsQueue_denote abi mem" MetricsDepsQueue_refs
    al "MetricsMsgQueue_extract al abi mem descs" "metric_actions descs" "metric_meaning mem descs"
  for abi mem descs udts dep_udts stack al
proof (intro block_codec.intro parsed_queue.intro described_queue.intro deps_queue.intro
    metrics_graph.dependency_graph_axioms MetricsDepsQueue_hetero)
  show "hetero_queue (MetricsMsgQueue_items abi) MetricsMsgQueue_type_index
      (MetricsMsgQueue_ready abi mem descs udts dep_udts)"
    by (rule hetero_queue_mono [OF metrics_msg.hetero_queue_axioms]) (simp add: MetricsMsgQueue_ready_def)
  show "described_queue_axioms (MetricsMsgQueue_items abi) MetricsMsgQueue_type_index
      (MetricsMsgQueue_ready abi mem descs udts dep_udts) udts"
  proof
    fix v
    assume "MetricsMsgQueue_ready abi mem descs udts dep_udts v"
    then show "MetricsMsgQueue_type_index v < length udts
        \<and> udt_matches (udts ! MetricsMsgQueue_type_index v) (MetricsMsgQueue_items abi ! MetricsMsgQueue_type_index v)"
      by (cases v) (auto simp: MetricsMsgQueue_ready_def MetricsMsgQueue_valid_def udt_matches_def
          MetricsMsgQueue_items_def describes_def layout_ok_def)
  qed
  show "parsed_queue_axioms (MetricsMsgQueue_items abi) MetricsMsgQueue_type_index
      (MetricsMsgQueue_ready abi mem descs udts dep_udts) udts (Suc (Suc stack)) (MetricsMsgQueue_denote abi)"
  proof
    fix v bs dependencies pre post
    assume "MetricsMsgQueue_ready abi mem descs udts dep_udts v"
      and "write_value (MetricsMsgQueue_items abi ! MetricsMsgQueue_type_index v) v = Inr bs"
    then show "parse_instance (Suc (Suc stack)) (udts ! MetricsMsgQueue_type_index v) udts dependencies (length pre)
        (length bs) (pre @ bs @ post) = Inr (MetricsMsgQueue_denote abi dependencies v)"
      using parse_instance_reflected [OF _ _ metric_fields_ok(1), of abi v "MetricsMsgQueue_vals v"]
      by (cases v) (auto simp: MetricsMsgQueue_ready_def MetricsMsgQueue_valid_def MetricsMsgQueue_items_def
          MetricsMsgQueue_denote_def metric_pods)
  qed
  show "described_queue_axioms (MetricsDepsQueue_items abi mem) MetricsDepsQueue_type_index
      (MetricsDepsQueue_ready abi mem dep_udts) dep_udts"
  proof
    fix v
    assume "MetricsDepsQueue_ready abi mem dep_udts v"
    then show "MetricsDepsQueue_type_index v < length dep_udts
        \<and> udt_matches (dep_udts ! MetricsDepsQueue_type_index v) (MetricsDepsQueue_items abi mem ! MetricsDepsQueue_type_index v)"
      by (cases v) (auto simp: MetricsDepsQueue_ready_def udt_matches_def MetricsDepsQueue_items_def
          describes_def layout_ok_def StaticString_serialize_def)
  qed
  show "deps_queue_axioms (MetricsDepsQueue_items abi mem) MetricsDepsQueue_type_index
      (MetricsDepsQueue_ready abi mem dep_udts) dep_udts (Suc (Suc stack)) MetricsDepsQueue_dep_id
      (MetricsDepsQueue_denote abi mem)"
    by (rule deps_queue_axioms.intro) (rule MetricsDepsQueue_reads)
  show "block_codec_axioms (MetricsMsgQueue_items abi) (MetricsMsgQueue_ready abi mem descs udts dep_udts)
      (MetricsMsgQueue_denote abi) (MetricsDepsQueue_items abi mem) MetricsDepsQueue_type_index
      (MetricsDepsQueue_ready abi mem dep_udts) MetricsDepsQueue_dep_id (MetricsDepsQueue_denote abi mem)
      al (MetricsMsgQueue_extract al abi mem descs) (metric_actions descs) (metric_meaning mem descs)"
  proof (rule block_codec_axioms.intro, goal_cases)
    case (1 q es)
    show ?case
      by (rule metric_extract_runs [OF 1(1)]) (use 1(2) in \<open>auto simp: list_all_iff MetricsMsgQueue_ready_def\<close>)
  next
    case (2 e)
    then show ?case by (simp add: MetricsMsgQueue_ready_def)
  next
    case (3 e h)
    show ?case by (rule metric_denote_meaning [OF 3])
  qed
qed

lemma metric_ready:
  assumes "layout_ok abi IntegerMetricEvent_decl" and "layout_ok abi FloatMetricEvent_decl"
    and "layout_ok abi MetricMetadataRecord_decl"
    and "descs (metric_desc e) = Some m" and "list_all (str_ok mem) (metric_strings m)"
  shows "MetricsMsgQueue_ready abi mem descs (stream_metadata shuffle (MetricsMsgQueue_reflect_contained abi))
    (stream_metadata dep_shuffle (MetricsDepsQueue_reflect_contained abi)) e"
proof -
  let ?dep_udts = "stream_metadata dep_shuffle (MetricsDepsQueue_reflect_contained abi)"
  let ?udts = "stream_metadata shuffle (MetricsMsgQueue_reflect_contained abi)"
  have len: "2 \<le> length ?dep_udts" "2 \<le> length ?udts"
    using stream_metadata_nth(2) [of "MetricsDepsQueue_reflect_contained abi" dep_shuffle]
      stream_metadata_nth(2) [of "MetricsMsgQueue_reflect_contained abi" shuffle]
    by (simp_all add: MetricsDepsQueue_reflect_contained_def MetricsMsgQueue_reflect_contained_def)
  have "list_all (MetricsDepsQueue_ready abi mem ?dep_udts) (action_deps a)"
    if "a \<in> set (metric_actions descs e)" for a
    using that assms(3-5) len
    by (auto simp: metric_actions_def list_all_iff MetricsDepsQueue_ready_def str_ok_readable
        stream_metadata_nth MetricsDepsQueue_reflect_contained_def describes_reflect_decl
        StaticString_reflect_def custom_udt_def)
  moreover have "describes abi (MetricsMsgQueue_decl e) (?udts ! MetricsMsgQueue_type_index e)"
    by (cases e) (simp_all add: stream_metadata_nth MetricsMsgQueue_reflect_contained_def describes_reflect_decl)
  ultimately show ?thesis
    using assms len by (cases e) (auto simp: MetricsMsgQueue_ready_def MetricsMsgQueue_valid_def list_all_iff)
qed

end
