(* ===== verification/Log_Filter.thy ===== *)
theory Log_Filter
  imports Levels
begin

text \<open>
  The cached level filter of a log call site (\<open>LogMetadata::level_filter\<close> and
  \<open>LogMetadata::set_level_filter\<close> of \<open>logs/events.rs\<close>). One atomic word holds a filter in its low
  four bits and the generation of the configuration it comes from in its high sixteen bits. Threads
  update it with a compare-exchange loop; one pass of the loop is \<open>set_level_filter_step\<close>, and the
  threads of a process are the step relation \<open>filter_step\<close>.
\<close>

definition FILTER_LEVEL_UNSET_VALUE :: u32 where
  "FILTER_LEVEL_UNSET_VALUE = 0xF"

datatype FilterState = Outdated | NotSet | SetTo LevelFilter

definition generation_of :: "u32 \<Rightarrow> u16" where
  "generation_of w = ucast (drop_bit 16 w)"

definition level_filter :: "u16 \<Rightarrow> u32 \<Rightarrow> FilterState" where
  "level_filter generation w =
     (if generation > generation_of w then Outdated
      else case LevelFilter_from_u32 (w AND FILTER_LEVEL_UNSET_VALUE) of
          None \<Rightarrow> NotSet
        | Some f \<Rightarrow> SetTo f)"

definition filter_word :: "u16 \<Rightarrow> LevelFilter option \<Rightarrow> u32" where
  "filter_word generation lf =
     (case lf of None \<Rightarrow> FILTER_LEVEL_UNSET_VALUE | Some f \<Rightarrow> LevelFilter_as_u32 f)
       OR push_bit 16 (ucast generation)"

text \<open>
  Where a call of \<open>set_level_filter\<close> is: before its load, in the loop with the value it last saw,
  or returned. A step gives the new word and the new position.
\<close>

datatype filter_pc = Entry | Looping u32 | Returned

fun set_level_filter_step ::
  "u16 \<Rightarrow> LevelFilter option \<Rightarrow> u32 \<Rightarrow> filter_pc \<Rightarrow> u32 \<times> filter_pc" where
  "set_level_filter_step generation lf cell Entry =
     (if generation \<le> generation_of cell then (cell, Returned) else (cell, Looping cell))"
| "set_level_filter_step generation lf cell (Looping current) =
     (if cell = current then (filter_word generation lf, Returned)
      else if generation \<le> generation_of cell then (cell, Returned)
      else (cell, Looping cell))"
| "set_level_filter_step generation lf cell Returned = (cell, Returned)"

text \<open>A call that no other thread disturbs.\<close>

definition set_level_filter :: "u16 \<Rightarrow> LevelFilter option \<Rightarrow> u32 \<Rightarrow> u32" where
  "set_level_filter generation lf cell =
     (let (cell1, pc1) = set_level_filter_step generation lf cell Entry in
      fst (set_level_filter_step generation lf cell1 pc1))"

section \<open>The word\<close>

lemma filter_value_bits:
  "take_bit 4 (case lf of None \<Rightarrow> FILTER_LEVEL_UNSET_VALUE | Some f \<Rightarrow> LevelFilter_as_u32 f)
   = (case lf of None \<Rightarrow> FILTER_LEVEL_UNSET_VALUE | Some f \<Rightarrow> LevelFilter_as_u32 f)"
proof (cases lf)
  case None
  then show ?thesis by (simp add: FILTER_LEVEL_UNSET_VALUE_def)
next
  case (Some f)
  then show ?thesis by (cases f) simp_all
qed

lemma pack_generation:
  assumes "take_bit 4 (c :: u32) = c"
  shows "generation_of (c OR push_bit 16 (ucast g)) = g"
proof -
  have "\<not> bit c (n + 16)" for n
    by (subst assms [symmetric]) (simp add: bit_take_bit_iff)
  then show ?thesis
    by (auto simp: generation_of_def bit_eq_iff bit_simps add.commute)
qed

lemma pack_filter:
  assumes "take_bit 4 (c :: u32) = c"
  shows "(c OR push_bit 16 (ucast (g :: u16))) AND FILTER_LEVEL_UNSET_VALUE = c"
proof -
  have m: "FILTER_LEVEL_UNSET_VALUE = mask 4" by (simp add: FILTER_LEVEL_UNSET_VALUE_def mask_eq_exp_minus_1)
  have "take_bit 4 (c OR push_bit 16 (ucast g)) = take_bit 4 c"
    by (rule bit_eqI) (auto simp: bit_simps)
  then show ?thesis using assms by (simp add: m take_bit_eq_mask)
qed

lemma generation_filter_word [simp]: "generation_of (filter_word g lf) = g"
  unfolding filter_word_def by (rule pack_generation [OF filter_value_bits])

lemma level_filter_word:
  "level_filter g (filter_word g' lf) =
     (if g > g' then Outdated else case lf of None \<Rightarrow> NotSet | Some f \<Rightarrow> SetTo f)"
proof -
  have "filter_word g' lf AND FILTER_LEVEL_UNSET_VALUE
      = (case lf of None \<Rightarrow> FILTER_LEVEL_UNSET_VALUE | Some f \<Rightarrow> LevelFilter_as_u32 f)"
    unfolding filter_word_def by (rule pack_filter [OF filter_value_bits])
  moreover have "LevelFilter_from_u32 FILTER_LEVEL_UNSET_VALUE = None"
    by (simp add: LevelFilter_from_u32_def FILTER_LEVEL_UNSET_VALUE_def)
  ultimately show ?thesis by (auto simp: level_filter_def split: option.splits)
qed

lemma set_level_filter_eq:
  "set_level_filter g lf cell = (if g \<le> generation_of cell then cell else filter_word g lf)"
  by (simp add: set_level_filter_def Let_def)

section \<open>Threads\<close>

text \<open>
  A configuration is the word and the position of every thread; thread \<open>i\<close> sets the filter
  \<open>snd (call i)\<close> of the generation \<open>fst (call i)\<close>.
\<close>

type_synonym filter_config = "u32 \<times> (nat \<Rightarrow> filter_pc)"

inductive filter_step ::
  "(nat \<Rightarrow> u16 \<times> LevelFilter option) \<Rightarrow> filter_config \<Rightarrow> filter_config \<Rightarrow> bool"
  for call :: "nat \<Rightarrow> u16 \<times> LevelFilter option" where
  run: "set_level_filter_step (fst (call i)) (snd (call i)) cell (pcs i) = (cell', pc') \<Longrightarrow>
    filter_step call (cell, pcs) (cell', pcs(i := pc'))"

inductive filter_reach ::
  "(nat \<Rightarrow> u16 \<times> LevelFilter option) \<Rightarrow> u32 \<Rightarrow> filter_config \<Rightarrow> bool"
  for call :: "nat \<Rightarrow> u16 \<times> LevelFilter option" and cell0 :: u32 where
  init: "filter_reach call cell0 (cell0, \<lambda>_. Entry)"
| step: "filter_reach call cell0 c \<Longrightarrow> filter_step call c c' \<Longrightarrow> filter_reach call cell0 c'"

inductive_cases filter_stepE: "filter_step call (cell, pcs) (cell', pcs')"

definition filter_inv :: "(nat \<Rightarrow> u16 \<times> LevelFilter option) \<Rightarrow> u32 \<Rightarrow> filter_config \<Rightarrow> bool" where
  "filter_inv call cell0 c \<longleftrightarrow> (case c of (cell, pcs) \<Rightarrow>
     (\<forall>i. case pcs i of
        Entry \<Rightarrow> True
      | Looping current \<Rightarrow> generation_of current < fst (call i)
          \<and> (current = cell \<or> generation_of current < generation_of cell)
      | Returned \<Rightarrow> fst (call i) \<le> generation_of cell)
     \<and> (cell = cell0 \<or> (\<exists>i. pcs i = Returned \<and> cell = filter_word (fst (call i)) (snd (call i)))))"

lemma set_step_generation:
  assumes "set_level_filter_step g lf cell pc = (cell', pc')"
    and "\<And>current. pc = Looping current \<Longrightarrow> generation_of current < g"
  shows "cell' = cell \<or> (generation_of cell < generation_of cell' \<and> pc' = Returned \<and> cell' = filter_word g lf)"
  using assms by (cases pc) (auto split: if_splits)

lemma filter_inv_step:
  assumes "filter_inv call cell0 (cell, pcs)"
    and "set_level_filter_step (fst (call i)) (snd (call i)) cell (pcs i) = (cell', pc')"
  shows "filter_inv call cell0 (cell', pcs(i := pc'))"
proof -
  have loop: "generation_of current < fst (call i)" if "pcs i = Looping current" for current
    using assms(1) that by (auto simp: filter_inv_def split: filter_pc.splits)
  have other: "case pcs j of Entry \<Rightarrow> True
      | Looping current \<Rightarrow> generation_of current < fst (call j)
          \<and> (current = cell \<or> generation_of current < generation_of cell)
      | Returned \<Rightarrow> fst (call j) \<le> generation_of cell" for j
    using assms(1) by (auto simp: filter_inv_def)
  have origin: "cell = cell0 \<or> (\<exists>j. pcs j = Returned \<and> cell = filter_word (fst (call j)) (snd (call j)))"
    using assms(1) by (auto simp: filter_inv_def)
  from set_step_generation [OF assms(2) loop] consider
      (same) "cell' = cell"
    | (wrote) "generation_of cell < generation_of cell'" "pc' = Returned"
        "cell' = filter_word (fst (call i)) (snd (call i))" by blast
  then show ?thesis
  proof cases
    case same
    have "case pc' of Entry \<Rightarrow> True
      | Looping current \<Rightarrow> generation_of current < fst (call i)
          \<and> (current = cell \<or> generation_of current < generation_of cell)
      | Returned \<Rightarrow> fst (call i) \<le> generation_of cell"
      using assms(2) same other [of i] by (cases "pcs i") (auto split: if_splits)
    moreover have "cell = cell0 \<or> (\<exists>j. (pcs(i := pc')) j = Returned \<and> cell = filter_word (fst (call j)) (snd (call j)))"
      using origin assms(2) same by (cases "pcs i") (auto split: if_splits)
    ultimately show ?thesis using other same by (auto simp: filter_inv_def)
  next
    case wrote
    have "case pcs j of Entry \<Rightarrow> True
      | Looping current \<Rightarrow> generation_of current < fst (call j)
          \<and> (current = cell' \<or> generation_of current < generation_of cell')
      | Returned \<Rightarrow> fst (call j) \<le> generation_of cell'" for j
      using other [of j] wrote(1) by (auto split: filter_pc.splits)
    then show ?thesis using wrote(2,3) by (auto simp: filter_inv_def)
  qed
qed

lemma filter_reach_inv: "filter_reach call cell0 c \<Longrightarrow> filter_inv call cell0 c"
proof (induction rule: filter_reach.induct)
  case init
  show ?case by (simp add: filter_inv_def)
next
  case (step c c')
  then show ?case by (cases c; cases c') (auto elim!: filter_stepE intro: filter_inv_step)
qed

text \<open>
  A pass of the loop that has to retry has seen the generation grow, so the distance from the
  generation that the thread last saw to its own is a bound on the retries that are left.
\<close>

definition retries_left :: "(nat \<Rightarrow> u16 \<times> LevelFilter option) \<Rightarrow> nat \<Rightarrow> filter_pc \<Rightarrow> nat" where
  "retries_left call i pc = (case pc of
     Entry \<Rightarrow> Suc (unat (fst (call i)))
   | Looping current \<Rightarrow> unat (fst (call i)) - unat (generation_of current)
   | Returned \<Rightarrow> 0)"

text \<open>
  C15. Every pass of the compare-exchange loop makes progress: whatever the other threads did, the bound on
  the passes that a call still needs goes down, so \<open>set_level_filter\<close> returns.
\<close>

theorem retry_decreases:
  assumes "filter_inv call cell0 (cell, pcs)"
    and "set_level_filter_step (fst (call i)) (snd (call i)) cell (pcs i) = (cell', pc')"
    and "pcs i \<noteq> Returned"
  shows "retries_left call i pc' < retries_left call i (pcs i)"
proof (cases "pcs i")
  case (Looping current)
  have "generation_of current < fst (call i)" "current = cell \<or> generation_of current < generation_of cell"
    using assms(1) Looping by (auto simp: filter_inv_def split: filter_pc.splits)
  then show ?thesis
    using assms(2) Looping by (auto simp: retries_left_def word_less_nat_alt split: if_splits)
qed (use assms in \<open>auto simp: retries_left_def split: if_splits\<close>)

end
