(* ===== verification/Logs.thy ===== *)
theory Logs
  imports Block_Codec Log_Filter
begin

text \<open>
  Logs of the tracing crate (\<open>logs/events.rs\<close>, \<open>logs/block.rs\<close>): the four events, two of which
  write themselves because they end with a string of any size, the record of a call site, the
  queues that hold them and the extraction of the dependencies of a block. A reference to a call
  site is the address of its \<open>LogMetadata\<close>; the map \<open>descs\<close> holds the call sites of the process.
\<close>

section \<open>Events\<close>

record LogMetadata =
  lm_level :: Level
  lm_level_filter :: u32
  lm_fmt_str :: static_str
  lm_target :: static_str
  lm_module_path :: static_str
  lm_file :: static_str
  lm_line :: u32

record LogStaticStrEvent =
  lse_desc :: u64
  lse_time :: i64

record LogStringEvent =
  ls_desc :: u64
  ls_time :: i64
  ls_dyn_str :: string

record LogStaticStrInteropEvent =
  lsi_time :: i64
  lsi_level :: u32
  lsi_target :: StringId
  lsi_msg :: StringId

record LogStringInteropEvent =
  li_time :: i64
  li_level :: u32
  li_target :: StringId
  li_msg :: string

record LogMetadataRecord =
  lr_id :: u64
  lr_fmt_str :: u64
  lr_target :: u64
  lr_module_path :: u64
  lr_file :: u64
  lr_line :: u32
  lr_level :: u32

definition LogStaticStrEvent_decl :: struct_decl where
  "LogStaticStrEvent_decl = \<lparr>sd_name = ''LogStaticStrEvent'',
     sd_fields = [(''desc'', Reference ''& LogMetadata''), (''time'', Path ''i64'')]\<rparr>"

definition LogStaticStrInteropEvent_decl :: struct_decl where
  "LogStaticStrInteropEvent_decl = \<lparr>sd_name = ''LogStaticStrInteropEvent'',
     sd_fields = [(''time'', Path ''i64''), (''level'', Path ''u32''), (''target'', Path ''StringId''),
       (''msg'', Path ''StringId'')]\<rparr>"

definition LogMetadataRecord_decl :: struct_decl where
  "LogMetadataRecord_decl = \<lparr>sd_name = ''LogMetadataRecord'',
     sd_fields = [(''id'', Path ''u64''), (''fmt_str'', Ptr ''* const u8''), (''target'', Ptr ''* const u8''),
       (''module_path'', Ptr ''* const u8''), (''file'', Ptr ''* const u8''),
       (''line'', Path ''u32''), (''level'', Path ''u32'')]\<rparr>"

definition LogStaticStrEvent_vals :: "LogStaticStrEvent \<Rightarrow> bytes list" where
  "LogStaticStrEvent_vals e = [write_u64 (lse_desc e), write_u64 (lse_time e)]"

definition LogStaticStrEvent_of :: "bytes list \<Rightarrow> LogStaticStrEvent" where
  "LogStaticStrEvent_of vs = \<lparr>lse_desc = word_of_bytes (vs ! 0), lse_time = word_of_bytes (vs ! 1)\<rparr>"

definition LogStaticStrInteropEvent_vals :: "abi \<Rightarrow> LogStaticStrInteropEvent \<Rightarrow> bytes list" where
  "LogStaticStrInteropEvent_vals abi e =
     [write_u64 (lsi_time e), write_u32 (lsi_level e), write_StringId abi (lsi_target e), write_StringId abi (lsi_msg e)]"

definition LogStaticStrInteropEvent_of :: "abi \<Rightarrow> bytes list \<Rightarrow> LogStaticStrInteropEvent" where
  "LogStaticStrInteropEvent_of abi vs =
     \<lparr>lsi_time = word_of_bytes (vs ! 0), lsi_level = word_of_bytes (vs ! 1),
      lsi_target = bytes_StringId abi (vs ! 2), lsi_msg = bytes_StringId abi (vs ! 3)\<rparr>"

definition LogMetadataRecord_vals :: "LogMetadataRecord \<Rightarrow> bytes list" where
  "LogMetadataRecord_vals r =
     [write_u64 (lr_id r), write_u64 (lr_fmt_str r), write_u64 (lr_target r), write_u64 (lr_module_path r),
      write_u64 (lr_file r), write_u32 (lr_line r), write_u32 (lr_level r)]"

definition LogMetadataRecord_of :: "bytes list \<Rightarrow> LogMetadataRecord" where
  "LogMetadataRecord_of vs =
     \<lparr>lr_id = word_of_bytes (vs ! 0), lr_fmt_str = word_of_bytes (vs ! 1), lr_target = word_of_bytes (vs ! 2),
      lr_module_path = word_of_bytes (vs ! 3), lr_file = word_of_bytes (vs ! 4),
      lr_line = word_of_bytes (vs ! 5), lr_level = word_of_bytes (vs ! 6)\<rparr>"

subsection \<open>Events that end with a string\<close>

definition LogStringEvent_get_value_size :: "LogStringEvent \<Rightarrow> u32 option" where
  "LogStringEvent_get_value_size e =
     map_option (\<lambda>n. 8 + 8 + n) (DynString_get_value_size (ls_dyn_str e))"

definition LogStringEvent_write_value :: "LogStringEvent \<Rightarrow> bytes res" where
  "LogStringEvent_write_value e =
     Inr (write_u64 (ls_desc e) @ write_u64 (ls_time e) @ DynString_write_value (ls_dyn_str e))"

definition LogStringEvent_read_value :: "bytes \<Rightarrow> nat \<Rightarrow> u32 option \<Rightarrow> LogStringEvent res" where
  "LogStringEvent_read_value buf ptr value_size =
     and_then (read_u64 buf ptr) (\<lambda>desc.
     and_then (read_u64 buf (ptr + 8)) (\<lambda>time.
     and_then (unwrap value_size) (\<lambda>buffer_size.
     and_then (DynString_read_value buf (ptr + 16) (Some (buffer_size - 16))) (\<lambda>msg.
     Inr \<lparr>ls_desc = desc, ls_time = time, ls_dyn_str = msg\<rparr>))))"

definition LogStringEvent_serialize :: "LogStringEvent InProcSerialize" where
  "LogStringEvent_serialize =
     \<lparr>IN_PROC_SIZE = Dynamic, get_value_size = LogStringEvent_get_value_size,
      write_value = LogStringEvent_write_value, read_value = LogStringEvent_read_value\<rparr>"

definition LogStringEvent_reflect :: UserDefinedType where
  "LogStringEvent_reflect = custom_udt ''LogStringEvent''"

definition LogStringInteropEvent_get_value_size :: "abi \<Rightarrow> LogStringInteropEvent \<Rightarrow> u32 option" where
  "LogStringInteropEvent_get_value_size abi e =
     map_option (\<lambda>n. 8 + 4 + word_of_nat (abi_size abi ''StringId'') + n) (DynString_get_value_size (li_msg e))"

definition LogStringInteropEvent_write_value :: "abi \<Rightarrow> LogStringInteropEvent \<Rightarrow> bytes res" where
  "LogStringInteropEvent_write_value abi e =
     Inr (write_u64 (li_time e) @ write_u32 (li_level e) @ write_StringId abi (li_target e)
       @ DynString_write_value (li_msg e))"

definition LogStringInteropEvent_read_value ::
  "abi \<Rightarrow> bytes \<Rightarrow> nat \<Rightarrow> u32 option \<Rightarrow> LogStringInteropEvent res" where
  "LogStringInteropEvent_read_value abi buf ptr value_size =
     and_then (read_u64 buf ptr) (\<lambda>time.
     and_then (read_u32 buf (ptr + 8)) (\<lambda>level.
     and_then (read_any abi StringId_decl buf (ptr + 12)) (\<lambda>target.
     and_then (unwrap value_size) (\<lambda>buffer_size.
     let msg_offset = 12 + abi_size abi ''StringId'' in
     and_then (DynString_read_value buf (ptr + msg_offset)
       (Some (buffer_size - word_of_nat msg_offset))) (\<lambda>msg.
     Inr \<lparr>li_time = time, li_level = level, li_target = StringId_of target, li_msg = msg\<rparr>)))))"

definition LogStringInteropEvent_serialize :: "abi \<Rightarrow> LogStringInteropEvent InProcSerialize" where
  "LogStringInteropEvent_serialize abi =
     \<lparr>IN_PROC_SIZE = Dynamic, get_value_size = LogStringInteropEvent_get_value_size abi,
      write_value = LogStringInteropEvent_write_value abi, read_value = LogStringInteropEvent_read_value abi\<rparr>"

definition LogStringInteropEvent_reflect :: UserDefinedType where
  "LogStringInteropEvent_reflect = custom_udt ''LogStringInteropEventV2''"

section \<open>Queues\<close>

datatype LogMsgQueueAny =
    LogStaticStrEvent (get_LogStaticStrEvent: LogStaticStrEvent)
  | LogStringEvent (get_LogStringEvent: LogStringEvent)
  | LogStaticStrInteropEvent (get_LogStaticStrInteropEvent: LogStaticStrInteropEvent)
  | LogStringInteropEvent (get_LogStringInteropEvent: LogStringInteropEvent)

datatype LogDepsQueueAny =
    LogStaticString (get_LogStaticString: StaticString)
  | LogMetadataRecord (get_LogMetadataRecord: LogMetadataRecord)

definition LogMsgQueue_items :: "abi \<Rightarrow> LogMsgQueueAny InProcSerialize list" where
  "LogMsgQueue_items abi =
     [variant LogStaticStrEvent get_LogStaticStrEvent
        (pod abi LogStaticStrEvent_decl LogStaticStrEvent_vals LogStaticStrEvent_of),
      variant LogStringEvent get_LogStringEvent LogStringEvent_serialize,
      variant LogStaticStrInteropEvent get_LogStaticStrInteropEvent
        (pod abi LogStaticStrInteropEvent_decl (LogStaticStrInteropEvent_vals abi) (LogStaticStrInteropEvent_of abi)),
      variant LogStringInteropEvent get_LogStringInteropEvent (LogStringInteropEvent_serialize abi)]"

fun LogMsgQueue_type_index :: "LogMsgQueueAny \<Rightarrow> nat" where
  "LogMsgQueue_type_index (LogStaticStrEvent _) = 0"
| "LogMsgQueue_type_index (LogStringEvent _) = 1"
| "LogMsgQueue_type_index (LogStaticStrInteropEvent _) = 2"
| "LogMsgQueue_type_index (LogStringInteropEvent _) = 3"

definition LogMsgQueue_reflect_contained :: "abi \<Rightarrow> UserDefinedType list" where
  "LogMsgQueue_reflect_contained abi =
     [reflect_decl abi (\<lambda>_. StringId_reflect abi) LogStaticStrEvent_decl,
      LogStringEvent_reflect,
      reflect_decl abi (\<lambda>_. StringId_reflect abi) LogStaticStrInteropEvent_decl,
      LogStringInteropEvent_reflect]"

definition LogDepsQueue_items :: "abi \<Rightarrow> memory \<Rightarrow> LogDepsQueueAny InProcSerialize list" where
  "LogDepsQueue_items abi mem =
     [variant LogStaticString get_LogStaticString (StaticString_serialize mem),
      variant LogMetadataRecord get_LogMetadataRecord
        (pod abi LogMetadataRecord_decl LogMetadataRecord_vals LogMetadataRecord_of)]"

fun LogDepsQueue_type_index :: "LogDepsQueueAny \<Rightarrow> nat" where
  "LogDepsQueue_type_index (LogStaticString _) = 0"
| "LogDepsQueue_type_index (LogMetadataRecord _) = 1"

definition LogDepsQueue_reflect_contained :: "abi \<Rightarrow> UserDefinedType list" where
  "LogDepsQueue_reflect_contained abi =
     [StaticString_reflect, reflect_decl abi (\<lambda>_. StringId_reflect abi) LogMetadataRecord_decl]"

section \<open>Extraction of the dependencies\<close>

definition push_log_dep :: "vec_alloc \<Rightarrow> abi \<Rightarrow> memory \<Rightarrow> LogDepsQueueAny \<Rightarrow> hqueue \<Rightarrow> hqueue res" where
  "push_log_dep al abi mem = push al (LogDepsQueue_items abi mem) LogDepsQueue_type_index"

definition log_record :: "u64 \<Rightarrow> LogMetadata \<Rightarrow> LogMetadataRecord" where
  "log_record log_ptr m =
     \<lparr>lr_id = log_ptr, lr_fmt_str = str_ptr (lm_fmt_str m), lr_target = str_ptr (lm_target m),
      lr_module_path = str_ptr (lm_module_path m), lr_file = str_ptr (lm_file m),
      lr_line = lm_line m, lr_level = Level_as_u32 (lm_level m)\<rparr>"

definition record_log_event_dependencies ::
  "vec_alloc \<Rightarrow> abi \<Rightarrow> memory \<Rightarrow> u64 \<Rightarrow> LogMetadata \<Rightarrow> u64 set \<times> hqueue \<Rightarrow> (u64 set \<times> hqueue) res" where
  "record_log_event_dependencies al abi mem log_ptr m =
     record_described log_ptr
       (fold_res (\<lambda>s. record_new (push_log_dep al abi mem (LogStaticString (StaticString_from_str s))) (str_ptr s))
          [lm_fmt_str m, lm_target m, lm_module_path m, lm_file m])
       (push_log_dep al abi mem (LogMetadataRecord (log_record log_ptr m)))"

definition record_log_string_id ::
  "vec_alloc \<Rightarrow> abi \<Rightarrow> memory \<Rightarrow> StringId \<Rightarrow> u64 set \<times> hqueue \<Rightarrow> (u64 set \<times> hqueue) res" where
  "record_log_string_id al abi mem s =
     record_new (push_log_dep al abi mem (LogStaticString (StaticString_from_StringId s))) (StringId_id s)"

fun record_log_msg ::
  "vec_alloc \<Rightarrow> abi \<Rightarrow> memory \<Rightarrow> (u64 \<rightharpoonup> LogMetadata) \<Rightarrow> LogMsgQueueAny \<Rightarrow> u64 set \<times> hqueue \<Rightarrow> (u64 set \<times> hqueue) res" where
  "record_log_msg al abi mem descs (LogStaticStrEvent evt) st =
     (case descs (lse_desc evt) of None \<Rightarrow> Inl UB
      | Some m \<Rightarrow> record_log_event_dependencies al abi mem (lse_desc evt) m st)"
| "record_log_msg al abi mem descs (LogStringEvent evt) st =
     (case descs (ls_desc evt) of None \<Rightarrow> Inl UB
      | Some m \<Rightarrow> record_log_event_dependencies al abi mem (ls_desc evt) m st)"
| "record_log_msg al abi mem descs (LogStaticStrInteropEvent evt) st =
     and_then (record_log_string_id al abi mem (lsi_target evt) st) (record_log_string_id al abi mem (lsi_msg evt))"
| "record_log_msg al abi mem descs (LogStringInteropEvent evt) st =
     record_log_string_id al abi mem (li_target evt) st"

definition LogMsgQueue_extract ::
  "vec_alloc \<Rightarrow> abi \<Rightarrow> memory \<Rightarrow> (u64 \<rightharpoonup> LogMetadata) \<Rightarrow> hqueue \<Rightarrow> hqueue res" where
  "LogMsgQueue_extract al abi mem descs q =
     and_then (queue_iter (LogMsgQueue_items abi) q) (\<lambda>events.
     and_then (fold_res (record_log_msg al abi mem descs) events ({}, queue_new al (1024 * 1024)))
       (\<lambda>(_, deps). Inr deps))"

section \<open>The contracts of the events that end with a string\<close>

definition LogStringEvent_valid :: "LogStringEvent \<Rightarrow> bool" where
  "LogStringEvent_valid e \<longleftrightarrow> 16 + length (ls_dyn_str e) < 2 ^ 32 \<and> is_utf8 (bytes_of_string (ls_dyn_str e))"

definition LogStringInteropEvent_valid :: "abi \<Rightarrow> LogStringInteropEvent \<Rightarrow> bool" where
  "LogStringInteropEvent_valid abi e \<longleftrightarrow> layout_ok abi StringId_decl
     \<and> 12 + abi_size abi ''StringId'' + length (li_msg e) < 2 ^ 32 \<and> is_utf8 (bytes_of_string (li_msg e))"

lemma DynString_read_at:
  assumes "off = length pre" and "n = word_of_nat (length s)" and "length s < 2 ^ 32"
    and "is_utf8 (bytes_of_string s)"
  shows "DynString_read_value (pre @ DynString_write_value s @ post) off (Some n) = Inr s"
  using DynString_roundtrip [of off pre s post] assms by (simp add: DynString_get_value_size_def)

lemma unat_word_of_nat_u32: "n < 2 ^ 32 \<Longrightarrow> unat (word_of_nat n :: u32) = n"
  by (simp add: unat_of_nat)

interpretation log_string_event: in_proc_serialize LogStringEvent_serialize LogStringEvent_valid
proof
  fix v bs pre post
  assume v: "LogStringEvent_valid v"
  show "\<exists>bs. write_value LogStringEvent_serialize v = Inr bs"
    by (simp add: LogStringEvent_serialize_def LogStringEvent_write_value_def)
  assume "write_value LogStringEvent_serialize v = Inr bs"
  then have bs: "bs = write_u64 (ls_desc v) @ write_u64 (ls_time v) @ DynString_write_value (ls_dyn_str v)"
    by (simp add: LogStringEvent_serialize_def LogStringEvent_write_value_def)
  have n: "unat (16 + word_of_nat (length (ls_dyn_str v)) :: u32) = 16 + length (ls_dyn_str v)"
    using unat_word_of_nat_u32 [of "16 + length (ls_dyn_str v)"] v by (simp add: LogStringEvent_valid_def)
  show "size_agrees LogStringEvent_serialize v bs"
    by (simp add: size_agrees_def LogStringEvent_serialize_def LogStringEvent_get_value_size_def
        DynString_get_value_size_def bs n DynString_write_value_def)
  have s: "DynString_read_value ((pre @ write_u64 (ls_desc v) @ write_u64 (ls_time v)) @
      DynString_write_value (ls_dyn_str v) @ post) (length pre + 16) (Some (word_of_nat (length (ls_dyn_str v)))) = Inr (ls_dyn_str v)"
    by (rule DynString_read_at) (use v in \<open>simp_all add: LogStringEvent_valid_def\<close>)
  have d: "read_u64 (pre @ write_u64 (ls_desc v) @ (write_u64 (ls_time v) @ DynString_write_value (ls_dyn_str v) @ post)) (length pre) = Inr (ls_desc v)"
    by (rule read_int_at) simp
  have t: "read_u64 ((pre @ write_u64 (ls_desc v)) @ write_u64 (ls_time v) @ (DynString_write_value (ls_dyn_str v) @ post)) (length pre + 8) = Inr (ls_time v)"
    by (rule read_int_at) simp
  show "read_value LogStringEvent_serialize (pre @ bs @ post) (length pre) (value_size_arg LogStringEvent_serialize v) = Inr v"
    using s d t by (simp add: bs value_size_arg_def LogStringEvent_serialize_def LogStringEvent_get_value_size_def
        DynString_get_value_size_def LogStringEvent_read_value_def)
qed

interpretation log_string_interop_event: in_proc_serialize "LogStringInteropEvent_serialize abi"
    "LogStringInteropEvent_valid abi" for abi
proof
  fix v bs pre post
  assume v: "LogStringInteropEvent_valid abi v"
  show "\<exists>bs. write_value (LogStringInteropEvent_serialize abi) v = Inr bs"
    by (simp add: LogStringInteropEvent_serialize_def LogStringInteropEvent_write_value_def)
  assume "write_value (LogStringInteropEvent_serialize abi) v = Inr bs"
  then have bs: "bs = write_u64 (li_time v) @ write_u32 (li_level v) @ write_StringId abi (li_target v)
      @ DynString_write_value (li_msg v)"
    by (simp add: LogStringInteropEvent_serialize_def LogStringInteropEvent_write_value_def)
  have lay: "layout_ok abi StringId_decl" using v by (simp add: LogStringInteropEvent_valid_def)
  have n: "unat (12 + word_of_nat (abi_size abi ''StringId'') + word_of_nat (length (li_msg v)) :: u32)
      = 12 + (abi_size abi ''StringId'' + length (li_msg v))"
    using unat_word_of_nat_u32 [of "12 + abi_size abi ''StringId'' + length (li_msg v)"] v
    by (simp add: LogStringInteropEvent_valid_def)
  show "size_agrees (LogStringInteropEvent_serialize abi) v bs"
    using lay by (simp add: size_agrees_def LogStringInteropEvent_serialize_def LogStringInteropEvent_get_value_size_def
        DynString_get_value_size_def bs n DynString_write_value_def bytes_write_StringId)
  let ?tail = "DynString_write_value (li_msg v) @ post"
  have t: "read_u64 (pre @ write_u64 (li_time v) @ (write_u32 (li_level v) @ write_StringId abi (li_target v) @ ?tail))
      (length pre) = Inr (li_time v)"
    by (rule read_int_at) simp
  have l: "read_u32 ((pre @ write_u64 (li_time v)) @ write_u32 (li_level v) @ (write_StringId abi (li_target v) @ ?tail))
      (length pre + 8) = Inr (li_level v)"
    by (rule read_int_at) simp
  have g: "read_any abi StringId_decl ((pre @ write_u64 (li_time v) @ write_u32 (li_level v)) @
      write_any abi StringId_decl (StringId_vals (li_target v)) @ ?tail) (length (pre @ write_u64 (li_time v) @ write_u32 (li_level v)))
      = Inr (StringId_vals (li_target v))"
    by (rule read_any_write_any [OF lay StringId_vals_ok])
  have m: "DynString_read_value ((pre @ write_u64 (li_time v) @ write_u32 (li_level v) @ write_StringId abi (li_target v)) @
      DynString_write_value (li_msg v) @ post) (length pre + (12 + abi_size abi ''StringId''))
      (Some (word_of_nat (length (li_msg v)))) = Inr (li_msg v)"
    by (rule DynString_read_at) (use v lay in \<open>simp_all add: LogStringInteropEvent_valid_def bytes_write_StringId\<close>)
  show "read_value (LogStringInteropEvent_serialize abi) (pre @ bs @ post) (length pre)
      (value_size_arg (LogStringInteropEvent_serialize abi) v) = Inr v"
    using t l g m by (simp add: bs value_size_arg_def LogStringInteropEvent_serialize_def
        LogStringInteropEvent_get_value_size_def DynString_get_value_size_def LogStringInteropEvent_read_value_def
        write_StringId_def Let_def)
qed

section \<open>The contracts of the queues\<close>

lemmas log_pod_defs = LogStaticStrEvent_decl_def LogStaticStrEvent_vals_def LogStaticStrEvent_of_def
  LogStaticStrInteropEvent_decl_def LogStaticStrInteropEvent_vals_def LogStaticStrInteropEvent_of_def
  LogMetadataRecord_decl_def LogMetadataRecord_vals_def LogMetadataRecord_of_def

lemma log_pods:
  "vals_ok abi LogStaticStrEvent_decl (LogStaticStrEvent_vals a)"
  "LogStaticStrEvent_of (LogStaticStrEvent_vals a) = a"
  "layout_ok abi StringId_decl \<Longrightarrow> vals_ok abi LogStaticStrInteropEvent_decl (LogStaticStrInteropEvent_vals abi b)"
  "layout_ok abi StringId_decl \<Longrightarrow> LogStaticStrInteropEvent_of abi (LogStaticStrInteropEvent_vals abi b) = b"
  "vals_ok abi LogMetadataRecord_decl (LogMetadataRecord_vals c)"
  "LogMetadataRecord_of (LogMetadataRecord_vals c) = c"
  by (simp_all add: vals_ok_def extents_def log_pod_defs bytes_write_StringId)

fun LogMsgQueue_valid :: "abi \<Rightarrow> LogMsgQueueAny \<Rightarrow> bool" where
  "LogMsgQueue_valid abi (LogStaticStrEvent e) = layout_ok abi LogStaticStrEvent_decl"
| "LogMsgQueue_valid abi (LogStringEvent e) = LogStringEvent_valid e"
| "LogMsgQueue_valid abi (LogStaticStrInteropEvent e) =
     (layout_ok abi StringId_decl \<and> layout_ok abi LogStaticStrInteropEvent_decl)"
| "LogMsgQueue_valid abi (LogStringInteropEvent e) = LogStringInteropEvent_valid abi e"

lemma LogMsgQueue_index_iff:
  "LogMsgQueue_type_index v = 0 \<longleftrightarrow> (\<exists>e. v = LogStaticStrEvent e)"
  "LogMsgQueue_type_index v = Suc 0 \<longleftrightarrow> (\<exists>e. v = LogStringEvent e)"
  "LogMsgQueue_type_index v = Suc (Suc 0) \<longleftrightarrow> (\<exists>e. v = LogStaticStrInteropEvent e)"
  "LogMsgQueue_type_index v = Suc (Suc (Suc 0)) \<longleftrightarrow> (\<exists>e. v = LogStringInteropEvent e)"
  by (cases v; simp)+

interpretation log_msg: hetero_queue "LogMsgQueue_items abi" LogMsgQueue_type_index "LogMsgQueue_valid abi" for abi
proof (rule hetero_queueI)
  show "LogMsgQueue_type_index v < length (LogMsgQueue_items abi)" for v
    by (cases v) (simp_all add: LogMsgQueue_items_def)
  show "list_all (\<lambda>(i, ser). in_proc_serialize ser
      (\<lambda>v. LogMsgQueue_valid abi v \<and> LogMsgQueue_type_index v = i)) (enumerate 0 (LogMsgQueue_items abi))"
    unfolding LogMsgQueue_items_def enumerate_simps list.pred_inject prod.case
    by (intro conjI variant_serialize [OF log_string_event.in_proc_serialize_axioms]
        variant_serialize [OF log_string_interop_event.in_proc_serialize_axioms]
        variant_serialize [OF pod_with_StringId]
        variant_serialize [OF pod_in_proc_serialize_if])
      (auto simp: log_pods LogMsgQueue_index_iff)
qed (simp add: LogMsgQueue_items_def)

section \<open>Reading a block of logs\<close>

fun LogMsgQueue_denote :: "abi \<Rightarrow> deps \<Rightarrow> LogMsgQueueAny \<Rightarrow> Value" where
  "LogMsgQueue_denote abi h (LogStaticStrEvent e) = pod_object abi h LogStaticStrEvent_decl (LogStaticStrEvent_vals e)"
| "LogMsgQueue_denote abi h (LogStringEvent e) = VObject (Object ''LogStringEvent''
     [(''time'', VI64 (ls_time e)), (''msg'', VString (ls_dyn_str e)), (''desc'', deref h (ls_desc e))])"
| "LogMsgQueue_denote abi h (LogStaticStrInteropEvent e) =
     pod_object abi h LogStaticStrInteropEvent_decl (LogStaticStrInteropEvent_vals abi e)"
| "LogMsgQueue_denote abi h (LogStringInteropEvent e) = VObject (Object ''LogStringInteropEventV2''
     [(''time'', VI64 (li_time e)), (''level'', VU32 (li_level e)),
      (''target'', deref h (StringId_id (li_target e))), (''msg'', VString (li_msg e))])"

fun LogDepsQueue_dep_id :: "LogDepsQueueAny \<Rightarrow> u64" where
  "LogDepsQueue_dep_id (LogStaticString s) = ss_ptr s"
| "LogDepsQueue_dep_id (LogMetadataRecord r) = lr_id r"

fun LogDepsQueue_denote :: "abi \<Rightarrow> memory \<Rightarrow> deps \<Rightarrow> LogDepsQueueAny \<Rightarrow> Value" where
  "LogDepsQueue_denote abi mem h (LogStaticString s) = VString (static_text mem (ss_ptr s) (unat (ss_len s)))"
| "LogDepsQueue_denote abi mem h (LogMetadataRecord r) = pod_object abi h LogMetadataRecord_decl (LogMetadataRecord_vals r)"

fun LogDepsQueue_refs :: "LogDepsQueueAny \<Rightarrow> u64 set" where
  "LogDepsQueue_refs (LogStaticString s) = {}"
| "LogDepsQueue_refs (LogMetadataRecord r) = {lr_fmt_str r, lr_target r, lr_module_path r, lr_file r}"

definition log_strings :: "LogMetadata \<Rightarrow> static_str list" where
  "log_strings m = [lm_fmt_str m, lm_target m, lm_module_path m, lm_file m]"

definition log_desc_actions :: "(u64 \<rightharpoonup> LogMetadata) \<Rightarrow> u64 \<Rightarrow> LogDepsQueueAny action list" where
  "log_desc_actions descs p = (case descs p of
     None \<Rightarrow> []
   | Some m \<Rightarrow> [Described (map (\<lambda>s. LogStaticString (StaticString_from_str s)) (log_strings m))
       (LogMetadataRecord (log_record p m))])"

fun log_actions :: "(u64 \<rightharpoonup> LogMetadata) \<Rightarrow> LogMsgQueueAny \<Rightarrow> LogDepsQueueAny action list" where
  "log_actions descs (LogStaticStrEvent e) = log_desc_actions descs (lse_desc e)"
| "log_actions descs (LogStringEvent e) = log_desc_actions descs (ls_desc e)"
| "log_actions descs (LogStaticStrInteropEvent e) =
     [New (LogStaticString (StaticString_from_StringId (lsi_target e))), New (LogStaticString (StaticString_from_StringId (lsi_msg e)))]"
| "log_actions descs (LogStringInteropEvent e) = [New (LogStaticString (StaticString_from_StringId (li_target e)))]"

text \<open>What an event means to a reader.\<close>

definition log_desc_meaning :: "memory \<Rightarrow> u64 \<Rightarrow> LogMetadata \<Rightarrow> Value" where
  "log_desc_meaning mem p m = VObject (Object ''LogMetadataRecord''
     [(''id'', VU64 p), (''fmt_str'', VString (str_text mem (lm_fmt_str m))),
      (''target'', VString (str_text mem (lm_target m))), (''module_path'', VString (str_text mem (lm_module_path m))),
      (''file'', VString (str_text mem (lm_file m))), (''line'', VU32 (lm_line m)),
      (''level'', VU32 (Level_as_u32 (lm_level m)))])"

definition string_id_text :: "memory \<Rightarrow> StringId \<Rightarrow> string" where
  "string_id_text mem s = static_text mem (sid_ptr s) (unat (sid_len s))"

fun log_meaning :: "memory \<Rightarrow> (u64 \<rightharpoonup> LogMetadata) \<Rightarrow> LogMsgQueueAny \<Rightarrow> Value" where
  "log_meaning mem descs (LogStaticStrEvent e) = VObject (Object ''LogStaticStrEvent''
     [(''desc'', log_desc_meaning mem (lse_desc e) (the (descs (lse_desc e)))), (''time'', VI64 (lse_time e))])"
| "log_meaning mem descs (LogStringEvent e) = VObject (Object ''LogStringEvent''
     [(''time'', VI64 (ls_time e)), (''msg'', VString (ls_dyn_str e)),
      (''desc'', log_desc_meaning mem (ls_desc e) (the (descs (ls_desc e))))])"
| "log_meaning mem descs (LogStaticStrInteropEvent e) = VObject (Object ''LogStaticStrInteropEvent''
     [(''time'', VI64 (lsi_time e)), (''level'', VU32 (lsi_level e)),
      (''target'', VString (string_id_text mem (lsi_target e))), (''msg'', VString (string_id_text mem (lsi_msg e)))])"
| "log_meaning mem descs (LogStringInteropEvent e) = VObject (Object ''LogStringInteropEventV2''
     [(''time'', VI64 (li_time e)), (''level'', VU32 (li_level e)),
      (''target'', VString (string_id_text mem (li_target e))), (''msg'', VString (li_msg e))])"

definition LogDepsQueue_ready :: "abi \<Rightarrow> memory \<Rightarrow> UserDefinedType list \<Rightarrow> LogDepsQueueAny \<Rightarrow> bool" where
  "LogDepsQueue_ready abi mem dep_udts d \<longleftrightarrow> 2 \<le> length dep_udts \<and> (case d of
     LogStaticString s \<Rightarrow> StaticString_readable mem s \<and> udt_name (dep_udts ! 0) = ''StaticString''
       \<and> udt_size (dep_udts ! 0) = 0
   | LogMetadataRecord r \<Rightarrow> layout_ok abi LogMetadataRecord_decl
       \<and> describes abi LogMetadataRecord_decl (dep_udts ! 1))"

definition log_desc_ok :: "memory \<Rightarrow> (u64 \<rightharpoonup> LogMetadata) \<Rightarrow> u64 \<Rightarrow> bool" where
  "log_desc_ok mem descs p \<longleftrightarrow> (\<exists>m. descs p = Some m \<and> list_all (str_ok mem) (log_strings m))"

fun log_refs_ok :: "memory \<Rightarrow> (u64 \<rightharpoonup> LogMetadata) \<Rightarrow> LogMsgQueueAny \<Rightarrow> bool" where
  "log_refs_ok mem descs (LogStaticStrEvent e) = log_desc_ok mem descs (lse_desc e)"
| "log_refs_ok mem descs (LogStringEvent e) = log_desc_ok mem descs (ls_desc e)"
| "log_refs_ok mem descs (LogStaticStrInteropEvent e) =
     (StaticString_readable mem (StaticString_from_StringId (lsi_target e))
      \<and> StaticString_readable mem (StaticString_from_StringId (lsi_msg e)))"
| "log_refs_ok mem descs (LogStringInteropEvent e) =
     StaticString_readable mem (StaticString_from_StringId (li_target e))"

definition log_udts_ok :: "abi \<Rightarrow> UserDefinedType list \<Rightarrow> bool" where
  "log_udts_ok abi udts \<longleftrightarrow> 4 \<le> length udts \<and> finds_StringId abi udts
     \<and> describes abi LogStaticStrEvent_decl (udts ! 0)
     \<and> udt_name (udts ! 1) = ''LogStringEvent'' \<and> udt_size (udts ! 1) = 0
     \<and> describes abi LogStaticStrInteropEvent_decl (udts ! 2)
     \<and> udt_name (udts ! 3) = ''LogStringInteropEventV2'' \<and> udt_size (udts ! 3) = 0"

definition LogMsgQueue_ready ::
  "abi \<Rightarrow> memory \<Rightarrow> (u64 \<rightharpoonup> LogMetadata) \<Rightarrow> UserDefinedType list \<Rightarrow> UserDefinedType list \<Rightarrow> LogMsgQueueAny \<Rightarrow> bool" where
  "LogMsgQueue_ready abi mem descs udts dep_udts e \<longleftrightarrow> LogMsgQueue_valid abi e \<and> log_udts_ok abi udts
     \<and> log_refs_ok mem descs e
     \<and> list_all (\<lambda>a. list_all (LogDepsQueue_ready abi mem dep_udts) (action_deps a)) (log_actions descs e)"

lemma LogDepsQueue_index_iff:
  "LogDepsQueue_type_index v = 0 \<longleftrightarrow> (\<exists>s. v = LogStaticString s)"
  "LogDepsQueue_type_index v = Suc 0 \<longleftrightarrow> (\<exists>r. v = LogMetadataRecord r)"
  by (cases v; simp)+

lemma LogDepsQueue_hetero:
  "hetero_queue (LogDepsQueue_items abi mem) LogDepsQueue_type_index (LogDepsQueue_ready abi mem dep_udts)"
proof (rule hetero_queueI)
  show "LogDepsQueue_type_index v < length (LogDepsQueue_items abi mem)" for v
    by (cases v) (simp_all add: LogDepsQueue_items_def)
  show "list_all (\<lambda>(i, ser). in_proc_serialize ser
      (\<lambda>v. LogDepsQueue_ready abi mem dep_udts v \<and> LogDepsQueue_type_index v = i))
      (enumerate 0 (LogDepsQueue_items abi mem))"
    unfolding LogDepsQueue_items_def enumerate_simps list.pred_inject prod.case
    by (intro conjI variant_serialize [OF pod_in_proc_serialize_if]
        variant_serialize [OF static_string.in_proc_serialize_axioms])
      (auto simp: log_pods LogDepsQueue_ready_def StaticString_readable_def LogDepsQueue_index_iff)
qed (simp add: LogDepsQueue_items_def)

lemma log_fields_ok:
  "fields_ok abi udts LogStaticStrEvent_decl"
  "finds_StringId abi udts \<Longrightarrow> fields_ok abi udts LogStaticStrInteropEvent_decl"
  "fields_ok abi udts LogMetadataRecord_decl"
  by (auto simp: fields_ok_def log_pod_defs)

lemma LogDepsQueue_reads:
  assumes "LogDepsQueue_ready abi mem dep_udts v"
    and "write_value (LogDepsQueue_items abi mem ! LogDepsQueue_type_index v) v = Inr bs"
  shows "read_dependency (Suc (Suc stack)) dep_udts (pre @ bs @ post) (dep_udts ! LogDepsQueue_type_index v)
      (length pre) (length bs) hash
    = dep_insert hash (LogDepsQueue_dep_id v) (LogDepsQueue_denote abi mem hash v)"
proof (cases v)
  case (LogStaticString s)
  then show ?thesis
    using assms read_static_string_dependency [of mem s bs "dep_udts ! 0"]
    by (simp add: LogDepsQueue_ready_def LogDepsQueue_items_def StaticString_serialize_def)
next
  case (LogMetadataRecord r)
  have "bs = write_any abi LogMetadataRecord_decl (LogMetadataRecord_vals r)"
    using assms(2) LogMetadataRecord by (simp add: LogDepsQueue_items_def)
  moreover have "layout_ok abi LogMetadataRecord_decl" "describes abi LogMetadataRecord_decl (dep_udts ! 1)"
    using assms(1) LogMetadataRecord by (simp_all add: LogDepsQueue_ready_def)
  ultimately show ?thesis
    using read_record_dependency [OF _ log_pods(5) [of abi r] log_fields_ok(3), of "dep_udts ! 1"
        "tl (sd_fields LogMetadataRecord_decl)" "lr_id r" "tl (LogMetadataRecord_vals r)"]
    by (simp add: LogMetadataRecord LogMetadataRecord_decl_def LogMetadataRecord_vals_def)
qed

interpretation log_graph: dependency_graph LogDepsQueue_dep_id "LogDepsQueue_denote abi mem" LogDepsQueue_refs for abi mem
proof
  show "LogDepsQueue_denote abi mem h d = LogDepsQueue_denote abi mem h' d"
    if "\<And>k. k \<in> LogDepsQueue_refs d \<Longrightarrow> h k = h' k" for d h h'
    using that
    by (cases d) (simp_all add: pod_object_def deref_def LogMetadataRecord_decl_def LogMetadataRecord_vals_def)
qed

lemma usize_sub_u32_add: "usize_sub_u32 (a + n) a = word_of_nat n"
  by (simp add: usize_sub_u32_def unsigned_of_nat word_of_nat_eq_iff)

lemma parse_LogStringEvent:
  assumes "LogStringEvent_valid e" and "udt_name udt = ''LogStringEvent''" and "udt_size udt = 0"
    and "LogStringEvent_write_value e = Inr bs"
  shows "parse_instance stack udt udts h (length pre) (length bs) (pre @ bs @ post)
    = Inr (LogMsgQueue_denote abi h (LogStringEvent e))"
proof -
  have bs: "bs = write_u64 (ls_desc e) @ write_u64 (ls_time e) @ DynString_write_value (ls_dyn_str e)"
    using assms(4) by (simp add: LogStringEvent_write_value_def)
  have s: "DynString_read_value ((pre @ write_u64 (ls_desc e) @ write_u64 (ls_time e)) @
      DynString_write_value (ls_dyn_str e) @ post) (length pre + 16) (Some (usize_sub_u32 (length bs) 16)) = Inr (ls_dyn_str e)"
    by (rule DynString_read_at)
      (use assms(1) in \<open>simp_all add: LogStringEvent_valid_def bs usize_sub_u32_add DynString_write_value_def\<close>)
  have "read_u64 (pre @ write_u64 (ls_desc e) @ (write_u64 (ls_time e) @ DynString_write_value (ls_dyn_str e) @ post)) (length pre) = Inr (ls_desc e)"
    "read_u64 ((pre @ write_u64 (ls_desc e)) @ write_u64 (ls_time e) @ (DynString_write_value (ls_dyn_str e) @ post)) (length pre + 8) = Inr (ls_time e)"
    by (rule read_int_at; simp)+
  with s show ?thesis
    using assms(2,3) by (simp add: parse_instance_def parse_custom_instance_def parse_log_string_event_def bs)
qed

lemma parse_LogStringInteropEvent:
  assumes "LogStringInteropEvent_valid abi e" and "udt_name udt = ''LogStringInteropEventV2''" and "udt_size udt = 0"
    and "LogStringInteropEvent_write_value abi e = Inr bs" and "finds_StringId abi udts"
  shows "parse_instance (Suc stack) udt udts h (length pre) (length bs) (pre @ bs @ post)
    = Inr (LogMsgQueue_denote abi h (LogStringInteropEvent e))"
proof -
  let ?sid = "write_StringId abi (li_target e)"
  have lay: "layout_ok abi StringId_decl" using assms(1) by (simp add: LogStringInteropEvent_valid_def)
  have bs: "bs = write_u64 (li_time e) @ write_u32 (li_level e) @ ?sid @ DynString_write_value (li_msg e)"
    using assms(4) by (simp add: LogStringInteropEvent_write_value_def)
  have n: "length bs = (12 + abi_size abi ''StringId'') + length (li_msg e)"
    using bytes_write_StringId(2) [OF lay] by (simp add: bs DynString_write_value_def)
  have s: "DynString_read_value ((pre @ write_u64 (li_time e) @ write_u32 (li_level e) @ ?sid) @
      DynString_write_value (li_msg e) @ post) (length pre + 12 + abi_size abi ''StringId'')
      (Some (usize_sub_u32 (length bs) (12 + abi_size abi ''StringId''))) = Inr (li_msg e)"
    unfolding n usize_sub_u32_add
    by (rule DynString_read_at)
      (use assms(1) bytes_write_StringId(2) [OF lay] in \<open>simp_all add: LogStringInteropEvent_valid_def\<close>)
  have "read_u64 (pre @ write_u64 (li_time e) @ (write_u32 (li_level e) @ ?sid @ DynString_write_value (li_msg e) @ post))
      (length pre) = Inr (li_time e)"
    "read_u32 ((pre @ write_u64 (li_time e)) @ write_u32 (li_level e) @ (?sid @ DynString_write_value (li_msg e) @ post))
      (length pre + 8) = Inr (li_level e)"
    by (rule read_int_at; simp)+
  moreover have "read_bytes (abi_size abi ''StringId'') ((pre @ write_u64 (li_time e) @ write_u32 (li_level e)) @ ?sid @
      (DynString_write_value (li_msg e) @ post)) (length pre + 12) = Inr ?sid"
    by (rule read_bytes_at) (simp_all add: bytes_write_StringId(2) [OF lay])
  from parse_StringId [OF lay this]
  have "parse_pod_instance (Suc stack) (StringId_reflect abi) udts h (length pre + 12)
      (pre @ bs @ post) = Inr (deref h (StringId_id (li_target e)))"
    by (simp add: bs bytes_write_StringId(1) [OF lay] del: parse_pod_instance.simps)
  ultimately show ?thesis
    using assms(2,3,5) s
    by (simp add: parse_instance_def parse_custom_instance_def parse_log_string_interop_event_def Let_def
        finds_StringId_def bs StringId_reflect_def add.assoc del: parse_pod_instance.simps)
qed

lemma log_parses:
  assumes "LogMsgQueue_ready abi mem descs udts dep_udts v"
    and "write_value (LogMsgQueue_items abi ! LogMsgQueue_type_index v) v = Inr bs"
  shows "parse_instance (Suc (Suc stack)) (udts ! LogMsgQueue_type_index v) udts dependencies (length pre)
    (length bs) (pre @ bs @ post) = Inr (LogMsgQueue_denote abi dependencies v)"
proof (cases v)
  case (LogStaticStrEvent e)
  then show ?thesis
    using assms parse_instance_reflected [OF _ log_pods(1) [of abi e] log_fields_ok(1), of "udts ! 0"]
    by (simp add: LogMsgQueue_ready_def LogMsgQueue_items_def log_udts_ok_def)
next
  case (LogStringEvent e)
  then show ?thesis
    using assms parse_LogStringEvent [of e "udts ! 1" bs]
    by (simp add: LogMsgQueue_ready_def LogMsgQueue_items_def log_udts_ok_def LogStringEvent_serialize_def)
next
  case (LogStaticStrInteropEvent e)
  then show ?thesis
    using assms parse_instance_reflected [OF _ log_pods(3) [of abi e] log_fields_ok(2), of udts "udts ! 2"]
    by (simp add: LogMsgQueue_ready_def LogMsgQueue_items_def log_udts_ok_def)
next
  case (LogStringInteropEvent e)
  then show ?thesis
    using assms parse_LogStringInteropEvent [of abi e "udts ! 3" bs udts "Suc stack"]
    by (simp add: LogMsgQueue_ready_def LogMsgQueue_items_def log_udts_ok_def LogStringInteropEvent_serialize_def
        del: parse_pod_instance.simps)
qed

lemma log_record_id [simp]: "lr_id (log_record p m) = p"
  by (simp add: log_record_def)

lemma record_log_action:
  "record_log_event_dependencies al abi mem p m =
     run_action (push al (LogDepsQueue_items abi mem) LogDepsQueue_type_index) LogDepsQueue_dep_id
       (Described (map (\<lambda>s. LogStaticString (StaticString_from_str s)) (log_strings m)) (LogMetadataRecord (log_record p m)))"
  "record_log_string_id al abi mem s =
     run_action (push al (LogDepsQueue_items abi mem) LogDepsQueue_type_index) LogDepsQueue_dep_id
       (New (LogStaticString (StaticString_from_StringId s)))"
  by (simp_all add: record_log_event_dependencies_def log_strings_def [symmetric] push_log_dep_def fold_res_map
      record_log_string_id_def StringId_id_def StaticString_from_StringId_def)

lemma log_extract_runs:
  assumes "queue_iter (LogMsgQueue_items abi) q = Inr es" and "list_all (log_refs_ok mem descs) es"
  shows "LogMsgQueue_extract al abi mem descs q =
    and_then (fold_res (run_action (push al (LogDepsQueue_items abi mem) LogDepsQueue_type_index) LogDepsQueue_dep_id)
      (concat (map (log_actions descs) es)) ({}, queue_new al (1024 * 1024))) (\<lambda>(_, deps). Inr deps)"
proof -
  let ?run = "run_action (push al (LogDepsQueue_items abi mem) LogDepsQueue_type_index) LogDepsQueue_dep_id"
  have one: "record_log_msg al abi mem descs e st = fold_res ?run (log_actions descs e) st"
    if "log_refs_ok mem descs e" for e st
    using that
    by (cases e) (auto simp: log_desc_ok_def log_desc_actions_def record_log_action
        simp del: run_action.simps intro!: and_then_cong)
  have "fold_res (record_log_msg al abi mem descs) es st = fold_res ?run (concat (map (log_actions descs) es)) st" for st
    using assms(2) by (induction es arbitrary: st) (auto simp: one fold_res_append intro!: and_then_cong)
  then show ?thesis by (simp add: LogMsgQueue_extract_def assms(1))
qed

lemma log_desc_resolved:
  assumes "log_desc_ok mem descs p"
    and "\<And>a d. a \<in> set (log_desc_actions descs p) \<Longrightarrow> d \<in> set (action_deps a) \<Longrightarrow>
      h (LogDepsQueue_dep_id d) = Some (LogDepsQueue_denote abi mem h d)"
  shows "deref h p = log_desc_meaning mem p (the (descs p))"
proof -
  obtain m where m: "descs p = Some m" "list_all (str_ok mem) (log_strings m)"
    using assms(1) by (auto simp: log_desc_ok_def)
  have "h (str_ptr s) = Some (VString (str_text mem s))" if "s \<in> set (log_strings m)" for s
    using assms(2) [of "hd (log_desc_actions descs p)" "LogStaticString (StaticString_from_str s)"] that m
    by (auto simp: log_desc_actions_def str_ok_readable(2) list_all_iff)
  moreover have "h p = Some (pod_object abi h LogMetadataRecord_decl (LogMetadataRecord_vals (log_record p m)))"
    using assms(2) [of "hd (log_desc_actions descs p)" "LogMetadataRecord (log_record p m)"] m
    by (simp add: log_desc_actions_def)
  ultimately show ?thesis
    using m(1) by (simp add: log_strings_def pod_object_def LogMetadataRecord_decl_def
        LogMetadataRecord_vals_def log_record_def log_desc_meaning_def)
qed

lemma log_denote_meaning:
  assumes "LogMsgQueue_ready abi mem descs udts dep_udts e"
    and "\<And>a d. a \<in> set (log_actions descs e) \<Longrightarrow> d \<in> set (action_deps a) \<Longrightarrow>
      h (LogDepsQueue_dep_id d) = Some (LogDepsQueue_denote abi mem h d)"
  shows "LogMsgQueue_denote abi h e = log_meaning mem descs e"
proof -
  have lay: "layout_ok abi StringId_decl" using assms(1) by (simp add: LogMsgQueue_ready_def log_udts_ok_def finds_StringId_def)
  have sid: "deref h (StringId_id s) = VString (string_id_text mem s)"
    if "New (LogStaticString (StaticString_from_StringId s)) \<in> set (log_actions descs e)" for s
    using assms(2) [OF that] by (simp add: StringId_id_def StaticString_from_StringId_def string_id_text_def)
  show ?thesis
  proof (cases e)
    case (LogStaticStrEvent x)
    then show ?thesis
      using assms log_desc_resolved [of mem descs "lse_desc x" h abi]
      by (simp add: LogMsgQueue_ready_def pod_object_def log_pod_defs)
  next
    case (LogStringEvent x)
    then show ?thesis
      using assms log_desc_resolved [of mem descs "ls_desc x" h abi] by (simp add: LogMsgQueue_ready_def)
  qed (use sid lay in \<open>simp_all add: pod_object_def log_pod_defs bytes_write_StringId\<close>)
qed

interpretation log_block: block_codec "LogMsgQueue_items abi" LogMsgQueue_type_index
    "LogMsgQueue_ready abi mem descs udts dep_udts" udts "Suc (Suc stack)" "LogMsgQueue_denote abi"
    "LogDepsQueue_items abi mem" LogDepsQueue_type_index "LogDepsQueue_ready abi mem dep_udts"
    dep_udts LogDepsQueue_dep_id "LogDepsQueue_denote abi mem" LogDepsQueue_refs
    al "LogMsgQueue_extract al abi mem descs" "log_actions descs" "log_meaning mem descs"
  for abi mem descs udts dep_udts stack al
proof (intro block_codec.intro parsed_queue.intro described_queue.intro deps_queue.intro
    log_graph.dependency_graph_axioms LogDepsQueue_hetero)
  show "hetero_queue (LogMsgQueue_items abi) LogMsgQueue_type_index (LogMsgQueue_ready abi mem descs udts dep_udts)"
    by (rule hetero_queue_mono [OF log_msg.hetero_queue_axioms]) (simp add: LogMsgQueue_ready_def)
  show "described_queue_axioms (LogMsgQueue_items abi) LogMsgQueue_type_index
      (LogMsgQueue_ready abi mem descs udts dep_udts) udts"
  proof
    fix v
    assume "LogMsgQueue_ready abi mem descs udts dep_udts v"
    then show "LogMsgQueue_type_index v < length udts
        \<and> udt_matches (udts ! LogMsgQueue_type_index v) (LogMsgQueue_items abi ! LogMsgQueue_type_index v)"
      by (cases v) (auto simp: LogMsgQueue_ready_def log_udts_ok_def udt_matches_def LogMsgQueue_items_def
          describes_def layout_ok_def LogStringEvent_serialize_def LogStringInteropEvent_serialize_def)
  qed
  show "parsed_queue_axioms (LogMsgQueue_items abi) LogMsgQueue_type_index
      (LogMsgQueue_ready abi mem descs udts dep_udts) udts (Suc (Suc stack)) (LogMsgQueue_denote abi)"
    by (rule parsed_queue_axioms.intro) (rule log_parses)
  show "described_queue_axioms (LogDepsQueue_items abi mem) LogDepsQueue_type_index
      (LogDepsQueue_ready abi mem dep_udts) dep_udts"
  proof
    fix v
    assume "LogDepsQueue_ready abi mem dep_udts v"
    then show "LogDepsQueue_type_index v < length dep_udts
        \<and> udt_matches (dep_udts ! LogDepsQueue_type_index v) (LogDepsQueue_items abi mem ! LogDepsQueue_type_index v)"
      by (cases v) (auto simp: LogDepsQueue_ready_def udt_matches_def LogDepsQueue_items_def
          describes_def layout_ok_def StaticString_serialize_def)
  qed
  show "deps_queue_axioms (LogDepsQueue_items abi mem) LogDepsQueue_type_index
      (LogDepsQueue_ready abi mem dep_udts) dep_udts (Suc (Suc stack)) LogDepsQueue_dep_id
      (LogDepsQueue_denote abi mem)"
    by (rule deps_queue_axioms.intro) (rule LogDepsQueue_reads)
  show "block_codec_axioms (LogMsgQueue_items abi) (LogMsgQueue_ready abi mem descs udts dep_udts)
      (LogMsgQueue_denote abi) (LogDepsQueue_items abi mem) LogDepsQueue_type_index
      (LogDepsQueue_ready abi mem dep_udts) LogDepsQueue_dep_id (LogDepsQueue_denote abi mem)
      al (LogMsgQueue_extract al abi mem descs) (log_actions descs) (log_meaning mem descs)"
  proof (rule block_codec_axioms.intro, goal_cases)
    case (1 q es)
    show ?case
      by (rule log_extract_runs [OF 1(1)]) (use 1(2) in \<open>auto simp: list_all_iff LogMsgQueue_ready_def\<close>)
  next
    case (2 e)
    then show ?case by (simp add: LogMsgQueue_ready_def)
  next
    case (3 e h)
    show ?case by (rule log_denote_meaning [OF 3])
  qed
qed

text \<open>The metadata that a log stream announces is what its blocks need.\<close>

lemma log_metadata:
  assumes "layout_ok abi StringId_decl" and "is_shuffle shuffle"
  shows "log_udts_ok abi (stream_metadata shuffle (LogMsgQueue_reflect_contained abi))"
proof -
  have "finds_StringId abi (stream_metadata shuffle (LogMsgQueue_reflect_contained abi))"
    by (rule stream_metadata_finds_StringId [OF assms])
      (simp_all add: LogMsgQueue_reflect_contained_def reflect_decl_def log_pod_defs LogStringEvent_reflect_def
        LogStringInteropEvent_reflect_def custom_udt_def is_secondary_def udt_insert_def StringId_reflect_def)
  moreover have "4 \<le> length (stream_metadata shuffle (LogMsgQueue_reflect_contained abi))"
    using stream_metadata_nth(2) [of "LogMsgQueue_reflect_contained abi" shuffle]
    by (simp add: LogMsgQueue_reflect_contained_def)
  ultimately show ?thesis
    by (simp add: log_udts_ok_def stream_metadata_nth LogMsgQueue_reflect_contained_def describes_reflect_decl
        LogStringEvent_reflect_def LogStringInteropEvent_reflect_def custom_udt_def)
qed

lemma log_deps_ready:
  assumes "layout_ok abi LogMetadataRecord_decl" and "log_refs_ok mem descs e" and "a \<in> set (log_actions descs e)"
  shows "list_all (LogDepsQueue_ready abi mem (stream_metadata shuffle (LogDepsQueue_reflect_contained abi))) (action_deps a)"
proof -
  let ?dep_udts = "stream_metadata shuffle (LogDepsQueue_reflect_contained abi)"
  have len: "2 \<le> length ?dep_udts"
    using stream_metadata_nth(2) [of "LogDepsQueue_reflect_contained abi" shuffle]
    by (simp add: LogDepsQueue_reflect_contained_def)
  have "?dep_udts ! 0 = strip_secondary StaticString_reflect"
    "describes abi LogMetadataRecord_decl (?dep_udts ! 1)"
    by (simp_all add: stream_metadata_nth LogDepsQueue_reflect_contained_def describes_reflect_decl)
  then show ?thesis
    using assms len
    by (cases e) (auto simp: log_desc_ok_def log_desc_actions_def list_all_iff LogDepsQueue_ready_def
        str_ok_readable StaticString_reflect_def custom_udt_def)
qed

lemma log_ready:
  assumes "layout_ok abi StringId_decl" and "layout_ok abi LogMetadataRecord_decl" and "is_shuffle shuffle"
    and "LogMsgQueue_valid abi e" and "log_refs_ok mem descs e"
  shows "LogMsgQueue_ready abi mem descs (stream_metadata shuffle (LogMsgQueue_reflect_contained abi))
    (stream_metadata dep_shuffle (LogDepsQueue_reflect_contained abi)) e"
  using assms log_metadata log_deps_ready by (simp add: LogMsgQueue_ready_def list_all_iff)

end
