(* ===== verification/Spans.thy ===== *)
theory Spans
  imports Block_Codec Levels
begin

text \<open>
  Spans of the tracing crate (\<open>spans/events.rs\<close>, \<open>spans/block.rs\<close>): the begin and end events of
  synchronous and asynchronous spans, named or not, the records of their call sites, the queues
  that hold them and the extraction of the dependencies of a block. The maps \<open>spans\<close> and \<open>locations\<close>
  hold the \<open>SpanMetadata\<close> and \<open>SpanLocation\<close> objects of the process by address. A begin event and
  the matching end event have the same fields, so one record serves for both.
\<close>

section \<open>Events\<close>

record SpanLocation =
  sl_lod :: Verbosity
  sl_target :: static_str
  sl_module_path :: static_str
  sl_file :: static_str
  sl_line :: u32

record SpanLocationRecord =
  slr_id :: u64
  slr_target :: u64
  slr_module_path :: u64
  slr_file :: u64
  slr_line :: u32
  slr_lod :: u32

record SpanMetadata =
  sm_name :: static_str
  sm_location :: SpanLocation

record SpanRecord =
  sr_id :: u64
  sr_name :: u64
  sr_target :: u64
  sr_module_path :: u64
  sr_file :: u64
  sr_line :: u32
  sr_lod :: u32

record ThreadSpanEvent =
  ts_thread_span_desc :: u64
  ts_time :: i64

record ThreadNamedSpanEvent =
  tn_thread_span_location :: u64
  tn_name :: StringId
  tn_time :: i64

record AsyncSpanEvent =
  as_span_desc :: u64
  as_span_id :: u64
  as_time :: i64

record AsyncNamedSpanEvent =
  an_span_location :: u64
  an_name :: StringId
  an_span_id :: u64
  an_time :: i64

definition SpanLocationRecord_decl :: struct_decl where
  "SpanLocationRecord_decl = \<lparr>sd_name = ''SpanLocationRecord'',
     sd_fields = [(''id'', Path ''u64''), (''target'', Ptr ''* const u8''), (''module_path'', Ptr ''* const u8''),
       (''file'', Ptr ''* const u8''), (''line'', Path ''u32''), (''lod'', Path ''u32'')]\<rparr>"

definition SpanRecord_decl :: struct_decl where
  "SpanRecord_decl = \<lparr>sd_name = ''SpanRecord'',
     sd_fields = [(''id'', Path ''u64''), (''name'', Ptr ''* const u8''), (''target'', Ptr ''* const u8''),
       (''module_path'', Ptr ''* const u8''), (''file'', Ptr ''* const u8''), (''line'', Path ''u32''),
       (''lod'', Path ''u32'')]\<rparr>"

definition BeginThreadSpanEvent_decl :: struct_decl where
  "BeginThreadSpanEvent_decl = \<lparr>sd_name = ''BeginThreadSpanEvent'',
     sd_fields = [(''thread_span_desc'', Reference ''& SpanMetadata''), (''time'', Path ''i64'')]\<rparr>"

definition EndThreadSpanEvent_decl :: struct_decl where
  "EndThreadSpanEvent_decl = \<lparr>sd_name = ''EndThreadSpanEvent'',
     sd_fields = [(''thread_span_desc'', Reference ''& SpanMetadata''), (''time'', Path ''i64'')]\<rparr>"

definition BeginThreadNamedSpanEvent_decl :: struct_decl where
  "BeginThreadNamedSpanEvent_decl = \<lparr>sd_name = ''BeginThreadNamedSpanEvent'',
     sd_fields = [(''thread_span_location'', Reference ''& SpanLocation''), (''name'', Path ''StringId''),
       (''time'', Path ''i64'')]\<rparr>"

definition EndThreadNamedSpanEvent_decl :: struct_decl where
  "EndThreadNamedSpanEvent_decl = \<lparr>sd_name = ''EndThreadNamedSpanEvent'',
     sd_fields = [(''thread_span_location'', Reference ''& SpanLocation''), (''name'', Path ''StringId''),
       (''time'', Path ''i64'')]\<rparr>"

definition BeginAsyncSpanEvent_decl :: struct_decl where
  "BeginAsyncSpanEvent_decl = \<lparr>sd_name = ''BeginAsyncSpanEvent'',
     sd_fields = [(''span_desc'', Reference ''& SpanMetadata''), (''span_id'', Path ''u64''), (''time'', Path ''i64'')]\<rparr>"

definition EndAsyncSpanEvent_decl :: struct_decl where
  "EndAsyncSpanEvent_decl = \<lparr>sd_name = ''EndAsyncSpanEvent'',
     sd_fields = [(''span_desc'', Reference ''& SpanMetadata''), (''span_id'', Path ''u64''), (''time'', Path ''i64'')]\<rparr>"

definition BeginAsyncNamedSpanEvent_decl :: struct_decl where
  "BeginAsyncNamedSpanEvent_decl = \<lparr>sd_name = ''BeginAsyncNamedSpanEvent'',
     sd_fields = [(''span_location'', Reference ''& SpanLocation''), (''name'', Path ''StringId''),
       (''span_id'', Path ''u64''), (''time'', Path ''i64'')]\<rparr>"

definition EndAsyncNamedSpanEvent_decl :: struct_decl where
  "EndAsyncNamedSpanEvent_decl = \<lparr>sd_name = ''EndAsyncNamedSpanEvent'',
     sd_fields = [(''span_location'', Reference ''& SpanLocation''), (''name'', Path ''StringId''),
       (''span_id'', Path ''u64''), (''time'', Path ''i64'')]\<rparr>"

definition SpanLocationRecord_vals :: "SpanLocationRecord \<Rightarrow> bytes list" where
  "SpanLocationRecord_vals r =
     [write_u64 (slr_id r), write_u64 (slr_target r), write_u64 (slr_module_path r), write_u64 (slr_file r),
      write_u32 (slr_line r), write_u32 (slr_lod r)]"

definition SpanLocationRecord_of :: "bytes list \<Rightarrow> SpanLocationRecord" where
  "SpanLocationRecord_of vs =
     \<lparr>slr_id = word_of_bytes (vs ! 0), slr_target = word_of_bytes (vs ! 1), slr_module_path = word_of_bytes (vs ! 2),
      slr_file = word_of_bytes (vs ! 3), slr_line = word_of_bytes (vs ! 4), slr_lod = word_of_bytes (vs ! 5)\<rparr>"

definition SpanRecord_vals :: "SpanRecord \<Rightarrow> bytes list" where
  "SpanRecord_vals r =
     [write_u64 (sr_id r), write_u64 (sr_name r), write_u64 (sr_target r), write_u64 (sr_module_path r),
      write_u64 (sr_file r), write_u32 (sr_line r), write_u32 (sr_lod r)]"

definition SpanRecord_of :: "bytes list \<Rightarrow> SpanRecord" where
  "SpanRecord_of vs =
     \<lparr>sr_id = word_of_bytes (vs ! 0), sr_name = word_of_bytes (vs ! 1), sr_target = word_of_bytes (vs ! 2),
      sr_module_path = word_of_bytes (vs ! 3), sr_file = word_of_bytes (vs ! 4), sr_line = word_of_bytes (vs ! 5),
      sr_lod = word_of_bytes (vs ! 6)\<rparr>"

definition ThreadSpanEvent_vals :: "ThreadSpanEvent \<Rightarrow> bytes list" where
  "ThreadSpanEvent_vals e = [write_u64 (ts_thread_span_desc e), write_u64 (ts_time e)]"

definition ThreadSpanEvent_of :: "bytes list \<Rightarrow> ThreadSpanEvent" where
  "ThreadSpanEvent_of vs = \<lparr>ts_thread_span_desc = word_of_bytes (vs ! 0), ts_time = word_of_bytes (vs ! 1)\<rparr>"

definition ThreadNamedSpanEvent_vals :: "abi \<Rightarrow> ThreadNamedSpanEvent \<Rightarrow> bytes list" where
  "ThreadNamedSpanEvent_vals abi e =
     [write_u64 (tn_thread_span_location e), write_StringId abi (tn_name e), write_u64 (tn_time e)]"

definition ThreadNamedSpanEvent_of :: "abi \<Rightarrow> bytes list \<Rightarrow> ThreadNamedSpanEvent" where
  "ThreadNamedSpanEvent_of abi vs =
     \<lparr>tn_thread_span_location = word_of_bytes (vs ! 0), tn_name = bytes_StringId abi (vs ! 1),
      tn_time = word_of_bytes (vs ! 2)\<rparr>"

definition AsyncSpanEvent_vals :: "AsyncSpanEvent \<Rightarrow> bytes list" where
  "AsyncSpanEvent_vals e = [write_u64 (as_span_desc e), write_u64 (as_span_id e), write_u64 (as_time e)]"

definition AsyncSpanEvent_of :: "bytes list \<Rightarrow> AsyncSpanEvent" where
  "AsyncSpanEvent_of vs = \<lparr>as_span_desc = word_of_bytes (vs ! 0), as_span_id = word_of_bytes (vs ! 1),
     as_time = word_of_bytes (vs ! 2)\<rparr>"

definition AsyncNamedSpanEvent_vals :: "abi \<Rightarrow> AsyncNamedSpanEvent \<Rightarrow> bytes list" where
  "AsyncNamedSpanEvent_vals abi e =
     [write_u64 (an_span_location e), write_StringId abi (an_name e), write_u64 (an_span_id e), write_u64 (an_time e)]"

definition AsyncNamedSpanEvent_of :: "abi \<Rightarrow> bytes list \<Rightarrow> AsyncNamedSpanEvent" where
  "AsyncNamedSpanEvent_of abi vs =
     \<lparr>an_span_location = word_of_bytes (vs ! 0), an_name = bytes_StringId abi (vs ! 1),
      an_span_id = word_of_bytes (vs ! 2), an_time = word_of_bytes (vs ! 3)\<rparr>"

section \<open>Queues\<close>

datatype ThreadEventQueueAny =
    BeginThreadSpanEvent (get_BeginThreadSpanEvent: ThreadSpanEvent)
  | EndThreadSpanEvent (get_EndThreadSpanEvent: ThreadSpanEvent)
  | BeginThreadNamedSpanEvent (get_BeginThreadNamedSpanEvent: ThreadNamedSpanEvent)
  | EndThreadNamedSpanEvent (get_EndThreadNamedSpanEvent: ThreadNamedSpanEvent)
  | BeginAsyncSpanEvent (get_BeginAsyncSpanEvent: AsyncSpanEvent)
  | EndAsyncSpanEvent (get_EndAsyncSpanEvent: AsyncSpanEvent)
  | BeginAsyncNamedSpanEvent (get_BeginAsyncNamedSpanEvent: AsyncNamedSpanEvent)
  | EndAsyncNamedSpanEvent (get_EndAsyncNamedSpanEvent: AsyncNamedSpanEvent)

datatype ThreadDepsQueueAny =
    SpanRecord (get_SpanRecord: SpanRecord)
  | SpanLocationRecord (get_SpanLocationRecord: SpanLocationRecord)
  | SpanStaticString (get_SpanStaticString: StaticString)

definition ThreadEventQueue_items :: "abi \<Rightarrow> ThreadEventQueueAny InProcSerialize list" where
  "ThreadEventQueue_items abi =
     [variant BeginThreadSpanEvent get_BeginThreadSpanEvent
        (pod abi BeginThreadSpanEvent_decl ThreadSpanEvent_vals ThreadSpanEvent_of),
      variant EndThreadSpanEvent get_EndThreadSpanEvent
        (pod abi EndThreadSpanEvent_decl ThreadSpanEvent_vals ThreadSpanEvent_of),
      variant BeginThreadNamedSpanEvent get_BeginThreadNamedSpanEvent
        (pod abi BeginThreadNamedSpanEvent_decl (ThreadNamedSpanEvent_vals abi) (ThreadNamedSpanEvent_of abi)),
      variant EndThreadNamedSpanEvent get_EndThreadNamedSpanEvent
        (pod abi EndThreadNamedSpanEvent_decl (ThreadNamedSpanEvent_vals abi) (ThreadNamedSpanEvent_of abi)),
      variant BeginAsyncSpanEvent get_BeginAsyncSpanEvent
        (pod abi BeginAsyncSpanEvent_decl AsyncSpanEvent_vals AsyncSpanEvent_of),
      variant EndAsyncSpanEvent get_EndAsyncSpanEvent
        (pod abi EndAsyncSpanEvent_decl AsyncSpanEvent_vals AsyncSpanEvent_of),
      variant BeginAsyncNamedSpanEvent get_BeginAsyncNamedSpanEvent
        (pod abi BeginAsyncNamedSpanEvent_decl (AsyncNamedSpanEvent_vals abi) (AsyncNamedSpanEvent_of abi)),
      variant EndAsyncNamedSpanEvent get_EndAsyncNamedSpanEvent
        (pod abi EndAsyncNamedSpanEvent_decl (AsyncNamedSpanEvent_vals abi) (AsyncNamedSpanEvent_of abi))]"

fun ThreadEventQueue_type_index :: "ThreadEventQueueAny \<Rightarrow> nat" where
  "ThreadEventQueue_type_index (BeginThreadSpanEvent _) = 0"
| "ThreadEventQueue_type_index (EndThreadSpanEvent _) = 1"
| "ThreadEventQueue_type_index (BeginThreadNamedSpanEvent _) = 2"
| "ThreadEventQueue_type_index (EndThreadNamedSpanEvent _) = 3"
| "ThreadEventQueue_type_index (BeginAsyncSpanEvent _) = 4"
| "ThreadEventQueue_type_index (EndAsyncSpanEvent _) = 5"
| "ThreadEventQueue_type_index (BeginAsyncNamedSpanEvent _) = 6"
| "ThreadEventQueue_type_index (EndAsyncNamedSpanEvent _) = 7"

fun ThreadEventQueue_decl :: "ThreadEventQueueAny \<Rightarrow> struct_decl" where
  "ThreadEventQueue_decl (BeginThreadSpanEvent _) = BeginThreadSpanEvent_decl"
| "ThreadEventQueue_decl (EndThreadSpanEvent _) = EndThreadSpanEvent_decl"
| "ThreadEventQueue_decl (BeginThreadNamedSpanEvent _) = BeginThreadNamedSpanEvent_decl"
| "ThreadEventQueue_decl (EndThreadNamedSpanEvent _) = EndThreadNamedSpanEvent_decl"
| "ThreadEventQueue_decl (BeginAsyncSpanEvent _) = BeginAsyncSpanEvent_decl"
| "ThreadEventQueue_decl (EndAsyncSpanEvent _) = EndAsyncSpanEvent_decl"
| "ThreadEventQueue_decl (BeginAsyncNamedSpanEvent _) = BeginAsyncNamedSpanEvent_decl"
| "ThreadEventQueue_decl (EndAsyncNamedSpanEvent _) = EndAsyncNamedSpanEvent_decl"

fun ThreadEventQueue_vals :: "abi \<Rightarrow> ThreadEventQueueAny \<Rightarrow> bytes list" where
  "ThreadEventQueue_vals abi (BeginThreadSpanEvent e) = ThreadSpanEvent_vals e"
| "ThreadEventQueue_vals abi (EndThreadSpanEvent e) = ThreadSpanEvent_vals e"
| "ThreadEventQueue_vals abi (BeginThreadNamedSpanEvent e) = ThreadNamedSpanEvent_vals abi e"
| "ThreadEventQueue_vals abi (EndThreadNamedSpanEvent e) = ThreadNamedSpanEvent_vals abi e"
| "ThreadEventQueue_vals abi (BeginAsyncSpanEvent e) = AsyncSpanEvent_vals e"
| "ThreadEventQueue_vals abi (EndAsyncSpanEvent e) = AsyncSpanEvent_vals e"
| "ThreadEventQueue_vals abi (BeginAsyncNamedSpanEvent e) = AsyncNamedSpanEvent_vals abi e"
| "ThreadEventQueue_vals abi (EndAsyncNamedSpanEvent e) = AsyncNamedSpanEvent_vals abi e"

definition ThreadEventQueue_reflect_contained :: "abi \<Rightarrow> UserDefinedType list" where
  "ThreadEventQueue_reflect_contained abi = map (reflect_decl abi (\<lambda>_. StringId_reflect abi))
     [BeginThreadSpanEvent_decl, EndThreadSpanEvent_decl, BeginThreadNamedSpanEvent_decl,
      EndThreadNamedSpanEvent_decl, BeginAsyncSpanEvent_decl, EndAsyncSpanEvent_decl,
      BeginAsyncNamedSpanEvent_decl, EndAsyncNamedSpanEvent_decl]"

definition ThreadDepsQueue_items :: "abi \<Rightarrow> memory \<Rightarrow> ThreadDepsQueueAny InProcSerialize list" where
  "ThreadDepsQueue_items abi mem =
     [variant SpanRecord get_SpanRecord (pod abi SpanRecord_decl SpanRecord_vals SpanRecord_of),
      variant SpanLocationRecord get_SpanLocationRecord
        (pod abi SpanLocationRecord_decl SpanLocationRecord_vals SpanLocationRecord_of),
      variant SpanStaticString get_SpanStaticString (StaticString_serialize mem)]"

fun ThreadDepsQueue_type_index :: "ThreadDepsQueueAny \<Rightarrow> nat" where
  "ThreadDepsQueue_type_index (SpanRecord _) = 0"
| "ThreadDepsQueue_type_index (SpanLocationRecord _) = 1"
| "ThreadDepsQueue_type_index (SpanStaticString _) = 2"

definition ThreadDepsQueue_reflect_contained :: "abi \<Rightarrow> UserDefinedType list" where
  "ThreadDepsQueue_reflect_contained abi =
     [reflect_decl abi (\<lambda>_. StringId_reflect abi) SpanRecord_decl,
      reflect_decl abi (\<lambda>_. StringId_reflect abi) SpanLocationRecord_decl,
      StaticString_reflect]"

section \<open>Extraction of the dependencies\<close>

definition push_span_dep :: "vec_alloc \<Rightarrow> abi \<Rightarrow> memory \<Rightarrow> ThreadDepsQueueAny \<Rightarrow> hqueue \<Rightarrow> hqueue res" where
  "push_span_dep al abi mem = push al (ThreadDepsQueue_items abi mem) ThreadDepsQueue_type_index"

definition span_record :: "u64 \<Rightarrow> SpanMetadata \<Rightarrow> SpanRecord" where
  "span_record p m = (let l = sm_location m in
     \<lparr>sr_id = p, sr_name = str_ptr (sm_name m), sr_target = str_ptr (sl_target l),
      sr_module_path = str_ptr (sl_module_path l), sr_file = str_ptr (sl_file l),
      sr_line = sl_line l, sr_lod = Verbosity_as_u32 (sl_lod l)\<rparr>)"

definition span_location_record :: "u64 \<Rightarrow> SpanLocation \<Rightarrow> SpanLocationRecord" where
  "span_location_record p l =
     \<lparr>slr_id = p, slr_target = str_ptr (sl_target l), slr_module_path = str_ptr (sl_module_path l),
      slr_file = str_ptr (sl_file l), slr_line = sl_line l, slr_lod = Verbosity_as_u32 (sl_lod l)\<rparr>"

definition record_span_static :: "vec_alloc \<Rightarrow> abi \<Rightarrow> memory \<Rightarrow> static_str \<Rightarrow> u64 set \<times> hqueue \<Rightarrow> (u64 set \<times> hqueue) res" where
  "record_span_static al abi mem s =
     record_new (push_span_dep al abi mem (SpanStaticString (StaticString_from_str s))) (str_ptr s)"

definition record_scope_event_dependencies ::
  "vec_alloc \<Rightarrow> abi \<Rightarrow> memory \<Rightarrow> u64 \<Rightarrow> SpanMetadata \<Rightarrow> u64 set \<times> hqueue \<Rightarrow> (u64 set \<times> hqueue) res" where
  "record_scope_event_dependencies al abi mem thread_span_ptr m =
     record_described thread_span_ptr
       (fold_res (record_span_static al abi mem)
          [sm_name m, sl_target (sm_location m), sl_module_path (sm_location m), sl_file (sm_location m)])
       (push_span_dep al abi mem (SpanRecord (span_record thread_span_ptr m)))"

definition record_named_scope_event_dependencies ::
  "vec_alloc \<Rightarrow> abi \<Rightarrow> memory \<Rightarrow> u64 \<Rightarrow> SpanLocation \<Rightarrow> StringId \<Rightarrow> u64 set \<times> hqueue \<Rightarrow> (u64 set \<times> hqueue) res" where
  "record_named_scope_event_dependencies al abi mem location_id l name st =
     and_then (record_described location_id
       (fold_res (record_span_static al abi mem) [sl_target l, sl_module_path l, sl_file l])
       (push_span_dep al abi mem (SpanLocationRecord (span_location_record location_id l))) st)
     (record_new (push_span_dep al abi mem (SpanStaticString (StaticString_from_StringId name))) (StringId_id name))"

definition record_scope_at ::
  "vec_alloc \<Rightarrow> abi \<Rightarrow> memory \<Rightarrow> (u64 \<rightharpoonup> SpanMetadata) \<Rightarrow> u64 \<Rightarrow> u64 set \<times> hqueue \<Rightarrow> (u64 set \<times> hqueue) res" where
  "record_scope_at al abi mem spans p st = (case spans p of
     None \<Rightarrow> Inl UB | Some m \<Rightarrow> record_scope_event_dependencies al abi mem p m st)"

definition record_named_scope_at ::
  "vec_alloc \<Rightarrow> abi \<Rightarrow> memory \<Rightarrow> (u64 \<rightharpoonup> SpanLocation) \<Rightarrow> u64 \<Rightarrow> StringId \<Rightarrow> u64 set \<times> hqueue \<Rightarrow> (u64 set \<times> hqueue) res" where
  "record_named_scope_at al abi mem locations p name st = (case locations p of
     None \<Rightarrow> Inl UB | Some l \<Rightarrow> record_named_scope_event_dependencies al abi mem p l name st)"

fun record_thread_event ::
  "vec_alloc \<Rightarrow> abi \<Rightarrow> memory \<Rightarrow> (u64 \<rightharpoonup> SpanMetadata) \<Rightarrow> (u64 \<rightharpoonup> SpanLocation) \<Rightarrow> ThreadEventQueueAny
    \<Rightarrow> u64 set \<times> hqueue \<Rightarrow> (u64 set \<times> hqueue) res" where
  "record_thread_event al abi mem spans locations (BeginThreadSpanEvent evt) =
     record_scope_at al abi mem spans (ts_thread_span_desc evt)"
| "record_thread_event al abi mem spans locations (EndThreadSpanEvent evt) =
     record_scope_at al abi mem spans (ts_thread_span_desc evt)"
| "record_thread_event al abi mem spans locations (BeginThreadNamedSpanEvent evt) =
     record_named_scope_at al abi mem locations (tn_thread_span_location evt) (tn_name evt)"
| "record_thread_event al abi mem spans locations (EndThreadNamedSpanEvent evt) =
     record_named_scope_at al abi mem locations (tn_thread_span_location evt) (tn_name evt)"
| "record_thread_event al abi mem spans locations (BeginAsyncSpanEvent evt) =
     record_scope_at al abi mem spans (as_span_desc evt)"
| "record_thread_event al abi mem spans locations (EndAsyncSpanEvent evt) =
     record_scope_at al abi mem spans (as_span_desc evt)"
| "record_thread_event al abi mem spans locations (BeginAsyncNamedSpanEvent evt) =
     record_named_scope_at al abi mem locations (an_span_location evt) (an_name evt)"
| "record_thread_event al abi mem spans locations (EndAsyncNamedSpanEvent evt) =
     record_named_scope_at al abi mem locations (an_span_location evt) (an_name evt)"

definition ThreadEventQueue_extract ::
  "vec_alloc \<Rightarrow> abi \<Rightarrow> memory \<Rightarrow> (u64 \<rightharpoonup> SpanMetadata) \<Rightarrow> (u64 \<rightharpoonup> SpanLocation) \<Rightarrow> hqueue \<Rightarrow> hqueue res" where
  "ThreadEventQueue_extract al abi mem spans locations q =
     and_then (queue_iter (ThreadEventQueue_items abi) q) (\<lambda>events.
     and_then (fold_res (record_thread_event al abi mem spans locations) events ({}, queue_new al (1024 * 1024)))
       (\<lambda>(_, deps). Inr deps))"

section \<open>The contracts of the queues\<close>

lemmas span_decl_defs = BeginThreadSpanEvent_decl_def EndThreadSpanEvent_decl_def
  BeginThreadNamedSpanEvent_decl_def EndThreadNamedSpanEvent_decl_def BeginAsyncSpanEvent_decl_def
  EndAsyncSpanEvent_decl_def BeginAsyncNamedSpanEvent_decl_def EndAsyncNamedSpanEvent_decl_def
  SpanRecord_decl_def SpanLocationRecord_decl_def

lemmas span_val_defs = ThreadSpanEvent_vals_def ThreadSpanEvent_of_def ThreadNamedSpanEvent_vals_def
  ThreadNamedSpanEvent_of_def AsyncSpanEvent_vals_def AsyncSpanEvent_of_def AsyncNamedSpanEvent_vals_def
  AsyncNamedSpanEvent_of_def SpanRecord_vals_def SpanRecord_of_def SpanLocationRecord_vals_def SpanLocationRecord_of_def

lemma span_vals_ok:
  "layout_ok abi StringId_decl \<Longrightarrow> vals_ok abi (ThreadEventQueue_decl v) (ThreadEventQueue_vals abi v)"
  "vals_ok abi SpanRecord_decl (SpanRecord_vals r)"
  "vals_ok abi SpanLocationRecord_decl (SpanLocationRecord_vals l)"
  by (cases v) (simp_all add: vals_ok_def extents_def span_decl_defs span_val_defs bytes_write_StringId)

lemma span_of_vals:
  "ThreadSpanEvent_of (ThreadSpanEvent_vals a) = a"
  "layout_ok abi StringId_decl \<Longrightarrow> ThreadNamedSpanEvent_of abi (ThreadNamedSpanEvent_vals abi b) = b"
  "AsyncSpanEvent_of (AsyncSpanEvent_vals c) = c"
  "layout_ok abi StringId_decl \<Longrightarrow> AsyncNamedSpanEvent_of abi (AsyncNamedSpanEvent_vals abi d) = d"
  "SpanRecord_of (SpanRecord_vals r) = r"
  "SpanLocationRecord_of (SpanLocationRecord_vals l) = l"
  by (simp_all add: span_val_defs bytes_write_StringId)

definition ThreadEventQueue_valid :: "abi \<Rightarrow> ThreadEventQueueAny \<Rightarrow> bool" where
  "ThreadEventQueue_valid abi v \<longleftrightarrow> layout_ok abi StringId_decl \<and> layout_ok abi (ThreadEventQueue_decl v)"

lemma ThreadEventQueue_index_iff:
  "ThreadEventQueue_type_index v = 0 \<longleftrightarrow> (\<exists>e. v = BeginThreadSpanEvent e)"
  "ThreadEventQueue_type_index v = Suc 0 \<longleftrightarrow> (\<exists>e. v = EndThreadSpanEvent e)"
  "ThreadEventQueue_type_index v = Suc (Suc 0) \<longleftrightarrow> (\<exists>e. v = BeginThreadNamedSpanEvent e)"
  "ThreadEventQueue_type_index v = Suc (Suc (Suc 0)) \<longleftrightarrow> (\<exists>e. v = EndThreadNamedSpanEvent e)"
  "ThreadEventQueue_type_index v = Suc (Suc (Suc (Suc 0))) \<longleftrightarrow> (\<exists>e. v = BeginAsyncSpanEvent e)"
  "ThreadEventQueue_type_index v = Suc (Suc (Suc (Suc (Suc 0)))) \<longleftrightarrow> (\<exists>e. v = EndAsyncSpanEvent e)"
  "ThreadEventQueue_type_index v = Suc (Suc (Suc (Suc (Suc (Suc 0))))) \<longleftrightarrow> (\<exists>e. v = BeginAsyncNamedSpanEvent e)"
  "ThreadEventQueue_type_index v = Suc (Suc (Suc (Suc (Suc (Suc (Suc 0)))))) \<longleftrightarrow> (\<exists>e. v = EndAsyncNamedSpanEvent e)"
  by (cases v; simp)+

lemma span_event_vals_ok:
  assumes "layout_ok abi StringId_decl"
  shows "vals_ok abi BeginThreadSpanEvent_decl (ThreadSpanEvent_vals a)"
    "vals_ok abi EndThreadSpanEvent_decl (ThreadSpanEvent_vals a)"
    "vals_ok abi BeginThreadNamedSpanEvent_decl (ThreadNamedSpanEvent_vals abi b)"
    "vals_ok abi EndThreadNamedSpanEvent_decl (ThreadNamedSpanEvent_vals abi b)"
    "vals_ok abi BeginAsyncSpanEvent_decl (AsyncSpanEvent_vals c)"
    "vals_ok abi EndAsyncSpanEvent_decl (AsyncSpanEvent_vals c)"
    "vals_ok abi BeginAsyncNamedSpanEvent_decl (AsyncNamedSpanEvent_vals abi d)"
    "vals_ok abi EndAsyncNamedSpanEvent_decl (AsyncNamedSpanEvent_vals abi d)"
  using assms by (simp_all add: vals_ok_def extents_def span_decl_defs span_val_defs bytes_write_StringId)

interpretation thread_event: hetero_queue "ThreadEventQueue_items abi" ThreadEventQueue_type_index
    "ThreadEventQueue_valid abi" for abi
proof (rule hetero_queueI)
  show "ThreadEventQueue_type_index v < length (ThreadEventQueue_items abi)" for v
    by (cases v) (simp_all add: ThreadEventQueue_items_def)
  show "list_all (\<lambda>(i, ser). in_proc_serialize ser
      (\<lambda>v. ThreadEventQueue_valid abi v \<and> ThreadEventQueue_type_index v = i)) (enumerate 0 (ThreadEventQueue_items abi))"
    unfolding ThreadEventQueue_items_def enumerate_simps list.pred_inject prod.case
    by (intro conjI variant_serialize [OF pod_with_StringId])
      (auto simp: span_event_vals_ok span_of_vals ThreadEventQueue_valid_def ThreadEventQueue_index_iff)
qed (simp add: ThreadEventQueue_items_def)

section \<open>Reading a block of spans\<close>

definition ThreadEventQueue_denote :: "abi \<Rightarrow> deps \<Rightarrow> ThreadEventQueueAny \<Rightarrow> Value" where
  "ThreadEventQueue_denote abi h v = pod_object abi h (ThreadEventQueue_decl v) (ThreadEventQueue_vals abi v)"

fun ThreadDepsQueue_dep_id :: "ThreadDepsQueueAny \<Rightarrow> u64" where
  "ThreadDepsQueue_dep_id (SpanRecord r) = sr_id r"
| "ThreadDepsQueue_dep_id (SpanLocationRecord r) = slr_id r"
| "ThreadDepsQueue_dep_id (SpanStaticString s) = ss_ptr s"

fun ThreadDepsQueue_denote :: "abi \<Rightarrow> memory \<Rightarrow> deps \<Rightarrow> ThreadDepsQueueAny \<Rightarrow> Value" where
  "ThreadDepsQueue_denote abi mem h (SpanRecord r) = pod_object abi h SpanRecord_decl (SpanRecord_vals r)"
| "ThreadDepsQueue_denote abi mem h (SpanLocationRecord r) =
     pod_object abi h SpanLocationRecord_decl (SpanLocationRecord_vals r)"
| "ThreadDepsQueue_denote abi mem h (SpanStaticString s) = VString (static_text mem (ss_ptr s) (unat (ss_len s)))"

fun ThreadDepsQueue_refs :: "ThreadDepsQueueAny \<Rightarrow> u64 set" where
  "ThreadDepsQueue_refs (SpanRecord r) = {sr_name r, sr_target r, sr_module_path r, sr_file r}"
| "ThreadDepsQueue_refs (SpanLocationRecord r) = {slr_target r, slr_module_path r, slr_file r}"
| "ThreadDepsQueue_refs (SpanStaticString s) = {}"

definition location_strings :: "SpanLocation \<Rightarrow> static_str list" where
  "location_strings l = [sl_target l, sl_module_path l, sl_file l]"

definition span_strings :: "SpanMetadata \<Rightarrow> static_str list" where
  "span_strings m = sm_name m # location_strings (sm_location m)"

definition scope_actions :: "(u64 \<rightharpoonup> SpanMetadata) \<Rightarrow> u64 \<Rightarrow> ThreadDepsQueueAny action list" where
  "scope_actions spans p = (case spans p of
     None \<Rightarrow> []
   | Some m \<Rightarrow> [Described (map (\<lambda>s. SpanStaticString (StaticString_from_str s)) (span_strings m))
       (SpanRecord (span_record p m))])"

definition named_scope_actions :: "(u64 \<rightharpoonup> SpanLocation) \<Rightarrow> u64 \<Rightarrow> StringId \<Rightarrow> ThreadDepsQueueAny action list" where
  "named_scope_actions locations p name = (case locations p of
     None \<Rightarrow> []
   | Some l \<Rightarrow> [Described (map (\<lambda>s. SpanStaticString (StaticString_from_str s)) (location_strings l))
       (SpanLocationRecord (span_location_record p l)),
       New (SpanStaticString (StaticString_from_StringId name))])"

fun span_actions :: "(u64 \<rightharpoonup> SpanMetadata) \<Rightarrow> (u64 \<rightharpoonup> SpanLocation) \<Rightarrow> ThreadEventQueueAny \<Rightarrow> ThreadDepsQueueAny action list" where
  "span_actions spans locations (BeginThreadSpanEvent e) = scope_actions spans (ts_thread_span_desc e)"
| "span_actions spans locations (EndThreadSpanEvent e) = scope_actions spans (ts_thread_span_desc e)"
| "span_actions spans locations (BeginThreadNamedSpanEvent e) =
     named_scope_actions locations (tn_thread_span_location e) (tn_name e)"
| "span_actions spans locations (EndThreadNamedSpanEvent e) =
     named_scope_actions locations (tn_thread_span_location e) (tn_name e)"
| "span_actions spans locations (BeginAsyncSpanEvent e) = scope_actions spans (as_span_desc e)"
| "span_actions spans locations (EndAsyncSpanEvent e) = scope_actions spans (as_span_desc e)"
| "span_actions spans locations (BeginAsyncNamedSpanEvent e) =
     named_scope_actions locations (an_span_location e) (an_name e)"
| "span_actions spans locations (EndAsyncNamedSpanEvent e) =
     named_scope_actions locations (an_span_location e) (an_name e)"

text \<open>What an event means to a reader.\<close>

definition span_desc_meaning :: "memory \<Rightarrow> (u64 \<rightharpoonup> SpanMetadata) \<Rightarrow> u64 \<Rightarrow> Value" where
  "span_desc_meaning mem spans p = (let m = the (spans p); l = sm_location m in VObject (Object ''SpanRecord''
     [(''id'', VU64 p), (''name'', VString (str_text mem (sm_name m))),
      (''target'', VString (str_text mem (sl_target l))), (''module_path'', VString (str_text mem (sl_module_path l))),
      (''file'', VString (str_text mem (sl_file l))), (''line'', VU32 (sl_line l)),
      (''lod'', VU32 (Verbosity_as_u32 (sl_lod l)))]))"

definition span_location_meaning :: "memory \<Rightarrow> (u64 \<rightharpoonup> SpanLocation) \<Rightarrow> u64 \<Rightarrow> Value" where
  "span_location_meaning mem locations p = (let l = the (locations p) in VObject (Object ''SpanLocationRecord''
     [(''id'', VU64 p),
      (''target'', VString (str_text mem (sl_target l))), (''module_path'', VString (str_text mem (sl_module_path l))),
      (''file'', VString (str_text mem (sl_file l))), (''line'', VU32 (sl_line l)),
      (''lod'', VU32 (Verbosity_as_u32 (sl_lod l)))]))"

definition span_name_meaning :: "memory \<Rightarrow> StringId \<Rightarrow> Value" where
  "span_name_meaning mem s = VString (static_text mem (sid_ptr s) (unat (sid_len s)))"

definition thread_span_members :: "memory \<Rightarrow> (u64 \<rightharpoonup> SpanMetadata) \<Rightarrow> ThreadSpanEvent \<Rightarrow> (string \<times> Value) list" where
  "thread_span_members mem spans e =
     [(''thread_span_desc'', span_desc_meaning mem spans (ts_thread_span_desc e)), (''time'', VI64 (ts_time e))]"

definition thread_named_span_members :: "memory \<Rightarrow> (u64 \<rightharpoonup> SpanLocation) \<Rightarrow> ThreadNamedSpanEvent \<Rightarrow> (string \<times> Value) list" where
  "thread_named_span_members mem locations e =
     [(''thread_span_location'', span_location_meaning mem locations (tn_thread_span_location e)),
      (''name'', span_name_meaning mem (tn_name e)), (''time'', VI64 (tn_time e))]"

definition async_span_members :: "memory \<Rightarrow> (u64 \<rightharpoonup> SpanMetadata) \<Rightarrow> AsyncSpanEvent \<Rightarrow> (string \<times> Value) list" where
  "async_span_members mem spans e =
     [(''span_desc'', span_desc_meaning mem spans (as_span_desc e)), (''span_id'', VU64 (as_span_id e)),
      (''time'', VI64 (as_time e))]"

definition async_named_span_members :: "memory \<Rightarrow> (u64 \<rightharpoonup> SpanLocation) \<Rightarrow> AsyncNamedSpanEvent \<Rightarrow> (string \<times> Value) list" where
  "async_named_span_members mem locations e =
     [(''span_location'', span_location_meaning mem locations (an_span_location e)),
      (''name'', span_name_meaning mem (an_name e)), (''span_id'', VU64 (an_span_id e)), (''time'', VI64 (an_time e))]"

fun span_meaning :: "memory \<Rightarrow> (u64 \<rightharpoonup> SpanMetadata) \<Rightarrow> (u64 \<rightharpoonup> SpanLocation) \<Rightarrow> ThreadEventQueueAny \<Rightarrow> Value" where
  "span_meaning mem spans locations (BeginThreadSpanEvent e) =
     VObject (Object ''BeginThreadSpanEvent'' (thread_span_members mem spans e))"
| "span_meaning mem spans locations (EndThreadSpanEvent e) =
     VObject (Object ''EndThreadSpanEvent'' (thread_span_members mem spans e))"
| "span_meaning mem spans locations (BeginThreadNamedSpanEvent e) =
     VObject (Object ''BeginThreadNamedSpanEvent'' (thread_named_span_members mem locations e))"
| "span_meaning mem spans locations (EndThreadNamedSpanEvent e) =
     VObject (Object ''EndThreadNamedSpanEvent'' (thread_named_span_members mem locations e))"
| "span_meaning mem spans locations (BeginAsyncSpanEvent e) =
     VObject (Object ''BeginAsyncSpanEvent'' (async_span_members mem spans e))"
| "span_meaning mem spans locations (EndAsyncSpanEvent e) =
     VObject (Object ''EndAsyncSpanEvent'' (async_span_members mem spans e))"
| "span_meaning mem spans locations (BeginAsyncNamedSpanEvent e) =
     VObject (Object ''BeginAsyncNamedSpanEvent'' (async_named_span_members mem locations e))"
| "span_meaning mem spans locations (EndAsyncNamedSpanEvent e) =
     VObject (Object ''EndAsyncNamedSpanEvent'' (async_named_span_members mem locations e))"

definition scope_ok :: "memory \<Rightarrow> (u64 \<rightharpoonup> SpanMetadata) \<Rightarrow> u64 \<Rightarrow> bool" where
  "scope_ok mem spans p \<longleftrightarrow> (\<exists>m. spans p = Some m \<and> list_all (str_ok mem) (span_strings m))"

definition named_scope_ok :: "memory \<Rightarrow> (u64 \<rightharpoonup> SpanLocation) \<Rightarrow> u64 \<Rightarrow> StringId \<Rightarrow> bool" where
  "named_scope_ok mem locations p name \<longleftrightarrow> StaticString_readable mem (StaticString_from_StringId name)
     \<and> (\<exists>l. locations p = Some l \<and> list_all (str_ok mem) (location_strings l))"

fun span_refs_ok :: "memory \<Rightarrow> (u64 \<rightharpoonup> SpanMetadata) \<Rightarrow> (u64 \<rightharpoonup> SpanLocation) \<Rightarrow> ThreadEventQueueAny \<Rightarrow> bool" where
  "span_refs_ok mem spans locations (BeginThreadSpanEvent e) = scope_ok mem spans (ts_thread_span_desc e)"
| "span_refs_ok mem spans locations (EndThreadSpanEvent e) = scope_ok mem spans (ts_thread_span_desc e)"
| "span_refs_ok mem spans locations (BeginThreadNamedSpanEvent e) =
     named_scope_ok mem locations (tn_thread_span_location e) (tn_name e)"
| "span_refs_ok mem spans locations (EndThreadNamedSpanEvent e) =
     named_scope_ok mem locations (tn_thread_span_location e) (tn_name e)"
| "span_refs_ok mem spans locations (BeginAsyncSpanEvent e) = scope_ok mem spans (as_span_desc e)"
| "span_refs_ok mem spans locations (EndAsyncSpanEvent e) = scope_ok mem spans (as_span_desc e)"
| "span_refs_ok mem spans locations (BeginAsyncNamedSpanEvent e) =
     named_scope_ok mem locations (an_span_location e) (an_name e)"
| "span_refs_ok mem spans locations (EndAsyncNamedSpanEvent e) =
     named_scope_ok mem locations (an_span_location e) (an_name e)"

definition ThreadDepsQueue_ready :: "abi \<Rightarrow> memory \<Rightarrow> UserDefinedType list \<Rightarrow> ThreadDepsQueueAny \<Rightarrow> bool" where
  "ThreadDepsQueue_ready abi mem dep_udts d \<longleftrightarrow> 3 \<le> length dep_udts \<and> (case d of
     SpanRecord r \<Rightarrow> layout_ok abi SpanRecord_decl \<and> describes abi SpanRecord_decl (dep_udts ! 0)
   | SpanLocationRecord r \<Rightarrow> layout_ok abi SpanLocationRecord_decl \<and> describes abi SpanLocationRecord_decl (dep_udts ! 1)
   | SpanStaticString s \<Rightarrow> StaticString_readable mem s \<and> udt_name (dep_udts ! 2) = ''StaticString''
       \<and> udt_size (dep_udts ! 2) = 0)"

definition ThreadEventQueue_ready ::
  "abi \<Rightarrow> memory \<Rightarrow> (u64 \<rightharpoonup> SpanMetadata) \<Rightarrow> (u64 \<rightharpoonup> SpanLocation) \<Rightarrow> UserDefinedType list \<Rightarrow> UserDefinedType list
    \<Rightarrow> ThreadEventQueueAny \<Rightarrow> bool" where
  "ThreadEventQueue_ready abi mem spans locations udts dep_udts e \<longleftrightarrow> ThreadEventQueue_valid abi e
     \<and> finds_StringId abi udts \<and> ThreadEventQueue_type_index e < length udts
     \<and> describes abi (ThreadEventQueue_decl e) (udts ! ThreadEventQueue_type_index e)
     \<and> span_refs_ok mem spans locations e
     \<and> list_all (\<lambda>a. list_all (ThreadDepsQueue_ready abi mem dep_udts) (action_deps a)) (span_actions spans locations e)"

lemma ThreadDepsQueue_index_iff:
  "ThreadDepsQueue_type_index v = 0 \<longleftrightarrow> (\<exists>r. v = SpanRecord r)"
  "ThreadDepsQueue_type_index v = Suc 0 \<longleftrightarrow> (\<exists>r. v = SpanLocationRecord r)"
  "ThreadDepsQueue_type_index v = Suc (Suc 0) \<longleftrightarrow> (\<exists>s. v = SpanStaticString s)"
  by (cases v; simp)+

lemma ThreadDepsQueue_hetero:
  "hetero_queue (ThreadDepsQueue_items abi mem) ThreadDepsQueue_type_index (ThreadDepsQueue_ready abi mem dep_udts)"
proof (rule hetero_queueI)
  show "ThreadDepsQueue_type_index v < length (ThreadDepsQueue_items abi mem)" for v
    by (cases v) (simp_all add: ThreadDepsQueue_items_def)
  show "list_all (\<lambda>(i, ser). in_proc_serialize ser
      (\<lambda>v. ThreadDepsQueue_ready abi mem dep_udts v \<and> ThreadDepsQueue_type_index v = i))
      (enumerate 0 (ThreadDepsQueue_items abi mem))"
    unfolding ThreadDepsQueue_items_def enumerate_simps list.pred_inject prod.case
    by (intro conjI variant_serialize [OF pod_in_proc_serialize_if]
        variant_serialize [OF static_string.in_proc_serialize_axioms])
      (auto simp: span_vals_ok span_of_vals ThreadDepsQueue_ready_def StaticString_readable_def ThreadDepsQueue_index_iff)
qed (simp add: ThreadDepsQueue_items_def)

lemma span_fields_ok:
  "finds_StringId abi udts \<Longrightarrow> fields_ok abi udts (ThreadEventQueue_decl v)"
  "fields_ok abi udts SpanRecord_decl" "fields_ok abi udts SpanLocationRecord_decl"
  by (cases v) (auto simp: fields_ok_def span_decl_defs)

lemma ThreadDepsQueue_reads:
  assumes "ThreadDepsQueue_ready abi mem dep_udts v"
    and "write_value (ThreadDepsQueue_items abi mem ! ThreadDepsQueue_type_index v) v = Inr bs"
  shows "read_dependency (Suc (Suc stack)) dep_udts (pre @ bs @ post) (dep_udts ! ThreadDepsQueue_type_index v)
      (length pre) (length bs) hash
    = dep_insert hash (ThreadDepsQueue_dep_id v) (ThreadDepsQueue_denote abi mem hash v)"
proof (cases v)
  case (SpanStaticString s)
  then show ?thesis
    using assms read_static_string_dependency [of mem s bs "dep_udts ! 2"]
    by (simp add: ThreadDepsQueue_ready_def ThreadDepsQueue_items_def StaticString_serialize_def)
next
  case (SpanRecord r)
  then have "bs = write_any abi SpanRecord_decl (SpanRecord_vals r)" "layout_ok abi SpanRecord_decl"
    "describes abi SpanRecord_decl (dep_udts ! 0)"
    using assms by (simp_all add: ThreadDepsQueue_items_def ThreadDepsQueue_ready_def)
  then show ?thesis
    using read_record_dependency [OF _ span_vals_ok(2) [of abi r] span_fields_ok(2), of "dep_udts ! 0"
        "tl (sd_fields SpanRecord_decl)" "sr_id r" "tl (SpanRecord_vals r)"]
    by (simp add: SpanRecord SpanRecord_decl_def SpanRecord_vals_def)
next
  case (SpanLocationRecord r)
  then have "bs = write_any abi SpanLocationRecord_decl (SpanLocationRecord_vals r)"
    "layout_ok abi SpanLocationRecord_decl" "describes abi SpanLocationRecord_decl (dep_udts ! 1)"
    using assms by (simp_all add: ThreadDepsQueue_items_def ThreadDepsQueue_ready_def)
  then show ?thesis
    using read_record_dependency [OF _ span_vals_ok(3) [of abi r] span_fields_ok(3), of "dep_udts ! 1"
        "tl (sd_fields SpanLocationRecord_decl)" "slr_id r" "tl (SpanLocationRecord_vals r)"]
    by (simp add: SpanLocationRecord SpanLocationRecord_decl_def SpanLocationRecord_vals_def)
qed

interpretation span_graph: dependency_graph ThreadDepsQueue_dep_id "ThreadDepsQueue_denote abi mem" ThreadDepsQueue_refs
  for abi mem
proof
  show "ThreadDepsQueue_denote abi mem h d = ThreadDepsQueue_denote abi mem h' d"
    if "\<And>k. k \<in> ThreadDepsQueue_refs d \<Longrightarrow> h k = h' k" for d h h'
    using that
    by (cases d) (simp_all add: pod_object_def deref_def span_decl_defs span_val_defs)
qed

lemma span_record_ids [simp]: "sr_id (span_record p m) = p" "slr_id (span_location_record p l) = p"
  by (simp_all add: span_record_def span_location_record_def Let_def)

lemma record_scope_action:
  "record_scope_event_dependencies al abi mem p m =
     run_action (push al (ThreadDepsQueue_items abi mem) ThreadDepsQueue_type_index) ThreadDepsQueue_dep_id
       (Described (map (\<lambda>s. SpanStaticString (StaticString_from_str s)) (span_strings m)) (SpanRecord (span_record p m)))"
  "record_named_scope_event_dependencies al abi mem p l name st =
     and_then (run_action (push al (ThreadDepsQueue_items abi mem) ThreadDepsQueue_type_index) ThreadDepsQueue_dep_id
       (Described (map (\<lambda>s. SpanStaticString (StaticString_from_str s)) (location_strings l))
         (SpanLocationRecord (span_location_record p l))) st)
     (run_action (push al (ThreadDepsQueue_items abi mem) ThreadDepsQueue_type_index) ThreadDepsQueue_dep_id
       (New (SpanStaticString (StaticString_from_StringId name))))"
  by (simp_all add: record_scope_event_dependencies_def record_named_scope_event_dependencies_def
      span_strings_def [symmetric] location_strings_def [symmetric]
      push_span_dep_def fold_res_map record_span_static_def [abs_def] StringId_id_def StaticString_from_StringId_def)

lemma span_extract_runs:
  assumes "queue_iter (ThreadEventQueue_items abi) q = Inr es" and "list_all (span_refs_ok mem spans locations) es"
  shows "ThreadEventQueue_extract al abi mem spans locations q =
    and_then (fold_res (run_action (push al (ThreadDepsQueue_items abi mem) ThreadDepsQueue_type_index) ThreadDepsQueue_dep_id)
      (concat (map (span_actions spans locations) es)) ({}, queue_new al (1024 * 1024))) (\<lambda>(_, deps). Inr deps)"
proof -
  let ?run = "run_action (push al (ThreadDepsQueue_items abi mem) ThreadDepsQueue_type_index) ThreadDepsQueue_dep_id"
  have scope: "record_scope_at al abi mem spans p st = fold_res ?run (scope_actions spans p) st"
    if "scope_ok mem spans p" for p st
    using that by (auto simp: scope_ok_def record_scope_at_def scope_actions_def record_scope_action simp del: run_action.simps)
  have named: "record_named_scope_at al abi mem locations p name st = fold_res ?run (named_scope_actions locations p name) st"
    if "named_scope_ok mem locations p name" for p name st
    using that by (auto simp: named_scope_ok_def record_named_scope_at_def named_scope_actions_def record_scope_action
        simp del: run_action.simps intro!: and_then_cong)
  have one: "record_thread_event al abi mem spans locations e st = fold_res ?run (span_actions spans locations e) st"
    if "span_refs_ok mem spans locations e" for e st
    using that by (cases e) (simp_all add: scope named del: run_action.simps)
  have "fold_res (record_thread_event al abi mem spans locations) es st
      = fold_res ?run (concat (map (span_actions spans locations) es)) st" for st
    using assms(2) by (induction es arbitrary: st) (auto simp: one fold_res_append intro!: and_then_cong)
  then show ?thesis by (simp add: ThreadEventQueue_extract_def assms(1))
qed

lemma span_strings_resolved:
  assumes "\<And>d. d \<in> set (map (\<lambda>s. SpanStaticString (StaticString_from_str s)) ss) \<Longrightarrow>
      h (ThreadDepsQueue_dep_id d) = Some (ThreadDepsQueue_denote abi mem h d)"
    and "list_all (str_ok mem) ss" and "s \<in> set ss"
  shows "h (str_ptr s) = Some (VString (str_text mem s))"
  using assms(1) [of "SpanStaticString (StaticString_from_str s)"] assms(2,3)
  by (auto simp: str_ok_readable(2) list_all_iff)

lemma scope_resolved:
  assumes "scope_ok mem spans p"
    and "\<And>a d. a \<in> set (scope_actions spans p) \<Longrightarrow> d \<in> set (action_deps a) \<Longrightarrow>
      h (ThreadDepsQueue_dep_id d) = Some (ThreadDepsQueue_denote abi mem h d)"
  shows "deref h p = span_desc_meaning mem spans p"
proof -
  obtain m where m: "spans p = Some m" "list_all (str_ok mem) (span_strings m)"
    using assms(1) by (auto simp: scope_ok_def)
  have "h (str_ptr s) = Some (VString (str_text mem s))" if "s \<in> set (span_strings m)" for s
    by (rule span_strings_resolved [OF _ m(2) that])
      (use assms(2) [of "hd (scope_actions spans p)"] m(1) in \<open>auto simp: scope_actions_def\<close>)
  moreover have "h p = Some (pod_object abi h SpanRecord_decl (SpanRecord_vals (span_record p m)))"
    using assms(2) [of "hd (scope_actions spans p)" "SpanRecord (span_record p m)"] m(1) by (simp add: scope_actions_def)
  ultimately show ?thesis
    using m(1) by (simp add: span_strings_def location_strings_def pod_object_def span_decl_defs span_val_defs
        span_record_def span_desc_meaning_def Let_def)
qed

lemma named_scope_resolved:
  assumes "named_scope_ok mem locations p name"
    and "\<And>a d. a \<in> set (named_scope_actions locations p name) \<Longrightarrow> d \<in> set (action_deps a) \<Longrightarrow>
      h (ThreadDepsQueue_dep_id d) = Some (ThreadDepsQueue_denote abi mem h d)"
  shows "deref h p = span_location_meaning mem locations p" and "deref h (StringId_id name) = span_name_meaning mem name"
proof -
  obtain l where l: "locations p = Some l" "list_all (str_ok mem) (location_strings l)"
    using assms(1) by (auto simp: named_scope_ok_def)
  have "h (str_ptr s) = Some (VString (str_text mem s))" if "s \<in> set (location_strings l)" for s
    by (rule span_strings_resolved [OF _ l(2) that])
      (use assms(2) [of "hd (named_scope_actions locations p name)"] l(1) in \<open>auto simp: named_scope_actions_def\<close>)
  moreover have "h p = Some (pod_object abi h SpanLocationRecord_decl (SpanLocationRecord_vals (span_location_record p l)))"
    using assms(2) [of "hd (named_scope_actions locations p name)" "SpanLocationRecord (span_location_record p l)"] l(1)
    by (simp add: named_scope_actions_def)
  ultimately show "deref h p = span_location_meaning mem locations p"
    using l(1) by (simp add: location_strings_def pod_object_def span_decl_defs span_val_defs
        span_location_record_def span_location_meaning_def Let_def)
  show "deref h (StringId_id name) = span_name_meaning mem name"
    using assms(2) [of "New (SpanStaticString (StaticString_from_StringId name))"
        "SpanStaticString (StaticString_from_StringId name)"] l(1)
    by (simp add: named_scope_actions_def StringId_id_def StaticString_from_StringId_def span_name_meaning_def)
qed

lemma span_denote_meaning:
  assumes "ThreadEventQueue_ready abi mem spans locations udts dep_udts e"
    and "\<And>a d. a \<in> set (span_actions spans locations e) \<Longrightarrow> d \<in> set (action_deps a) \<Longrightarrow>
      h (ThreadDepsQueue_dep_id d) = Some (ThreadDepsQueue_denote abi mem h d)"
  shows "ThreadEventQueue_denote abi h e = span_meaning mem spans locations e"
proof -
  have lay: "layout_ok abi StringId_decl" and refs: "span_refs_ok mem spans locations e"
    using assms(1) by (simp_all add: ThreadEventQueue_ready_def finds_StringId_def)
  have scope: "deref h p = span_desc_meaning mem spans p"
    if "scope_ok mem spans p" "span_actions spans locations e = scope_actions spans p" for p
    by (rule scope_resolved [OF that(1)]) (use assms(2) that(2) in auto)
  have named: "deref h p = span_location_meaning mem locations p \<and> deref h (StringId_id n) = span_name_meaning mem n"
    if "named_scope_ok mem locations p n" "span_actions spans locations e = named_scope_actions locations p n" for p n
    using named_scope_resolved [OF that(1)] assms(2) that(2) by simp
  show ?thesis
    using refs lay
    by (cases e) (auto simp: ThreadEventQueue_denote_def pod_object_def span_decl_defs span_val_defs bytes_write_StringId
        thread_span_members_def thread_named_span_members_def async_span_members_def async_named_span_members_def
        scope named)
qed

interpretation span_block: block_codec "ThreadEventQueue_items abi" ThreadEventQueue_type_index
    "ThreadEventQueue_ready abi mem spans locations udts dep_udts" udts "Suc (Suc stack)" "ThreadEventQueue_denote abi"
    "ThreadDepsQueue_items abi mem" ThreadDepsQueue_type_index "ThreadDepsQueue_ready abi mem dep_udts"
    dep_udts ThreadDepsQueue_dep_id "ThreadDepsQueue_denote abi mem" ThreadDepsQueue_refs
    al "ThreadEventQueue_extract al abi mem spans locations" "span_actions spans locations" "span_meaning mem spans locations"
  for abi mem spans locations udts dep_udts stack al
proof (intro block_codec.intro parsed_queue.intro described_queue.intro deps_queue.intro
    span_graph.dependency_graph_axioms ThreadDepsQueue_hetero)
  let ?ready = "ThreadEventQueue_ready abi mem spans locations udts dep_udts"
  show "hetero_queue (ThreadEventQueue_items abi) ThreadEventQueue_type_index ?ready"
    by (rule hetero_queue_mono [OF thread_event.hetero_queue_axioms]) (simp add: ThreadEventQueue_ready_def)
  show "described_queue_axioms (ThreadEventQueue_items abi) ThreadEventQueue_type_index ?ready udts"
  proof
    fix v
    assume "?ready v"
    then show "ThreadEventQueue_type_index v < length udts
        \<and> udt_matches (udts ! ThreadEventQueue_type_index v) (ThreadEventQueue_items abi ! ThreadEventQueue_type_index v)"
      by (cases v) (auto simp: ThreadEventQueue_ready_def ThreadEventQueue_valid_def udt_matches_def
          ThreadEventQueue_items_def describes_def layout_ok_def)
  qed
  show "parsed_queue_axioms (ThreadEventQueue_items abi) ThreadEventQueue_type_index ?ready udts
      (Suc (Suc stack)) (ThreadEventQueue_denote abi)"
  proof
    fix v bs dependencies pre post
    assume r: "?ready v"
      and w: "write_value (ThreadEventQueue_items abi ! ThreadEventQueue_type_index v) v = Inr bs"
    have "bs = write_any abi (ThreadEventQueue_decl v) (ThreadEventQueue_vals abi v)"
      using w by (cases v) (simp_all add: ThreadEventQueue_items_def)
    then show "parse_instance (Suc (Suc stack)) (udts ! ThreadEventQueue_type_index v) udts dependencies (length pre)
        (length bs) (pre @ bs @ post) = Inr (ThreadEventQueue_denote abi dependencies v)"
      unfolding ThreadEventQueue_denote_def
      using r parse_instance_reflected [OF _ span_vals_ok(1) span_fields_ok(1)]
      by (simp add: ThreadEventQueue_ready_def ThreadEventQueue_valid_def)
  qed
  show "described_queue_axioms (ThreadDepsQueue_items abi mem) ThreadDepsQueue_type_index
      (ThreadDepsQueue_ready abi mem dep_udts) dep_udts"
  proof
    fix v
    assume "ThreadDepsQueue_ready abi mem dep_udts v"
    then show "ThreadDepsQueue_type_index v < length dep_udts
        \<and> udt_matches (dep_udts ! ThreadDepsQueue_type_index v) (ThreadDepsQueue_items abi mem ! ThreadDepsQueue_type_index v)"
      by (cases v) (auto simp: ThreadDepsQueue_ready_def udt_matches_def ThreadDepsQueue_items_def
          describes_def layout_ok_def StaticString_serialize_def)
  qed
  show "deps_queue_axioms (ThreadDepsQueue_items abi mem) ThreadDepsQueue_type_index
      (ThreadDepsQueue_ready abi mem dep_udts) dep_udts (Suc (Suc stack)) ThreadDepsQueue_dep_id
      (ThreadDepsQueue_denote abi mem)"
    by (rule deps_queue_axioms.intro) (rule ThreadDepsQueue_reads)
  show "block_codec_axioms (ThreadEventQueue_items abi) ?ready
      (ThreadEventQueue_denote abi) (ThreadDepsQueue_items abi mem) ThreadDepsQueue_type_index
      (ThreadDepsQueue_ready abi mem dep_udts) ThreadDepsQueue_dep_id (ThreadDepsQueue_denote abi mem)
      al (ThreadEventQueue_extract al abi mem spans locations) (span_actions spans locations) (span_meaning mem spans locations)"
  proof (rule block_codec_axioms.intro, goal_cases)
    case (1 q es)
    show ?case
      by (rule span_extract_runs [OF 1(1)]) (use 1(2) in \<open>auto simp: list_all_iff ThreadEventQueue_ready_def\<close>)
  next
    case (2 e)
    then show ?case by (simp add: ThreadEventQueue_ready_def)
  next
    case (3 e h)
    show ?case by (rule span_denote_meaning [OF 3])
  qed
qed

text \<open>The metadata that a thread stream announces is what its blocks need.\<close>

lemma span_metadata:
  assumes "layout_ok abi StringId_decl" and "is_shuffle shuffle"
  shows "finds_StringId abi (stream_metadata shuffle (ThreadEventQueue_reflect_contained abi))"
    and "ThreadEventQueue_type_index e < length (stream_metadata shuffle (ThreadEventQueue_reflect_contained abi))"
    and "describes abi (ThreadEventQueue_decl e)
      (stream_metadata shuffle (ThreadEventQueue_reflect_contained abi) ! ThreadEventQueue_type_index e)"
proof -
  show "finds_StringId abi (stream_metadata shuffle (ThreadEventQueue_reflect_contained abi))"
    by (rule stream_metadata_finds_StringId [OF assms])
      (simp_all add: ThreadEventQueue_reflect_contained_def reflect_decl_def span_decl_defs is_secondary_def
        udt_insert_def StringId_reflect_def)
  show "ThreadEventQueue_type_index e < length (stream_metadata shuffle (ThreadEventQueue_reflect_contained abi))"
  proof (rule less_le_trans [OF _ stream_metadata_nth(2)])
    show "ThreadEventQueue_type_index e < length (ThreadEventQueue_reflect_contained abi)"
      by (cases e) (simp_all add: ThreadEventQueue_reflect_contained_def)
  qed
  show "describes abi (ThreadEventQueue_decl e)
      (stream_metadata shuffle (ThreadEventQueue_reflect_contained abi) ! ThreadEventQueue_type_index e)"
    by (cases e) (simp_all add: stream_metadata_nth ThreadEventQueue_reflect_contained_def describes_reflect_decl)
qed

lemma span_deps_ready:
  assumes "layout_ok abi SpanRecord_decl" and "layout_ok abi SpanLocationRecord_decl"
    and "span_refs_ok mem spans locations e" and "a \<in> set (span_actions spans locations e)"
  shows "list_all (ThreadDepsQueue_ready abi mem (stream_metadata shuffle (ThreadDepsQueue_reflect_contained abi))) (action_deps a)"
proof -
  let ?dep_udts = "stream_metadata shuffle (ThreadDepsQueue_reflect_contained abi)"
  have len: "3 \<le> length ?dep_udts"
    using stream_metadata_nth(2) [of "ThreadDepsQueue_reflect_contained abi" shuffle]
    by (simp add: ThreadDepsQueue_reflect_contained_def)
  have udts: "describes abi SpanRecord_decl (?dep_udts ! 0)" "describes abi SpanLocationRecord_decl (?dep_udts ! 1)"
    "?dep_udts ! 2 = strip_secondary StaticString_reflect"
    by (simp_all add: stream_metadata_nth ThreadDepsQueue_reflect_contained_def describes_reflect_decl)
  have ready: "ThreadDepsQueue_ready abi mem ?dep_udts (SpanRecord r)"
    "ThreadDepsQueue_ready abi mem ?dep_udts (SpanLocationRecord l)"
    "StaticString_readable mem s \<Longrightarrow> ThreadDepsQueue_ready abi mem ?dep_udts (SpanStaticString s)" for r l s
    using assms(1,2) len udts by (simp_all add: ThreadDepsQueue_ready_def StaticString_reflect_def custom_udt_def)
  have scope: "list_all (ThreadDepsQueue_ready abi mem ?dep_udts) (action_deps a)"
    if "scope_ok mem spans p" "a \<in> set (scope_actions spans p)" for p
    using that ready by (auto simp: scope_ok_def scope_actions_def list_all_iff str_ok_readable)
  have named: "list_all (ThreadDepsQueue_ready abi mem ?dep_udts) (action_deps a)"
    if "named_scope_ok mem locations p n" "a \<in> set (named_scope_actions locations p n)" for p n
    using that ready by (auto simp: named_scope_ok_def named_scope_actions_def list_all_iff str_ok_readable)
  show ?thesis using assms(3,4) scope named by (cases e) simp_all
qed

lemma span_ready:
  assumes "layout_ok abi SpanRecord_decl" and "layout_ok abi SpanLocationRecord_decl" and "is_shuffle shuffle"
    and "ThreadEventQueue_valid abi e" and "span_refs_ok mem spans locations e"
  shows "ThreadEventQueue_ready abi mem spans locations (stream_metadata shuffle (ThreadEventQueue_reflect_contained abi))
    (stream_metadata dep_shuffle (ThreadDepsQueue_reflect_contained abi)) e"
proof -
  have "layout_ok abi StringId_decl" using assms(4) by (simp add: ThreadEventQueue_valid_def)
  from span_metadata [OF this assms(3)] span_deps_ready [OF assms(1,2,5)] assms(4,5) show ?thesis
    by (simp add: ThreadEventQueue_ready_def list_all_iff)
qed

end
