(* ===== verification/Dispatch.thy ===== *)
theory Dispatch
  imports Metrics Logs Spans
begin

text \<open>
  The event dispatcher of a process (\<open>dispatch.rs\<close>) and the sink that it serves
  (\<open>event/sink.rs\<close>). The global variables of the module are the record \<open>world\<close>: the dispatcher once
  it exists, the counter of asynchronous spans, the stream of every thread by thread number, the
  table of interned strings and the environment variable that names the parent process. An
  operation takes what it reads from its surroundings as arguments: the clocks, fresh identifiers,
  and the record \<open>surroundings\<close> for what stays the same.

  A sink is known by the calls that it received, in order. A sink of the application may answer
  whether a log is enabled, or whether it is busy, by any function of these calls; the sink that
  replaces it at shutdown ignores every call.
\<close>

section \<open>Sinks\<close>

record ProcessInfo =
  pi_process_id :: uuid
  pi_exe :: string
  pi_username :: string
  pi_realname :: string
  pi_computer :: string
  pi_distro :: string
  pi_cpu_brand :: string
  pi_tsc_frequency :: i64
  pi_start_time :: int
  pi_start_ticks :: i64
  pi_parent_process_id :: "uuid option"
  pi_properties :: "string \<rightharpoonup> string"

text \<open>
  The arguments of a format macro: a literal with nothing to interpolate, for which
  \<open>Arguments::as_str\<close> is the literal, or pieces that \<open>to_string\<close> renders.
\<close>

datatype Arguments = Literal static_str | Formatted string

datatype sink_call =
    OnStartup ProcessInfo
  | OnShutdown
  | OnLogEnabled LogMetadata
  | OnLog LogMetadata i64 Arguments
  | OnInitLogStream EventStream
  | OnProcessLogBlock EventBlock
  | OnInitMetricsStream EventStream
  | OnProcessMetricsBlock EventBlock
  | OnInitThreadStream EventStream
  | OnProcessThreadBlock EventBlock

datatype sink_ref = AppSink | NullEventSink

record host =
  ho_username :: string
  ho_realname :: string
  ho_exe :: "string option"
  ho_devicename :: string
  ho_distro :: string
  ho_cpu_brand :: "string option"
  ho_frequency :: u64

record surroundings =
  su_alloc :: vec_alloc
  su_abi :: abi
  su_memory :: memory
  su_intern :: "interner \<Rightarrow> string \<Rightarrow> u64"
  su_log_enabled :: "sink_call list \<Rightarrow> LogMetadata \<Rightarrow> bool"
  su_is_busy :: "sink_call list \<Rightarrow> bool"
  su_host :: host
  su_uuid_try_parse :: "string \<Rightarrow> uuid option"
  su_uuid_to_string :: "uuid \<Rightarrow> string"
  su_static_max_level :: LevelFilter
  su_literal :: "string \<Rightarrow> static_str"
  su_call_site :: "string \<Rightarrow> u32 \<Rightarrow> u64"

text \<open>The readings of the clocks during one operation: \<open>now()\<close>, and \<open>DualTime::now()\<close> for a new and for a closed block.\<close>

record clock =
  ck_now :: i64
  ck_utc :: int
  ck_begin :: DualTime
  ck_end :: DualTime

section \<open>State\<close>

record Dispatch =
  process_id :: uuid
  logs_buffer_size :: nat
  metrics_buffer_size :: nat
  threads_buffer_size :: nat
  log_stream :: EventStream
  metrics_stream :: EventStream
  thread_streams :: "nat list"
  sink :: sink_ref

record world =
  G_DISPATCH :: "Dispatch option"
  G_ASYNC_SPAN_COUNTER :: u64
  LOCAL_THREAD_STREAM :: "nat \<Rightarrow> EventStream option"
  STRINGS :: interner
  PARENT_PROCESS :: "string option"
  PREVIOUS_HOOK :: bool
  MAXIMA :: maxima
  sink_calls :: "sink_call list"

definition world_init :: "string option \<Rightarrow> world" where
  "world_init parent = \<lparr>G_DISPATCH = None, G_ASYNC_SPAN_COUNTER = 0, LOCAL_THREAD_STREAM = (\<lambda>_. None),
     STRINGS = Map.empty, PARENT_PROCESS = parent, PREVIOUS_HOOK = False, MAXIMA = maxima_init, sink_calls = []\<rparr>"

text \<open>A method of the dispatcher works on the dispatcher and on the calls that its sink received.\<close>

type_synonym dstate = "Dispatch \<times> sink_call list"

definition notify :: "sink_call \<Rightarrow> dstate \<Rightarrow> dstate" where
  "notify c st = (case st of (d, calls) \<Rightarrow>
     (d, case sink d of AppSink \<Rightarrow> calls @ [c] | NullEventSink \<Rightarrow> calls))"

definition sink_on_log_enabled :: "surroundings \<Rightarrow> LogMetadata \<Rightarrow> dstate \<Rightarrow> bool \<times> dstate" where
  "sink_on_log_enabled su m st = (case st of (d, calls) \<Rightarrow>
     (case sink d of AppSink \<Rightarrow> (su_log_enabled su calls m, notify (OnLogEnabled m) st)
      | NullEventSink \<Rightarrow> (False, st)))"

definition sink_is_busy :: "surroundings \<Rightarrow> sink_call list \<Rightarrow> sink_ref \<Rightarrow> bool" where
  "sink_is_busy su calls s = (case s of AppSink \<Rightarrow> su_is_busy su calls | NullEventSink \<Rightarrow> False)"

section \<open>The methods of the dispatcher\<close>

definition get_cpu_brand :: "host \<Rightarrow> string" where
  "get_cpu_brand h = (case ho_cpu_brand h of None \<Rightarrow> ''unknown'' | Some b \<Rightarrow> b)"

definition make_process_info :: "host \<Rightarrow> clock \<Rightarrow> uuid \<Rightarrow> uuid option \<Rightarrow> ProcessInfo" where
  "make_process_info h ck pid parent =
     \<lparr>pi_process_id = pid, pi_exe = (case ho_exe h of None \<Rightarrow> [] | Some e \<Rightarrow> e), pi_username = ho_username h,
      pi_realname = ho_realname h, pi_computer = ho_devicename h, pi_distro = ho_distro h,
      pi_cpu_brand = get_cpu_brand h, pi_tsc_frequency = ho_frequency h, pi_start_time = ck_utc ck,
      pi_start_ticks = ck_now ck, pi_parent_process_id = parent, pi_properties = Map.empty\<rparr>"

text \<open>The environment variable goes in and out: it ends up naming this process.\<close>

definition Dispatch_startup :: "surroundings \<Rightarrow> clock \<Rightarrow> string option \<Rightarrow> dstate \<Rightarrow> string option \<times> dstate" where
  "Dispatch_startup su ck env st = (case st of (d, calls) \<Rightarrow>
     let parent_process = (case env of None \<Rightarrow> None | Some guid \<Rightarrow> su_uuid_try_parse su guid) in
     (Some (su_uuid_to_string su (process_id d)),
      notify (OnStartup (make_process_info (su_host su) ck (process_id d) parent_process)) st))"

definition Dispatch_init_log_stream :: "dstate \<Rightarrow> dstate" where
  "Dispatch_init_log_stream st = notify (OnInitLogStream (log_stream (fst st))) st"

definition Dispatch_init_metrics_stream :: "dstate \<Rightarrow> dstate" where
  "Dispatch_init_metrics_stream st = notify (OnInitMetricsStream (metrics_stream (fst st))) st"

definition Dispatch_new ::
  "surroundings \<Rightarrow> clock \<Rightarrow> uuid \<Rightarrow> uuid \<Rightarrow> uuid \<Rightarrow> nat \<Rightarrow> nat \<Rightarrow> nat \<Rightarrow> string option \<Rightarrow> sink_call list
    \<Rightarrow> string option \<times> dstate" where
  "Dispatch_new su ck pid log_id metrics_id logs_size metrics_size threads_size env calls =
     (let obj = \<lparr>process_id = pid, logs_buffer_size = logs_size, metrics_buffer_size = metrics_size,
          threads_buffer_size = threads_size,
          log_stream = EventStream_new (su_alloc su) log_id (ck_begin ck) logs_size pid [''log''] Map.empty,
          metrics_stream = EventStream_new (su_alloc su) metrics_id (ck_begin ck) metrics_size pid [''metrics''] Map.empty,
          thread_streams = [], sink = AppSink\<rparr>;
          (env', st) = Dispatch_startup su ck env (obj, calls) in
      (env', Dispatch_init_metrics_stream (Dispatch_init_log_stream st)))"

text \<open>
  One step here. The code takes no lock: it changes the sink of the static dispatcher while another thread may be
  reading it.
\<close>

definition Dispatch_shutdown :: "dstate \<Rightarrow> dstate" where
  "Dispatch_shutdown st = (case notify OnShutdown st of (d, calls) \<Rightarrow> (d\<lparr>sink := NullEventSink\<rparr>, calls))"

definition Dispatch_flush_metrics_buffer :: "surroundings \<Rightarrow> clock \<Rightarrow> dstate \<Rightarrow> dstate res" where
  "Dispatch_flush_metrics_buffer su ck st = (case st of (d, calls) \<Rightarrow>
     and_then (flush_stream (su_alloc su) (ck_begin ck) (ck_end ck) (metrics_buffer_size d) (process_id d) (metrics_stream d))
       (\<lambda>(s, old_block). Inr (case old_block of None \<Rightarrow> (d\<lparr>metrics_stream := s\<rparr>, calls)
          | Some b \<Rightarrow> notify (OnProcessMetricsBlock b) (d\<lparr>metrics_stream := s\<rparr>, calls))))"

definition Dispatch_flush_log_buffer :: "surroundings \<Rightarrow> clock \<Rightarrow> dstate \<Rightarrow> dstate res" where
  "Dispatch_flush_log_buffer su ck st = (case st of (d, calls) \<Rightarrow>
     and_then (flush_stream (su_alloc su) (ck_begin ck) (ck_end ck) (logs_buffer_size d) (process_id d) (log_stream d))
       (\<lambda>(s, old_block). Inr (case old_block of None \<Rightarrow> (d\<lparr>log_stream := s\<rparr>, calls)
          | Some b \<Rightarrow> notify (OnProcessLogBlock b) (d\<lparr>log_stream := s\<rparr>, calls))))"

definition Dispatch_flush_thread_buffer ::
  "surroundings \<Rightarrow> clock \<Rightarrow> EventStream \<Rightarrow> dstate \<Rightarrow> (EventStream \<times> dstate) res" where
  "Dispatch_flush_thread_buffer su ck stream st = (case st of (d, calls) \<Rightarrow>
     and_then (flush_stream (su_alloc su) (ck_begin ck) (ck_end ck) (threads_buffer_size d) (process_id d) stream)
       (\<lambda>(s, old_block). Inr (s, case old_block of None \<Rightarrow> st | Some b \<Rightarrow> notify (OnProcessThreadBlock b) st)))"

text \<open>
  The part of an operation that runs under the lock of a stream: the event is pushed, and the
  answer tells whether the stream is now full.
\<close>

definition push_metric :: "surroundings \<Rightarrow> MetricsMsgQueueAny \<Rightarrow> Dispatch \<Rightarrow> (bool \<times> Dispatch) res" where
  "push_metric su e d =
     and_then (stream_push (su_alloc su) (MetricsMsgQueue_items (su_abi su)) MetricsMsgQueue_type_index e (metrics_stream d))
       (\<lambda>s. Inr (is_full s, d\<lparr>metrics_stream := s\<rparr>))"

definition push_log :: "surroundings \<Rightarrow> LogMsgQueueAny \<Rightarrow> Dispatch \<Rightarrow> (bool \<times> Dispatch) res" where
  "push_log su e d =
     and_then (stream_push (su_alloc su) (LogMsgQueue_items (su_abi su)) LogMsgQueue_type_index e (log_stream d))
       (\<lambda>s. Inr (is_full s, d\<lparr>log_stream := s\<rparr>))"

definition Dispatch_int_metric :: "surroundings \<Rightarrow> clock \<Rightarrow> u64 \<Rightarrow> u64 \<Rightarrow> dstate \<Rightarrow> dstate res" where
  "Dispatch_int_metric su ck desc val st = (case st of (d, calls) \<Rightarrow>
     and_then (push_metric su (IntegerMetricEvent \<lparr>ime_desc = desc, ime_value = val, ime_time = ck_now ck\<rparr>) d)
       (\<lambda>(full, d'). if full then Dispatch_flush_metrics_buffer su ck (d', calls) else Inr (d', calls)))"

definition Dispatch_float_metric :: "surroundings \<Rightarrow> clock \<Rightarrow> u64 \<Rightarrow> u64 \<Rightarrow> dstate \<Rightarrow> dstate res" where
  "Dispatch_float_metric su ck desc val st = (case st of (d, calls) \<Rightarrow>
     and_then (push_metric su (FloatMetricEvent \<lparr>fme_desc = desc, fme_value = val, fme_time = ck_now ck\<rparr>) d)
       (\<lambda>(full, d'). if full then Dispatch_flush_metrics_buffer su ck (d', calls) else Inr (d', calls)))"

definition log_event :: "clock \<Rightarrow> u64 \<Rightarrow> Arguments \<Rightarrow> LogMsgQueueAny" where
  "log_event ck desc args = (case args of
     Literal _ \<Rightarrow> LogStaticStrEvent \<lparr>lse_desc = desc, lse_time = ck_now ck\<rparr>
   | Formatted s \<Rightarrow> LogStringEvent \<lparr>ls_desc = desc, ls_time = ck_now ck, ls_dyn_str = s\<rparr>)"

definition Dispatch_log ::
  "surroundings \<Rightarrow> clock \<Rightarrow> u64 \<Rightarrow> LogMetadata \<Rightarrow> Arguments \<Rightarrow> dstate \<Rightarrow> dstate res" where
  "Dispatch_log su ck desc m args st =
     (let (enabled, st1) = sink_on_log_enabled su m st in
      if \<not> enabled then Inr st1
      else case notify (OnLog m (ck_now ck) args) st1 of (d, calls) \<Rightarrow>
        and_then (push_log su (log_event ck desc args) d)
          (\<lambda>(full, d'). if full then Dispatch_flush_log_buffer su ck (d', calls) else Inr (d', calls)))"

definition interop_event :: "clock \<Rightarrow> LogMetadata \<Rightarrow> static_str \<Rightarrow> Arguments \<Rightarrow> LogMsgQueueAny" where
  "interop_event ck m target args = (case args of
     Literal msg \<Rightarrow> LogStaticStrInteropEvent \<lparr>lsi_time = ck_now ck, lsi_level = Level_as_u32 (lm_level m),
        lsi_target = StringId_from_str target, lsi_msg = StringId_from_str msg\<rparr>
   | Formatted s \<Rightarrow> LogStringInteropEvent \<lparr>li_time = ck_now ck, li_level = Level_as_u32 (lm_level m),
        li_target = StringId_from_str target, li_msg = s\<rparr>)"

definition Dispatch_log_interop ::
  "surroundings \<Rightarrow> clock \<Rightarrow> LogMetadata \<Rightarrow> Arguments \<Rightarrow> interner \<Rightarrow> dstate \<Rightarrow> (interner \<times> dstate) res" where
  "Dispatch_log_interop su ck m args strings st =
     (case notify (OnLog m (ck_now ck) args) st of (d, calls) \<Rightarrow>
      let (target, strings') = intern_string (su_intern su) (str_text (su_memory su) (lm_target m)) strings in
      and_then (push_log su (interop_event ck m target args) d)
        (\<lambda>(full, d'). if full
           then and_then (Dispatch_flush_log_buffer su ck (d', calls)) (\<lambda>st'. Inr (strings', st'))
           else Inr (strings', (d', calls))))"

text \<open>
  A thread registers its stream: the sink sees it first, then it is stored in the cell of the
  thread, whose address the dispatcher keeps.
\<close>

definition Dispatch_init_thread_stream ::
  "surroundings \<Rightarrow> clock \<Rightarrow> uuid \<Rightarrow> nat \<Rightarrow> string \<Rightarrow> string option \<Rightarrow> dstate \<Rightarrow> EventStream \<times> dstate" where
  "Dispatch_init_thread_stream su ck new_id tid thread_id thread_name st =
     (let properties = (case thread_name of None \<Rightarrow> [''thread-id'' \<mapsto> thread_id]
            | Some n \<Rightarrow> [''thread-id'' \<mapsto> thread_id, ''thread-name'' \<mapsto> n]);
          stream = EventStream_new (su_alloc su) new_id (ck_begin ck) (threads_buffer_size (fst st)) (process_id (fst st))
            [''cpu''] properties in
      case notify (OnInitThreadStream stream) st of (d, calls) \<Rightarrow>
        (stream, (d\<lparr>thread_streams := thread_streams d @ [tid]\<rparr>, calls)))"

section \<open>The functions of the module\<close>

text \<open>\<open>if let Some(d) = &mut G_DISPATCH\<close>\<close>

definition with_dispatch :: "(dstate \<Rightarrow> dstate res) \<Rightarrow> world \<Rightarrow> world res" where
  "with_dispatch f w = (case G_DISPATCH w of None \<Rightarrow> Inr w
     | Some d \<Rightarrow> and_then (f (d, sink_calls w)) (\<lambda>(d', calls). Inr (w\<lparr>G_DISPATCH := Some d', sink_calls := calls\<rparr>)))"

definition get_process_id :: "world \<Rightarrow> uuid option" where
  "get_process_id w = map_option process_id (G_DISPATCH w)"

definition get_sink :: "world \<Rightarrow> sink_ref option" where
  "get_sink w = map_option sink (G_DISPATCH w)"

definition shutdown_dispatch :: "world \<Rightarrow> world res" where
  "shutdown_dispatch = with_dispatch (\<lambda>st. Inr (Dispatch_shutdown st))"

definition int_metric :: "surroundings \<Rightarrow> clock \<Rightarrow> u64 \<Rightarrow> u64 \<Rightarrow> world \<Rightarrow> world res" where
  "int_metric su ck desc val = with_dispatch (Dispatch_int_metric su ck desc val)"

definition float_metric :: "surroundings \<Rightarrow> clock \<Rightarrow> u64 \<Rightarrow> u64 \<Rightarrow> world \<Rightarrow> world res" where
  "float_metric su ck desc val = with_dispatch (Dispatch_float_metric su ck desc val)"

definition log_dispatch :: "surroundings \<Rightarrow> clock \<Rightarrow> u64 \<Rightarrow> LogMetadata \<Rightarrow> Arguments \<Rightarrow> world \<Rightarrow> world res" where
  "log_dispatch su ck desc m args = with_dispatch (Dispatch_log su ck desc m args)"

definition log_interop :: "surroundings \<Rightarrow> clock \<Rightarrow> LogMetadata \<Rightarrow> Arguments \<Rightarrow> world \<Rightarrow> world res" where
  "log_interop su ck m args w = (case G_DISPATCH w of None \<Rightarrow> Inr w
     | Some d \<Rightarrow> and_then (Dispatch_log_interop su ck m args (STRINGS w) (d, sink_calls w))
         (\<lambda>(strings, (d', calls)). Inr (w\<lparr>STRINGS := strings, G_DISPATCH := Some d', sink_calls := calls\<rparr>)))"

definition log_enabled :: "surroundings \<Rightarrow> LogMetadata \<Rightarrow> world \<Rightarrow> bool \<times> world" where
  "log_enabled su m w = (case G_DISPATCH w of None \<Rightarrow> (False, w)
     | Some d \<Rightarrow> (let (b, (d', calls)) = sink_on_log_enabled su m (d, sink_calls w) in
         (b, w\<lparr>G_DISPATCH := Some d', sink_calls := calls\<rparr>)))"

definition flush_log_buffer :: "surroundings \<Rightarrow> clock \<Rightarrow> world \<Rightarrow> world res" where
  "flush_log_buffer su ck = with_dispatch (Dispatch_flush_log_buffer su ck)"

definition flush_metrics_buffer :: "surroundings \<Rightarrow> clock \<Rightarrow> world \<Rightarrow> world res" where
  "flush_metrics_buffer su ck = with_dispatch (Dispatch_flush_metrics_buffer su ck)"

text \<open>The \<open>log!\<close> macro: the metadata of the call site, and the test against the two maxima.\<close>

definition log_desc :: "Level \<Rightarrow> static_str \<Rightarrow> static_str \<Rightarrow> static_str \<Rightarrow> static_str \<Rightarrow> u32 \<Rightarrow> LogMetadata" where
  "log_desc lvl fmt_str target module_path file line =
     \<lparr>lm_level = lvl, lm_level_filter = FILTER_LEVEL_UNSET_VALUE, lm_fmt_str = fmt_str, lm_target = target,
      lm_module_path = module_path, lm_file = file, lm_line = line\<rparr>"

definition log_macro :: "surroundings \<Rightarrow> clock \<Rightarrow> u64 \<Rightarrow> LogMetadata \<Rightarrow> Arguments \<Rightarrow> world \<Rightarrow> world res" where
  "log_macro su ck desc m args w =
     (if po_le Level_PartialOrd_LevelFilter (lm_level m) (su_static_max_level su)
      then and_then (max_level (MAXIMA w)) (\<lambda>max.
        if po_le Level_PartialOrd_LevelFilter (lm_level m) max then log_dispatch su ck desc m args w else Inr w)
      else Inr w)"

text \<open>A call of a logging macro with a literal and no target, in the module itself.\<close>

definition log_here :: "surroundings \<Rightarrow> clock \<Rightarrow> Level \<Rightarrow> string \<Rightarrow> u32 \<Rightarrow> world \<Rightarrow> world res" where
  "log_here su ck lvl msg line =
     (let here = su_literal su ''micromegas_tracing::dispatch'' in
      log_macro su ck (su_call_site su ''dispatch.rs'' line)
        (log_desc lvl (su_literal su msg) here here (su_literal su ''tracing/src/dispatch.rs'') line)
        (Literal (su_literal su msg)))"

datatype dispatch_error = AlreadyInitialized

definition init_event_dispatch ::
  "surroundings \<Rightarrow> clock \<Rightarrow> uuid \<Rightarrow> uuid \<Rightarrow> uuid \<Rightarrow> nat \<Rightarrow> nat \<Rightarrow> nat \<Rightarrow> world \<Rightarrow> ((dispatch_error + unit) \<times> world) res" where
  "init_event_dispatch su ck pid log_id metrics_id logs_size metrics_size threads_size w =
     (case G_DISPATCH w of
        None \<Rightarrow> (case Dispatch_new su ck pid log_id metrics_id logs_size metrics_size threads_size
            (PARENT_PROCESS w) (sink_calls w) of (env, (d, calls)) \<Rightarrow>
          Inr (Inr (), w\<lparr>G_DISPATCH := Some d, PARENT_PROCESS := env, sink_calls := calls\<rparr>))
      | Some _ \<Rightarrow> and_then (log_here su ck Info ''event dispatch already initialized'' 49 w)
          (\<lambda>w'. Inr (Inl AlreadyInitialized, w')))"

definition init_thread_stream ::
  "surroundings \<Rightarrow> clock \<Rightarrow> uuid \<Rightarrow> nat \<Rightarrow> string \<Rightarrow> string option \<Rightarrow> world \<Rightarrow> world res" where
  "init_thread_stream su ck new_id tid thread_id thread_name w =
     (if LOCAL_THREAD_STREAM w tid \<noteq> None then Inr w
      else case G_DISPATCH w of
        None \<Rightarrow> log_here su ck Warn
          ''dispatch not initialized, cannot init thread stream, events will be lost for this thread'' 157 w
      | Some d \<Rightarrow> (case Dispatch_init_thread_stream su ck new_id tid thread_id thread_name (d, sink_calls w) of
          (stream, (d', calls)) \<Rightarrow>
            Inr (w\<lparr>LOCAL_THREAD_STREAM := (LOCAL_THREAD_STREAM w)(tid \<mapsto> stream), G_DISPATCH := Some d',
              sink_calls := calls\<rparr>)))"

text \<open>
  The dispatcher follows the addresses it kept. The cell of a thread that has ended is gone, and
  following its address is undefined.
\<close>

definition at_thread_stream :: "(EventStream \<Rightarrow> EventStream) \<Rightarrow> nat \<Rightarrow> world \<Rightarrow> world res" where
  "at_thread_stream f tid w = (case LOCAL_THREAD_STREAM w tid of None \<Rightarrow> Inl UB
     | Some s \<Rightarrow> Inr (w\<lparr>LOCAL_THREAD_STREAM := (LOCAL_THREAD_STREAM w)(tid \<mapsto> f s)\<rparr>))"

definition for_each_thread_stream :: "(EventStream \<Rightarrow> EventStream) \<Rightarrow> world \<Rightarrow> world res" where
  "for_each_thread_stream f w = (case G_DISPATCH w of None \<Rightarrow> Inr w
     | Some d \<Rightarrow> fold_res (at_thread_stream f) (thread_streams d) w)"

definition flush_thread_buffer :: "surroundings \<Rightarrow> clock \<Rightarrow> nat \<Rightarrow> world \<Rightarrow> world res" where
  "flush_thread_buffer su ck tid w = (case LOCAL_THREAD_STREAM w tid of None \<Rightarrow> Inr w
     | Some stream \<Rightarrow> (case G_DISPATCH w of
          None \<Rightarrow> Inl (Panic ''threads are recording but there is no event dispatch'')
        | Some d \<Rightarrow> and_then (Dispatch_flush_thread_buffer su ck stream (d, sink_calls w))
            (\<lambda>(s, (d', calls)). Inr (w\<lparr>LOCAL_THREAD_STREAM := (LOCAL_THREAD_STREAM w)(tid \<mapsto> s),
               G_DISPATCH := Some d', sink_calls := calls\<rparr>))))"

definition push_thread_event :: "surroundings \<Rightarrow> ThreadEventQueueAny \<Rightarrow> nat \<Rightarrow> world \<Rightarrow> (bool \<times> world) res" where
  "push_thread_event su e tid w = (case LOCAL_THREAD_STREAM w tid of None \<Rightarrow> Inr (False, w)
     | Some stream \<Rightarrow>
         and_then (stream_push (su_alloc su) (ThreadEventQueue_items (su_abi su)) ThreadEventQueue_type_index e stream)
           (\<lambda>s. Inr (is_full s, w\<lparr>LOCAL_THREAD_STREAM := (LOCAL_THREAD_STREAM w)(tid \<mapsto> s)\<rparr>)))"

definition on_thread_event :: "surroundings \<Rightarrow> clock \<Rightarrow> nat \<Rightarrow> ThreadEventQueueAny \<Rightarrow> world \<Rightarrow> world res" where
  "on_thread_event su ck tid e w =
     and_then (push_thread_event su e tid w) (\<lambda>(full, w'). if full then flush_thread_buffer su ck tid w' else Inr w')"

definition on_begin_scope :: "surroundings \<Rightarrow> clock \<Rightarrow> nat \<Rightarrow> u64 \<Rightarrow> world \<Rightarrow> world res" where
  "on_begin_scope su ck tid scope =
     on_thread_event su ck tid (BeginThreadSpanEvent \<lparr>ts_thread_span_desc = scope, ts_time = ck_now ck\<rparr>)"

definition on_end_scope :: "surroundings \<Rightarrow> clock \<Rightarrow> nat \<Rightarrow> u64 \<Rightarrow> world \<Rightarrow> world res" where
  "on_end_scope su ck tid scope =
     on_thread_event su ck tid (EndThreadSpanEvent \<lparr>ts_thread_span_desc = scope, ts_time = ck_now ck\<rparr>)"

definition on_begin_named_scope :: "surroundings \<Rightarrow> clock \<Rightarrow> nat \<Rightarrow> u64 \<Rightarrow> static_str \<Rightarrow> world \<Rightarrow> world res" where
  "on_begin_named_scope su ck tid location name =
     on_thread_event su ck tid (BeginThreadNamedSpanEvent
       \<lparr>tn_thread_span_location = location, tn_name = StringId_from_str name, tn_time = ck_now ck\<rparr>)"

definition on_end_named_scope :: "surroundings \<Rightarrow> clock \<Rightarrow> nat \<Rightarrow> u64 \<Rightarrow> static_str \<Rightarrow> world \<Rightarrow> world res" where
  "on_end_named_scope su ck tid location name =
     on_thread_event su ck tid (EndThreadNamedSpanEvent
       \<lparr>tn_thread_span_location = location, tn_name = StringId_from_str name, tn_time = ck_now ck\<rparr>)"

text \<open>\<open>fetch_add(1)\<close> on the counter of asynchronous spans\<close>

definition next_span_id :: "world \<Rightarrow> u64 \<times> world" where
  "next_span_id w = (G_ASYNC_SPAN_COUNTER w, w\<lparr>G_ASYNC_SPAN_COUNTER := G_ASYNC_SPAN_COUNTER w + 1\<rparr>)"

definition on_begin_async_scope :: "surroundings \<Rightarrow> clock \<Rightarrow> nat \<Rightarrow> u64 \<Rightarrow> world \<Rightarrow> (u64 \<times> world) res" where
  "on_begin_async_scope su ck tid scope w =
     (let (span_id, w1) = next_span_id w in
      and_then (on_thread_event su ck tid (BeginAsyncSpanEvent
          \<lparr>as_span_desc = scope, as_span_id = span_id, as_time = ck_now ck\<rparr>) w1)
        (\<lambda>w'. Inr (span_id, w')))"

definition on_end_async_scope :: "surroundings \<Rightarrow> clock \<Rightarrow> nat \<Rightarrow> u64 \<Rightarrow> u64 \<Rightarrow> world \<Rightarrow> world res" where
  "on_end_async_scope su ck tid span_id scope =
     on_thread_event su ck tid (EndAsyncSpanEvent \<lparr>as_span_desc = scope, as_span_id = span_id, as_time = ck_now ck\<rparr>)"

definition on_begin_async_named_scope ::
  "surroundings \<Rightarrow> clock \<Rightarrow> nat \<Rightarrow> u64 \<Rightarrow> static_str \<Rightarrow> world \<Rightarrow> (u64 \<times> world) res" where
  "on_begin_async_named_scope su ck tid location name w =
     (let (span_id, w1) = next_span_id w in
      and_then (on_thread_event su ck tid (BeginAsyncNamedSpanEvent
          \<lparr>an_span_location = location, an_name = StringId_from_str name, an_span_id = span_id, an_time = ck_now ck\<rparr>) w1)
        (\<lambda>w'. Inr (span_id, w')))"

definition on_end_async_named_scope ::
  "surroundings \<Rightarrow> clock \<Rightarrow> nat \<Rightarrow> u64 \<Rightarrow> u64 \<Rightarrow> static_str \<Rightarrow> world \<Rightarrow> world res" where
  "on_end_async_named_scope su ck tid span_id location name =
     on_thread_event su ck tid (EndAsyncNamedSpanEvent
       \<lparr>an_span_location = location, an_name = StringId_from_str name, an_span_id = span_id, an_time = ck_now ck\<rparr>)"

end
