(* ===== verification/Dispatch_History.thy ===== *)
theory Dispatch_History
  imports Dispatch
begin

text \<open>
  What the dispatcher delivers, whatever the threads of a process do. An operation of the
  dispatcher is a sequence of sections that each run under a lock or on data of one thread: a push
  runs under the lock of its stream, which is released before the flush that may follow. The
  sections of different threads interleave freely, so the reachable states are those of all
  sequences of sections. The invariant relates each stream to the events pushed to it and to the
  blocks that the sink received of it.
\<close>

section \<open>Sections\<close>

datatype dsection =
    Start clock uuid uuid uuid nat nat nat
  | Stop
  | AskEnabled LogMetadata
  | TellLog LogMetadata i64 Arguments
  | Intern string
  | NextSpan
  | SetMaxLevel LevelFilter
  | PushLog LogMsgQueueAny
  | FlushLog clock
  | PushMetric MetricsMsgQueueAny
  | FlushMetrics clock
  | RegisterThread clock uuid nat string "string option"
  | PushThread nat ThreadEventQueueAny
  | FlushThread nat clock
  | MarkFull
  | InstallHook

definition init_panic_hook :: "world \<Rightarrow> world res" where
  "init_panic_hook w = (if PREVIOUS_HOOK w then Inl (Panic ''assertion failed: PREVIOUS_HOOK.is_none()'')
     else Inr (w\<lparr>PREVIOUS_HOOK := True\<rparr>))"

fun run_section :: "surroundings \<Rightarrow> dsection \<Rightarrow> world \<Rightarrow> world res" where
  "run_section su (Start ck pid log_id metrics_id l m t) w =
     (if G_DISPATCH w \<noteq> None then Inr w
      else and_then (init_event_dispatch su ck pid log_id metrics_id l m t w) (\<lambda>(_, w'). Inr w'))"
| "run_section su Stop w = shutdown_dispatch w"
| "run_section su (AskEnabled m) w = Inr (snd (log_enabled su m w))"
| "run_section su (TellLog m time args) w = with_dispatch (\<lambda>st. Inr (notify (OnLog m time args) st)) w"
| "run_section su (Intern s) w = Inr (w\<lparr>STRINGS := snd (intern_string (su_intern su) s (STRINGS w))\<rparr>)"
| "run_section su NextSpan w = Inr (snd (next_span_id w))"
| "run_section su (SetMaxLevel f) w = Inr (w\<lparr>MAXIMA := set_max_level f (MAXIMA w)\<rparr>)"
| "run_section su (PushLog e) w =
     with_dispatch (\<lambda>(d, calls). and_then (push_log su e d) (\<lambda>(_, d'). Inr (d', calls))) w"
| "run_section su (FlushLog ck) w = flush_log_buffer su ck w"
| "run_section su (PushMetric e) w =
     with_dispatch (\<lambda>(d, calls). and_then (push_metric su e d) (\<lambda>(_, d'). Inr (d', calls))) w"
| "run_section su (FlushMetrics ck) w = flush_metrics_buffer su ck w"
| "run_section su (RegisterThread ck u tid thread_id name) w =
     (if G_DISPATCH w = None then Inr w else init_thread_stream su ck u tid thread_id name w)"
| "run_section su (PushThread tid e) w = and_then (push_thread_event su e tid w) (\<lambda>(_, w'). Inr w')"
| "run_section su (FlushThread tid ck) w = flush_thread_buffer su ck tid w"
| "run_section su MarkFull w = for_each_thread_stream set_full w"
| "run_section su InstallHook w = init_panic_hook w"

text \<open>
  Events fit their layouts, buffers are large enough, and the identifier of a new stream is not
  one in use.
\<close>

fun section_ok :: "surroundings \<Rightarrow> world \<Rightarrow> dsection \<Rightarrow> bool" where
  "section_ok su w (Start ck pid log_id metrics_id l m t) =
     (buffer_size_ok (su_alloc su) l \<and> buffer_size_ok (su_alloc su) m \<and> buffer_size_ok (su_alloc su) t)"
| "section_ok su w (PushLog e) = LogMsgQueue_valid (su_abi su) e"
| "section_ok su w (PushMetric e) = MetricsMsgQueue_valid (su_abi su) e"
| "section_ok su w (PushThread tid e) = ThreadEventQueue_valid (su_abi su) e"
| "section_ok su w (RegisterThread ck u tid thread_id name) =
     (\<forall>t s. LOCAL_THREAD_STREAM w t = Some s \<longrightarrow> stream_id s \<noteq> u)"
| "section_ok su w InstallHook = (\<not> PREVIOUS_HOOK w)"
| "section_ok su w _ = True"

text \<open>The events that a section pushes.\<close>

definition pushed_logs :: "world \<Rightarrow> dsection \<Rightarrow> LogMsgQueueAny list" where
  "pushed_logs w sec = (case sec of PushLog e \<Rightarrow> (if G_DISPATCH w = None then [] else [e]) | _ \<Rightarrow> [])"

definition pushed_metrics :: "world \<Rightarrow> dsection \<Rightarrow> MetricsMsgQueueAny list" where
  "pushed_metrics w sec = (case sec of PushMetric e \<Rightarrow> (if G_DISPATCH w = None then [] else [e]) | _ \<Rightarrow> [])"

definition pushed_spans :: "world \<Rightarrow> dsection \<Rightarrow> nat \<Rightarrow> ThreadEventQueueAny list" where
  "pushed_spans w sec t = (case sec of PushThread tid e \<Rightarrow>
     (if tid = t \<and> LOCAL_THREAD_STREAM w t \<noteq> None then [e] else []) | _ \<Rightarrow> [])"

inductive reach ::
  "surroundings \<Rightarrow> world \<Rightarrow> LogMsgQueueAny list \<Rightarrow> MetricsMsgQueueAny list \<Rightarrow> (nat \<Rightarrow> ThreadEventQueueAny list) \<Rightarrow> bool"
  for su where
  reach_init: "reach su (world_init parent) [] [] (\<lambda>_. [])"
| reach_section: "reach su w logs metrics spans \<Longrightarrow> section_ok su w sec \<Longrightarrow> run_section su sec w = Inr w' \<Longrightarrow>
    reach su w' (logs @ pushed_logs w sec) (metrics @ pushed_metrics w sec) (\<lambda>t. spans t @ pushed_spans w sec t)"

section \<open>What the sink received\<close>

definition log_blocks :: "sink_call list \<Rightarrow> EventBlock list" where
  "log_blocks calls = concat (map (\<lambda>c. case c of OnProcessLogBlock b \<Rightarrow> [b] | _ \<Rightarrow> []) calls)"

definition metrics_blocks :: "sink_call list \<Rightarrow> EventBlock list" where
  "metrics_blocks calls = concat (map (\<lambda>c. case c of OnProcessMetricsBlock b \<Rightarrow> [b] | _ \<Rightarrow> []) calls)"

definition thread_blocks :: "sink_call list \<Rightarrow> EventBlock list" where
  "thread_blocks calls = concat (map (\<lambda>c. case c of OnProcessThreadBlock b \<Rightarrow> [b] | _ \<Rightarrow> []) calls)"

definition blocks_of_stream :: "uuid \<Rightarrow> EventBlock list \<Rightarrow> EventBlock list" where
  "blocks_of_stream u bs = filter (\<lambda>b. eb_stream_id b = u) bs"

lemma blocks_append [simp]:
  "log_blocks (xs @ ys) = log_blocks xs @ log_blocks ys"
  "metrics_blocks (xs @ ys) = metrics_blocks xs @ metrics_blocks ys"
  "thread_blocks (xs @ ys) = thread_blocks xs @ thread_blocks ys"
  "blocks_of_stream u (bs @ cs) = blocks_of_stream u bs @ blocks_of_stream u cs"
  by (simp_all add: log_blocks_def metrics_blocks_def thread_blocks_def blocks_of_stream_def)

lemma blocks_nil [simp]:
  "log_blocks [] = []" "metrics_blocks [] = []" "thread_blocks [] = []" "blocks_of_stream u [] = []"
  by (simp_all add: log_blocks_def metrics_blocks_def thread_blocks_def blocks_of_stream_def)

definition is_block_call :: "sink_call \<Rightarrow> bool" where
  "is_block_call c \<longleftrightarrow> (case c of OnProcessLogBlock _ \<Rightarrow> True | OnProcessMetricsBlock _ \<Rightarrow> True
     | OnProcessThreadBlock _ \<Rightarrow> True | _ \<Rightarrow> False)"

lemma blocks_other [simp]:
  "\<not> is_block_call c \<Longrightarrow> log_blocks [c] = [] \<and> metrics_blocks [c] = [] \<and> thread_blocks [c] = []"
  by (cases c) (simp_all add: log_blocks_def metrics_blocks_def thread_blocks_def is_block_call_def)

lemma blocks_one [simp]:
  "log_blocks [OnProcessLogBlock b] = [b]" "log_blocks [OnProcessMetricsBlock b] = []"
  "log_blocks [OnProcessThreadBlock b] = []" "metrics_blocks [OnProcessLogBlock b] = []"
  "metrics_blocks [OnProcessMetricsBlock b] = [b]" "metrics_blocks [OnProcessThreadBlock b] = []"
  "thread_blocks [OnProcessLogBlock b] = []" "thread_blocks [OnProcessMetricsBlock b] = []"
  "thread_blocks [OnProcessThreadBlock b] = [b]"
  by (simp_all add: log_blocks_def metrics_blocks_def thread_blocks_def)

section \<open>The invariant\<close>

abbreviation live :: "Dispatch \<Rightarrow> bool" where
  "live d \<equiv> sink d = AppSink"

definition ids :: "(nat \<Rightarrow> EventStream option) \<Rightarrow> nat \<Rightarrow> uuid option" where
  "ids locals t = map_option stream_id (locals t)"

definition threads_inv ::
  "surroundings \<Rightarrow> bool \<Rightarrow> EventBlock list \<Rightarrow> (nat \<Rightarrow> ThreadEventQueueAny list) \<Rightarrow> (nat \<Rightarrow> EventStream option) \<Rightarrow> bool" where
  "threads_inv su lv bs spans locals \<longleftrightarrow>
     (\<forall>t. locals t = None \<longrightarrow> spans t = [])
     \<and> (\<forall>t s. locals t = Some s \<longrightarrow> owns_block s
          \<and> thread_event.delivers (su_abi su) lv (blocks_of_stream (stream_id s) bs) (spans t) s)
     \<and> inj_on (ids locals) (dom locals)
     \<and> (\<forall>b \<in> set bs. Some (eb_stream_id b) \<in> range (ids locals))"

definition dispatcher_inv ::
  "surroundings \<Rightarrow> Dispatch \<Rightarrow> sink_call list \<Rightarrow> LogMsgQueueAny list \<Rightarrow> MetricsMsgQueueAny list
    \<Rightarrow> (nat \<Rightarrow> ThreadEventQueueAny list) \<Rightarrow> (nat \<Rightarrow> EventStream option) \<Rightarrow> bool" where
  "dispatcher_inv su d calls logs metrics spans locals \<longleftrightarrow>
     buffer_size_ok (su_alloc su) (logs_buffer_size d) \<and> buffer_size_ok (su_alloc su) (metrics_buffer_size d)
     \<and> buffer_size_ok (su_alloc su) (threads_buffer_size d)
     \<and> log_msg.delivers (su_abi su) (live d) (log_blocks calls) logs (log_stream d)
     \<and> metrics_msg.delivers (su_abi su) (live d) (metrics_blocks calls) metrics (metrics_stream d)
     \<and> threads_inv su (live d) (thread_blocks calls) spans locals
     \<and> set (thread_streams d) = dom locals"

definition world_inv ::
  "surroundings \<Rightarrow> world \<Rightarrow> LogMsgQueueAny list \<Rightarrow> MetricsMsgQueueAny list \<Rightarrow> (nat \<Rightarrow> ThreadEventQueueAny list) \<Rightarrow> bool" where
  "world_inv su w logs metrics spans \<longleftrightarrow> (case G_DISPATCH w of
     None \<Rightarrow> logs = [] \<and> metrics = [] \<and> spans = (\<lambda>_. []) \<and> LOCAL_THREAD_STREAM w = (\<lambda>_. None) \<and> sink_calls w = []
   | Some d \<Rightarrow> dispatcher_inv su d (sink_calls w) logs metrics spans (LOCAL_THREAD_STREAM w))"

lemma notify_eq: "notify c (d, calls) = (d, if live d then calls @ [c] else calls)"
  by (cases "sink d") (simp_all add: notify_def)

subsection \<open>Streams of threads\<close>

lemma ids_update: "locals t = Some s \<Longrightarrow> stream_id s' = stream_id s \<Longrightarrow> ids (locals(t \<mapsto> s')) = ids locals"
  by (auto simp: ids_def)

lemma ids_eq_Some: "ids locals t = Some u \<longleftrightarrow> (\<exists>s. locals t = Some s \<and> stream_id s = u)"
  by (auto simp: ids_def)

lemma blocks_of_other_stream [simp]:
  "(\<And>c. c \<in> set cs \<Longrightarrow> eb_stream_id c \<noteq> u) \<Longrightarrow> blocks_of_stream u cs = []"
  by (simp add: blocks_of_stream_def filter_empty_conv)

lemma blocks_of_own_stream [simp]:
  "(\<And>c. c \<in> set cs \<Longrightarrow> eb_stream_id c = u) \<Longrightarrow> blocks_of_stream u cs = cs"
  by (simp add: blocks_of_stream_def)

lemma threads_update:
  assumes "threads_inv su lv bs spans locals" and "locals t = Some s"
    and "stream_id s' = stream_id s" and "owns_block s'"
    and "\<And>c. c \<in> set cs \<Longrightarrow> eb_stream_id c = stream_id s"
    and "thread_event.delivers (su_abi su) lv (blocks_of_stream (stream_id s) bs @ cs) (spans' t) s'"
    and "\<And>u. u \<noteq> t \<Longrightarrow> spans' u = spans u"
  shows "threads_inv su lv (bs @ cs) spans' (locals(t \<mapsto> s'))"
proof -
  have other: "stream_id s'' \<noteq> stream_id s" if "locals u = Some s''" "u \<noteq> t" for u s''
  proof
    assume "stream_id s'' = stream_id s"
    then have "ids locals u = ids locals t" using that(1) assms(2) by (simp add: ids_def)
    moreover have "inj_on (ids locals) (dom locals)" using assms(1) by (simp add: threads_inv_def)
    ultimately show False using that assms(2) by (auto dest!: inj_onD)
  qed
  have "Some (stream_id s) \<in> range (ids locals)"
    by (rule range_eqI [of _ _ t]) (simp add: ids_def assms(2))
  moreover have "dom (locals(t \<mapsto> s')) = dom locals" using assms(2) by auto
  moreover have "blocks_of_stream (stream_id s'') cs = []" if "locals u = Some s''" "u \<noteq> t" for u s''
    using other [OF that] assms(5) by (simp add: blocks_of_stream_def filter_empty_conv)
  moreover have "blocks_of_stream (stream_id s) cs = cs"
    using assms(5) by (simp add: blocks_of_stream_def)
  ultimately show ?thesis
    using assms unfolding threads_inv_def ids_update [of locals t s s', OF assms(2,3)] by auto
qed

lemma threads_push:
  assumes "threads_inv su lv bs spans locals" and "locals t = Some s" and "ThreadEventQueue_valid (su_abi su) e"
  shows "\<exists>s'. stream_push (su_alloc su) (ThreadEventQueue_items (su_abi su)) ThreadEventQueue_type_index e s = Inr s'
    \<and> threads_inv su lv bs (\<lambda>u. spans u @ (if t = u then [e] else [])) (locals(t \<mapsto> s'))"
proof -
  have s: "owns_block s" "thread_event.delivers (su_abi su) lv (blocks_of_stream (stream_id s) bs) (spans t) s"
    using assms(1,2) by (auto simp: threads_inv_def)
  obtain s' where p: "stream_push (su_alloc su) (ThreadEventQueue_items (su_abi su)) ThreadEventQueue_type_index e s = Inr s'"
    "thread_event.delivers (su_abi su) lv (blocks_of_stream (stream_id s) bs) (spans t @ [e]) s'"
    using thread_event.delivers_push [OF s(2) assms(3)] by blast
  moreover have "threads_inv su lv (bs @ []) (\<lambda>u. spans u @ (if t = u then [e] else [])) (locals(t \<mapsto> s'))"
    by (rule threads_update [OF assms(1,2)]) (use owns_block_push [OF p(1) s(1)] p(2) in auto)
  ultimately show ?thesis by auto
qed

lemma threads_flush:
  assumes "threads_inv su lv bs spans locals" and "locals t = Some s" and "buffer_size_ok (su_alloc su) n"
  shows "\<exists>s' ob. flush_stream (su_alloc su) t1 t2 n p s = Inr (s', ob) \<and> is_empty s'
    \<and> threads_inv su lv (bs @ (if lv then case ob of None \<Rightarrow> [] | Some b \<Rightarrow> [b] else [])) spans (locals(t \<mapsto> s'))"
proof -
  have s: "owns_block s" "thread_event.delivers (su_abi su) lv (blocks_of_stream (stream_id s) bs) (spans t) s"
    using assms(1,2) by (auto simp: threads_inv_def)
  obtain s' ob where f: "flush_stream (su_alloc su) t1 t2 n p s = Inr (s', ob)" "is_empty s'"
    "thread_event.delivers (su_abi su) lv (blocks_of_stream (stream_id s) bs
       @ (if lv then case ob of None \<Rightarrow> [] | Some b \<Rightarrow> [b] else [])) (spans t) s'"
    using thread_event.delivers_flush [OF s(2) assms(3), of t1 t2 p] by blast
  moreover have "threads_inv su lv (bs @ (if lv then case ob of None \<Rightarrow> [] | Some b \<Rightarrow> [b] else [])) spans (locals(t \<mapsto> s'))"
  proof (rule threads_update [OF assms(1,2)])
    show "stream_id s' = stream_id s" "owns_block s'" using owns_block_flush [OF f(1) s(1)] by simp_all
    show "eb_stream_id c = stream_id s" if "c \<in> set (if lv then case ob of None \<Rightarrow> [] | Some b \<Rightarrow> [b] else [])" for c
      using owns_block_flush [OF f(1) s(1)] that by (cases ob; cases lv) simp_all
  qed (use f(3) in simp_all)
  ultimately show ?thesis by (intro exI [of _ s'] exI [of _ ob]) simp
qed

lemma threads_set_full:
  assumes "threads_inv su lv bs spans locals" and "locals t = Some s"
  shows "threads_inv su lv bs spans (locals(t \<mapsto> set_full s))"
proof -
  have "threads_inv su lv (bs @ []) spans (locals(t \<mapsto> set_full s))"
    by (rule threads_update [OF assms])
      (use assms in \<open>auto simp: threads_inv_def intro: owns_block_set_full thread_event.delivers_set_full\<close>)
  then show ?thesis by simp
qed

lemma threads_register:
  assumes "threads_inv su lv bs spans locals" and "locals t = None"
    and "\<And>t' s. locals t' = Some s \<Longrightarrow> stream_id s \<noteq> u"
  shows "threads_inv su lv bs spans (locals(t \<mapsto> EventStream_new al u now n p tags props))"
proof -
  let ?s = "EventStream_new al u now n p tags props"
  have "eb_stream_id b \<noteq> u" if "b \<in> set bs" for b
  proof -
    have "Some (eb_stream_id b) \<in> range (ids locals)" using assms(1) that by (simp add: threads_inv_def)
    then obtain t' where "ids locals t' = Some (eb_stream_id b)" by force
    then show ?thesis using assms(3) by (auto simp: ids_eq_Some)
  qed
  then have "blocks_of_stream u bs = []" by simp
  moreover have "ids (locals(t \<mapsto> ?s)) = (ids locals)(t \<mapsto> u)" by (auto simp: ids_def)
  moreover have "Some u \<notin> ids locals ` dom locals" using assms(3) by (metis ids_eq_Some imageE)
  moreover have "Some (eb_stream_id b) \<in> range ((ids locals)(t \<mapsto> u))" if "b \<in> set bs" for b
  proof -
    have "Some (eb_stream_id b) \<in> range (ids locals)" using assms(1) that by (simp add: threads_inv_def)
    then obtain t' where t': "ids locals t' = Some (eb_stream_id b)" by force
    moreover have "t' \<noteq> t" using t' assms(2) by (auto simp: ids_def)
    ultimately show ?thesis by (intro range_eqI [of _ _ t']) simp
  qed
  ultimately show ?thesis
    using assms unfolding threads_inv_def
    by (auto simp: owns_block_new thread_event.delivers_new inj_on_def ids_eq_Some)
qed

lemma threads_stop: "threads_inv su lv bs spans locals \<Longrightarrow> threads_inv su False bs spans locals"
  by (auto simp: threads_inv_def intro: thread_event.delivers_stop)

subsection \<open>The dispatcher\<close>

abbreviation handed :: "EventBlock option \<Rightarrow> EventBlock list" where
  "handed ob \<equiv> (case ob of None \<Rightarrow> [] | Some b \<Rightarrow> [b])"

lemma dispatcher_notify:
  assumes "dispatcher_inv su d calls logs metrics spans locals" and "\<not> is_block_call c"
  shows "dispatcher_inv su d (snd (notify c (d, calls))) logs metrics spans locals"
  using assms by (cases "live d") (simp_all add: dispatcher_inv_def notify_eq)

lemma dispatcher_push_log:
  assumes "dispatcher_inv su d calls logs metrics spans locals" and "LogMsgQueue_valid (su_abi su) e"
  shows "\<exists>full d'. push_log su e d = Inr (full, d') \<and> dispatcher_inv su d' calls (logs @ [e]) metrics spans locals"
proof -
  obtain s' where "stream_push (su_alloc su) (LogMsgQueue_items (su_abi su)) LogMsgQueue_type_index e (log_stream d) = Inr s'"
    "log_msg.delivers (su_abi su) (live d) (log_blocks calls) (logs @ [e]) s'"
    using log_msg.delivers_push [OF _ assms(2)] assms(1) by (fastforce simp: dispatcher_inv_def)
  then show ?thesis using assms(1) by (simp add: push_log_def dispatcher_inv_def)
qed

lemma dispatcher_push_metric:
  assumes "dispatcher_inv su d calls logs metrics spans locals" and "MetricsMsgQueue_valid (su_abi su) e"
  shows "\<exists>full d'. push_metric su e d = Inr (full, d') \<and> dispatcher_inv su d' calls logs (metrics @ [e]) spans locals"
proof -
  obtain s' where
    "stream_push (su_alloc su) (MetricsMsgQueue_items (su_abi su)) MetricsMsgQueue_type_index e (metrics_stream d) = Inr s'"
    "metrics_msg.delivers (su_abi su) (live d) (metrics_blocks calls) (metrics @ [e]) s'"
    using metrics_msg.delivers_push [OF _ assms(2)] assms(1) by (fastforce simp: dispatcher_inv_def)
  then show ?thesis using assms(1) by (simp add: push_metric_def dispatcher_inv_def)
qed

lemma dispatcher_flush_log:
  assumes "dispatcher_inv su d calls logs metrics spans locals"
  shows "\<exists>d' calls'. Dispatch_flush_log_buffer su ck (d, calls) = Inr (d', calls')
    \<and> dispatcher_inv su d' calls' logs metrics spans locals \<and> is_empty (log_stream d')"
proof -
  have "log_msg.delivers (su_abi su) (live d) (log_blocks calls) logs (log_stream d)"
    "buffer_size_ok (su_alloc su) (logs_buffer_size d)" using assms by (simp_all add: dispatcher_inv_def)
  from log_msg.delivers_flush [OF this, of "ck_begin ck" "ck_end ck" "process_id d"]
  obtain s' ob where "flush_stream (su_alloc su) (ck_begin ck) (ck_end ck) (logs_buffer_size d) (process_id d) (log_stream d)
      = Inr (s', ob)" "is_empty s'"
    "log_msg.delivers (su_abi su) (live d) (log_blocks calls @ (if live d then handed ob else [])) logs s'" by blast
  then show ?thesis using assms
    by (cases ob; cases "live d") (simp_all add: Dispatch_flush_log_buffer_def notify_eq dispatcher_inv_def)
qed

lemma dispatcher_flush_metrics:
  assumes "dispatcher_inv su d calls logs metrics spans locals"
  shows "\<exists>d' calls'. Dispatch_flush_metrics_buffer su ck (d, calls) = Inr (d', calls')
    \<and> dispatcher_inv su d' calls' logs metrics spans locals \<and> is_empty (metrics_stream d')"
proof -
  have "metrics_msg.delivers (su_abi su) (live d) (metrics_blocks calls) metrics (metrics_stream d)"
    "buffer_size_ok (su_alloc su) (metrics_buffer_size d)" using assms by (simp_all add: dispatcher_inv_def)
  from metrics_msg.delivers_flush [OF this, of "ck_begin ck" "ck_end ck" "process_id d"]
  obtain s' ob where
    "flush_stream (su_alloc su) (ck_begin ck) (ck_end ck) (metrics_buffer_size d) (process_id d) (metrics_stream d)
      = Inr (s', ob)" "is_empty s'"
    "metrics_msg.delivers (su_abi su) (live d) (metrics_blocks calls @ (if live d then handed ob else [])) metrics s'" by blast
  then show ?thesis using assms
    by (cases ob; cases "live d") (simp_all add: Dispatch_flush_metrics_buffer_def notify_eq dispatcher_inv_def)
qed

lemma dispatcher_flush_thread:
  assumes "dispatcher_inv su d calls logs metrics spans locals" and "locals t = Some s"
  shows "\<exists>s' d' calls'. Dispatch_flush_thread_buffer su ck s (d, calls) = Inr (s', (d', calls'))
    \<and> dispatcher_inv su d' calls' logs metrics spans (locals(t \<mapsto> s')) \<and> is_empty s'"
proof -
  have inv: "threads_inv su (live d) (thread_blocks calls) spans locals"
    "buffer_size_ok (su_alloc su) (threads_buffer_size d)" using assms(1) by (simp_all add: dispatcher_inv_def)
  from threads_flush [OF inv(1) assms(2) inv(2), of "ck_begin ck" "ck_end ck" "process_id d"]
  obtain s' ob where "flush_stream (su_alloc su) (ck_begin ck) (ck_end ck) (threads_buffer_size d) (process_id d) s
      = Inr (s', ob)" "is_empty s'"
    "threads_inv su (live d) (thread_blocks calls @ (if live d then handed ob else [])) spans (locals(t \<mapsto> s'))" by blast
  then show ?thesis using assms
    by (cases ob; cases "live d") (auto simp: Dispatch_flush_thread_buffer_def notify_eq dispatcher_inv_def)
qed

lemma dispatcher_mark_full:
  assumes "dispatcher_inv su d calls logs metrics spans locals" and "set ts \<subseteq> dom locals"
    and "LOCAL_THREAD_STREAM w = locals"
  shows "\<exists>w'. fold_res (at_thread_stream set_full) ts w = Inr w' \<and> G_DISPATCH w' = G_DISPATCH w
    \<and> sink_calls w' = sink_calls w \<and> dispatcher_inv su d calls logs metrics spans (LOCAL_THREAD_STREAM w')"
  using assms
proof (induction ts arbitrary: w locals)
  case (Cons t ts)
  then obtain s where s: "locals t = Some s" by auto
  let ?w = "w\<lparr>LOCAL_THREAD_STREAM := locals(t \<mapsto> set_full s)\<rparr>"
  have "dispatcher_inv su d calls logs metrics spans (locals(t \<mapsto> set_full s))"
    using Cons.prems(1) threads_set_full [where s = s and t = t and locals = locals] s by (auto simp: dispatcher_inv_def)
  moreover have "set ts \<subseteq> dom (locals(t \<mapsto> set_full s))" using Cons.prems(2) by auto
  ultimately have "\<exists>w'. fold_res (at_thread_stream set_full) ts ?w = Inr w' \<and> G_DISPATCH w' = G_DISPATCH ?w
    \<and> sink_calls w' = sink_calls ?w \<and> dispatcher_inv su d calls logs metrics spans (LOCAL_THREAD_STREAM w')"
    by (rule Cons.IH) simp
  moreover have "at_thread_stream set_full t w = Inr ?w" using Cons.prems(3) s by (simp add: at_thread_stream_def)
  ultimately show ?case by simp
qed simp

section \<open>The sections keep the invariant and never fail\<close>

lemma start_inv:
  assumes "buffer_size_ok (su_alloc su) l" "buffer_size_ok (su_alloc su) m" "buffer_size_ok (su_alloc su) t"
  shows "dispatcher_inv su (fst (snd (Dispatch_new su ck pid log_id metrics_id l m t env [])))
    (snd (snd (Dispatch_new su ck pid log_id metrics_id l m t env []))) [] [] (\<lambda>_. []) (\<lambda>_. None)"
  using assms
  by (simp add: Dispatch_new_def Let_def Dispatch_startup_def Dispatch_init_log_stream_def Dispatch_init_metrics_stream_def
      notify_eq dispatcher_inv_def is_block_call_def log_blocks_def metrics_blocks_def thread_blocks_def
      log_msg.delivers_new metrics_msg.delivers_new threads_inv_def)

lemmas run_defs = init_panic_hook_def with_dispatch_def shutdown_dispatch_def log_enabled_def next_span_id_def flush_log_buffer_def
  flush_metrics_buffer_def for_each_thread_stream_def

lemmas pushed_defs = pushed_logs_def pushed_metrics_def pushed_spans_def

lemma section_before_start:
  assumes "world_inv su w logs metrics spans" and "section_ok su w sec" and "G_DISPATCH w = None"
  shows "\<exists>w'. run_section su sec w = Inr w' \<and> world_inv su w' (logs @ pushed_logs w sec)
    (metrics @ pushed_metrics w sec) (\<lambda>t. spans t @ pushed_spans w sec t)"
proof (cases sec)
  case (Start ck pid log_id metrics_id l m t)
  then show ?thesis
    using assms start_inv [of su l m t ck pid log_id metrics_id "PARENT_PROCESS w"]
    by (auto simp: world_inv_def init_event_dispatch_def pushed_defs split: prod.splits)
qed (use assms in \<open>auto simp: world_inv_def run_defs pushed_defs push_thread_event_def flush_thread_buffer_def\<close>)

lemma section_after_start:
  assumes "dispatcher_inv su d (sink_calls w) logs metrics spans (LOCAL_THREAD_STREAM w)" and "section_ok su w sec"
    and "G_DISPATCH w = Some d"
  shows "\<exists>w'. run_section su sec w = Inr w' \<and> world_inv su w' (logs @ pushed_logs w sec)
    (metrics @ pushed_metrics w sec) (\<lambda>t. spans t @ pushed_spans w sec t)"
proof (cases sec)
  case Stop
  then show ?thesis using assms
    by (auto simp: world_inv_def run_defs pushed_defs Dispatch_shutdown_def notify_eq dispatcher_inv_def is_block_call_def
        intro: log_msg.delivers_stop metrics_msg.delivers_stop threads_stop)
next
  case (AskEnabled m)
  have "\<not> is_block_call (OnLogEnabled m)" by (simp add: is_block_call_def)
  from dispatcher_notify [OF assms(1) this] show ?thesis
    using AskEnabled assms by (cases "sink d") (auto simp: world_inv_def run_defs pushed_defs sink_on_log_enabled_def notify_eq)
next
  case (TellLog m time args)
  have "\<not> is_block_call (OnLog m time args)" by (simp add: is_block_call_def)
  from dispatcher_notify [OF assms(1) this] show ?thesis
    using TellLog assms by (simp add: world_inv_def run_defs pushed_defs notify_eq)
next
  case (PushLog e)
  then show ?thesis using assms dispatcher_push_log [OF assms(1), of e] by (auto simp: world_inv_def run_defs pushed_defs)
next
  case (PushMetric e)
  then show ?thesis using assms dispatcher_push_metric [OF assms(1), of e] by (auto simp: world_inv_def run_defs pushed_defs)
next
  case (FlushLog ck)
  then show ?thesis using assms dispatcher_flush_log [OF assms(1), of ck] by (auto simp: world_inv_def run_defs pushed_defs)
next
  case (FlushMetrics ck)
  then show ?thesis using assms dispatcher_flush_metrics [OF assms(1), of ck] by (auto simp: world_inv_def run_defs pushed_defs)
next
  case (RegisterThread ck u t thread_id name)
  then show ?thesis
    using assms threads_register [of su "live d" "thread_blocks (sink_calls w)" spans "LOCAL_THREAD_STREAM w" t u]
    by (cases "live d") (auto simp: world_inv_def pushed_defs init_thread_stream_def Dispatch_init_thread_stream_def
        Let_def notify_eq dispatcher_inv_def is_block_call_def)
next
  case (PushThread t e)
  show ?thesis
  proof (cases "LOCAL_THREAD_STREAM w t")
    case None
    then have "(\<lambda>u. spans u @ pushed_spans w sec u) = spans" using PushThread by (auto simp: pushed_spans_def)
    then show ?thesis using None PushThread assms
      by (simp add: world_inv_def pushed_logs_def pushed_metrics_def push_thread_event_def)
  next
    case (Some s)
    then have "threads_inv su (live d) (thread_blocks (sink_calls w)) spans (LOCAL_THREAD_STREAM w)"
      "ThreadEventQueue_valid (su_abi su) e" using PushThread assms by (simp_all add: dispatcher_inv_def)
    from threads_push [OF this(1) Some this(2)]
    obtain s' where s': "stream_push (su_alloc su) (ThreadEventQueue_items (su_abi su)) ThreadEventQueue_type_index e s = Inr s'"
      "threads_inv su (live d) (thread_blocks (sink_calls w)) (\<lambda>u. spans u @ (if t = u then [e] else []))
        ((LOCAL_THREAD_STREAM w)(t \<mapsto> s'))" by blast
    moreover have "pushed_spans w sec = (\<lambda>u. if t = u then [e] else [])"
      using PushThread Some by (auto simp: pushed_spans_def fun_eq_iff)
    moreover have "dom ((LOCAL_THREAD_STREAM w)(t \<mapsto> s')) = dom (LOCAL_THREAD_STREAM w)" using Some by auto
    ultimately show ?thesis
      using PushThread assms Some
      by (simp add: world_inv_def pushed_logs_def pushed_metrics_def push_thread_event_def dispatcher_inv_def)
  qed
next
  case (FlushThread t ck)
  then show ?thesis
    using assms dispatcher_flush_thread [OF assms(1), of t _ ck]
    by (cases "LOCAL_THREAD_STREAM w t") (fastforce simp: world_inv_def pushed_defs flush_thread_buffer_def)+
next
  case MarkFull
  then show ?thesis
    using assms dispatcher_mark_full [OF assms(1), of "thread_streams d" w]
    by (fastforce simp: world_inv_def run_defs pushed_defs dispatcher_inv_def)
qed (use assms in \<open>auto simp: world_inv_def run_defs pushed_defs\<close>)

lemma section_inv:
  assumes "world_inv su w logs metrics spans" and "section_ok su w sec"
  shows "\<exists>w'. run_section su sec w = Inr w' \<and> world_inv su w' (logs @ pushed_logs w sec)
    (metrics @ pushed_metrics w sec) (\<lambda>t. spans t @ pushed_spans w sec t)"
proof (cases "G_DISPATCH w")
  case None
  then show ?thesis by (rule section_before_start [OF assms])
next
  case (Some d)
  then show ?thesis using section_after_start [OF _ assms(2) Some] assms(1) by (simp add: world_inv_def)
qed

lemma reach_inv: "reach su w logs metrics spans \<Longrightarrow> world_inv su w logs metrics spans"
proof (induction rule: reach.induct)
  case (reach_section w logs metrics spans sec w')
  then show ?case using section_inv [OF reach_section.IH reach_section.hyps(2)] by auto
qed (simp add: world_inv_def world_init_def)

section \<open>The operations are sequences of sections\<close>

lemma reach_step:
  assumes "reach su w logs metrics spans" and "section_ok su w sec"
  shows "\<exists>w'. run_section su sec w = Inr w' \<and> reach su w' (logs @ pushed_logs w sec)
    (metrics @ pushed_metrics w sec) (\<lambda>t. spans t @ pushed_spans w sec t)"
  using section_inv [OF reach_inv [OF assms(1)] assms(2)] reach_section [OF assms] by blast

text \<open>A section that pushes nothing.\<close>

definition quiet :: "dsection \<Rightarrow> bool" where
  "quiet sec \<longleftrightarrow> (case sec of PushLog _ \<Rightarrow> False | PushMetric _ \<Rightarrow> False | PushThread _ _ \<Rightarrow> False | _ \<Rightarrow> True)"

lemma reach_quiet:
  assumes "reach su w logs metrics spans" and "section_ok su w sec" and "quiet sec"
  shows "\<exists>w'. run_section su sec w = Inr w' \<and> reach su w' logs metrics spans"
proof -
  have "pushed_logs w sec = []" "pushed_metrics w sec = []" "pushed_spans w sec t = []" for t
    using assms(3) by (cases sec; simp add: pushed_defs quiet_def)+
  then show ?thesis using reach_step [OF assms(1,2)] by simp
qed

text \<open>A push, and a flush if the stream is full.\<close>

definition then_flush :: "(world \<Rightarrow> bool) \<Rightarrow> (world \<Rightarrow> world res) \<Rightarrow> world res \<Rightarrow> world res" where
  "then_flush full flush r = and_then r (\<lambda>w. if full w then flush w else Inr w)"

definition logs_full :: "world \<Rightarrow> bool" where
  "logs_full w = (case G_DISPATCH w of None \<Rightarrow> False | Some d \<Rightarrow> is_full (log_stream d))"

definition metrics_full :: "world \<Rightarrow> bool" where
  "metrics_full w = (case G_DISPATCH w of None \<Rightarrow> False | Some d \<Rightarrow> is_full (metrics_stream d))"

definition thread_full :: "nat \<Rightarrow> world \<Rightarrow> bool" where
  "thread_full t w = (case LOCAL_THREAD_STREAM w t of None \<Rightarrow> False | Some s \<Rightarrow> is_full s)"

lemma metric_sections:
  "int_metric su ck desc val w = then_flush metrics_full (run_section su (FlushMetrics ck))
     (run_section su (PushMetric (IntegerMetricEvent \<lparr>ime_desc = desc, ime_value = val, ime_time = ck_now ck\<rparr>)) w)"
  "float_metric su ck desc val w = then_flush metrics_full (run_section su (FlushMetrics ck))
     (run_section su (PushMetric (FloatMetricEvent \<lparr>fme_desc = desc, fme_value = val, fme_time = ck_now ck\<rparr>)) w)"
  by (auto simp: then_flush_def int_metric_def float_metric_def Dispatch_int_metric_def Dispatch_float_metric_def run_defs
      push_metric_def metrics_full_def and_then_eq_Inr split: option.splits intro!: and_then_cong)

lemma log_sections:
  "G_DISPATCH w = Some d \<Longrightarrow> live d \<Longrightarrow> su_log_enabled su (sink_calls w) m \<Longrightarrow>
   log_dispatch su ck desc m args w =
     and_then (run_section su (AskEnabled m) w) (\<lambda>w. and_then (run_section su (TellLog m (ck_now ck) args) w)
       (\<lambda>w. then_flush logs_full (run_section su (FlushLog ck)) (run_section su (PushLog (log_event ck desc args)) w)))"
  by (auto simp: then_flush_def log_dispatch_def Dispatch_log_def sink_on_log_enabled_def run_defs notify_eq
      push_log_def logs_full_def and_then_eq_Inr intro!: and_then_cong)

lemma log_disabled_sections:
  "G_DISPATCH w = Some d \<Longrightarrow> \<not> (live d \<and> su_log_enabled su (sink_calls w) m) \<Longrightarrow>
   log_dispatch su ck desc m args w = run_section su (AskEnabled m) w"
  by (cases "sink d") (auto simp: log_dispatch_def Dispatch_log_def sink_on_log_enabled_def run_defs notify_eq)

lemma interop_sections:
  "G_DISPATCH w = Some d \<Longrightarrow> target = str_text (su_memory su) (lm_target m) \<Longrightarrow>
   log_interop su ck m args w =
     and_then (run_section su (TellLog m (ck_now ck) args) w) (\<lambda>w. and_then (run_section su (Intern target) w)
       (\<lambda>w'. then_flush logs_full (run_section su (FlushLog ck))
          (run_section su (PushLog (interop_event ck m (fst (intern_string (su_intern su) target (STRINGS w))) args)) w')))"
  by (auto simp: then_flush_def log_interop_def Dispatch_log_interop_def run_defs notify_eq
      push_log_def logs_full_def and_then_eq_Inr split: prod.splits intro!: and_then_cong)

lemma thread_event_sections:
  "on_thread_event su ck t e w =
     then_flush (thread_full t) (run_section su (FlushThread t ck)) (run_section su (PushThread t e) w)"
  by (auto simp: on_thread_event_def then_flush_def push_thread_event_def thread_full_def and_then_eq_Inr
      split: option.splits intro!: and_then_cong)

lemma then_flush_reach:
  assumes "reach su w logs metrics spans" and "section_ok su w sec" and "quiet sec"
  shows "\<exists>w'. then_flush full (run_section su sec) (Inr w) = Inr w' \<and> reach su w' logs metrics spans"
  using reach_quiet [OF assms] assms(1) by (simp add: then_flush_def)

lemma push_metric_reach:
  assumes "reach su w logs metrics spans" and "MetricsMsgQueue_valid (su_abi su) e" and "G_DISPATCH w \<noteq> None"
  shows "\<exists>w'. then_flush metrics_full (run_section su (FlushMetrics ck)) (run_section su (PushMetric e) w) = Inr w'
    \<and> reach su w' logs (metrics @ [e]) spans"
proof -
  obtain w1 where "run_section su (PushMetric e) w = Inr w1" "reach su w1 logs (metrics @ [e]) spans"
    using reach_step [OF assms(1), of "PushMetric e"] assms(2,3) by (auto simp: pushed_defs)
  then show ?thesis using then_flush_reach [of su w1 logs "metrics @ [e]" spans "FlushMetrics ck"] by (simp add: quiet_def)
qed

lemma push_log_reach:
  assumes "reach su w logs metrics spans" and "LogMsgQueue_valid (su_abi su) e" and "G_DISPATCH w \<noteq> None"
  shows "\<exists>w'. then_flush logs_full (run_section su (FlushLog ck)) (run_section su (PushLog e) w) = Inr w'
    \<and> reach su w' (logs @ [e]) metrics spans"
proof -
  obtain w1 where "run_section su (PushLog e) w = Inr w1" "reach su w1 (logs @ [e]) metrics spans"
    using reach_step [OF assms(1), of "PushLog e"] assms(2,3) by (auto simp: pushed_defs)
  then show ?thesis using then_flush_reach [of su w1 "logs @ [e]" metrics spans "FlushLog ck"] by (simp add: quiet_def)
qed

lemma on_thread_event_reach:
  assumes "reach su w logs metrics spans" and "ThreadEventQueue_valid (su_abi su) e" and "LOCAL_THREAD_STREAM w t \<noteq> None"
  shows "\<exists>w'. on_thread_event su ck t e w = Inr w' \<and> reach su w' logs metrics (spans(t := spans t @ [e]))"
proof -
  obtain w1 where w1: "run_section su (PushThread t e) w = Inr w1"
    "reach su w1 logs metrics (\<lambda>u. spans u @ pushed_spans w (PushThread t e) u)"
    using reach_step [OF assms(1), of "PushThread t e"] assms(2) by (auto simp: pushed_logs_def pushed_metrics_def)
  have "(\<lambda>u. spans u @ pushed_spans w (PushThread t e) u) = spans(t := spans t @ [e])"
    using assms(3) by (auto simp: pushed_spans_def)
  with w1 show ?thesis
    using then_flush_reach [of su w1 logs metrics "spans(t := spans t @ [e])" "FlushThread t ck"]
    by (simp add: thread_event_sections quiet_def)
qed

lemma on_thread_event_unregistered:
  "LOCAL_THREAD_STREAM w t = None \<Longrightarrow> on_thread_event su ck t e w = Inr w"
  by (simp add: on_thread_event_def push_thread_event_def)

lemma keeps_dispatcher:
  "run_section su (TellLog m time args) w = Inr w' \<Longrightarrow> G_DISPATCH w' = None \<longleftrightarrow> G_DISPATCH w = None"
  "run_section su (AskEnabled m) w = Inr w' \<Longrightarrow> G_DISPATCH w' = None \<longleftrightarrow> G_DISPATCH w = None"
  "run_section su (Intern s) w = Inr w' \<Longrightarrow> G_DISPATCH w' = G_DISPATCH w"
  by (auto simp: run_defs notify_eq split: option.splits prod.splits)

lemma log_reach:
  assumes "reach su w logs metrics spans" and "LogMsgQueue_valid (su_abi su) (log_event ck desc args)"
  shows "\<exists>w'. log_dispatch su ck desc m args w = Inr w' \<and> reach su w'
    (logs @ (case G_DISPATCH w of None \<Rightarrow> [] | Some d \<Rightarrow>
       if live d \<and> su_log_enabled su (sink_calls w) m then [log_event ck desc args] else [])) metrics spans"
proof (cases "G_DISPATCH w")
  case None
  then show ?thesis using assms(1) by (simp add: log_dispatch_def run_defs)
next
  case (Some d)
  obtain w1 where w1: "run_section su (AskEnabled m) w = Inr w1" "reach su w1 logs metrics spans"
    using reach_quiet [OF assms(1), of "AskEnabled m"] by (auto simp: quiet_def)
  obtain w2 where w2: "run_section su (TellLog m (ck_now ck) args) w1 = Inr w2" "reach su w2 logs metrics spans"
    using reach_quiet [OF w1(2), of "TellLog m (ck_now ck) args"] by (auto simp: quiet_def)
  have "G_DISPATCH w2 \<noteq> None" using keeps_dispatcher(1) [OF w2(1)] keeps_dispatcher(2) [OF w1(1)] Some by simp
  from push_log_reach [OF w2(2) assms(2) this, of ck] show ?thesis
    using Some w1 w2 log_sections [of w d su m ck desc args] log_disabled_sections [of w d su m ck desc args]
    by (cases "live d \<and> su_log_enabled su (sink_calls w) m") auto
qed

lemma interop_reach:
  assumes "reach su w logs metrics spans" and "\<And>target. LogMsgQueue_valid (su_abi su) (interop_event ck m target args)"
    and "G_DISPATCH w \<noteq> None"
  shows "\<exists>target w'. log_interop su ck m args w = Inr w' \<and> reach su w' (logs @ [interop_event ck m target args]) metrics spans"
proof -
  obtain d where d: "G_DISPATCH w = Some d" using assms(3) by auto
  let ?text = "str_text (su_memory su) (lm_target m)"
  obtain w1 where w1: "run_section su (TellLog m (ck_now ck) args) w = Inr w1" "reach su w1 logs metrics spans"
    using reach_quiet [OF assms(1), of "TellLog m (ck_now ck) args"] by (auto simp: quiet_def)
  obtain w2 where w2: "run_section su (Intern ?text) w1 = Inr w2" "reach su w2 logs metrics spans"
    using reach_quiet [OF w1(2), of "Intern ?text"] by (auto simp: quiet_def)
  have "G_DISPATCH w2 \<noteq> None" using keeps_dispatcher(3) [OF w2(1)] keeps_dispatcher(1) [OF w1(1)] assms(3) by simp
  let ?target = "fst (intern_string (su_intern su) ?text (STRINGS w1))"
  obtain w' where "then_flush logs_full (run_section su (FlushLog ck)) (run_section su (PushLog (interop_event ck m ?target args)) w2)
      = Inr w'" "reach su w' (logs @ [interop_event ck m ?target args]) metrics spans"
    using push_log_reach [OF w2(2) assms(2) \<open>G_DISPATCH w2 \<noteq> None\<close>] by blast
  moreover have "log_interop su ck m args w = then_flush logs_full (run_section su (FlushLog ck))
      (run_section su (PushLog (interop_event ck m ?target args)) w2)"
    by (simp only: interop_sections [OF d refl] w1(1) w2(1) and_then.simps)
  ultimately show ?thesis by auto
qed

end
