(* ===== verification/Guards.thy ===== *)
theory Guards
  imports Dispatch_History
begin

text \<open>
  The users of the dispatcher inside the tracing crate: the guards that start and stop telemetry and
  open and close spans (\<open>guards.rs\<close>), the hook that runs when a thread panics (\<open>panic_hook.rs\<close>),
  the monitor that flushes the streams from time to time (\<open>flush_monitor.rs\<close>), and the descriptions
  of call sites that the macros build (\<open>macros.rs\<close>). A guard is a value with a constructor and a
  destructor; a span is what runs between the two.
\<close>

section \<open>Telemetry as a whole\<close>

definition init_telemetry ::
  "surroundings \<Rightarrow> clock \<Rightarrow> uuid \<Rightarrow> uuid \<Rightarrow> uuid \<Rightarrow> nat \<Rightarrow> nat \<Rightarrow> nat \<Rightarrow> world \<Rightarrow> ((dispatch_error + unit) \<times> world) res" where
  "init_telemetry su ck pid log_id metrics_id logs_size metrics_size threads_size w =
     and_then (init_event_dispatch su ck pid log_id metrics_id logs_size metrics_size threads_size w) (\<lambda>(r, w1).
       case r of Inl e \<Rightarrow> Inr (Inl e, w1) | Inr _ \<Rightarrow> and_then (init_panic_hook w1) (\<lambda>w2. Inr (Inr (), w2)))"

definition shutdown_telemetry :: "surroundings \<Rightarrow> clock \<Rightarrow> clock \<Rightarrow> world \<Rightarrow> world res" where
  "shutdown_telemetry su ck1 ck2 w =
     and_then (flush_log_buffer su ck1 w) (\<lambda>w1. and_then (flush_metrics_buffer su ck2 w1) shutdown_dispatch)"

definition TracingSystemGuard_new ::
  "surroundings \<Rightarrow> clock \<Rightarrow> uuid \<Rightarrow> uuid \<Rightarrow> uuid \<Rightarrow> nat \<Rightarrow> nat \<Rightarrow> nat \<Rightarrow> world \<Rightarrow> ((dispatch_error + unit) \<times> world) res" where
  "TracingSystemGuard_new = init_telemetry"

definition TracingSystemGuard_drop :: "surroundings \<Rightarrow> clock \<Rightarrow> clock \<Rightarrow> world \<Rightarrow> world res" where
  "TracingSystemGuard_drop = shutdown_telemetry"

text \<open>The hook logs the panic, stops telemetry and passes on to the hook that was there before.\<close>

definition run_panic_hook ::
  "surroundings \<Rightarrow> clock \<Rightarrow> clock \<Rightarrow> clock \<Rightarrow> string \<Rightarrow> (world \<Rightarrow> world) \<Rightarrow> world \<Rightarrow> world res" where
  "run_panic_hook su ck ck1 ck2 panic_info previous w =
     (let here = su_literal su ''micromegas_tracing::panic_hook'' in
      and_then (log_macro su ck (su_call_site su ''panic_hook.rs'' 16)
         (log_desc Error (su_literal su ''panic: {:?}'') here here (su_literal su ''tracing/src/panic_hook.rs'') 16)
         (Formatted (''panic: '' @ panic_info)) w) (\<lambda>w1.
      and_then (shutdown_telemetry su ck1 ck2 w1) (\<lambda>w2.
      Inr (if PREVIOUS_HOOK w2 then previous w2 else w2))))"

section \<open>Guards of threads and spans\<close>

definition TracingThreadGuard_new ::
  "surroundings \<Rightarrow> clock \<Rightarrow> uuid \<Rightarrow> nat \<Rightarrow> string \<Rightarrow> string option \<Rightarrow> world \<Rightarrow> world res" where
  "TracingThreadGuard_new = init_thread_stream"

definition TracingThreadGuard_drop :: "surroundings \<Rightarrow> clock \<Rightarrow> nat \<Rightarrow> world \<Rightarrow> world res" where
  "TracingThreadGuard_drop = flush_thread_buffer"

record ThreadSpanGuard =
  tsg_thread_span_desc :: u64

definition ThreadSpanGuard_new :: "surroundings \<Rightarrow> clock \<Rightarrow> nat \<Rightarrow> u64 \<Rightarrow> world \<Rightarrow> (ThreadSpanGuard \<times> world) res" where
  "ThreadSpanGuard_new su ck tid desc w =
     and_then (on_begin_scope su ck tid desc w) (\<lambda>w'. Inr (\<lparr>tsg_thread_span_desc = desc\<rparr>, w'))"

definition ThreadSpanGuard_drop :: "surroundings \<Rightarrow> clock \<Rightarrow> nat \<Rightarrow> ThreadSpanGuard \<Rightarrow> world \<Rightarrow> world res" where
  "ThreadSpanGuard_drop su ck tid g = on_end_scope su ck tid (tsg_thread_span_desc g)"

record ThreadNamedSpanGuard =
  tng_thread_span_location :: u64
  tng_name :: static_str

definition ThreadNamedSpanGuard_new ::
  "surroundings \<Rightarrow> clock \<Rightarrow> nat \<Rightarrow> u64 \<Rightarrow> static_str \<Rightarrow> world \<Rightarrow> (ThreadNamedSpanGuard \<times> world) res" where
  "ThreadNamedSpanGuard_new su ck tid location name w =
     and_then (on_begin_named_scope su ck tid location name w)
       (\<lambda>w'. Inr (\<lparr>tng_thread_span_location = location, tng_name = name\<rparr>, w'))"

definition ThreadNamedSpanGuard_drop :: "surroundings \<Rightarrow> clock \<Rightarrow> nat \<Rightarrow> ThreadNamedSpanGuard \<Rightarrow> world \<Rightarrow> world res" where
  "ThreadNamedSpanGuard_drop su ck tid g = on_end_named_scope su ck tid (tng_thread_span_location g) (tng_name g)"

record AsyncSpanGuard =
  asg_span_desc :: u64
  asg_span_id :: u64

definition AsyncSpanGuard_new :: "surroundings \<Rightarrow> clock \<Rightarrow> nat \<Rightarrow> u64 \<Rightarrow> world \<Rightarrow> (AsyncSpanGuard \<times> world) res" where
  "AsyncSpanGuard_new su ck tid desc w =
     and_then (on_begin_async_scope su ck tid desc w)
       (\<lambda>(span_id, w'). Inr (\<lparr>asg_span_desc = desc, asg_span_id = span_id\<rparr>, w'))"

definition AsyncSpanGuard_drop :: "surroundings \<Rightarrow> clock \<Rightarrow> nat \<Rightarrow> AsyncSpanGuard \<Rightarrow> world \<Rightarrow> world res" where
  "AsyncSpanGuard_drop su ck tid g = on_end_async_scope su ck tid (asg_span_id g) (asg_span_desc g)"

record AsyncNamedSpanGuard =
  ang_span_location :: u64
  ang_name :: static_str
  ang_span_id :: u64

definition AsyncNamedSpanGuard_new ::
  "surroundings \<Rightarrow> clock \<Rightarrow> nat \<Rightarrow> u64 \<Rightarrow> static_str \<Rightarrow> world \<Rightarrow> (AsyncNamedSpanGuard \<times> world) res" where
  "AsyncNamedSpanGuard_new su ck tid location name w =
     and_then (on_begin_async_named_scope su ck tid location name w)
       (\<lambda>(span_id, w'). Inr (\<lparr>ang_span_location = location, ang_name = name, ang_span_id = span_id\<rparr>, w'))"

definition AsyncNamedSpanGuard_drop :: "surroundings \<Rightarrow> clock \<Rightarrow> nat \<Rightarrow> AsyncNamedSpanGuard \<Rightarrow> world \<Rightarrow> world res" where
  "AsyncNamedSpanGuard_drop su ck tid g =
     on_end_async_named_scope su ck tid (ang_span_id g) (ang_span_location g) (ang_name g)"

section \<open>Call sites of the macros\<close>

text \<open>\<open>imetric!\<close>, \<open>fmetric!\<close>, \<open>span_scope!\<close> and their siblings: the static descriptions that they declare.\<close>

definition metric_site :: "(string \<Rightarrow> static_str) \<Rightarrow> static_str \<Rightarrow> static_str \<Rightarrow> static_str \<Rightarrow> static_str \<Rightarrow> u32 \<Rightarrow> MetricMetadata" where
  "metric_site literal name unit module_path file line =
     \<lparr>mm_lod = MaxLod, mm_name = name, mm_unit = unit, mm_target = literal [], mm_module_path = module_path,
      mm_file = file, mm_line = line\<rparr>"

definition location_site :: "static_str \<Rightarrow> static_str \<Rightarrow> u32 \<Rightarrow> SpanLocation" where
  "location_site module_path file line =
     \<lparr>sl_lod = MaxLod, sl_target = module_path, sl_module_path = module_path, sl_file = file, sl_line = line\<rparr>"

definition span_site :: "static_str \<Rightarrow> static_str \<Rightarrow> static_str \<Rightarrow> u32 \<Rightarrow> SpanMetadata" where
  "span_site name module_path file line = \<lparr>sm_name = name, sm_location = location_site module_path file line\<rparr>"

text \<open>\<open>log_enabled!\<close>\<close>

definition log_enabled_macro :: "surroundings \<Rightarrow> LogMetadata \<Rightarrow> world \<Rightarrow> (bool \<times> world) res" where
  "log_enabled_macro su m w =
     (if po_le Level_PartialOrd_LevelFilter (lm_level m) (su_static_max_level su)
      then and_then (max_level (MAXIMA w)) (\<lambda>max.
        if po_le Level_PartialOrd_LevelFilter (lm_level m) max then Inr (log_enabled su m w) else Inr (False, w))
      else Inr (False, w))"

section \<open>The flush monitor\<close>

record FlushMonitor =
  last_flush :: i64
  flush_period_seconds :: i64

definition FlushMonitor_new :: "i64 \<Rightarrow> i64 \<Rightarrow> FlushMonitor" where
  "FlushMonitor_new now period = \<lparr>last_flush = now, flush_period_seconds = period\<rparr>"

definition FlushMonitor_default :: "i64 \<Rightarrow> FlushMonitor" where
  "FlushMonitor_default now = FlushMonitor_new now 60"

definition time_to_flush_seconds :: "i64 \<Rightarrow> FlushMonitor \<Rightarrow> i64" where
  "time_to_flush_seconds now fm = (let seconds_since_flush = now - last_flush fm in flush_period_seconds fm - seconds_since_flush)"

definition tick ::
  "surroundings \<Rightarrow> i64 \<Rightarrow> i64 \<Rightarrow> clock \<Rightarrow> clock \<Rightarrow> FlushMonitor \<Rightarrow> world \<Rightarrow> (FlushMonitor \<times> world) res" where
  "tick su now1 now2 ck1 ck2 fm w =
     (if sint (time_to_flush_seconds now1 fm) \<le> 0 then
        (case get_sink w of
           None \<Rightarrow> Inr (fm, w)
         | Some s \<Rightarrow> if sink_is_busy su (sink_calls w) s then Inr (fm, w)
             else and_then (flush_log_buffer su ck1 w) (\<lambda>w1.
               and_then (flush_metrics_buffer su ck2 w1) (\<lambda>w2.
               and_then (for_each_thread_stream set_full w2) (\<lambda>w3.
               Inr (fm\<lparr>last_flush := now2\<rparr>, w3)))))
      else Inr (fm, w))"

section \<open>Properties of the life cycle\<close>

lemma flush_log_effect:
  assumes "reach su w logs metrics spans" and "G_DISPATCH w = Some d"
  shows "\<exists>w' d'. flush_log_buffer su ck w = Inr w' \<and> reach su w' logs metrics spans
    \<and> G_DISPATCH w' = Some d' \<and> is_empty (log_stream d') \<and> sink d' = sink d"
proof -
  have inv: "dispatcher_inv su d (sink_calls w) logs metrics spans (LOCAL_THREAD_STREAM w)"
    using reach_inv [OF assms(1)] assms(2) by (simp add: world_inv_def)
  obtain w' where w': "flush_log_buffer su ck w = Inr w'" "reach su w' logs metrics spans"
    using reach_quiet [OF assms(1), of "FlushLog ck"] by (auto simp: quiet_def)
  moreover obtain d' calls' where d': "Dispatch_flush_log_buffer su ck (d, sink_calls w) = Inr (d', calls')"
    "is_empty (log_stream d')" using dispatcher_flush_log [OF inv, of ck] by blast
  moreover have "sink d' = sink d"
    using d'(1) by (auto simp: Dispatch_flush_log_buffer_def and_then_eq_Inr notify_eq split: option.splits)
  ultimately show ?thesis using assms(2) by (auto simp: run_defs)
qed

lemma flush_metrics_effect:
  assumes "reach su w logs metrics spans" and "G_DISPATCH w = Some d"
  shows "\<exists>w' d'. flush_metrics_buffer su ck w = Inr w' \<and> reach su w' logs metrics spans
    \<and> G_DISPATCH w' = Some d' \<and> is_empty (metrics_stream d') \<and> sink d' = sink d \<and> log_stream d' = log_stream d
    \<and> thread_streams d' = thread_streams d"
proof -
  have inv: "dispatcher_inv su d (sink_calls w) logs metrics spans (LOCAL_THREAD_STREAM w)"
    using reach_inv [OF assms(1)] assms(2) by (simp add: world_inv_def)
  obtain w' where w': "flush_metrics_buffer su ck w = Inr w'" "reach su w' logs metrics spans"
    using reach_quiet [OF assms(1), of "FlushMetrics ck"] by (auto simp: quiet_def)
  moreover obtain d' calls' where d': "Dispatch_flush_metrics_buffer su ck (d, sink_calls w) = Inr (d', calls')"
    "is_empty (metrics_stream d')" using dispatcher_flush_metrics [OF inv, of ck] by blast
  moreover have "sink d' = sink d \<and> log_stream d' = log_stream d \<and> thread_streams d' = thread_streams d"
    using d'(1) by (auto simp: Dispatch_flush_metrics_buffer_def and_then_eq_Inr notify_eq split: option.splits)
  ultimately show ?thesis using assms(2) by (auto simp: run_defs)
qed

lemma shutdown_reach:
  assumes "reach su w logs metrics spans" and "G_DISPATCH w = Some d"
  shows "\<exists>w'. shutdown_telemetry su ck1 ck2 w = Inr w' \<and> reach su w' logs metrics spans \<and> get_sink w' = Some NullEventSink"
proof -
  obtain w1 d1 where w1: "flush_log_buffer su ck1 w = Inr w1" "reach su w1 logs metrics spans" "G_DISPATCH w1 = Some d1"
    using flush_log_effect [OF assms(1)] assms(2) by blast
  obtain w2 d2 where w2: "flush_metrics_buffer su ck2 w1 = Inr w2" "reach su w2 logs metrics spans" "G_DISPATCH w2 = Some d2"
    using flush_metrics_effect [OF w1(2,3)] by blast
  obtain w3 where w3: "shutdown_dispatch w2 = Inr w3" "reach su w3 logs metrics spans"
    using reach_quiet [OF w2(2), of Stop] by (auto simp: quiet_def)
  moreover have "get_sink w3 = Some NullEventSink"
    using w3(1) w2(3) by (auto simp: run_defs Dispatch_shutdown_def notify_eq get_sink_def)
  ultimately show ?thesis using w1 w2 by (simp add: shutdown_telemetry_def)
qed

text \<open>Before the notice of the shutdown, both streams are empty and the sink listens.\<close>

lemma shutdown_flushed:
  assumes "reach su w logs metrics spans" and "G_DISPATCH w = Some d" and "live d"
  shows "\<exists>w2 d2. reach su w2 logs metrics spans \<and> G_DISPATCH w2 = Some d2
    \<and> log_msg.delivers (su_abi su) True (log_blocks (sink_calls w2)) logs (log_stream d2) \<and> is_empty (log_stream d2)
    \<and> metrics_msg.delivers (su_abi su) True (metrics_blocks (sink_calls w2)) metrics (metrics_stream d2) \<and> is_empty (metrics_stream d2)
    \<and> shutdown_telemetry su ck1 ck2 w = Inr (w2\<lparr>G_DISPATCH := Some (d2\<lparr>sink := NullEventSink\<rparr>),
        sink_calls := sink_calls w2 @ [OnShutdown]\<rparr>)"
proof -
  obtain w1 d1 where w1: "flush_log_buffer su ck1 w = Inr w1" "reach su w1 logs metrics spans"
    "G_DISPATCH w1 = Some d1" "is_empty (log_stream d1)" "sink d1 = sink d"
    using flush_log_effect [OF assms(1,2)] by blast
  obtain w2 d2 where w2: "flush_metrics_buffer su ck2 w1 = Inr w2" "reach su w2 logs metrics spans"
    "G_DISPATCH w2 = Some d2" "is_empty (metrics_stream d2)" "sink d2 = sink d1" "log_stream d2 = log_stream d1"
    using flush_metrics_effect [OF w1(2,3)] by blast
  have "dispatcher_inv su d2 (sink_calls w2) logs metrics spans (LOCAL_THREAD_STREAM w2)"
    using reach_inv [OF w2(2)] w2(3) by (simp add: world_inv_def)
  then have "log_msg.delivers (su_abi su) True (log_blocks (sink_calls w2)) logs (log_stream d2)"
    "metrics_msg.delivers (su_abi su) True (metrics_blocks (sink_calls w2)) metrics (metrics_stream d2)"
    using assms(3) w1(5) w2(5) by (simp_all add: dispatcher_inv_def)
  moreover have "shutdown_telemetry su ck1 ck2 w = Inr (w2\<lparr>G_DISPATCH := Some (d2\<lparr>sink := NullEventSink\<rparr>),
      sink_calls := sink_calls w2 @ [OnShutdown]\<rparr>)"
    using w1 w2 assms(3)
    by (simp add: shutdown_telemetry_def shutdown_dispatch_def with_dispatch_def Dispatch_shutdown_def notify_eq)
  ultimately show ?thesis using w1(4) w2 by (intro exI [of _ w2] exI [of _ d2]) simp
qed

text \<open>
  C8. Stopping telemetry loses no log and no metric: after \<open>shutdown_telemetry\<close> the sink has received every
  event that was pushed to the two streams, then the notice of the shutdown.
\<close>

theorem shutdown_delivers:
  assumes "reach su w logs metrics spans" and "G_DISPATCH w = Some d" and "live d"
  shows "\<exists>w' lss mss. shutdown_telemetry su ck1 ck2 w = Inr w'
    \<and> traverse (\<lambda>b. queue_iter (LogMsgQueue_items (su_abi su)) (eb_events b)) (log_blocks (sink_calls w')) = Inr lss
    \<and> concat lss = logs
    \<and> traverse (\<lambda>b. queue_iter (MetricsMsgQueue_items (su_abi su)) (eb_events b)) (metrics_blocks (sink_calls w')) = Inr mss
    \<and> concat mss = metrics \<and> last (sink_calls w') = OnShutdown \<and> get_sink w' = Some NullEventSink"
proof -
  obtain w2 d2 where
    l: "log_msg.delivers (su_abi su) True (log_blocks (sink_calls w2)) logs (log_stream d2)" "is_empty (log_stream d2)" and
    m: "metrics_msg.delivers (su_abi su) True (metrics_blocks (sink_calls w2)) metrics (metrics_stream d2)" "is_empty (metrics_stream d2)" and
    w': "shutdown_telemetry su ck1 ck2 w = Inr (w2\<lparr>G_DISPATCH := Some (d2\<lparr>sink := NullEventSink\<rparr>),
      sink_calls := sink_calls w2 @ [OnShutdown]\<rparr>)"
    using shutdown_flushed [OF assms, of ck1 ck2] by blast
  show ?thesis
    using log_msg.delivers_empty [OF l] metrics_msg.delivers_empty [OF m] w' by (auto simp: get_sink_def is_block_call_def)
qed

lemma section_stopped:
  assumes "get_sink w = Some NullEventSink" and "run_section su sec w = Inr w'"
  shows "sink_calls w' = sink_calls w \<and> get_sink w' = Some NullEventSink"
proof (cases sec)
  case MarkFull
  have "fold_res (at_thread_stream set_full) ts v = Inr v' \<Longrightarrow> sink_calls v' = sink_calls v \<and> G_DISPATCH v' = G_DISPATCH v"
    for ts v v'
    by (induction ts arbitrary: v) (auto simp: and_then_eq_Inr at_thread_stream_def split: option.splits)
  then show ?thesis using assms MarkFull by (auto simp: run_defs get_sink_def split: option.splits)
next
  case (FlushThread t ck)
  then show ?thesis using assms
    by (auto simp: flush_thread_buffer_def Dispatch_flush_thread_buffer_def get_sink_def notify_eq and_then_eq_Inr
        split: option.splits)
next
  case (RegisterThread ck u t thread_id name)
  then show ?thesis using assms
    by (auto simp: init_thread_stream_def Dispatch_init_thread_stream_def Let_def get_sink_def notify_eq
        split: if_splits option.splits)
qed (use assms in \<open>auto simp: run_defs get_sink_def notify_eq and_then_eq_Inr Dispatch_shutdown_def sink_on_log_enabled_def
        push_log_def push_metric_def push_thread_event_def Dispatch_flush_log_buffer_def Dispatch_flush_metrics_buffer_def
        split: if_splits option.splits prod.splits\<close>)

lemma fold_stopped:
  assumes "get_sink w = Some NullEventSink" and "fold_res (run_section su) secs w = Inr w'"
  shows "sink_calls w' = sink_calls w \<and> get_sink w' = Some NullEventSink"
  using assms
proof (induction secs arbitrary: w)
  case (Cons sec secs)
  then show ?case using section_stopped [of w su sec] by (auto simp: and_then_eq_Inr)
qed simp

text \<open>
  C9. Shutting the dispatcher down tells its sink so and disconnects it: whatever the threads do afterwards,
  in any order, the notice of the shutdown is the last thing that the sink has heard, the dispatcher
  stays disconnected, and no log message is enabled any more.
\<close>

theorem sections_stopped:
  assumes "G_DISPATCH w = Some d" and "live d" and "shutdown_dispatch w = Inr w1" and "fold_res (run_section su) secs w1 = Inr w'"
  shows "sink_calls w' = sink_calls w @ [OnShutdown] \<and> get_sink w' = Some NullEventSink \<and> log_enabled su m w' = (False, w')"
proof -
  have w1: "sink_calls w1 = sink_calls w @ [OnShutdown]" "get_sink w1 = Some NullEventSink"
    using assms(1-3) by (auto simp: shutdown_dispatch_def with_dispatch_def Dispatch_shutdown_def notify_eq get_sink_def)
  with fold_stopped [OF w1(2) assms(4)] show ?thesis
    by (auto simp: log_enabled_def sink_on_log_enabled_def get_sink_def)
qed

text \<open>The sink changes at shutdown only, and a registered thread stays registered.\<close>

lemma section_keeps:
  assumes "run_section su sec w = Inr w'"
  shows "sec \<noteq> Stop \<Longrightarrow> get_sink w = Some s \<Longrightarrow> get_sink w' = Some s"
    and "LOCAL_THREAD_STREAM w t \<noteq> None \<Longrightarrow> LOCAL_THREAD_STREAM w' t \<noteq> None"
proof -
  have "fold_res (at_thread_stream set_full) ts v = Inr v' \<Longrightarrow>
      G_DISPATCH v' = G_DISPATCH v \<and> (LOCAL_THREAD_STREAM v t \<noteq> None \<longrightarrow> LOCAL_THREAD_STREAM v' t \<noteq> None)" for ts v v'
    by (induction ts arbitrary: v) (auto simp: and_then_eq_Inr at_thread_stream_def split: option.splits)
  then have "(sec \<noteq> Stop \<longrightarrow> get_sink w = Some s \<longrightarrow> get_sink w' = Some s)
      \<and> (LOCAL_THREAD_STREAM w t \<noteq> None \<longrightarrow> LOCAL_THREAD_STREAM w' t \<noteq> None)"
    using assms
    by (cases sec) (auto simp: run_defs get_sink_def notify_eq and_then_eq_Inr sink_on_log_enabled_def push_log_def
        push_metric_def push_thread_event_def Dispatch_flush_log_buffer_def Dispatch_flush_metrics_buffer_def
        flush_thread_buffer_def Dispatch_flush_thread_buffer_def init_thread_stream_def Dispatch_init_thread_stream_def Let_def
        init_event_dispatch_def split: option.splits prod.splits if_splits sink_ref.splits)
  then show "sec \<noteq> Stop \<Longrightarrow> get_sink w = Some s \<Longrightarrow> get_sink w' = Some s"
    and "LOCAL_THREAD_STREAM w t \<noteq> None \<Longrightarrow> LOCAL_THREAD_STREAM w' t \<noteq> None" by blast+
qed

lemma section_fresh:
  assumes "run_section su sec w = Inr w'" and "G_DISPATCH w = None"
  shows "get_sink w' \<noteq> Some NullEventSink"
  using assms
  by (cases sec) (auto simp: run_defs get_sink_def and_then_eq_Inr init_event_dispatch_def Dispatch_new_def Let_def Dispatch_startup_def
      Dispatch_init_log_stream_def Dispatch_init_metrics_stream_def notify_eq push_thread_event_def flush_thread_buffer_def
      split: if_splits option.splits prod.splits)

text \<open>A stopped dispatcher was stopped by the last call of its sink.\<close>

lemma reach_stopped_last:
  assumes "reach su w logs metrics spans" and "get_sink w = Some NullEventSink"
  shows "sink_calls w \<noteq> [] \<and> last (sink_calls w) = OnShutdown"
  using assms
proof (induction)
  case (reach_init parent)
  then show ?case by (simp add: world_init_def get_sink_def)
next
  case (reach_section w logs metrics spans sec w')
  show ?case
  proof (cases "get_sink w = Some NullEventSink")
    case True
    then show ?thesis using section_stopped [OF True reach_section.hyps(3)] reach_section.IH by simp
  next
    case False
    have "sec = Stop"
    proof (rule ccontr)
      assume sec: "sec \<noteq> Stop"
      show False
      proof (cases "get_sink w")
        case None
        then show ?thesis using section_fresh [OF reach_section.hyps(3)] reach_section.prems by (auto simp: get_sink_def)
      next
        case (Some s)
        then show ?thesis using section_keeps(1) [OF reach_section.hyps(3) sec Some] False reach_section.prems by simp
      qed
    qed
    then obtain d where d: "G_DISPATCH w = Some d"
      using reach_section.hyps(3) reach_section.prems by (auto simp: shutdown_dispatch_def with_dispatch_def get_sink_def split: option.splits)
    then have "live d" using False by (cases "sink d") (simp_all add: get_sink_def)
    then show ?thesis
      using reach_section.hyps(3) d \<open>sec = Stop\<close> by (auto simp: shutdown_dispatch_def with_dispatch_def Dispatch_shutdown_def notify_eq)
  qed
qed

section \<open>The maxima and the log macros\<close>

lemma section_maxima:
  assumes "run_section su sec w = Inr w'" and "\<exists>f. max_level (MAXIMA w) = Inr f"
  shows "\<exists>f. max_level (MAXIMA w') = Inr f"
proof (cases sec)
  case (SetMaxLevel f)
  then show ?thesis using assms by (auto simp: max_level_def set_max_level_def transmute_def)
next
  case MarkFull
  have "fold_res (at_thread_stream set_full) ts v = Inr v' \<Longrightarrow> MAXIMA v' = MAXIMA v" for ts v v'
    by (induction ts arbitrary: v) (auto simp: and_then_eq_Inr at_thread_stream_def split: option.splits)
  then show ?thesis using assms MarkFull by (auto simp: run_defs split: option.splits)
qed (use assms in \<open>auto simp: run_defs and_then_eq_Inr init_event_dispatch_def init_thread_stream_def
        flush_thread_buffer_def push_thread_event_def split: if_splits option.splits prod.splits\<close>)

lemma reach_maxima: "reach su w logs metrics spans \<Longrightarrow> \<exists>f. max_level (MAXIMA w) = Inr f"
proof (induction rule: reach.induct)
  case (reach_init parent)
  show ?case by (simp add: world_init_def maxima_init_def max_level_def LevelFilter_from_u32_def transmute_def)
next
  case (reach_section w logs metrics spans sec w')
  then show ?case using section_maxima by blast
qed

text \<open>Which calls of a logging macro record an event.\<close>

definition records_log :: "surroundings \<Rightarrow> LogMetadata \<Rightarrow> world \<Rightarrow> bool" where
  "records_log su m w \<longleftrightarrow> Level_as_u32 (lm_level m) \<le> LevelFilter_as_u32 (su_static_max_level su)
     \<and> Level_as_u32 (lm_level m) \<le> MAX_LEVEL_FILTER (MAXIMA w)
     \<and> (\<exists>d. G_DISPATCH w = Some d \<and> live d \<and> su_log_enabled su (sink_calls w) m)"

lemma log_macro_reach:
  assumes "reach su w logs metrics spans" and "LogMsgQueue_valid (su_abi su) (log_event ck desc args)"
  shows "\<exists>w'. log_macro su ck desc m args w = Inr w'
    \<and> reach su w' (logs @ (if records_log su m w then [log_event ck desc args] else [])) metrics spans"
proof -
  obtain f where f: "max_level (MAXIMA w) = Inr f" using reach_maxima [OF assms(1)] by blast
  then have word: "MAX_LEVEL_FILTER (MAXIMA w) = LevelFilter_as_u32 f"
    by (auto simp: max_level_def transmute_def LevelFilter_from_u32_def split: option.splits if_splits)
  show ?thesis
    using log_reach [OF assms, of m] f word assms(1)
    by (auto simp: log_macro_def records_log_def Level_PartialOrd_LevelFilter_def split: option.splits if_splits)
qed

section \<open>Starting twice\<close>

text \<open>
  C12. A second initialization is refused, also after a shutdown: it reports that the dispatcher exists,
  keeps it, and only logs.
\<close>

theorem init_twice:
  assumes "reach su w logs metrics spans" and "G_DISPATCH w = Some d"
    and "layout_ok (su_abi su) LogStaticStrEvent_decl"
  shows "\<exists>w'. init_telemetry su ck pid log_id metrics_id l m t w = Inr (Inl AlreadyInitialized, w')
    \<and> get_process_id w' = Some (process_id d) \<and> (\<exists>logs'. reach su w' (logs @ logs') metrics spans)"
proof -
  let ?msg = "''event dispatch already initialized''"
  have valid: "LogMsgQueue_valid (su_abi su) (log_event ck desc (Literal s))" for desc s
    using assms(3) by (simp add: log_event_def)
  obtain w' logs' where w': "log_here su ck Info ?msg 49 w = Inr w'" "reach su w' (logs @ logs') metrics spans"
    unfolding log_here_def Let_def using log_macro_reach [OF assms(1) valid] by blast
  have "get_process_id w' = Some (process_id d)"
    using w'(1) assms(2)
    by (auto simp: log_here_def Let_def log_macro_def log_dispatch_def with_dispatch_def Dispatch_log_def push_log_def
        Dispatch_flush_log_buffer_def sink_on_log_enabled_def notify_eq get_process_id_def and_then_eq_Inr
        split: if_splits sink_ref.splits option.splits prod.splits)
  with w' show ?thesis using assms(2) by (auto simp: init_telemetry_def init_event_dispatch_def)
qed

section \<open>Identifiers of asynchronous spans\<close>

lemma section_counter:
  assumes "run_section su sec w = Inr w'"
  shows "G_ASYNC_SPAN_COUNTER w' = G_ASYNC_SPAN_COUNTER w + (if sec = NextSpan then 1 else 0)"
proof (cases sec)
  case MarkFull
  have "fold_res (at_thread_stream set_full) ts v = Inr v' \<Longrightarrow> G_ASYNC_SPAN_COUNTER v' = G_ASYNC_SPAN_COUNTER v" for ts v v'
    by (induction ts arbitrary: v) (auto simp: and_then_eq_Inr at_thread_stream_def split: option.splits)
  then show ?thesis using assms MarkFull by (auto simp: run_defs split: option.splits)
qed (use assms in \<open>auto simp: run_defs and_then_eq_Inr init_event_dispatch_def init_thread_stream_def
        flush_thread_buffer_def push_thread_event_def split: if_splits option.splits prod.splits\<close>)

lemma sections_counter:
  "fold_res (run_section su) secs w = Inr w' \<Longrightarrow>
   G_ASYNC_SPAN_COUNTER w' = G_ASYNC_SPAN_COUNTER w + word_of_nat (count_list secs NextSpan)"
proof (induction secs arbitrary: w)
  case (Cons sec secs)
  then show ?case using section_counter [of su sec w] by (auto simp: and_then_eq_Inr)
qed simp

lemma on_thread_event_counter:
  "on_thread_event su ck t e w = Inr w' \<Longrightarrow> G_ASYNC_SPAN_COUNTER w' = G_ASYNC_SPAN_COUNTER w"
  unfolding thread_event_sections then_flush_def
  by (auto simp only: and_then_eq_Inr dest!: section_counter split: if_splits) auto

text \<open>An asynchronous span, named or not, begins and gets its identifier.\<close>

inductive begins_async :: "surroundings \<Rightarrow> world \<Rightarrow> u64 \<Rightarrow> world \<Rightarrow> bool" for su where
  begins_scope: "on_begin_async_scope su ck t scope w = Inr (span_id, w') \<Longrightarrow> begins_async su w span_id w'"
| begins_named: "on_begin_async_named_scope su ck t location name w = Inr (span_id, w') \<Longrightarrow> begins_async su w span_id w'"

lemma begins_async_counter:
  assumes "begins_async su w span_id w'"
  shows "span_id = G_ASYNC_SPAN_COUNTER w \<and> G_ASYNC_SPAN_COUNTER w' = G_ASYNC_SPAN_COUNTER w + 1"
  using assms
  by cases (auto simp: on_begin_async_scope_def on_begin_async_named_scope_def next_span_id_def and_then_eq_Inr dest!: on_thread_event_counter)

text \<open>
  C11. Two asynchronous spans, each of them named or not, on any threads and with anything in between, have
  different identifiers, unless the counter has gone all the way around between them.
\<close>

theorem async_ids_differ:
  assumes "begins_async su w span_id w1" and "fold_res (run_section su) secs w1 = Inr w2"
    and "count_list secs NextSpan < 2 ^ 64 - 1" and "begins_async su w2 span_id' w3"
  shows "span_id' \<noteq> span_id"
proof -
  note first = begins_async_counter [OF assms(1)] and second = begins_async_counter [OF assms(4)]
  have "span_id' = span_id + word_of_nat (Suc (count_list secs NextSpan))"
    using sections_counter [OF assms(2)] first second by (simp add: add.assoc)
  then have "span_id' = span_id \<Longrightarrow> 2 ^ 64 dvd Suc (count_list secs NextSpan)"
    using word_of_nat_eq_0_iff [where 'a = 64, of "Suc (count_list secs NextSpan)"] by (simp del: of_nat_Suc)
  then show ?thesis using assms(3) by (auto dest!: dvd_imp_le)
qed

section \<open>The flush monitor at work\<close>

lemma set_full_idem [simp]: "set_full (set_full s) = set_full s"
  by (simp add: set_full_def)

lemma mark_full_effect:
  "fold_res (at_thread_stream set_full) ts w = Inr w' \<Longrightarrow>
   LOCAL_THREAD_STREAM w' = (\<lambda>t. if t \<in> set ts then map_option set_full (LOCAL_THREAD_STREAM w t) else LOCAL_THREAD_STREAM w t)
   \<and> G_DISPATCH w' = G_DISPATCH w \<and> sink_calls w' = sink_calls w"
proof (induction ts arbitrary: w)
  case (Cons t ts)
  then obtain w1 where "at_thread_stream set_full t w = Inr w1" "fold_res (at_thread_stream set_full) ts w1 = Inr w'"
    by (auto simp: and_then_eq_Inr)
  then obtain s where s: "LOCAL_THREAD_STREAM w t = Some s"
    "fold_res (at_thread_stream set_full) ts (w\<lparr>LOCAL_THREAD_STREAM := (LOCAL_THREAD_STREAM w)(t \<mapsto> set_full s)\<rparr>) = Inr w'"
    by (cases "LOCAL_THREAD_STREAM w t") (simp_all add: at_thread_stream_def)
  then show ?case using Cons.IH [OF s(2)] by (auto simp: fun_eq_iff)
qed simp

lemma mark_full_reach:
  assumes "reach su w logs metrics spans" and "G_DISPATCH w = Some d"
  shows "\<exists>w'. for_each_thread_stream set_full w = Inr w' \<and> reach su w' logs metrics spans \<and> G_DISPATCH w' = Some d
    \<and> LOCAL_THREAD_STREAM w' = (\<lambda>t. map_option set_full (LOCAL_THREAD_STREAM w t))"
proof -
  obtain w' where w': "for_each_thread_stream set_full w = Inr w'" "reach su w' logs metrics spans"
    using reach_quiet [OF assms(1), of MarkFull] by (auto simp: quiet_def)
  have "dom (LOCAL_THREAD_STREAM w) = set (thread_streams d)"
    using reach_inv [OF assms(1)] assms(2) by (simp add: world_inv_def dispatcher_inv_def)
  moreover have "LOCAL_THREAD_STREAM w t = None" if "t \<notin> dom (LOCAL_THREAD_STREAM w)" for t using that by auto
  ultimately show ?thesis
    using w' assms(2) mark_full_effect [of "thread_streams d" w w'] by (auto simp: for_each_thread_stream_def fun_eq_iff)
qed

lemma tick_due:
  assumes "reach su w logs metrics spans" and "G_DISPATCH w = Some d"
    and "sint (time_to_flush_seconds now1 fm) \<le> 0" and "\<not> sink_is_busy su (sink_calls w) (sink d)"
  shows "\<exists>w' d'. tick su now1 now2 ck1 ck2 fm w = Inr (fm\<lparr>last_flush := now2\<rparr>, w') \<and> reach su w' logs metrics spans
    \<and> G_DISPATCH w' = Some d' \<and> is_empty (log_stream d') \<and> is_empty (metrics_stream d')
    \<and> dom (LOCAL_THREAD_STREAM w') = dom (LOCAL_THREAD_STREAM w)
    \<and> (\<forall>t s. LOCAL_THREAD_STREAM w' t = Some s \<longrightarrow> es_full_threshold s = 0)"
proof -
  obtain w1 d1 where w1: "flush_log_buffer su ck1 w = Inr w1" "reach su w1 logs metrics spans"
    "G_DISPATCH w1 = Some d1" "is_empty (log_stream d1)" using flush_log_effect [OF assms(1,2)] by blast
  obtain w2 d2 where w2: "flush_metrics_buffer su ck2 w1 = Inr w2" "reach su w2 logs metrics spans"
    "G_DISPATCH w2 = Some d2" "is_empty (metrics_stream d2)" "log_stream d2 = log_stream d1"
    using flush_metrics_effect [OF w1(2,3)] by blast
  obtain w3 where w3: "for_each_thread_stream set_full w2 = Inr w3" "reach su w3 logs metrics spans"
    "G_DISPATCH w3 = Some d2" "LOCAL_THREAD_STREAM w3 = (\<lambda>t. map_option set_full (LOCAL_THREAD_STREAM w2 t))"
    using mark_full_reach [OF w2(2,3)] by blast
  have "LOCAL_THREAD_STREAM w2 = LOCAL_THREAD_STREAM w"
    using w1(1) w2(1) by (auto simp: run_defs and_then_eq_Inr split: option.splits)
  then show ?thesis
    using assms w1 w2 w3 by (auto simp: tick_def get_sink_def set_full_def)
qed

lemma tick_idle:
  "\<not> (sint (time_to_flush_seconds now1 fm) \<le> 0 \<and> (\<exists>s. get_sink w = Some s \<and> \<not> sink_is_busy su (sink_calls w) s)) \<Longrightarrow>
   tick su now1 now2 ck1 ck2 fm w = Inr (fm, w)"
  by (auto simp: tick_def split: option.splits)

lemma full_thread_event:
  assumes "reach su w logs metrics spans" and "LOCAL_THREAD_STREAM w t = Some s" and "es_full_threshold s = 0"
    and "ThreadEventQueue_valid (su_abi su) e"
  shows "\<exists>w' s'. on_thread_event su ck t e w = Inr w' \<and> reach su w' logs metrics (spans(t := spans t @ [e]))
    \<and> LOCAL_THREAD_STREAM w' t = Some s' \<and> is_empty s'"
proof -
  obtain d where d: "G_DISPATCH w = Some d"
    and inv: "dispatcher_inv su d (sink_calls w) logs metrics spans (LOCAL_THREAD_STREAM w)"
    using reach_inv [OF assms(1)] assms(2) by (auto simp: world_inv_def split: option.splits)
  then have del: "thread_event.delivers (su_abi su) (live d) (blocks_of_stream (stream_id s) (thread_blocks (sink_calls w))) (spans t) s"
    using assms(2) by (auto simp: dispatcher_inv_def threads_inv_def)
  then obtain s1 where s1: "stream_push (su_alloc su) (ThreadEventQueue_items (su_abi su)) ThreadEventQueue_type_index e s = Inr s1"
    using thread_event.delivers_push [OF _ assms(4)] by blast
  then have full: "is_full s1" using thread_event.delivers_push_full [OF del assms(4) _ assms(3)] by blast
  obtain w1 where w1: "run_section su (PushThread t e) w = Inr w1"
    "world_inv su w1 logs metrics (\<lambda>u. spans u @ pushed_spans w (PushThread t e) u)"
    using section_inv [OF reach_inv [OF assms(1)], of "PushThread t e"] assms(4)
    by (auto simp: pushed_logs_def pushed_metrics_def)
  then have w1_eq: "w1 = w\<lparr>LOCAL_THREAD_STREAM := (LOCAL_THREAD_STREAM w)(t \<mapsto> s1)\<rparr>"
    using s1 assms(2) by (auto simp: push_thread_event_def)
  then obtain s2 d2 calls2 where "Dispatch_flush_thread_buffer su ck s1 (d, sink_calls w) = Inr (s2, (d2, calls2))" "is_empty s2"
    using w1(2) d dispatcher_flush_thread [of su d "sink_calls w" logs metrics _ "LOCAL_THREAD_STREAM w1" t s1 ck]
    by (fastforce simp: world_inv_def)
  then have "\<exists>w' s'. on_thread_event su ck t e w = Inr w' \<and> LOCAL_THREAD_STREAM w' t = Some s' \<and> is_empty s'"
    using s1 full d assms(2) by (simp add: on_thread_event_def push_thread_event_def flush_thread_buffer_def)
  then show ?thesis using on_thread_event_reach [OF assms(1,4), of t ck] assms(2) by auto
qed

section \<open>Threads that end\<close>

text \<open>The thread-local cell of a thread is destroyed with the thread; nothing unregisters it.\<close>

definition thread_exit :: "nat \<Rightarrow> world \<Rightarrow> world" where
  "thread_exit t w = w\<lparr>LOCAL_THREAD_STREAM := (LOCAL_THREAD_STREAM w)(t := None)\<rparr>"

lemma at_missing_stream:
  "LOCAL_THREAD_STREAM w t = None \<Longrightarrow> t \<in> set ts \<Longrightarrow> fold_res (at_thread_stream f) ts w = Inl UB"
proof (induction ts arbitrary: w)
  case (Cons u ts)
  show ?case
  proof (cases "LOCAL_THREAD_STREAM w u")
    case (Some s)
    then have "at_thread_stream f u w = Inr (w\<lparr>LOCAL_THREAD_STREAM := (LOCAL_THREAD_STREAM w)(u \<mapsto> f s)\<rparr>)"
      by (simp add: at_thread_stream_def)
    moreover have "u \<noteq> t" using Some Cons.prems(1) by auto
    ultimately show ?thesis using Cons by simp
  qed (simp add: at_thread_stream_def)
qed simp

end
