(* ===== verification/Sample.thy ===== *)
theory Sample
  imports Guards
begin

text \<open>
  A concrete process for the witnesses: a layout in which every field has a slot of sixteen bytes
  of its own, a memory whose first bytes are all the letter A, and call sites whose strings are
  single bytes of that memory.
\<close>

definition sample_field_names :: "string list" where
  "sample_field_names =
     [''id'', ''name'', ''target'', ''module_path'', ''file'', ''line'', ''lod'', ''level'', ''fmt_str'', ''unit'',
      ''desc'', ''value'', ''time'', ''msg'', ''thread_span_desc'', ''thread_span_location'', ''span_desc'',
      ''span_location'', ''span_id'']"

definition sample_abi :: abi where
  "sample_abi =
     \<lparr>abi_size = (\<lambda>n. if n = ''StringId'' then 16 else 304),
      abi_offset = (\<lambda>n f. if n = ''StringId'' then (if f = ''ptr'' then 0 else 8)
        else case position (\<lambda>g. g = f) sample_field_names of None \<Rightarrow> 0 | Some i \<Rightarrow> 16 * i),
      abi_pad = (\<lambda>n i. 0xCC)\<rparr>"

definition sample_alloc :: vec_alloc where
  "sample_alloc = \<lparr>with_capacity = (\<lambda>n. n), grown = (\<lambda>c n. max (2 * c) n)\<rparr>"

definition sample_memory :: memory where
  "sample_memory p = (if p < 64 then Some 0x41 else None)"

definition sample_str :: "u64 \<Rightarrow> static_str" where
  "sample_str p = \<lparr>str_ptr = p, str_len = 1\<rparr>"

definition sample_metric :: MetricMetadata where
  "sample_metric = \<lparr>mm_lod = MedLod, mm_name = sample_str 1, mm_unit = sample_str 2, mm_target = sample_str 3,
     mm_module_path = sample_str 4, mm_file = sample_str 5, mm_line = 7\<rparr>"

definition sample_log :: LogMetadata where
  "sample_log = \<lparr>lm_level = Warn, lm_level_filter = 0, lm_fmt_str = sample_str 1, lm_target = sample_str 3,
     lm_module_path = sample_str 4, lm_file = sample_str 5, lm_line = 7\<rparr>"

definition sample_location :: SpanLocation where
  "sample_location = \<lparr>sl_lod = MaxLod, sl_target = sample_str 3, sl_module_path = sample_str 4,
     sl_file = sample_str 5, sl_line = 7\<rparr>"

definition sample_span :: SpanMetadata where
  "sample_span = \<lparr>sm_name = sample_str 1, sm_location = sample_location\<rparr>"

definition sample_metrics :: "u64 \<rightharpoonup> MetricMetadata" where
  "sample_metrics = [100 \<mapsto> sample_metric]"

definition sample_logs :: "u64 \<rightharpoonup> LogMetadata" where
  "sample_logs = [100 \<mapsto> sample_log]"

definition sample_spans :: "u64 \<rightharpoonup> SpanMetadata" where
  "sample_spans = [100 \<mapsto> sample_span]"

definition sample_locations :: "u64 \<rightharpoonup> SpanLocation" where
  "sample_locations = [200 \<mapsto> sample_location]"

lemma sample_layouts:
  "layout_ok sample_abi StringId_decl" "layout_ok sample_abi IntegerMetricEvent_decl"
  "layout_ok sample_abi FloatMetricEvent_decl" "layout_ok sample_abi MetricMetadataRecord_decl"
  "layout_ok sample_abi LogStaticStrEvent_decl" "layout_ok sample_abi LogStaticStrInteropEvent_decl"
  "layout_ok sample_abi LogMetadataRecord_decl"
  "layout_ok sample_abi SpanRecord_decl" "layout_ok sample_abi SpanLocationRecord_decl"
  "layout_ok sample_abi BeginThreadSpanEvent_decl" "layout_ok sample_abi EndThreadSpanEvent_decl"
  "layout_ok sample_abi BeginThreadNamedSpanEvent_decl"
  by code_simp+

lemma sample_str_ok: "p < 64 \<Longrightarrow> str_ok sample_memory (sample_str p)"
  by (simp add: str_ok_def sample_str_def sample_memory_def is_utf8_ascii del: is_utf8.simps)

lemma sample_readable: "p < 64 \<Longrightarrow> StaticString_readable sample_memory (StaticString_from_StringId \<lparr>sid_ptr = p, sid_len = 1\<rparr>)"
  using str_ok_readable(1) [OF sample_str_ok, of p]
  by (simp add: StaticString_from_str_def StaticString_from_StringId_def sample_str_def)

section \<open>A process at work\<close>

text \<open>
  The dispatcher is started, a thread registers, and one event of each kind is pushed.
\<close>

definition sample_surroundings :: surroundings where
  "sample_surroundings =
     \<lparr>su_alloc = sample_alloc, su_abi = sample_abi, su_memory = sample_memory, su_intern = (\<lambda>_ _. 32),
      su_log_enabled = (\<lambda>_ _. True), su_is_busy = (\<lambda>_. False),
      su_host = \<lparr>ho_username = ''user'', ho_realname = ''User'', ho_exe = None, ho_devicename = ''box'', ho_distro = ''linux'',
        ho_cpu_brand = None, ho_frequency = 1000\<rparr>,
      su_uuid_try_parse = (\<lambda>_. None), su_uuid_to_string = (\<lambda>_. ''1''), su_static_max_level = FilterTrace,
      su_literal = (\<lambda>_. sample_str 6), su_call_site = (\<lambda>_ _. 100)\<rparr>"

definition sample_time :: "i64 \<Rightarrow> DualTime" where
  "sample_time t = \<lparr>dt_ticks = t, dt_time = 0\<rparr>"

definition sample_clock :: clock where
  "sample_clock = \<lparr>ck_now = 5, ck_utc = 0, ck_begin = sample_time 5, ck_end = sample_time 6\<rparr>"

definition sample_next :: "dsection \<Rightarrow> world \<Rightarrow> world" where
  "sample_next sec w = (case run_section sample_surroundings sec w of Inr w' \<Rightarrow> w' | Inl _ \<Rightarrow> w)"

definition sample_log_event :: LogMsgQueueAny where
  "sample_log_event = LogStaticStrEvent \<lparr>lse_desc = 100, lse_time = 7\<rparr>"

definition sample_metric_event :: MetricsMsgQueueAny where
  "sample_metric_event = IntegerMetricEvent \<lparr>ime_desc = 100, ime_value = 3, ime_time = 8\<rparr>"

definition sample_span_event :: ThreadEventQueueAny where
  "sample_span_event = BeginThreadSpanEvent \<lparr>ts_thread_span_desc = 100, ts_time = 9\<rparr>"

definition sample_started :: world where
  "sample_started = sample_next (Start sample_clock 1 2 3 1024 1024 1024) (world_init None)"

definition sample_registered :: world where
  "sample_registered = sample_next (RegisterThread sample_clock 4 0 ''7'' (Some ''main'')) sample_started"

definition sample_world :: world where
  "sample_world = sample_next (PushThread 0 sample_span_event) (sample_next (PushMetric sample_metric_event)
     (sample_next (PushLog sample_log_event) sample_registered))"

lemma sample_events_valid:
  "LogMsgQueue_valid sample_abi sample_log_event" "MetricsMsgQueue_valid sample_abi sample_metric_event"
  "ThreadEventQueue_valid sample_abi sample_span_event"
  by (simp_all add: sample_log_event_def sample_metric_event_def sample_span_event_def MetricsMsgQueue_valid_def
      ThreadEventQueue_valid_def sample_layouts)

lemma sample_buffers: "buffer_size_ok sample_alloc 1024"
  by (simp add: buffer_size_ok_def sample_alloc_def)

lemma reach_next:
  assumes "reach sample_surroundings w logs metrics spans" and "section_ok sample_surroundings w sec"
  shows "reach sample_surroundings (sample_next sec w) (logs @ pushed_logs w sec) (metrics @ pushed_metrics w sec)
    (\<lambda>t. spans t @ pushed_spans w sec t)"
  using reach_step [OF assms] by (auto simp: sample_next_def)

lemma next_keeps:
  assumes "reach sample_surroundings w logs metrics spans" and "section_ok sample_surroundings w sec"
  shows "sec \<noteq> Stop \<Longrightarrow> get_sink w = Some s \<Longrightarrow> get_sink (sample_next sec w) = Some s"
    and "LOCAL_THREAD_STREAM w t \<noteq> None \<Longrightarrow> LOCAL_THREAD_STREAM (sample_next sec w) t \<noteq> None"
proof -
  obtain w' where "run_section sample_surroundings sec w = Inr w'" using reach_step [OF assms] by blast
  then show "sec \<noteq> Stop \<Longrightarrow> get_sink w = Some s \<Longrightarrow> get_sink (sample_next sec w) = Some s"
    and "LOCAL_THREAD_STREAM w t \<noteq> None \<Longrightarrow> LOCAL_THREAD_STREAM (sample_next sec w) t \<noteq> None"
    using section_keeps [of sample_surroundings sec w w'] by (simp_all add: sample_next_def)
qed

lemma sample_registered_state:
  "LOCAL_THREAD_STREAM sample_started = (\<lambda>_. None)" "get_sink sample_started = Some AppSink"
  "get_sink sample_registered = Some AppSink" "LOCAL_THREAD_STREAM sample_registered 0 \<noteq> None"
proof -
  show s: "LOCAL_THREAD_STREAM sample_started = (\<lambda>_. None)" "get_sink sample_started = Some AppSink"
    by (simp_all add: sample_started_def sample_next_def world_init_def init_event_dispatch_def Dispatch_new_def Let_def
        Dispatch_startup_def Dispatch_init_log_stream_def Dispatch_init_metrics_stream_def notify_eq get_sink_def)
  then obtain d where "G_DISPATCH sample_started = Some d" "sink d = AppSink" by (auto simp: get_sink_def)
  with s show "get_sink sample_registered = Some AppSink" "LOCAL_THREAD_STREAM sample_registered 0 \<noteq> None"
    by (simp_all add: sample_registered_def sample_next_def init_thread_stream_def Dispatch_init_thread_stream_def Let_def
        notify_eq get_sink_def)
qed

lemma sample_reach:
  "reach sample_surroundings sample_world [sample_log_event] [sample_metric_event] (\<lambda>t. if t = 0 then [sample_span_event] else [])
   \<and> get_sink sample_world = Some AppSink \<and> LOCAL_THREAD_STREAM sample_world 0 \<noteq> None"
proof -
  let ?su = sample_surroundings
  let ?w2 = "sample_next (PushLog sample_log_event) sample_registered"
  let ?w3 = "sample_next (PushMetric sample_metric_event) ?w2"
  have su: "su_abi ?su = sample_abi" "su_alloc ?su = sample_alloc" by (simp_all add: sample_surroundings_def)
  have ok: "section_ok ?su w (PushLog sample_log_event)" "section_ok ?su w (PushMetric sample_metric_event)"
    "section_ok ?su w (PushThread 0 sample_span_event)" for w using sample_events_valid by (simp_all add: su)
  have "reach ?su sample_started [] [] (\<lambda>_. [])"
    using reach_next [OF reach_init [of ?su None], of "Start sample_clock 1 2 3 1024 1024 1024"] sample_buffers
    by (simp add: sample_started_def su pushed_defs)
  from reach_next [OF this, of "RegisterThread sample_clock 4 0 ''7'' (Some ''main'')"]
  have r1: "reach ?su sample_registered [] [] (\<lambda>_. [])"
    using sample_registered_state(1) by (simp add: sample_registered_def pushed_defs)
  then have r2: "reach ?su ?w2 [sample_log_event] [] (\<lambda>_. [])" "get_sink ?w2 = Some AppSink" "LOCAL_THREAD_STREAM ?w2 0 \<noteq> None"
    using reach_next [OF r1 ok(1)] next_keeps [OF r1 ok(1)] sample_registered_state by (auto simp: pushed_defs get_sink_def)
  then have r3: "reach ?su ?w3 [sample_log_event] [sample_metric_event] (\<lambda>_. [])" "get_sink ?w3 = Some AppSink"
    "LOCAL_THREAD_STREAM ?w3 0 \<noteq> None"
    using reach_next [OF r2(1) ok(2)] next_keeps [OF r2(1) ok(2)] by (auto simp: pushed_defs get_sink_def)
  have "pushed_spans ?w3 (PushThread 0 sample_span_event) = (\<lambda>t. if t = 0 then [sample_span_event] else [])"
    using r3(3) by (auto simp: pushed_spans_def fun_eq_iff)
  then show ?thesis
    using reach_next [OF r3(1) ok(3)] next_keeps [OF r3(1) ok(3)] r3
    by (simp add: sample_world_def pushed_logs_def pushed_metrics_def)
qed

end
