(* ===== verification/Composite_Sink.thy ===== *)
theory Composite_Sink
  imports Guards "HOL-Library.Sublist"
begin

text \<open>
  The sink that fans out to several sinks and filters logs by level and target
  (\<open>telemetry-sink/src/composite_event_sink.rs\<close>). Each inner sink is known by the calls that it
  received and answers as a function of them. The filter of a target is the first of the configured
  targets that is a prefix of it; the result is kept in the call site, in the cell of
  \<open>Log_Filter\<close>. The text of a static string is read through the memory of the process.
\<close>

section \<open>The sink\<close>

record subsink =
  ss_log_enabled :: "sink_call list \<Rightarrow> LogMetadata \<Rightarrow> bool"
  ss_is_busy :: "sink_call list \<Rightarrow> bool"
  ss_calls :: "sink_call list"

record CompositeSink =
  cs_sinks :: "(LevelFilter \<times> subsink) list"
  cs_target_level_filters :: "(string \<times> LevelFilter) list"

definition name_key :: "string \<Rightarrow> u64" where
  "name_key name = - word_of_nat (length name)"

definition CompositeSink_new ::
  "(LevelFilter \<times> subsink) list \<Rightarrow> (string \<times> LevelFilter) list \<Rightarrow> LevelFilter option \<Rightarrow> maxima \<Rightarrow> CompositeSink \<times> maxima" where
  "CompositeSink_new sinks targets max_level_override m =
     (let max_level = (case max_level_override of
            Some f \<Rightarrow> f
          | None \<Rightarrow> fold (\<lambda>(f, _) acc. max acc f) sinks (fold (\<lambda>(_, f) acc. max acc f) targets FilterOff)) in
      (\<lparr>cs_sinks = sinks, cs_target_level_filters = sort_key (\<lambda>(name, _). name_key name) targets\<rparr>,
       set_max_level max_level m))"

fun find_max_match :: "string \<Rightarrow> (string \<times> LevelFilter) list \<Rightarrow> LevelFilter option" where
  "find_max_match target [] = None"
| "find_max_match target ((t, l) # fs) = (if prefix t target then Some l else find_max_match target fs)"

definition GENERATION :: u16 where
  "GENERATION = 1"

text \<open>The call site is returned with the updated cell.\<close>

definition target_max_level :: "memory \<Rightarrow> CompositeSink \<Rightarrow> LogMetadata \<Rightarrow> LevelFilter option \<times> LogMetadata" where
  "target_max_level mem cs m = (case level_filter GENERATION (lm_level_filter m) of
       Outdated \<Rightarrow> (let lf = find_max_match (str_text mem (lm_target m)) (cs_target_level_filters cs) in
         (lf, m\<lparr>lm_level_filter := set_level_filter GENERATION lf (lm_level_filter m)\<rparr>))
     | NotSet \<Rightarrow> (None, m)
     | SetTo f \<Rightarrow> (Some f, m))"

definition tell :: "sink_call \<Rightarrow> subsink \<Rightarrow> subsink" where
  "tell c s = s\<lparr>ss_calls := ss_calls s @ [c]\<rparr>"

definition sub_on_log_enabled :: "LogMetadata \<Rightarrow> subsink \<Rightarrow> bool \<times> subsink" where
  "sub_on_log_enabled m s = (ss_log_enabled s (ss_calls s) m, tell (OnLogEnabled m) s)"

definition broadcast :: "sink_call \<Rightarrow> CompositeSink \<Rightarrow> CompositeSink" where
  "broadcast c cs = cs\<lparr>cs_sinks := map (\<lambda>(f, s). (f, tell c s)) (cs_sinks cs)\<rparr>"

definition passes :: "Level \<Rightarrow> LevelFilter option \<Rightarrow> LevelFilter \<Rightarrow> bool" where
  "passes lvl target_max own_max = po_le Level_PartialOrd_LevelFilter lvl (case target_max of None \<Rightarrow> own_max | Some f \<Rightarrow> f)"

text \<open>\<open>Iterator::any\<close>: the sinks behind the first that agrees are not asked.\<close>

fun any_enabled :: "LogMetadata \<Rightarrow> LevelFilter option \<Rightarrow> (LevelFilter \<times> subsink) list \<Rightarrow> bool \<times> (LevelFilter \<times> subsink) list" where
  "any_enabled m target_max [] = (False, [])"
| "any_enabled m target_max ((own_max, s) # ss) =
     (if passes (lm_level m) target_max own_max then
        (let (b, s') = sub_on_log_enabled m s in
         if b then (True, (own_max, s') # ss)
         else (let (b', ss') = any_enabled m target_max ss in (b', (own_max, s') # ss')))
      else (let (b', ss') = any_enabled m target_max ss in (b', (own_max, s) # ss')))"

definition log_one :: "LogMetadata \<Rightarrow> i64 \<Rightarrow> Arguments \<Rightarrow> LevelFilter option \<Rightarrow> LevelFilter \<times> subsink \<Rightarrow> LevelFilter \<times> subsink" where
  "log_one m time args target_max p = (case p of (own_max, s) \<Rightarrow>
     if passes (lm_level m) target_max own_max then
       (let (b, s') = sub_on_log_enabled m s in (own_max, if b then tell (OnLog m time args) s' else s'))
     else (own_max, s))"

subsection \<open>The trait\<close>

definition composite_on_startup :: "ProcessInfo \<Rightarrow> CompositeSink \<Rightarrow> CompositeSink" where
  "composite_on_startup info cs = (case cs_sinks cs of
       [(f, s)] \<Rightarrow> cs\<lparr>cs_sinks := [(f, tell (OnStartup info) s)]\<rparr>
     | _ \<Rightarrow> broadcast (OnStartup info) cs)"

definition composite_on_shutdown :: "CompositeSink \<Rightarrow> CompositeSink" where
  "composite_on_shutdown = broadcast OnShutdown"

definition composite_on_log_enabled :: "memory \<Rightarrow> LogMetadata \<Rightarrow> CompositeSink \<Rightarrow> bool \<times> LogMetadata \<times> CompositeSink" where
  "composite_on_log_enabled mem m cs =
     (let (target_max, m') = target_max_level mem cs m;
          (b, ss) = any_enabled m' target_max (cs_sinks cs) in
      (b, m', cs\<lparr>cs_sinks := ss\<rparr>))"

definition composite_on_log ::
  "memory \<Rightarrow> LogMetadata \<Rightarrow> i64 \<Rightarrow> Arguments \<Rightarrow> CompositeSink \<Rightarrow> LogMetadata \<times> CompositeSink" where
  "composite_on_log mem m time args cs =
     (let (target_max, m') = target_max_level mem cs m in
      (m', cs\<lparr>cs_sinks := map (log_one m' time args target_max) (cs_sinks cs)\<rparr>))"

definition composite_on_init_log_stream :: "EventStream \<Rightarrow> CompositeSink \<Rightarrow> CompositeSink" where
  "composite_on_init_log_stream s = broadcast (OnInitLogStream s)"

definition composite_on_process_log_block :: "EventBlock \<Rightarrow> CompositeSink \<Rightarrow> CompositeSink" where
  "composite_on_process_log_block b = broadcast (OnProcessLogBlock b)"

definition composite_on_init_metrics_stream :: "EventStream \<Rightarrow> CompositeSink \<Rightarrow> CompositeSink" where
  "composite_on_init_metrics_stream s = broadcast (OnInitMetricsStream s)"

definition composite_on_process_metrics_block :: "EventBlock \<Rightarrow> CompositeSink \<Rightarrow> CompositeSink" where
  "composite_on_process_metrics_block b = broadcast (OnProcessMetricsBlock b)"

definition composite_on_init_thread_stream :: "EventStream \<Rightarrow> CompositeSink \<Rightarrow> CompositeSink" where
  "composite_on_init_thread_stream s = broadcast (OnInitThreadStream s)"

definition composite_on_process_thread_block :: "EventBlock \<Rightarrow> CompositeSink \<Rightarrow> CompositeSink" where
  "composite_on_process_thread_block b = broadcast (OnProcessThreadBlock b)"

definition composite_is_busy :: "CompositeSink \<Rightarrow> bool" where
  "composite_is_busy cs = list_ex (\<lambda>(_, s). ss_is_busy s (ss_calls s)) (cs_sinks cs)"

text \<open>The calls of a dispatcher, one after the other.\<close>

fun composite_call :: "memory \<Rightarrow> sink_call \<Rightarrow> CompositeSink \<Rightarrow> CompositeSink" where
  "composite_call mem (OnStartup info) cs = composite_on_startup info cs"
| "composite_call mem OnShutdown cs = composite_on_shutdown cs"
| "composite_call mem (OnLogEnabled m) cs = snd (snd (composite_on_log_enabled mem m cs))"
| "composite_call mem (OnLog m time args) cs = snd (composite_on_log mem m time args cs)"
| "composite_call mem (OnInitLogStream s) cs = composite_on_init_log_stream s cs"
| "composite_call mem (OnProcessLogBlock b) cs = composite_on_process_log_block b cs"
| "composite_call mem (OnInitMetricsStream s) cs = composite_on_init_metrics_stream s cs"
| "composite_call mem (OnProcessMetricsBlock b) cs = composite_on_process_metrics_block b cs"
| "composite_call mem (OnInitThreadStream s) cs = composite_on_init_thread_stream s cs"
| "composite_call mem (OnProcessThreadBlock b) cs = composite_on_process_thread_block b cs"

definition composite_calls :: "memory \<Rightarrow> sink_call list \<Rightarrow> CompositeSink \<Rightarrow> CompositeSink" where
  "composite_calls mem calls cs = fold (composite_call mem) calls cs"

section \<open>The filter of a target\<close>

lemma find_max_match_Some:
  "find_max_match target fs = Some l \<longleftrightarrow> (\<exists>pre t post. fs = pre @ (t, l) # post \<and> prefix t target
     \<and> list_all (\<lambda>(u, _). \<not> prefix u target) pre)"
proof (induction fs)
  case (Cons f fs)
  obtain u k where f: "f = (u, k)" by (cases f)
  show ?case
  proof (cases "prefix u target")
    case True
    show ?thesis
    proof
      assume "find_max_match target (f # fs) = Some l"
      then show "\<exists>pre t post. f # fs = pre @ (t, l) # post \<and> prefix t target \<and> list_all (\<lambda>(u, _). \<not> prefix u target) pre"
        using f True by (intro exI [of _ "[]"] exI [of _ u] exI [of _ fs]) simp
    next
      assume "\<exists>pre t post. f # fs = pre @ (t, l) # post \<and> prefix t target \<and> list_all (\<lambda>(u, _). \<not> prefix u target) pre"
      then show "find_max_match target (f # fs) = Some l" using f True by (auto simp: Cons_eq_append_conv)
    qed
  next
    case False
    then show ?thesis using f Cons.IH by (auto simp: Cons_eq_append_conv) (metis list.pred_inject(2) prod.case append_Cons)+
  qed
qed simp

lemma find_max_match_None: "find_max_match target fs = None \<longleftrightarrow> list_all (\<lambda>(t, _). \<not> prefix t target) fs"
  by (induction target fs rule: find_max_match.induct) auto

lemma name_key_less:
  assumes "length a < 2 ^ 63" and "length b < 2 ^ 63" and "a \<noteq> []" and "b \<noteq> []"
  shows "name_key a \<le> name_key b \<longleftrightarrow> length b \<le> length a"
proof -
  have "unat (name_key s) = 2 ^ 64 - length s" if s: "length s < 2 ^ 63" "s \<noteq> []" for s
  proof -
    have "word_of_nat (2 ^ 64 - length s) + word_of_nat (length s) = (word_of_nat (2 ^ 64) :: u64)"
      using s(1) unfolding of_nat_add [symmetric] by simp
    also have "\<dots> = 0" by simp
    finally have "name_key s = word_of_nat (2 ^ 64 - length s)"
      unfolding name_key_def by (intro minus_unique) (simp only: add.commute)
    moreover have "2 ^ 64 - length s < 2 ^ 64" using s(2) by (simp add: length_greater_0_conv)
    ultimately show ?thesis by (simp add: unat_of_nat)
  qed
  then show ?thesis using assms by (simp add: word_le_nat_alt) linarith
qed

lemma name_key_empty: "name_key [] \<le> name_key a"
  by (simp add: name_key_def)

lemma name_key_zero: "length a < 2 ^ 63 \<Longrightarrow> name_key a = 0 \<longleftrightarrow> a = []"
  using word_of_nat_eq_0_iff [where 'a = 64, of "length a"] by (auto simp: name_key_def dest!: dvd_imp_le)

text \<open>What the search finds among targets with names: the filter of the longest prefix.\<close>

lemma find_longest:
  assumes "list_all (\<lambda>(t, _). t \<noteq> [] \<and> length t < 2 ^ 63) targets"
    and "find_max_match target (sort_key (\<lambda>(name, _). name_key name) targets) = Some l"
  shows "\<exists>t. (t, l) \<in> set targets \<and> prefix t target \<and> (\<forall>u k. (u, k) \<in> set targets \<longrightarrow> prefix u target \<longrightarrow> length u \<le> length t)"
proof -
  let ?fs = "sort_key (\<lambda>(name, _). name_key name) targets"
  obtain pre t post where fs: "?fs = pre @ (t, l) # post" and t: "prefix t target"
    and pre: "list_all (\<lambda>(u, _). \<not> prefix u target) pre"
    using assms(2) unfolding find_max_match_Some by blast
  have sets: "set targets = set pre \<union> {(t, l)} \<union> set post" using arg_cong [OF fs, of set] by auto
  have "sorted (map (\<lambda>(name, _). name_key name) (pre @ (t, l) # post))" unfolding fs [symmetric] by (rule sorted_sort_key)
  then have post: "name_key t \<le> name_key u" if "(u, k) \<in> set post" for u k
    using that by (auto simp: sorted_append)
  have "length u \<le> length t" if u: "(u, k) \<in> set targets" "prefix u target" for u k
  proof -
    have "(u, k) \<notin> set pre" using pre u(2) by (auto simp: list_all_iff)
    then have "(u, k) = (t, l) \<or> (u, k) \<in> set post" using u(1) sets by auto
    then show ?thesis
      using assms(1) u(1) sets post [of u k] name_key_less [of t u] by (auto simp: list_all_iff)
  qed
  then show ?thesis using sets t by auto
qed

text \<open>A target without a name goes first and hides every other.\<close>

lemma find_empty_name:
  assumes "list_all (\<lambda>(t, _). length t < 2 ^ 63) targets" and "([], k) \<in> set targets"
  shows "\<exists>l. ([], l) \<in> set targets \<and> find_max_match target (sort_key (\<lambda>(name, _). name_key name) targets) = Some l"
proof -
  let ?fs = "sort_key (\<lambda>(name, _). name_key name) targets"
  have mem: "set ?fs = set targets" by simp
  then obtain u l rest where fs: "?fs = (u, l) # rest" using assms(2) by (cases ?fs) auto
  have "sorted (map (\<lambda>(name, _). name_key name) ((u, l) # rest))" unfolding fs [symmetric] by (rule sorted_sort_key)
  moreover have "([], k) \<in> set ((u, l) # rest)" using assms(2) mem unfolding fs by simp
  ultimately have "name_key u \<le> name_key []" by auto
  then have "name_key u = 0" using name_key_empty [of u] by (simp add: name_key_def)
  moreover have "(u, l) \<in> set targets" using mem unfolding fs by auto
  ultimately have "u = []" using assms(1) name_key_zero [of u] by (auto simp: list_all_iff)
  then show ?thesis using \<open>(u, l) \<in> set targets\<close> by (auto simp: fs)
qed

section \<open>The cache in the call site\<close>

definition target_filter :: "memory \<Rightarrow> CompositeSink \<Rightarrow> LogMetadata \<Rightarrow> LevelFilter option" where
  "target_filter mem cs m = find_max_match (str_text mem (lm_target m)) (cs_target_level_filters cs)"

definition cache_ok :: "memory \<Rightarrow> CompositeSink \<Rightarrow> LogMetadata \<Rightarrow> bool" where
  "cache_ok mem cs m \<longleftrightarrow> generation_of (lm_level_filter m) = 0
     \<or> lm_level_filter m = filter_word GENERATION (target_filter mem cs m)"

lemma target_max_level_cached:
  assumes "cache_ok mem cs m"
  shows "target_max_level mem cs m = (target_filter mem cs m, m\<lparr>lm_level_filter := filter_word GENERATION (target_filter mem cs m)\<rparr>)"
proof (cases "lm_level_filter m = filter_word GENERATION (target_filter mem cs m)")
  case True
  then have "m\<lparr>lm_level_filter := filter_word GENERATION (target_filter mem cs m)\<rparr> = m" by (cases m) simp
  then show ?thesis using True by (auto simp: target_max_level_def level_filter_word split: option.splits)
next
  case False
  then have g: "generation_of (lm_level_filter m) = 0" using assms by (simp add: cache_ok_def)
  then have "level_filter GENERATION (lm_level_filter m) = Outdated" by (simp add: level_filter_def GENERATION_def)
  then show ?thesis
    using g by (simp add: target_max_level_def target_filter_def Let_def set_level_filter_eq GENERATION_def)
qed

section \<open>Levels\<close>

lemma fold_max_sinks:
  "acc \<le> fold (\<lambda>(f, _) acc. max acc f) sinks acc"
  "(f, s) \<in> set sinks \<Longrightarrow> f \<le> fold (\<lambda>(f, _) acc. max acc f) sinks acc" for f acc :: LevelFilter
proof (induction sinks arbitrary: acc)
  case (Cons p sinks)
  {
    case 1
    show ?case using Cons.IH(1) [of "max acc (fst p)"] by (cases p) auto
  next
    case 2
    then show ?case using Cons.IH(1) [of "max acc (fst p)"] Cons.IH(2) [of "max acc (fst p)"] by (cases p) auto
  }
qed auto

lemma fold_max_targets:
  "acc \<le> fold (\<lambda>(_, f) acc. max acc f) ts acc"
  "(t, f) \<in> set ts \<Longrightarrow> f \<le> fold (\<lambda>(_, f) acc. max acc f) ts acc" for f acc :: LevelFilter
proof (induction ts arbitrary: acc)
  case (Cons p ts)
  {
    case 1
    show ?case using Cons.IH(1) [of "max acc (snd p)"] by (cases p) auto
  next
    case 2
    then show ?case using Cons.IH(1) [of "max acc (snd p)"] Cons.IH(2) [of "max acc (snd p)"] by (cases p) auto
  }
qed auto

section \<open>Blocks reach every inner sink\<close>

definition grows :: "sink_call list \<Rightarrow> LevelFilter \<times> subsink \<Rightarrow> LevelFilter \<times> subsink \<Rightarrow> bool" where
  "grows bcs p q \<longleftrightarrow> fst q = fst p \<and> filter is_block_call (ss_calls (snd q)) = filter is_block_call (ss_calls (snd p)) @ bcs"

lemma grows_refl: "list_all2 (grows []) xs xs"
  by (rule list_all2_refl) (simp add: grows_def)

lemma any_enabled_grows: "list_all2 (grows []) ss (snd (any_enabled m target_max ss))"
proof (induction ss)
  case (Cons p ss)
  have "grows [] q q" "grows [] (f, s) (f, tell (OnLogEnabled m) s)" for q f s
    by (simp_all add: grows_def tell_def is_block_call_def)
  then show ?case
    using Cons grows_refl [of ss] by (cases p) (auto simp: sub_on_log_enabled_def split: prod.splits)
qed simp

lemma broadcast_grows: "list_all2 (grows (filter is_block_call [c])) (cs_sinks cs) (cs_sinks (broadcast c cs))"
  by (auto simp: broadcast_def tell_def grows_def list_all2_conv_all_nth split: prod.splits)

lemma composite_on_startup_broadcast: "composite_on_startup info cs = broadcast (OnStartup info) cs"
  by (auto simp: composite_on_startup_def broadcast_def split: list.splits)

lemma composite_call_grows:
  "list_all2 (grows (filter is_block_call [c])) (cs_sinks cs) (cs_sinks (composite_call mem c cs))"
proof (cases c)
  case (OnLogEnabled m)
  have "list_all2 (grows []) (cs_sinks cs) ss'"
    if "any_enabled m' f (cs_sinks cs) = (b, ss')" for m' f b ss'
    using any_enabled_grows [of "cs_sinks cs" m' f] that by simp
  then show ?thesis
    using OnLogEnabled by (auto simp: composite_on_log_enabled_def is_block_call_def split: prod.splits)
next
  case (OnLog m time args)
  have "grows [] p (log_one m' time args f p)" for m' f p
    by (cases p) (auto simp: log_one_def sub_on_log_enabled_def tell_def grows_def is_block_call_def)
  then show ?thesis
    using OnLog by (auto simp: composite_on_log_def is_block_call_def list_all2_conv_all_nth split: prod.splits)
qed (simp_all only: composite_call.simps composite_on_startup_broadcast composite_on_shutdown_def
    composite_on_init_log_stream_def composite_on_process_log_block_def composite_on_init_metrics_stream_def
    composite_on_process_metrics_block_def composite_on_init_thread_stream_def
    composite_on_process_thread_block_def broadcast_grows)

lemma grows_trans: "grows as p q \<Longrightarrow> grows bs q r \<Longrightarrow> grows (as @ bs) p r"
  by (simp add: grows_def)

lemma composite_calls_grow:
  "list_all2 (grows (filter is_block_call calls)) (cs_sinks cs) (cs_sinks (composite_calls mem calls cs))"
proof (induction calls arbitrary: cs)
  case Nil
  show ?case by (auto simp: composite_calls_def grows_def intro: list_all2_refl)
next
  case (Cons c calls)
  have "list_all2 (grows (filter is_block_call [c] @ filter is_block_call calls)) (cs_sinks cs)
      (cs_sinks (composite_calls mem calls (composite_call mem c cs)))"
    by (rule list_all2_trans [OF grows_trans composite_call_grows Cons.IH])
  then show ?case by (simp add: composite_calls_def split: if_splits)
qed

lemma blocks_of_block_calls:
  "log_blocks (filter is_block_call calls) = log_blocks calls"
  "metrics_blocks (filter is_block_call calls) = metrics_blocks calls"
  "thread_blocks (filter is_block_call calls) = thread_blocks calls"
  by (induction calls) (auto simp: log_blocks_def metrics_blocks_def thread_blocks_def is_block_call_def split: sink_call.splits)

lemma composite_blocks:
  assumes "i < length (cs_sinks cs)" and "ss_calls (snd (cs_sinks cs ! i)) = []"
    and *: "calls' = ss_calls (snd (cs_sinks (composite_calls mem calls cs) ! i))"
  shows "log_blocks calls' = log_blocks calls \<and> metrics_blocks calls' = metrics_blocks calls
    \<and> thread_blocks calls' = thread_blocks calls"
proof -
  have "grows (filter is_block_call calls) (cs_sinks cs ! i) (cs_sinks (composite_calls mem calls cs) ! i)"
    using composite_calls_grow assms(1) by (simp add: list_all2_conv_all_nth)
  then have "filter is_block_call calls' = filter is_block_call calls"
    using assms(2) by (simp add: grows_def *)
  then show ?thesis using blocks_of_block_calls [of calls'] blocks_of_block_calls [of calls] by simp
qed

section \<open>Properties\<close>

lemma cs_of_new:
  assumes "CompositeSink_new sinks targets max_override mx = (cs, mx')"
  shows "cs_sinks cs = sinks" "cs_target_level_filters cs = sort_key (\<lambda>(name, _). name_key name) targets"
    "max_override = None \<Longrightarrow> mx' = set_max_level (fold (\<lambda>(f, _) acc. max acc f) sinks (fold (\<lambda>(_, f) acc. max acc f) targets FilterOff)) mx"
  using assms by (auto simp: CompositeSink_new_def Let_def)

text \<open>
  C20. Whether or not the call site has it cached, the filter of a log is the one configured for the
  longest target that is a prefix of its own, or none when there is no such target; and asking
  again gives the same filter. (Targets have names: an empty name would go before all others.)
\<close>

theorem target_filter_is_longest:
  assumes "CompositeSink_new sinks targets max_override mx = (cs, mx')"
    and "list_all (\<lambda>(t, _). t \<noteq> [] \<and> length t < 2 ^ 63) targets"
    and "cache_ok mem cs m" and "target_max_level mem cs m = (lf, m')"
  shows "(case lf of
      None \<Rightarrow> list_all (\<lambda>(t, _). \<not> prefix t (str_text mem (lm_target m))) targets
    | Some l \<Rightarrow> \<exists>t. (t, l) \<in> set targets \<and> prefix t (str_text mem (lm_target m))
        \<and> (\<forall>u k. (u, k) \<in> set targets \<longrightarrow> prefix u (str_text mem (lm_target m)) \<longrightarrow> length u \<le> length t))
    \<and> target_max_level mem cs m' = (lf, m')"
proof -
  let ?fs = "sort_key (\<lambda>(name, _). name_key name) targets"
  have fs: "cs_target_level_filters cs = ?fs" by (rule cs_of_new(2) [OF assms(1)])
  have lf: "lf = target_filter mem cs m" "m' = m\<lparr>lm_level_filter := filter_word GENERATION lf\<rparr>"
    using target_max_level_cached [OF assms(3)] assms(4) by auto
  have "cache_ok mem cs m'" "target_filter mem cs m' = lf" using lf by (simp_all add: cache_ok_def target_filter_def)
  then have "target_max_level mem cs m' = (lf, m')" using target_max_level_cached [of mem cs m'] lf by simp
  moreover have "list_all (\<lambda>(t, _). \<not> prefix t (str_text mem (lm_target m))) targets" if "lf = None"
    using lf(1) that find_max_match_None [of "str_text mem (lm_target m)" ?fs] by (simp add: target_filter_def fs list_all_iff)
  ultimately show ?thesis
    using lf(1) find_longest [OF assms(2), of "str_text mem (lm_target m)"] by (auto simp: target_filter_def fs split: option.splits)
qed

lemma any_enabled_passes:
  "fst (any_enabled m lf ss) \<Longrightarrow> \<exists>(own_max, s) \<in> set ss. passes (lm_level m) lf own_max"
  by (induction ss) (auto simp: Let_def split: if_splits prod.splits)

text \<open>
  C21. Unless the maximum level is overridden, the level that the sink sets for the whole process hides
  nothing: a log that the sink would accept, by the filter of its target or by that of an inner
  sink, is never above that level.
\<close>

theorem max_level_hides_nothing:
  assumes "CompositeSink_new sinks targets None mx = (cs, mx')" and "cache_ok mem cs m"
    and "fst (composite_on_log_enabled mem m cs)"
  shows "Level_as_u32 (lm_level m) \<le> MAX_LEVEL_FILTER mx'"
proof -
  let ?targets = "fold (\<lambda>(_, f) acc. max acc f) targets FilterOff"
  let ?all = "fold (\<lambda>(f, _) acc. max acc f) sinks ?targets"
  have mx': "MAX_LEVEL_FILTER mx' = LevelFilter_as_u32 ?all" using cs_of_new(3) [OF assms(1)] by (simp add: set_max_level_def)
  let ?lf = "target_filter mem cs m"
  let ?m' = "m\<lparr>lm_level_filter := filter_word GENERATION ?lf\<rparr>"
  have "fst (any_enabled ?m' ?lf sinks)"
    using assms(3) cs_of_new(1) [OF assms(1)] target_max_level_cached [OF assms(2)]
    by (simp add: composite_on_log_enabled_def split: prod.splits)
  then obtain own_max s where own: "(own_max, s) \<in> set sinks" "passes (lm_level m) ?lf own_max"
    using any_enabled_passes [of ?m' ?lf sinks] by auto
  have "(case ?lf of None \<Rightarrow> own_max | Some f \<Rightarrow> f) \<le> ?all"
  proof (cases ?lf)
    case None
    then show ?thesis using fold_max_sinks(2) [OF own(1)] by simp
  next
    case (Some f)
    then have "find_max_match (str_text mem (lm_target m)) (cs_target_level_filters cs) = Some f" by (simp add: target_filter_def)
    then obtain pre t post where "cs_target_level_filters cs = pre @ (t, f) # post" unfolding find_max_match_Some by blast
    then have "(t, f) \<in> set (sort_key (\<lambda>(name, _). name_key name) targets)" using cs_of_new(2) [OF assms(1)] by simp
    then have "f \<le> ?targets" by (intro fold_max_targets(2)) simp
    also have "?targets \<le> ?all" by (rule fold_max_sinks(1))
    finally show ?thesis using Some by simp
  qed
  then have "LevelFilter_as_u32 (case ?lf of None \<Rightarrow> own_max | Some f \<Rightarrow> f) \<le> LevelFilter_as_u32 ?all"
    by (simp add: less_eq_LevelFilter_def LevelFilter_PartialOrd_def)
  moreover have "Level_as_u32 (lm_level m) \<le> LevelFilter_as_u32 (case ?lf of None \<Rightarrow> own_max | Some f \<Rightarrow> f)"
    using own(2) by (simp add: passes_def Level_PartialOrd_LevelFilter_def)
  ultimately show ?thesis unfolding mx' by order
qed

end
