(* ===== verification/Stream_Identity.thy ===== *)
theory Stream_Identity
  imports Guards
begin

text \<open>
  Who the calls of a sink are about. The sink hears of the process first, then of its log and metrics
  streams, and never again of these; every block names the process and the stream that it comes
  from. This is kept by all sections of \<open>Dispatch_History\<close>, so it holds in every reachable state.
\<close>

definition owned :: "uuid \<Rightarrow> EventStream \<Rightarrow> bool" where
  "owned pid s \<longleftrightarrow> owns_block s \<and> eb_process_id (get_block_ref s) = pid"

lemma owned_new: "owned pid (EventStream_new al u now n pid tags props)"
proof -
  have "eb_process_id (get_block_ref (EventStream_new al u now n pid tags props)) = pid"
    by (simp add: EventStream_new_def Let_def get_block_ref_def EventBlock_new_def arc_new_def)
  then show ?thesis by (simp add: owned_def owns_block_new)
qed

lemma desc_new: "sde_process_id (es_stream_desc (EventStream_new al u now n pid tags props)) = pid
    \<and> sde_properties (es_stream_desc (EventStream_new al u now n pid tags props)) = props"
  by (simp add: EventStream_new_def Let_def StreamDesc_new_def)

lemma owned_set_full: "owned pid s \<Longrightarrow> owned pid (set_full s)"
  using owns_block_set_full by (simp add: owned_def set_full_def get_block_ref_def)

lemma owned_push: "stream_push al items type_index v s = Inr s' \<Longrightarrow> owned pid s \<Longrightarrow> owned pid s' \<and> stream_id s' = stream_id s"
  using owns_block_push [of al items type_index v s s']
  by (auto simp: owned_def stream_push_def and_then_eq_Inr put_events_def get_block_ref_def)

lemma owned_flush:
  assumes "flush_stream al t1 t2 n pid s = Inr (s', ob)" and "owned pid s"
  shows "owned pid s' \<and> stream_id s' = stream_id s
    \<and> (\<forall>b. ob = Some b \<longrightarrow> eb_stream_id b = stream_id s \<and> eb_process_id b = pid)"
proof -
  have "owns_block s' \<and> stream_id s' = stream_id s \<and> (\<forall>b. ob = Some b \<longrightarrow> eb_stream_id b = stream_id s)"
    using owns_block_flush [OF assms(1)] assms(2) by (simp add: owned_def)
  moreover have "eb_process_id (get_block_ref s') = pid \<and> (\<forall>b. ob = Some b \<longrightarrow> eb_process_id b = pid)"
    using assms
    by (auto simp: flush_stream_def Let_def replace_block_def and_then_eq_Inr owned_def get_block_ref_def
        arc_new_def arc_clone_def arc_drop_def arc_get_mut_def EventBlock_new_def EventBlock_close_def unwrap_def
        split: if_splits option.splits)
  ultimately show ?thesis by (simp add: owned_def)
qed

definition belongs :: "uuid \<Rightarrow> uuid \<Rightarrow> uuid \<Rightarrow> sink_call \<Rightarrow> bool" where
  "belongs pid lid mid c \<longleftrightarrow> (case c of
     OnProcessLogBlock b \<Rightarrow> eb_process_id b = pid \<and> eb_stream_id b = lid
   | OnProcessMetricsBlock b \<Rightarrow> eb_process_id b = pid \<and> eb_stream_id b = mid
   | OnProcessThreadBlock b \<Rightarrow> eb_process_id b = pid
   | OnInitThreadStream s \<Rightarrow> sde_process_id (es_stream_desc s) = pid \<and> finite (dom (sde_properties (es_stream_desc s)))
   | OnStartup _ \<Rightarrow> False
   | OnInitLogStream _ \<Rightarrow> False
   | OnInitMetricsStream _ \<Rightarrow> False
   | _ \<Rightarrow> True)"

definition named :: "world \<Rightarrow> Dispatch \<Rightarrow> bool" where
  "named w d \<longleftrightarrow> owned (process_id d) (log_stream d) \<and> owned (process_id d) (metrics_stream d)
     \<and> (\<forall>t s. LOCAL_THREAD_STREAM w t = Some s \<longrightarrow> owned (process_id d) s)"

definition same_names :: "Dispatch \<Rightarrow> Dispatch \<Rightarrow> bool" where
  "same_names d d' \<longleftrightarrow> process_id d' = process_id d \<and> stream_id (log_stream d') = stream_id (log_stream d)
     \<and> stream_id (metrics_stream d') = stream_id (metrics_stream d)"

lemma mark_full_named:
  assumes "fold_res (at_thread_stream set_full) ts w = Inr w'" and "\<forall>t s. LOCAL_THREAD_STREAM w t = Some s \<longrightarrow> owned pid s"
  shows "(\<forall>t s. LOCAL_THREAD_STREAM w' t = Some s \<longrightarrow> owned pid s) \<and> G_DISPATCH w' = G_DISPATCH w \<and> sink_calls w' = sink_calls w"
  using assms
proof (induction ts arbitrary: w)
  case (Cons t ts)
  obtain w1 where w1: "at_thread_stream set_full t w = Inr w1" "fold_res (at_thread_stream set_full) ts w1 = Inr w'"
    using Cons.prems(1) by (auto simp: and_then_eq_Inr)
  have "(\<forall>t s. LOCAL_THREAD_STREAM w1 t = Some s \<longrightarrow> owned pid s) \<and> G_DISPATCH w1 = G_DISPATCH w \<and> sink_calls w1 = sink_calls w"
    using w1(1) Cons.prems(2) by (auto simp: at_thread_stream_def owned_set_full split: option.splits if_splits)
  then show ?case using Cons.IH [OF w1(2)] by simp
qed simp

lemma namesI:
  assumes "G_DISPATCH w' = Some d'" and "named w' d'" and "same_names d d'" and "sink_calls w' = sink_calls w @ cs"
    and "list_all (belongs (process_id d) (stream_id (log_stream d)) (stream_id (metrics_stream d))) cs"
  shows "\<exists>d' cs. G_DISPATCH w' = Some d' \<and> named w' d' \<and> same_names d d' \<and> sink_calls w' = sink_calls w @ cs
    \<and> list_all (belongs (process_id d) (stream_id (log_stream d)) (stream_id (metrics_stream d))) cs"
  using assms by blast

lemma section_names:
  assumes "run_section su sec w = Inr w'" and "G_DISPATCH w = Some d" and "named w d"
  shows "\<exists>d' cs. G_DISPATCH w' = Some d' \<and> named w' d' \<and> same_names d d' \<and> sink_calls w' = sink_calls w @ cs
    \<and> list_all (belongs (process_id d) (stream_id (log_stream d)) (stream_id (metrics_stream d))) cs"
proof (cases sec)
  case Stop
  then show ?thesis using assms
    by (cases "live d") (auto simp: run_defs Dispatch_shutdown_def notify_eq named_def same_names_def belongs_def)
next
  case (AskEnabled m)
  then show ?thesis using assms
    by (cases "sink d") (auto simp: run_defs sink_on_log_enabled_def notify_eq named_def same_names_def belongs_def)
next
  case (TellLog m time args)
  then show ?thesis using assms
    by (cases "live d") (auto simp: run_defs notify_eq named_def same_names_def belongs_def)
next
  case (PushLog e)
  then show ?thesis using assms
    by (auto simp: run_defs push_log_def and_then_eq_Inr named_def same_names_def dest!: owned_push split: prod.splits)
next
  case (PushMetric e)
  then show ?thesis using assms
    by (auto simp: run_defs push_metric_def and_then_eq_Inr named_def same_names_def dest!: owned_push split: prod.splits)
next
  case (FlushLog ck)
  then obtain s ob where f: "flush_stream (su_alloc su) (ck_begin ck) (ck_end ck) (logs_buffer_size d) (process_id d) (log_stream d) = Inr (s, ob)"
    using assms(1,2) by (auto simp: run_defs Dispatch_flush_log_buffer_def and_then_eq_Inr split: prod.splits)
  moreover have "owned (process_id d) (log_stream d)" using assms(3) by (simp add: named_def)
  ultimately have o: "owned (process_id d) s \<and> stream_id s = stream_id (log_stream d)
    \<and> (\<forall>b. ob = Some b \<longrightarrow> eb_stream_id b = stream_id (log_stream d) \<and> eb_process_id b = process_id d)" by (rule owned_flush)
  show ?thesis
  proof (rule namesI)
    show "G_DISPATCH w' = Some (d\<lparr>log_stream := s\<rparr>)" using FlushLog assms(1,2) f
      by (cases ob) (auto simp: run_defs Dispatch_flush_log_buffer_def notify_eq)
    show "sink_calls w' = sink_calls w @ (case ob of None \<Rightarrow> [] | Some b \<Rightarrow> if live d then [OnProcessLogBlock b] else [])"
      using FlushLog assms(1,2) f by (cases ob) (auto simp: run_defs Dispatch_flush_log_buffer_def notify_eq)
    show "named w' (d\<lparr>log_stream := s\<rparr>)" using FlushLog assms f o
      by (cases ob) (auto simp: run_defs Dispatch_flush_log_buffer_def notify_eq named_def)
  qed (use o in \<open>auto simp: same_names_def belongs_def split: option.splits\<close>)
next
  case (FlushMetrics ck)
  then obtain s ob where
    f: "flush_stream (su_alloc su) (ck_begin ck) (ck_end ck) (metrics_buffer_size d) (process_id d) (metrics_stream d) = Inr (s, ob)"
    using assms(1,2) by (auto simp: run_defs Dispatch_flush_metrics_buffer_def and_then_eq_Inr split: prod.splits)
  moreover have "owned (process_id d) (metrics_stream d)" using assms(3) by (simp add: named_def)
  ultimately have o: "owned (process_id d) s \<and> stream_id s = stream_id (metrics_stream d)
    \<and> (\<forall>b. ob = Some b \<longrightarrow> eb_stream_id b = stream_id (metrics_stream d) \<and> eb_process_id b = process_id d)" by (rule owned_flush)
  show ?thesis
  proof (rule namesI)
    show "G_DISPATCH w' = Some (d\<lparr>metrics_stream := s\<rparr>)" using FlushMetrics assms(1,2) f
      by (cases ob) (auto simp: run_defs Dispatch_flush_metrics_buffer_def notify_eq)
    show "sink_calls w' = sink_calls w @ (case ob of None \<Rightarrow> [] | Some b \<Rightarrow> if live d then [OnProcessMetricsBlock b] else [])"
      using FlushMetrics assms(1,2) f by (cases ob) (auto simp: run_defs Dispatch_flush_metrics_buffer_def notify_eq)
    show "named w' (d\<lparr>metrics_stream := s\<rparr>)" using FlushMetrics assms f o
      by (cases ob) (auto simp: run_defs Dispatch_flush_metrics_buffer_def notify_eq named_def)
  qed (use o in \<open>auto simp: same_names_def belongs_def split: option.splits\<close>)
next
  case (RegisterThread ck u t thread_id name)
  show ?thesis
  proof (cases "LOCAL_THREAD_STREAM w t")
    case None
    define props where "props = (case name of None \<Rightarrow> [''thread-id'' \<mapsto> thread_id]
      | Some n \<Rightarrow> [''thread-id'' \<mapsto> thread_id, ''thread-name'' \<mapsto> n])"
    define s where "s = EventStream_new (su_alloc su) u (ck_begin ck) (threads_buffer_size d) (process_id d) [''cpu''] props"
    have s: "owned (process_id d) s" "belongs (process_id d) lid mid (OnInitThreadStream s)" for lid mid
      by (simp_all add: s_def owned_new belongs_def desc_new props_def split: option.splits)
    have w': "w' = w\<lparr>LOCAL_THREAD_STREAM := (LOCAL_THREAD_STREAM w)(t \<mapsto> s),
        G_DISPATCH := Some (d\<lparr>thread_streams := thread_streams d @ [t]\<rparr>),
        sink_calls := sink_calls w @ (if live d then [OnInitThreadStream s] else [])\<rparr>"
      using assms(1) None
      by (simp add: RegisterThread init_thread_stream_def assms(2) Dispatch_init_thread_stream_def notify_eq Let_def
          flip: props_def) (auto simp: s_def)
    show ?thesis
    proof (rule namesI)
      show "G_DISPATCH w' = Some (d\<lparr>thread_streams := thread_streams d @ [t]\<rparr>)" by (simp add: w')
      show "sink_calls w' = sink_calls w @ (if live d then [OnInitThreadStream s] else [])" by (simp add: w')
      show "named w' (d\<lparr>thread_streams := thread_streams d @ [t]\<rparr>)" using assms(3) s(1) by (simp add: named_def w')
    qed (simp_all add: same_names_def s)
  next
    case (Some s)
    then show ?thesis using RegisterThread assms by (auto simp: init_thread_stream_def same_names_def)
  qed
next
  case (PushThread t e)
  then show ?thesis using assms
    by (cases "LOCAL_THREAD_STREAM w t")
      (auto simp: push_thread_event_def and_then_eq_Inr named_def same_names_def dest!: owned_push split: if_splits)
next
  case (FlushThread t ck)
  show ?thesis
  proof (cases "LOCAL_THREAD_STREAM w t")
    case None
    then show ?thesis using FlushThread assms by (auto simp: flush_thread_buffer_def same_names_def)
  next
    case (Some st)
    then obtain s ob where
      f: "flush_stream (su_alloc su) (ck_begin ck) (ck_end ck) (threads_buffer_size d) (process_id d) st = Inr (s, ob)"
      using FlushThread assms(1,2)
      by (auto simp: flush_thread_buffer_def Dispatch_flush_thread_buffer_def and_then_eq_Inr split: prod.splits)
    moreover have "owned (process_id d) st" using assms(3) Some by (simp add: named_def)
    ultimately have o: "owned (process_id d) s \<and> stream_id s = stream_id st
      \<and> (\<forall>b. ob = Some b \<longrightarrow> eb_stream_id b = stream_id st \<and> eb_process_id b = process_id d)" by (rule owned_flush)
    have w': "w' = w\<lparr>LOCAL_THREAD_STREAM := (LOCAL_THREAD_STREAM w)(t \<mapsto> s),
        sink_calls := sink_calls w @ (case ob of None \<Rightarrow> [] | Some b \<Rightarrow> if live d then [OnProcessThreadBlock b] else [])\<rparr>"
      using FlushThread assms(1,2) f Some
      by (cases ob) (auto simp: flush_thread_buffer_def Dispatch_flush_thread_buffer_def notify_eq)
    show ?thesis
    proof (rule namesI)
      show "G_DISPATCH w' = Some d" using assms(2) by (simp add: w')
      show "sink_calls w' = sink_calls w @ (case ob of None \<Rightarrow> [] | Some b \<Rightarrow> if live d then [OnProcessThreadBlock b] else [])"
        by (simp add: w')
      show "named w' d" using assms(3) o by (simp add: named_def w')
    qed (use o in \<open>auto simp: same_names_def belongs_def split: option.splits\<close>)
  qed
next
  case MarkFull
  then have "fold_res (at_thread_stream set_full) (thread_streams d) w = Inr w'" using assms(1,2) by (simp add: run_defs)
  from mark_full_named [OF this, of "process_id d"] show ?thesis using assms by (auto simp: named_def same_names_def)
qed (use assms in \<open>auto simp: run_defs named_def same_names_def split: if_splits\<close>)

section \<open>The calls of a process\<close>

text \<open>The sink hears of the process, its log stream and its metrics stream, then of what belongs to them.\<close>

definition identified :: "Dispatch \<Rightarrow> sink_call list \<Rightarrow> bool" where
  "identified d calls \<longleftrightarrow> (\<exists>info ls ms rest. calls = [OnStartup info, OnInitLogStream ls, OnInitMetricsStream ms] @ rest
     \<and> pi_process_id info = process_id d \<and> finite (dom (pi_properties info))
     \<and> stream_id ls = stream_id (log_stream d) \<and> sde_process_id (es_stream_desc ls) = process_id d
     \<and> sde_properties (es_stream_desc ls) = Map.empty
     \<and> stream_id ms = stream_id (metrics_stream d) \<and> sde_process_id (es_stream_desc ms) = process_id d
     \<and> sde_properties (es_stream_desc ms) = Map.empty
     \<and> list_all (belongs (process_id d) (stream_id (log_stream d)) (stream_id (metrics_stream d))) rest)"

lemma identified_more:
  assumes "identified d calls" and "same_names d d'"
    and "list_all (belongs (process_id d) (stream_id (log_stream d)) (stream_id (metrics_stream d))) cs"
  shows "identified d' (calls @ cs)"
proof -
  obtain info ls ms rest where
    calls: "calls = [OnStartup info, OnInitLogStream ls, OnInitMetricsStream ms] @ rest" and
    ids: "pi_process_id info = process_id d" "finite (dom (pi_properties info))"
      "stream_id ls = stream_id (log_stream d)" "sde_process_id (es_stream_desc ls) = process_id d"
      "sde_properties (es_stream_desc ls) = Map.empty"
      "stream_id ms = stream_id (metrics_stream d)" "sde_process_id (es_stream_desc ms) = process_id d"
      "sde_properties (es_stream_desc ms) = Map.empty"
      "list_all (belongs (process_id d) (stream_id (log_stream d)) (stream_id (metrics_stream d))) rest"
    using assms(1) unfolding identified_def by blast
  have "calls @ cs = [OnStartup info, OnInitLogStream ls, OnInitMetricsStream ms] @ (rest @ cs)" by (simp add: calls)
  then show ?thesis unfolding identified_def using ids assms(2,3) by (auto simp: same_names_def)
qed

lemma start_names:
  assumes "run_section su sec w = Inr w'" and "G_DISPATCH w = None" and "G_DISPATCH w' = Some d"
    and "sink_calls w = []" and "LOCAL_THREAD_STREAM w = (\<lambda>_. None)"
  shows "named w' d \<and> identified d (sink_calls w')"
proof (cases sec)
  case (Start ck pid log_id metrics_id l m t)
  define ls where "ls = EventStream_new (su_alloc su) log_id (ck_begin ck) l pid [''log''] Map.empty"
  define ms where "ms = EventStream_new (su_alloc su) metrics_id (ck_begin ck) m pid [''metrics''] Map.empty"
  have o: "owned pid ls" "owned pid ms" by (simp_all add: ls_def ms_def owned_new)
  have s: "stream_id ls = log_id" "stream_id ms = metrics_id" "sde_process_id (es_stream_desc ls) = pid"
    "sde_process_id (es_stream_desc ms) = pid" "sde_properties (es_stream_desc ls) = Map.empty"
    "sde_properties (es_stream_desc ms) = Map.empty"
    by (simp_all add: ls_def ms_def desc_new)
  show ?thesis
    using assms o s
    by (auto simp: Start init_event_dispatch_def Dispatch_new_def Let_def Dispatch_startup_def Dispatch_init_log_stream_def
        Dispatch_init_metrics_stream_def notify_eq named_def identified_def make_process_info_def simp flip: ls_def ms_def)
qed (use assms in \<open>auto simp: run_defs push_thread_event_def flush_thread_buffer_def split: if_splits\<close>)

lemma reach_identified:
  assumes "reach su w logs metrics spans" and "G_DISPATCH w = Some d"
  shows "named w d \<and> identified d (sink_calls w)"
  using assms
proof (induction arbitrary: d)
  case (reach_init parent)
  then show ?case by (simp add: world_init_def)
next
  case (reach_section w logs metrics spans sec w')
  show ?case
  proof (cases "G_DISPATCH w")
    case None
    then have "sink_calls w = []" "LOCAL_THREAD_STREAM w = (\<lambda>_. None)"
      using reach_inv [OF reach_section.hyps(1)] by (simp_all add: world_inv_def)
    then show ?thesis using start_names [OF reach_section.hyps(3) None reach_section.prems] by blast
  next
    case (Some d0)
    then have d0: "named w d0" "identified d0 (sink_calls w)" using reach_section.IH by blast+
    from section_names [OF reach_section.hyps(3) Some d0(1)] obtain cs where
      "named w' d" "same_names d0 d" "sink_calls w' = sink_calls w @ cs"
      "list_all (belongs (process_id d0) (stream_id (log_stream d0)) (stream_id (metrics_stream d0))) cs"
      using reach_section.prems by auto
    then show ?thesis using identified_more [OF d0(2)] by simp
  qed
qed

lemma shutdown_names:
  assumes "named w d" and "G_DISPATCH w = Some d" and "shutdown_telemetry su ck1 ck2 w = Inr w'"
  shows "\<exists>d'. G_DISPATCH w' = Some d' \<and> same_names d d'"
proof -
  obtain w1 w2 where w: "run_section su (FlushLog ck1) w = Inr w1" "run_section su (FlushMetrics ck2) w1 = Inr w2"
    "run_section su Stop w2 = Inr w'" using assms(3) by (auto simp: shutdown_telemetry_def and_then_eq_Inr)
  obtain d1 where d1: "G_DISPATCH w1 = Some d1" "named w1 d1" "same_names d d1" using section_names [OF w(1) assms(2,1)] by blast
  obtain d2 where d2: "G_DISPATCH w2 = Some d2" "named w2 d2" "same_names d1 d2" using section_names [OF w(2) d1(1,2)] by blast
  obtain d3 where "G_DISPATCH w' = Some d3" "same_names d2 d3" using section_names [OF w(3) d2(1,2)] by blast
  then show ?thesis using d1(3) d2(3) by (auto simp: same_names_def)
qed

end
