(* ===== verification/Wire.thy ===== *)
theory Wire
  imports Dispatch
begin

text \<open>
  What leaves the process: the description of a stream (\<open>telemetry-sink/src/stream_info.rs\<close>) and an
  encoded block (\<open>telemetry-sink/src/stream_block.rs\<close>, \<open>telemetry/src/block_wire_format.rs\<close>,
  \<open>compression.rs\<close>, \<open>wire_format.rs\<close>). The lz4 and CBOR libraries, and the rendering of a date, are
  the record \<open>wire\<close>; \<open>wire_ok\<close> and its companions are what the code relies on: decoding inverts encoding.
\<close>

section \<open>Formats\<close>

record BlockPayload =
  bp_dependencies :: bytes
  bp_objects :: bytes

record Block =
  bl_block_id :: uuid
  bl_stream_id :: uuid
  bl_process_id :: uuid
  bl_begin_time :: string
  bl_begin_ticks :: i64
  bl_end_time :: string
  bl_end_ticks :: i64
  bl_payload :: BlockPayload
  bl_object_offset :: i64
  bl_nb_objects :: u32

record wire =
  wi_lz4_encode :: "bytes \<Rightarrow> bytes res"
  wi_lz4_decode :: "bytes \<Rightarrow> bytes res"
  wi_cbor_process :: "ProcessInfo \<Rightarrow> bytes res"
  wi_cbor_stream :: "StreamInfo \<Rightarrow> bytes res"
  wi_cbor_block :: "Block \<Rightarrow> bytes res"
  wi_cbor_payload :: "BlockPayload \<Rightarrow> bytes res"
  wi_cbor_udts :: "UserDefinedType list \<Rightarrow> bytes res"
  wi_read_udts :: "bytes \<Rightarrow> UserDefinedType list res"
  wi_read_process :: "bytes \<Rightarrow> ProcessInfo res"
  wi_read_stream :: "bytes \<Rightarrow> StreamInfo res"
  wi_read_block :: "bytes \<Rightarrow> Block res"
  wi_read_payload :: "bytes \<Rightarrow> BlockPayload res"
  wi_to_rfc3339 :: "int \<Rightarrow> string"
  wi_from_rfc3339 :: "string \<Rightarrow> int res"

definition compress :: "wire \<Rightarrow> bytes \<Rightarrow> bytes res" where
  "compress wi src = wi_lz4_encode wi src"

definition decompress :: "wire \<Rightarrow> bytes \<Rightarrow> bytes res" where
  "decompress wi compressed = wi_lz4_decode wi compressed"

section \<open>Streams\<close>

definition make_stream_info ::
  "(UserDefinedType list \<Rightarrow> UserDefinedType list) \<Rightarrow> UserDefinedType list \<Rightarrow> UserDefinedType list \<Rightarrow> EventStream \<Rightarrow> StreamInfo" where
  "make_stream_info shuffle deps_contained objs_contained s =
     (let dependencies_meta = flatten_metadata shuffle deps_contained;
          obj_meta = flatten_metadata shuffle objs_contained in
      \<lparr>si_process_id = sde_process_id (es_stream_desc s), si_stream_id = stream_id s,
       si_dependencies_metadata = dependencies_meta, si_objects_metadata = obj_meta,
       si_tags = sde_tags (es_stream_desc s), si_properties = sde_properties (es_stream_desc s)\<rparr>)"

definition log_stream_info ::
  "(UserDefinedType list \<Rightarrow> UserDefinedType list) \<Rightarrow> abi \<Rightarrow> EventStream \<Rightarrow> StreamInfo" where
  "log_stream_info shuffle abi = make_stream_info shuffle (LogDepsQueue_reflect_contained abi) (LogMsgQueue_reflect_contained abi)"

definition metrics_stream_info ::
  "(UserDefinedType list \<Rightarrow> UserDefinedType list) \<Rightarrow> abi \<Rightarrow> EventStream \<Rightarrow> StreamInfo" where
  "metrics_stream_info shuffle abi =
     make_stream_info shuffle (MetricsDepsQueue_reflect_contained abi) (MetricsMsgQueue_reflect_contained abi)"

definition thread_stream_info ::
  "(UserDefinedType list \<Rightarrow> UserDefinedType list) \<Rightarrow> abi \<Rightarrow> EventStream \<Rightarrow> StreamInfo" where
  "thread_stream_info shuffle abi =
     make_stream_info shuffle (ThreadDepsQueue_reflect_contained abi) (ThreadEventQueue_reflect_contained abi)"

section \<open>Blocks\<close>

definition encode_block ::
  "wire \<Rightarrow> uuid \<Rightarrow> (hqueue \<Rightarrow> hqueue res) \<Rightarrow> ProcessInfo \<Rightarrow> EventBlock \<Rightarrow> bytes res" where
  "encode_block wi block_id extract_deps process_info block =
     and_then (unwrap (eb_end block)) (\<lambda>end_time.
     and_then (extract_deps (eb_events block)) (\<lambda>deps.
     and_then (compress wi (q_buffer deps)) (\<lambda>dependencies.
     and_then (compress wi (q_buffer (eb_events block))) (\<lambda>objects.
     wi_cbor_block wi
       \<lparr>bl_block_id = block_id, bl_stream_id = eb_stream_id block, bl_process_id = eb_process_id block,
        bl_begin_time = wi_to_rfc3339 wi (dt_time (eb_begin block)),
        bl_begin_ticks = dt_ticks (eb_begin block) - pi_start_ticks process_info,
        bl_end_time = wi_to_rfc3339 wi (dt_time end_time),
        bl_end_ticks = dt_ticks end_time - pi_start_ticks process_info,
        bl_payload = \<lparr>bp_dependencies = dependencies, bp_objects = objects\<rparr>,
        bl_object_offset = word_of_nat (object_offset block),
        bl_nb_objects = word_of_nat (block_nb_objects block)\<rparr>))))"

text \<open>The call sites of a program by address, which extracting the dependencies of a block reads.\<close>

record call_sites =
  cs_logs :: "u64 \<rightharpoonup> LogMetadata"
  cs_metrics :: "u64 \<rightharpoonup> MetricMetadata"
  cs_spans :: "u64 \<rightharpoonup> SpanMetadata"
  cs_locations :: "u64 \<rightharpoonup> SpanLocation"

definition LogBlock_encode_bin ::
  "wire \<Rightarrow> surroundings \<Rightarrow> call_sites \<Rightarrow> uuid \<Rightarrow> ProcessInfo \<Rightarrow> EventBlock \<Rightarrow> bytes res" where
  "LogBlock_encode_bin wi su sites block_id =
     encode_block wi block_id (LogMsgQueue_extract (su_alloc su) (su_abi su) (su_memory su) (cs_logs sites))"

definition MetricsBlock_encode_bin ::
  "wire \<Rightarrow> surroundings \<Rightarrow> call_sites \<Rightarrow> uuid \<Rightarrow> ProcessInfo \<Rightarrow> EventBlock \<Rightarrow> bytes res" where
  "MetricsBlock_encode_bin wi su sites block_id =
     encode_block wi block_id (MetricsMsgQueue_extract (su_alloc su) (su_abi su) (su_memory su) (cs_metrics sites))"

definition ThreadBlock_encode_bin ::
  "wire \<Rightarrow> surroundings \<Rightarrow> call_sites \<Rightarrow> uuid \<Rightarrow> ProcessInfo \<Rightarrow> EventBlock \<Rightarrow> bytes res" where
  "ThreadBlock_encode_bin wi su sites block_id =
     encode_block wi block_id (ThreadEventQueue_extract (su_alloc su) (su_abi su) (su_memory su) (cs_spans sites) (cs_locations sites))"

section \<open>What the formats promise\<close>

text \<open>
  A description of a stream loses its secondary types on the way, since \<open>UserDefinedType\<close> does not
  serialize them.
\<close>

definition sent_stream_info :: "StreamInfo \<Rightarrow> StreamInfo" where
  "sent_stream_info s = s\<lparr>si_dependencies_metadata := map strip_secondary (si_dependencies_metadata s),
     si_objects_metadata := map strip_secondary (si_objects_metadata s)\<rparr>"

definition wire_ok :: "wire \<Rightarrow> bool" where
  "wire_ok wi \<longleftrightarrow> (\<forall>bs. \<exists>c. wi_lz4_encode wi bs = Inr c \<and> wi_lz4_decode wi c = Inr bs)
     \<and> (\<forall>b. \<exists>c. wi_cbor_block wi b = Inr c \<and> wi_read_block wi c = Inr b)
     \<and> (\<forall>q. \<exists>c. wi_cbor_payload wi q = Inr c \<and> wi_read_payload wi c = Inr q)
     \<and> (\<forall>t. wi_from_rfc3339 wi (wi_to_rfc3339 wi t) = Inr t)"

definition wire_process_ok :: "wire \<Rightarrow> bool" where
  "wire_process_ok wi \<longleftrightarrow> (\<forall>p. finite (dom (pi_properties p)) \<longrightarrow>
     (\<exists>c. wi_cbor_process wi p = Inr c \<and> wi_read_process wi c = Inr p))"

definition wire_stream_ok :: "wire \<Rightarrow> bool" where
  "wire_stream_ok wi \<longleftrightarrow> (\<forall>s. finite (dom (si_properties s)) \<longrightarrow>
     (\<exists>c. wi_cbor_stream wi s = Inr c \<and> wi_read_stream wi c = Inr (sent_stream_info s)))
     \<and> (\<forall>us. \<exists>c. wi_cbor_udts wi us = Inr c \<and> wi_read_udts wi c = Inr (map strip_secondary us))"

text \<open>What the receiver of an encoded block can read from it.\<close>

definition carries :: "wire \<Rightarrow> ProcessInfo \<Rightarrow> EventBlock \<Rightarrow> hqueue \<Rightarrow> Block \<Rightarrow> bool" where
  "carries wi info block deps blk \<longleftrightarrow>
     decompress wi (bp_dependencies (bl_payload blk)) = Inr (q_buffer deps)
     \<and> decompress wi (bp_objects (bl_payload blk)) = Inr (q_buffer (eb_events block))
     \<and> bl_stream_id blk = eb_stream_id block \<and> bl_process_id blk = eb_process_id block
     \<and> wi_from_rfc3339 wi (bl_begin_time blk) = Inr (dt_time (eb_begin block))
     \<and> (\<exists>t. eb_end block = Some t \<and> wi_from_rfc3339 wi (bl_end_time blk) = Inr (dt_time t)
          \<and> bl_end_ticks blk = dt_ticks t - pi_start_ticks info)
     \<and> bl_begin_ticks blk = dt_ticks (eb_begin block) - pi_start_ticks info
     \<and> bl_object_offset blk = word_of_nat (eb_event_offset block)
     \<and> bl_nb_objects blk = word_of_nat (nb_objects (eb_events block))"

text \<open>A closed block whose dependencies can be extracted is encoded, and the receiver can read it.\<close>

lemma encode_block_read:
  assumes "wire_ok wi" and "eb_end block = Some t" and "extract_deps (eb_events block) = Inr deps"
  shows "\<exists>c blk. encode_block wi block_id extract_deps info block = Inr c \<and> wi_read_block wi c = Inr blk
    \<and> bl_block_id blk = block_id \<and> carries wi info block deps blk"
proof -
  obtain c1 where c1: "wi_lz4_encode wi (q_buffer deps) = Inr c1" "wi_lz4_decode wi c1 = Inr (q_buffer deps)"
    using assms(1) unfolding wire_ok_def by blast
  obtain c2 where c2: "wi_lz4_encode wi (q_buffer (eb_events block)) = Inr c2"
    "wi_lz4_decode wi c2 = Inr (q_buffer (eb_events block))" using assms(1) unfolding wire_ok_def by blast
  let ?blk = "\<lparr>bl_block_id = block_id, bl_stream_id = eb_stream_id block, bl_process_id = eb_process_id block,
        bl_begin_time = wi_to_rfc3339 wi (dt_time (eb_begin block)),
        bl_begin_ticks = dt_ticks (eb_begin block) - pi_start_ticks info,
        bl_end_time = wi_to_rfc3339 wi (dt_time t),
        bl_end_ticks = dt_ticks t - pi_start_ticks info,
        bl_payload = \<lparr>bp_dependencies = c1, bp_objects = c2\<rparr>,
        bl_object_offset = word_of_nat (object_offset block),
        bl_nb_objects = word_of_nat (block_nb_objects block)\<rparr>"
  have rfc: "wi_from_rfc3339 wi (wi_to_rfc3339 wi x) = Inr x" for x using assms(1) unfolding wire_ok_def by blast
  obtain c where "wi_cbor_block wi ?blk = Inr c" "wi_read_block wi c = Inr ?blk" using assms(1) unfolding wire_ok_def by blast
  then show ?thesis
    using assms(2,3) c1 c2
    by (auto simp: carries_def encode_block_def compress_def decompress_def rfc object_offset_def block_nb_objects_def)
qed

lemma encode_block_inv:
  assumes "wire_ok wi" and "encode_block wi block_id extract_deps info block = Inr c"
  shows "\<exists>blk deps. extract_deps (eb_events block) = Inr deps \<and> wi_read_block wi c = Inr blk
    \<and> bl_block_id blk = block_id \<and> carries wi info block deps blk"
proof -
  obtain t deps where "eb_end block = Some t" "extract_deps (eb_events block) = Inr deps"
    using assms(2) by (cases "eb_end block") (auto simp: encode_block_def and_then_eq_Inr)
  then show ?thesis using encode_block_read [OF assms(1), of block t extract_deps deps block_id info] assms(2) by auto
qed

text \<open>
  The metadata that a reader gets for a stream is the one against which the blocks of that stream
  can be read.
\<close>

lemma sent_metadata:
  "si_dependencies_metadata (sent_stream_info (make_stream_info shuffle deps objs s)) = stream_metadata shuffle deps"
  "si_objects_metadata (sent_stream_info (make_stream_info shuffle deps objs s)) = stream_metadata shuffle objs"
  by (simp_all add: sent_stream_info_def make_stream_info_def stream_metadata_def Let_def)

end
