(* ===== verification/Data_Lake.thy ===== *)
theory Data_Lake
  imports Wire
begin

text \<open>
  The data lake: an object store for the payloads (\<open>telemetry/src/blob_storage.rs\<close>) and a database
  for everything else. The ingestion service writes it
  (\<open>ingestion/src/web_ingestion_service.rs\<close>, \<open>sql_property.rs\<close>), the schema is set up by
  \<open>sql_migration.rs\<close>, \<open>sql_telemetry_db.rs\<close> and \<open>remote_data_lake.rs\<close>, and the analytics library
  reads it (\<open>analytics/src/metadata.rs\<close>, \<open>analytics/src/lib.rs\<close>).

  The state is the record \<open>lake\<close>: the objects by path and the rows of the three tables. The store and
  the database may fail at any call; \<open>le_fails\<close> says whether the call with a given number fails. A
  failed call changes nothing, but what the calls before it did remains. The record \<open>lake_env\<close> also
  has the printing of identifiers, the normalization of object paths, the precision with which the
  database keeps a time, and the order of iteration of a hash map.
\<close>

section \<open>State\<close>

record Property =
  pr_key :: string
  pr_value :: string

record ProcessRow =
  pw_process_id :: uuid
  pw_exe :: string
  pw_username :: string
  pw_realname :: string
  pw_computer :: string
  pw_distro :: string
  pw_cpu_brand :: string
  pw_tsc_frequency :: i64
  pw_start_time :: int
  pw_start_ticks :: i64
  pw_insert_time :: int
  pw_parent_process_id :: "uuid option"
  pw_properties :: "Property list"

record StreamRow =
  sw_stream_id :: uuid
  sw_process_id :: uuid
  sw_dependencies_metadata :: bytes
  sw_objects_metadata :: bytes
  sw_tags :: "string list"
  sw_properties :: "Property list"
  sw_insert_time :: int

record BlockRow =
  bw_block_id :: uuid
  bw_stream_id :: uuid
  bw_process_id :: uuid
  bw_begin_time :: int
  bw_begin_ticks :: i64
  bw_end_time :: int
  bw_end_ticks :: i64
  bw_nb_objects :: u32
  bw_object_offset :: i64
  bw_payload_size :: i64

record lake =
  la_calls :: nat
  la_blobs :: "string \<rightharpoonup> bytes"
  la_objects :: "string list"
  la_version :: "int list"
  la_processes :: "ProcessRow list"
  la_streams :: "StreamRow list"
  la_blocks :: "BlockRow list"

record lake_env =
  le_wire :: wire
  le_uuid_to_string :: "uuid \<Rightarrow> string"
  le_full_path :: "string \<Rightarrow> string"
  le_fails :: "nat \<Rightarrow> bool"
  le_timestamptz :: "int \<Rightarrow> int"
  le_now :: "nat \<Rightarrow> int"
  le_iter :: "(string \<rightharpoonup> string) \<Rightarrow> (string \<times> string) list"

text \<open>A step on the lake that may fail, and sequencing with the \<open>?\<close> operator.\<close>

type_synonym ('l, 'a) io = "'l \<Rightarrow> 'a res \<times> 'l"

definition bind_io :: "('l, 'a) io \<Rightarrow> ('a \<Rightarrow> ('l, 'b) io) \<Rightarrow> ('l, 'b) io" where
  "bind_io m f l = (case m l of (Inl e, l') \<Rightarrow> (Inl e, l') | (Inr a, l') \<Rightarrow> f a l')"

definition pure_io :: "'a res \<Rightarrow> ('l, 'a) io" where
  "pure_io r l = (r, l)"

definition external :: "lake_env \<Rightarrow> string \<Rightarrow> (lake, unit) io" where
  "external env context l =
     (if le_fails env (la_calls l) then Inl (Err context) else Inr (), l\<lparr>la_calls := la_calls l + 1\<rparr>)"

definition update_io :: "('l \<Rightarrow> 'l) \<Rightarrow> ('l, unit) io" where
  "update_io f l = (Inr (), f l)"

section \<open>Blobs\<close>

definition blob_put :: "lake_env \<Rightarrow> string \<Rightarrow> bytes \<Rightarrow> (lake, unit) io" where
  "blob_put env obj_path buffer =
     bind_io (external env ''put'') (\<lambda>_.
     update_io (\<lambda>l. l\<lparr>la_blobs := (la_blobs l)(le_full_path env obj_path \<mapsto> buffer)\<rparr>))"

definition blob_read :: "lake_env \<Rightarrow> string \<Rightarrow> (lake, bytes) io" where
  "blob_read env obj_path =
     bind_io (external env ''get'') (\<lambda>_ l. (ok_or_err ''object not found'' (la_blobs l (le_full_path env obj_path)), l))"

definition blob_delete :: "lake_env \<Rightarrow> string \<Rightarrow> (lake, unit) io" where
  "blob_delete env obj_path =
     bind_io (external env ''delete'') (\<lambda>_.
     update_io (\<lambda>l. l\<lparr>la_blobs := (la_blobs l)(le_full_path env obj_path := None)\<rparr>))"

definition payload_path :: "lake_env \<Rightarrow> uuid \<Rightarrow> uuid \<Rightarrow> uuid \<Rightarrow> string" where
  "payload_path env pid sid bid =
     ''blobs/'' @ le_uuid_to_string env pid @ ''/'' @ le_uuid_to_string env sid @ ''/'' @ le_uuid_to_string env bid"

section \<open>Properties\<close>

definition make_properties :: "lake_env \<Rightarrow> (string \<rightharpoonup> string) \<Rightarrow> Property list" where
  "make_properties env m = map (\<lambda>(k, v). \<lparr>pr_key = k, pr_value = v\<rparr>) (le_iter env m)"

definition into_hashmap :: "Property list \<Rightarrow> (string \<rightharpoonup> string)" where
  "into_hashmap properties = fold (\<lambda>p m. m(pr_key p \<mapsto> pr_value p)) properties Map.empty"

section \<open>The schema\<close>

definition LATEST_SCHEMA_VERSION :: int where
  "LATEST_SCHEMA_VERSION = 1"

text \<open>A table or type that exists already cannot be created.\<close>

definition create_object :: "lake_env \<Rightarrow> string \<Rightarrow> string \<Rightarrow> (lake, unit) io" where
  "create_object env context name =
     bind_io (external env context) (\<lambda>_ l.
       if name \<in> set (la_objects l) then (Inl (Err context), l) else (Inr (), l\<lparr>la_objects := la_objects l @ [name]\<rparr>))"

definition create_property_type :: "lake_env \<Rightarrow> (lake, unit) io" where
  "create_property_type env = create_object env ''Creating property type'' ''micromegas_property''"

definition create_processes_table :: "lake_env \<Rightarrow> (lake, unit) io" where
  "create_processes_table env = create_object env ''Creating table processes and its indices'' ''processes''"

definition create_streams_table :: "lake_env \<Rightarrow> (lake, unit) io" where
  "create_streams_table env = create_object env ''Creating table streams and its indices'' ''streams''"

definition create_blocks_table :: "lake_env \<Rightarrow> (lake, unit) io" where
  "create_blocks_table env = create_object env ''Creating table blocks and its indices'' ''blocks''"

definition create_migration_table :: "lake_env \<Rightarrow> (lake, unit) io" where
  "create_migration_table env =
     bind_io (create_object env ''Creating table migration'' ''migration'') (\<lambda>_.
     bind_io (external env ''Recording the initial schema version'') (\<lambda>_.
     update_io (\<lambda>l. l\<lparr>la_version := la_version l @ [1]\<rparr>)))"

definition create_tables :: "lake_env \<Rightarrow> (lake, unit) io" where
  "create_tables env =
     bind_io (create_property_type env) (\<lambda>_.
     bind_io (create_processes_table env) (\<lambda>_.
     bind_io (create_streams_table env) (\<lambda>_.
     bind_io (create_blocks_table env) (\<lambda>_.
     create_migration_table env))))"

definition read_schema_version :: "lake_env \<Rightarrow> (lake, int) io" where
  "read_schema_version env l = (case external env ''version'' l of
       (Inl e, l') \<Rightarrow> (Inr 0, l')
     | (Inr _, l') \<Rightarrow> (Inr (if ''migration'' \<in> set (la_objects l') then (case la_version l' of [] \<Rightarrow> 0 | v # _ \<Rightarrow> v) else 0), l'))"

definition assert_version :: "int \<Rightarrow> ('l, unit) io" where
  "assert_version current_version =
     pure_io (if current_version = LATEST_SCHEMA_VERSION then Inr ()
       else Inl (Panic ''assertion failed: current_version == LATEST_SCHEMA_VERSION''))"

text \<open>A transaction that is dropped without a commit leaves no trace.\<close>

definition in_transaction :: "lake_env \<Rightarrow> (lake, 'a) io \<Rightarrow> (lake, 'a) io" where
  "in_transaction env body l =
     (case bind_io (external env ''begin'') (\<lambda>_. bind_io body (\<lambda>a. bind_io (external env ''commit'') (\<lambda>_. pure_io (Inr a)))) l of
        (Inl e, l') \<Rightarrow> (Inl e, l\<lparr>la_calls := la_calls l'\<rparr>)
      | (Inr a, l') \<Rightarrow> (Inr a, l'))"

definition execute_migration :: "lake_env \<Rightarrow> (lake, unit) io" where
  "execute_migration env =
     bind_io (external env ''begin'') (\<lambda>_.
     bind_io (read_schema_version env) (\<lambda>current_version.
     bind_io (if current_version = 0
       then in_transaction env (bind_io (create_tables env) (\<lambda>_. read_schema_version env))
       else pure_io (Inr current_version)) (\<lambda>current_version'.
     assert_version current_version')))"

definition migrate_db :: "lake_env \<Rightarrow> (lake, unit) io" where
  "migrate_db env =
     bind_io (external env ''begin'') (\<lambda>_.
     bind_io (read_schema_version env) (\<lambda>current_version.
     if current_version \<noteq> LATEST_SCHEMA_VERSION then
       bind_io (external env ''begin'') (\<lambda>_.
       bind_io (external env ''SELECT pg_advisory_xact_lock($1)'') (\<lambda>_.
       bind_io (external env ''begin'') (\<lambda>_.
       bind_io (read_schema_version env) (\<lambda>current_version'.
       if LATEST_SCHEMA_VERSION = current_version' then pure_io (Inr ())
       else bind_io (execute_migration env) (\<lambda>_.
         bind_io (read_schema_version env) assert_version)))))
     else assert_version current_version))"

section \<open>Writing\<close>

definition insert_block :: "lake_env \<Rightarrow> bytes \<Rightarrow> (lake, unit) io" where
  "insert_block env body =
     bind_io (pure_io (wi_read_block (le_wire env) body)) (\<lambda>block.
     bind_io (pure_io (wi_cbor_payload (le_wire env) (bl_payload block))) (\<lambda>encoded_payload.
     bind_io (pure_io (wi_from_rfc3339 (le_wire env) (bl_begin_time block))) (\<lambda>begin_time.
     bind_io (pure_io (wi_from_rfc3339 (le_wire env) (bl_end_time block))) (\<lambda>end_time.
     bind_io (blob_put env (payload_path env (bl_process_id block) (bl_stream_id block) (bl_block_id block)) encoded_payload) (\<lambda>_.
     bind_io (external env ''inserting into blocks'') (\<lambda>_.
     update_io (\<lambda>l. l\<lparr>la_blocks := la_blocks l @
       [\<lparr>bw_block_id = bl_block_id block, bw_stream_id = bl_stream_id block, bw_process_id = bl_process_id block,
         bw_begin_time = le_timestamptz env begin_time, bw_begin_ticks = bl_begin_ticks block,
         bw_end_time = le_timestamptz env end_time, bw_end_ticks = bl_end_ticks block,
         bw_nb_objects = bl_nb_objects block, bw_object_offset = bl_object_offset block,
         bw_payload_size = word_of_nat (length encoded_payload)\<rparr>]\<rparr>)))))))"

definition insert_stream :: "lake_env \<Rightarrow> bytes \<Rightarrow> (lake, unit) io" where
  "insert_stream env body =
     bind_io (pure_io (wi_read_stream (le_wire env) body)) (\<lambda>stream_info.
     bind_io (pure_io (wi_cbor_udts (le_wire env) (si_dependencies_metadata stream_info))) (\<lambda>dependencies_metadata.
     bind_io (pure_io (wi_cbor_udts (le_wire env) (si_objects_metadata stream_info))) (\<lambda>objects_metadata.
     bind_io (external env ''inserting into streams'') (\<lambda>_.
     update_io (\<lambda>l. l\<lparr>la_streams := la_streams l @
       [\<lparr>sw_stream_id = si_stream_id stream_info, sw_process_id = si_process_id stream_info,
         sw_dependencies_metadata = dependencies_metadata, sw_objects_metadata = objects_metadata,
         sw_tags = si_tags stream_info, sw_properties = make_properties env (si_properties stream_info),
         sw_insert_time = le_timestamptz env (le_now env (la_calls l))\<rparr>]\<rparr>)))))"

text \<open>
  The columns of texts in the table of processes have room for 255 characters each; the insertion of a longer
  text fails. Strings are UTF-8, so a character is what starts with a byte that does not continue another.
\<close>

definition char_count :: "string \<Rightarrow> nat" where
  "char_count s = length (filter (\<lambda>c. of_char c < (128 :: nat) \<or> 192 \<le> (of_char c :: nat)) s)"

definition process_fits :: "ProcessInfo \<Rightarrow> bool" where
  "process_fits info \<longleftrightarrow> list_all (\<lambda>s. char_count s \<le> 255)
     [pi_exe info, pi_username info, pi_realname info, pi_computer info, pi_distro info, pi_cpu_brand info]"

definition insert_process :: "lake_env \<Rightarrow> bytes \<Rightarrow> (lake, unit) io" where
  "insert_process env body =
     bind_io (pure_io (wi_read_process (le_wire env) body)) (\<lambda>process_info.
     bind_io (external env ''executing sql insert into processes'') (\<lambda>_.
     bind_io (pure_io (if process_fits process_info then Inr () else Inl (Err ''executing sql insert into processes''))) (\<lambda>_.
     update_io (\<lambda>l. l\<lparr>la_processes := la_processes l @
       [\<lparr>pw_process_id = pi_process_id process_info, pw_exe = pi_exe process_info, pw_username = pi_username process_info,
         pw_realname = pi_realname process_info, pw_computer = pi_computer process_info, pw_distro = pi_distro process_info,
         pw_cpu_brand = pi_cpu_brand process_info, pw_tsc_frequency = pi_tsc_frequency process_info,
         pw_start_time = le_timestamptz env (pi_start_time process_info), pw_start_ticks = pi_start_ticks process_info,
         pw_insert_time = le_timestamptz env (le_now env (la_calls l)),
         pw_parent_process_id = pi_parent_process_id process_info,
         pw_properties = make_properties env (pi_properties process_info)\<rparr>]\<rparr>))))"

section \<open>Reading\<close>

record BlockMetadata =
  bm_block_id :: uuid
  bm_stream_id :: uuid
  bm_process_id :: uuid
  bm_begin_time :: int
  bm_end_time :: int
  bm_begin_ticks :: i64
  bm_end_ticks :: i64
  bm_nb_objects :: u32
  bm_payload_size :: i64
  bm_object_offset :: i64

text \<open>\<open>fetch_one\<close>: the first of the selected rows, which must exist.\<close>

definition fetch_one :: "lake_env \<Rightarrow> string \<Rightarrow> (lake \<Rightarrow> 'r list) \<Rightarrow> (lake, 'r) io" where
  "fetch_one env context select =
     bind_io (external env context) (\<lambda>_ l. (case select l of [] \<Rightarrow> Inl (Err context) | r # _ \<Rightarrow> Inr r, l))"

definition fetch_all :: "lake_env \<Rightarrow> string \<Rightarrow> (lake \<Rightarrow> 'r list) \<Rightarrow> (lake, 'r list) io" where
  "fetch_all env context select = bind_io (external env context) (\<lambda>_ l. (Inr (select l), l))"

definition find_stream :: "lake_env \<Rightarrow> uuid \<Rightarrow> (lake, StreamInfo) io" where
  "find_stream env sid =
     bind_io (fetch_one env ''select from streams'' (\<lambda>l. filter (\<lambda>r. sw_stream_id r = sid) (la_streams l))) (\<lambda>row.
     bind_io (pure_io (wi_read_udts (le_wire env) (sw_dependencies_metadata row))) (\<lambda>dependencies_metadata.
     bind_io (pure_io (wi_read_udts (le_wire env) (sw_objects_metadata row))) (\<lambda>objects_metadata.
     pure_io (Inr \<lparr>si_process_id = sw_process_id row, si_stream_id = sid,
       si_dependencies_metadata = dependencies_metadata, si_objects_metadata = objects_metadata,
       si_tags = sw_tags row, si_properties = into_hashmap (sw_properties row)\<rparr>))))"

definition process_from_row :: "ProcessRow \<Rightarrow> ProcessInfo" where
  "process_from_row row =
     \<lparr>pi_process_id = pw_process_id row, pi_exe = pw_exe row, pi_username = pw_username row, pi_realname = pw_realname row,
      pi_computer = pw_computer row, pi_distro = pw_distro row, pi_cpu_brand = pw_cpu_brand row,
      pi_tsc_frequency = pw_tsc_frequency row, pi_start_time = pw_start_time row, pi_start_ticks = pw_start_ticks row,
      pi_parent_process_id = pw_parent_process_id row, pi_properties = into_hashmap (pw_properties row)\<rparr>"

definition find_process :: "lake_env \<Rightarrow> uuid \<Rightarrow> (lake, ProcessInfo) io" where
  "find_process env pid =
     bind_io (fetch_one env ''select from processes'' (\<lambda>l. filter (\<lambda>r. pw_process_id r = pid) (la_processes l))) (\<lambda>row.
     pure_io (Inr (process_from_row row)))"

definition map_row_block :: "BlockRow \<Rightarrow> BlockMetadata" where
  "map_row_block row =
     \<lparr>bm_block_id = bw_block_id row, bm_stream_id = bw_stream_id row, bm_process_id = bw_process_id row,
      bm_begin_time = bw_begin_time row, bm_end_time = bw_end_time row, bm_begin_ticks = bw_begin_ticks row,
      bm_end_ticks = bw_end_ticks row, bm_nb_objects = bw_nb_objects row, bm_payload_size = bw_payload_size row,
      bm_object_offset = bw_object_offset row\<rparr>"

text \<open>
  \<open>ORDER BY begin_ticks\<close> says nothing of rows with equal ticks; here they keep the order in which they were
  inserted, which is what the writers of a stream rely on.
\<close>

definition find_stream_blocks_in_range :: "lake_env \<Rightarrow> uuid \<Rightarrow> i64 \<Rightarrow> i64 \<Rightarrow> (lake, BlockMetadata list) io" where
  "find_stream_blocks_in_range env sid begin_ticks end_ticks =
     bind_io (fetch_all env ''find_stream_blocks'' (\<lambda>l. sort_key (\<lambda>r. sint (bw_begin_ticks r))
       (filter (\<lambda>r. bw_stream_id r = sid \<and> sint (bw_begin_ticks r) \<le> sint end_ticks
          \<and> sint (bw_end_ticks r) \<ge> sint begin_ticks) (la_blocks l)))) (\<lambda>rows.
     pure_io (Inr (map map_row_block rows)))"

definition fetch_block_payload :: "lake_env \<Rightarrow> uuid \<Rightarrow> uuid \<Rightarrow> uuid \<Rightarrow> (lake, BlockPayload) io" where
  "fetch_block_payload env pid sid bid =
     bind_io (blob_read env (payload_path env pid sid bid)) (\<lambda>buffer.
     pure_io (wi_read_payload (le_wire env) buffer))"

text \<open>The stack that parsing may use is its first argument, as in \<open>Transit_Parser\<close>.\<close>

definition parse_block ::
  "nat \<Rightarrow> wire \<Rightarrow> StreamInfo \<Rightarrow> BlockPayload \<Rightarrow> ('s \<Rightarrow> Value \<Rightarrow> ('s \<times> bool) res) \<Rightarrow> 's \<Rightarrow> ('s \<times> bool) res" where
  "parse_block stack wi stream payload f s =
     and_then (decompress wi (bp_dependencies payload)) (\<lambda>dependency_bytes.
     and_then (read_dependencies stack (si_dependencies_metadata stream) dependency_bytes) (\<lambda>dependencies.
     and_then (decompress wi (bp_objects payload)) (\<lambda>object_bytes.
     parse_object_buffer stack dependencies (si_objects_metadata stream) object_bytes f s)))"

section \<open>Sequencing\<close>

lemma bind_io_eq:
  "bind_io m f l = (r, l') \<longleftrightarrow> (\<exists>e l1. m l = (Inl e, l1) \<and> r = Inl e \<and> l' = l1) \<or> (\<exists>a l1. m l = (Inr a, l1) \<and> f a l1 = (r, l'))"
  by (auto simp: bind_io_def split: prod.splits sum.splits)

lemma bind_io_Inr: "m l = (Inr a, l1) \<Longrightarrow> bind_io m f l = f a l1"
  by (simp add: bind_io_def)

lemma pure_io_simp [simp]: "pure_io r l = (r, l)" "bind_io (pure_io (Inr a)) f l = f a l" "bind_io (pure_io (Inl e)) f l = (Inl e, l)"
  by (simp_all add: pure_io_def bind_io_def)

lemma update_io_simp [simp]: "update_io f l = (Inr (), f l)"
  by (simp add: update_io_def)

lemma bind_io_assoc [simp]: "bind_io (bind_io m f) g = bind_io m (\<lambda>a. bind_io (f a) g)"
  by (auto simp: bind_io_def fun_eq_iff split: prod.splits sum.splits)

lemma bind_io_simps [simp]:
  "bind_io (update_io u) f l = f () (u l)"
  "bind_io (\<lambda>l. (r l, l)) f l = (case r l of Inl e \<Rightarrow> (Inl e, l) | Inr a \<Rightarrow> f a l)"
  by (simp_all add: bind_io_def split: sum.splits)

text \<open>
  Triples: from a lake with \<open>P\<close>, the program ends with \<open>Q\<close> of its value and the lake, or with an
  error and \<open>E\<close> of the lake.
\<close>

definition triple :: "('l \<Rightarrow> bool) \<Rightarrow> ('l, 'a) io \<Rightarrow> ('a \<Rightarrow> 'l \<Rightarrow> bool) \<Rightarrow> ('l \<Rightarrow> bool) \<Rightarrow> bool" where
  "triple P m Q E \<longleftrightarrow> (\<forall>l. P l \<longrightarrow> (case m l of (Inl _, l') \<Rightarrow> E l' | (Inr a, l') \<Rightarrow> Q a l'))"

lemma tripleD: "triple P m Q E \<Longrightarrow> P l \<Longrightarrow> m l = (r, l') \<Longrightarrow> (case r of Inl _ \<Rightarrow> E l' | Inr a \<Rightarrow> Q a l')"
  by (auto simp: triple_def split: sum.splits)

lemma triple_bind: "triple P m R E \<Longrightarrow> (\<And>a. triple (R a) (f a) Q E) \<Longrightarrow> triple P (bind_io m f) Q E"
  unfolding triple_def bind_io_def by (fastforce split: prod.splits sum.splits)

lemma triple_weaken:
  "triple P m Q E \<Longrightarrow> (\<And>l. P' l \<Longrightarrow> P l) \<Longrightarrow> (\<And>a l. Q a l \<Longrightarrow> Q' a l) \<Longrightarrow> (\<And>l. E l \<Longrightarrow> E' l) \<Longrightarrow> triple P' m Q' E'"
  unfolding triple_def by (fastforce split: prod.splits sum.splits)

lemma triple_pure: "(\<And>l a. P l \<Longrightarrow> r = Inr a \<Longrightarrow> Q a l) \<Longrightarrow> (\<And>l. P l \<Longrightarrow> E l) \<Longrightarrow> triple P (pure_io r) Q E"
  by (auto simp: triple_def split: sum.splits)

lemma triple_if: "(b \<Longrightarrow> triple P m Q E) \<Longrightarrow> (\<not> b \<Longrightarrow> triple P m' Q E) \<Longrightarrow> triple P (if b then m else m') Q E"
  by simp

text \<open>Properties that do not depend on the number of calls.\<close>

definition steady :: "(lake \<Rightarrow> bool) \<Rightarrow> bool" where
  "steady P \<longleftrightarrow> (\<forall>l n. P (l\<lparr>la_calls := n\<rparr>) = P l)"

lemma triple_external: "steady P \<Longrightarrow> triple P (external env msg) (\<lambda>_. P) P"
  by (simp add: triple_def external_def steady_def)

lemma triple_transaction:
  assumes "steady P" and "triple P body Q (\<lambda>_. True)" and "\<And>a. steady (Q a)"
  shows "triple P (in_transaction env body) Q P"
proof -
  have "triple P (bind_io (external env ''begin'') (\<lambda>_. bind_io body (\<lambda>a. bind_io (external env ''commit'') (\<lambda>_. pure_io (Inr a)))))
      Q (\<lambda>_. True)"
    using assms
    by (intro triple_bind triple_weaken [OF triple_external] triple_pure) (auto intro: triple_weaken)
  then show ?thesis
    using assms(1) unfolding triple_def in_transaction_def steady_def by (auto split: prod.splits sum.splits)
qed

section \<open>The schema is all or nothing\<close>

definition schema_objects :: "string list" where
  "schema_objects = [''micromegas_property'', ''processes'', ''streams'', ''blocks'', ''migration'']"

definition schema_complete :: "lake \<Rightarrow> bool" where
  "schema_complete l \<longleftrightarrow> la_objects l = schema_objects \<and> la_version l = [LATEST_SCHEMA_VERSION]"

definition schema_ok :: "lake \<Rightarrow> bool" where
  "schema_ok l \<longleftrightarrow> la_objects l = [] \<and> la_version l = [] \<or> schema_complete l"

lemma steady_schema [simp]:
  "steady schema_ok" "steady schema_complete" "steady (\<lambda>l. schema_ok l \<and> (b \<longrightarrow> schema_complete l))"
  by (simp_all add: steady_def schema_ok_def schema_complete_def)

lemma read_version_triple:
  "triple schema_ok (read_schema_version env) (\<lambda>v l. schema_ok l \<and> (v = LATEST_SCHEMA_VERSION \<longrightarrow> schema_complete l)) E"
  by (auto simp: triple_def read_schema_version_def external_def schema_ok_def schema_complete_def
      schema_objects_def LATEST_SCHEMA_VERSION_def)

lemma create_tables_triple: "triple schema_ok (create_tables env) (\<lambda>_. schema_complete) (\<lambda>_. True)"
proof -
  have "schema_complete l'" if "schema_ok l" "create_tables env l = (Inr (), l')" for l l'
    using that
    by (auto simp: create_tables_def create_property_type_def create_processes_table_def create_streams_table_def
        create_blocks_table_def create_migration_table_def create_object_def bind_io_eq external_def schema_ok_def
        schema_complete_def schema_objects_def LATEST_SCHEMA_VERSION_def split: if_splits)
  then show ?thesis by (auto simp: triple_def split: prod.splits sum.splits)
qed

lemma assert_version_triple:
  "triple (\<lambda>l. schema_ok l \<and> (v = LATEST_SCHEMA_VERSION \<longrightarrow> schema_complete l)) (assert_version v) (\<lambda>_. schema_complete) schema_ok"
  by (simp add: triple_def assert_version_def)

lemma execute_migration_triple: "triple schema_ok (execute_migration env) (\<lambda>_. schema_complete) schema_ok"
proof -
  let ?v = "\<lambda>v l. schema_ok l \<and> (v = LATEST_SCHEMA_VERSION \<longrightarrow> schema_complete l)"
  have "triple schema_ok (bind_io (create_tables env) (\<lambda>_. read_schema_version env)) ?v (\<lambda>_. True)"
    by (rule triple_bind [OF create_tables_triple], rule triple_weaken [OF read_version_triple])
      (auto simp: schema_ok_def)
  from triple_transaction [OF _ this, of env]
  have "triple schema_ok (in_transaction env (bind_io (create_tables env) (\<lambda>_. read_schema_version env))) ?v schema_ok" by simp
  then show ?thesis
    unfolding execute_migration_def
    by (intro triple_bind [OF triple_external] triple_bind [OF read_version_triple] triple_bind [OF _ assert_version_triple] triple_if)
      (auto intro: triple_weaken triple_pure)
qed

lemma migrate_triple: "triple schema_ok (migrate_db env) (\<lambda>_. schema_complete) schema_ok"
proof -
  have last: "triple schema_complete (bind_io (read_schema_version env) assert_version) (\<lambda>_. schema_complete) schema_ok"
    by (rule triple_weaken [OF triple_bind [OF read_version_triple assert_version_triple]]) (auto simp: schema_ok_def)
  have inner: "triple (\<lambda>l. schema_ok l \<and> (v = LATEST_SCHEMA_VERSION \<longrightarrow> schema_complete l))
      (if LATEST_SCHEMA_VERSION = v then pure_io (Inr ())
       else bind_io (execute_migration env) (\<lambda>_. bind_io (read_schema_version env) assert_version)) (\<lambda>_. schema_complete) schema_ok" for v
    by (intro triple_if triple_pure triple_weaken [OF triple_bind [OF execute_migration_triple last]]) auto
  have ext: "triple schema_ok (external env msg) (\<lambda>_. schema_ok) schema_ok" for msg by (rule triple_external) simp
  have outer: "triple (\<lambda>l. schema_ok l \<and> (v = LATEST_SCHEMA_VERSION \<longrightarrow> schema_complete l))
      (bind_io (external env ''begin'') (\<lambda>_. bind_io (external env ''SELECT pg_advisory_xact_lock($1)'') (\<lambda>_.
         bind_io (external env ''begin'') (\<lambda>_. bind_io (read_schema_version env) (\<lambda>v'.
           if LATEST_SCHEMA_VERSION = v' then pure_io (Inr ())
           else bind_io (execute_migration env) (\<lambda>_. bind_io (read_schema_version env) assert_version))))))
      (\<lambda>_. schema_complete) schema_ok" for v
    by (rule triple_weaken [OF triple_bind [OF ext triple_bind [OF ext triple_bind [OF ext triple_bind [OF read_version_triple inner]]]]]) auto
  show ?thesis
    unfolding migrate_db_def
    by (intro triple_bind [OF ext] triple_bind [OF read_version_triple] triple_if outer assert_version_triple)
qed

text \<open>
  C24. Migrating is all or nothing: starting from no schema or from the complete one, whatever call to
  the database fails on the way, the schema is afterwards absent or complete; and when the
  migration reports success it is complete, at the version that the code expects.
\<close>

theorem migrate_all_or_nothing:
  assumes "schema_ok l" and "migrate_db env l = (r, l')"
  shows "schema_ok l' \<and> (r = Inr () \<longrightarrow> schema_complete l')"
  using tripleD [OF migrate_triple assms] by (auto simp: schema_ok_def split: sum.splits)

section \<open>What was written is read back\<close>

definition reliable :: "lake_env \<Rightarrow> bool" where
  "reliable env \<longleftrightarrow> (\<forall>n. \<not> le_fails env n)"

lemma external_reliable: "reliable env \<Longrightarrow> external env msg l = (Inr (), l\<lparr>la_calls := la_calls l + 1\<rparr>)"
  by (simp add: reliable_def external_def)

lemma bind_external [simp]: "reliable env \<Longrightarrow> bind_io (external env msg) f l = f () (l\<lparr>la_calls := la_calls l + 1\<rparr>)"
  by (simp add: bind_io_def external_reliable)

text \<open>The payload that readers find for a block.\<close>

definition stored :: "lake_env \<Rightarrow> lake \<Rightarrow> uuid \<times> uuid \<times> uuid \<Rightarrow> BlockPayload option" where
  "stored env l = (\<lambda>(pid, sid, bid). case la_blobs l (le_full_path env (payload_path env pid sid bid)) of
     None \<Rightarrow> None | Some c \<Rightarrow> (case wi_read_payload (le_wire env) c of Inl _ \<Rightarrow> None | Inr p \<Rightarrow> Some p))"

definition paths_ok :: "lake_env \<Rightarrow> bool" where
  "paths_ok env \<longleftrightarrow> inj (\<lambda>(pid, sid, bid). le_full_path env (payload_path env pid sid bid))"

lemma fetch_stored:
  assumes "reliable env" and "stored env l (pid, sid, bid) = Some p"
  shows "fetch_block_payload env pid sid bid l = (Inr p, l\<lparr>la_calls := la_calls l + 1\<rparr>)"
proof -
  obtain c where "la_blobs l (le_full_path env (payload_path env pid sid bid)) = Some c" "wi_read_payload (le_wire env) c = Inr p"
    using assms(2) by (auto simp: stored_def split: option.splits sum.splits)
  then show ?thesis
    using assms(1)
    by (simp add: fetch_block_payload_def blob_read_def, simp add: bind_io_def)
qed

definition block_key :: "Block \<Rightarrow> uuid \<times> uuid \<times> uuid" where
  "block_key blk = (bl_process_id blk, bl_stream_id blk, bl_block_id blk)"

definition row_of :: "lake_env \<Rightarrow> Block \<Rightarrow> BlockRow \<Rightarrow> bool" where
  "row_of env blk r \<longleftrightarrow> (bw_process_id r, bw_stream_id r, bw_block_id r) = block_key blk
     \<and> bw_begin_ticks r = bl_begin_ticks blk \<and> bw_end_ticks r = bl_end_ticks blk
     \<and> bw_nb_objects r = bl_nb_objects blk \<and> bw_object_offset r = bl_object_offset blk
     \<and> (\<exists>t. wi_from_rfc3339 (le_wire env) (bl_begin_time blk) = Inr t \<and> bw_begin_time r = le_timestamptz env t)
     \<and> (\<exists>t. wi_from_rfc3339 (le_wire env) (bl_end_time blk) = Inr t \<and> bw_end_time r = le_timestamptz env t)"

lemma insert_block_works:
  assumes "reliable env" and "wire_ok (le_wire env)" and "paths_ok env" and "wi_read_block (le_wire env) body = Inr blk"
    and "wi_from_rfc3339 (le_wire env) (bl_begin_time blk) = Inr t1" and "wi_from_rfc3339 (le_wire env) (bl_end_time blk) = Inr t2"
  shows "\<exists>l' r. insert_block env body l = (Inr (), l') \<and> la_blocks l' = la_blocks l @ [r] \<and> row_of env blk r
    \<and> stored env l' = (stored env l)(block_key blk \<mapsto> bl_payload blk)
    \<and> la_streams l' = la_streams l \<and> la_processes l' = la_processes l"
proof -
  obtain c where c: "wi_cbor_payload (le_wire env) (bl_payload blk) = Inr c" "wi_read_payload (le_wire env) c = Inr (bl_payload blk)"
    using assms(2) unfolding wire_ok_def by blast
  let ?path = "\<lambda>(pid, sid, bid). le_full_path env (payload_path env pid sid bid)"
  have "?path k = ?path (block_key blk) \<longleftrightarrow> k = block_key blk" for k
    using assms(3) unfolding paths_ok_def by (rule inj_eq)
  then have st: "stored env l' = (stored env l)(block_key blk \<mapsto> bl_payload blk)"
    if "la_blobs l' = (la_blobs l)(?path (block_key blk) \<mapsto> c)" for l'
    using c(2) that by (auto simp: stored_def fun_eq_iff split: prod.splits)
  show ?thesis
    using assms(1,4,5,6) c(1) st [unfolded block_key_def prod.case]
    by (simp add: insert_block_def blob_put_def row_of_def block_key_def)
qed

section \<open>Every row has its payload\<close>

text \<open>
  Printed identifiers differ and have no slash, and the store keeps the paths of two blobs apart.
\<close>

definition names_ok :: "lake_env \<Rightarrow> bool" where
  "names_ok env \<longleftrightarrow> inj (le_uuid_to_string env) \<and> (\<forall>u. CHR ''/'' \<notin> set (le_uuid_to_string env u))
     \<and> inj_on (le_full_path env) (range (\<lambda>(pid, sid, bid). payload_path env pid sid bid))"

lemma append_before_eq: "xs @ c # ys = xs' @ c # ys' \<Longrightarrow> c \<notin> set xs \<Longrightarrow> c \<notin> set xs' \<Longrightarrow> xs = xs' \<and> ys = ys'"
proof (induction xs arbitrary: xs')
  case Nil
  then show ?case by (cases xs') auto
next
  case (Cons x xs)
  then show ?case by (cases xs') auto
qed

lemma names_ok_paths:
  assumes "names_ok env"
  shows "paths_ok env"
proof -
  have names: "CHR ''/'' \<notin> set (le_uuid_to_string env u)" "le_uuid_to_string env u = le_uuid_to_string env v \<longleftrightarrow> u = v" for u v
    using assms by (auto simp: names_ok_def inj_eq)
  have "inj (\<lambda>(pid, sid, bid). payload_path env pid sid bid)"
    by (auto simp: inj_def payload_path_def names dest!: append_before_eq [OF _ names(1) names(1)])
  then show ?thesis
    using assms comp_inj_on [of "\<lambda>(pid, sid, bid). payload_path env pid sid bid" UNIV "le_full_path env"]
    by (simp add: paths_ok_def names_ok_def comp_def case_prod_beta')
qed

text \<open>The payload that came with each row can be read.\<close>

definition row_key :: "BlockRow \<Rightarrow> uuid \<times> uuid \<times> uuid" where
  "row_key r = (bw_process_id r, bw_stream_id r, bw_block_id r)"

definition payloads_ok :: "lake_env \<Rightarrow> (uuid \<times> uuid \<times> uuid \<Rightarrow> BlockPayload) \<Rightarrow> lake \<Rightarrow> bool" where
  "payloads_ok env payload l \<longleftrightarrow> list_all (\<lambda>r. stored env l (row_key r) = Some (payload (row_key r))) (la_blocks l)"

lemma blob_put_stored:
  assumes "paths_ok env" and "wi_read_payload (le_wire env) c = Inr p"
    and "la_blobs l' = (la_blobs l)(le_full_path env (payload_path env pid sid bid) \<mapsto> c)"
  shows "stored env l' = (stored env l)((pid, sid, bid) \<mapsto> p)"
proof -
  have "le_full_path env (payload_path env i j k) = le_full_path env (payload_path env pid sid bid) \<longleftrightarrow> (i, j, k) = (pid, sid, bid)" for i j k
    using inj_eq [OF assms(1) [unfolded paths_ok_def], of "(i, j, k)" "(pid, sid, bid)"] by simp
  then show ?thesis using assms(2,3) by (auto simp: stored_def fun_eq_iff)
qed

text \<open>Whatever fails, the payload is stored before the row.\<close>

lemma insert_block_effect:
  assumes "insert_block env body l = (r, l')" and "wi_read_block (le_wire env) body = Inr blk" and "wi_cbor_payload (le_wire env) (bl_payload blk) = Inr c"
  defines "put \<equiv> (la_blobs l)(le_full_path env (payload_path env (bl_process_id blk) (bl_stream_id blk) (bl_block_id blk)) \<mapsto> c)"
  shows "(r = Inr () \<and> la_blobs l' = put \<and> (\<exists>row. row_of env blk row \<and> la_blocks l' = la_blocks l @ [row]))
    \<or> (r \<noteq> Inr () \<and> la_blocks l' = la_blocks l \<and> (la_blobs l' = la_blobs l \<or> la_blobs l' = put))"
  using assms(1-3)
  by (cases "wi_from_rfc3339 (le_wire env) (bl_begin_time blk)"; cases "wi_from_rfc3339 (le_wire env) (bl_end_time blk)")
    (auto simp: insert_block_def blob_put_def external_def bind_io_eq row_of_def block_key_def put_def split: if_splits)

text \<open>
  C25. Every row of the blocks table has its own payload in the object store. Whatever call to the store or to
  the database fails: inserting a block that reports success adds one row, that of the block, whose
  payload is read back as it was sent, and leaves the payload of every other row as it was; inserting
  a block that fails adds no row, and leaves every payload as it was when there is no row for the same block.
\<close>

theorem insert_block_keeps_payloads:
  assumes "names_ok env" and "wire_ok (le_wire env)" and "payloads_ok env payload l" and "insert_block env body l = (r, l')"
  shows "case wi_read_block (le_wire env) body of
      Inl e \<Rightarrow> r = Inl e \<and> l' = l
    | Inr blk \<Rightarrow> (r = Inr () \<longrightarrow> (\<exists>row. row_of env blk row \<and> la_blocks l' = la_blocks l @ [row]
          \<and> payloads_ok env (payload(block_key blk := bl_payload blk)) l'))
        \<and> (r \<noteq> Inr () \<longrightarrow> la_blocks l' = la_blocks l \<and> (block_key blk \<notin> row_key ` set (la_blocks l) \<longrightarrow> payloads_ok env payload l'))"
proof (cases "wi_read_block (le_wire env) body")
  case (Inl e)
  then show ?thesis using assms(4) by (simp add: insert_block_def)
next
  case (Inr blk)
  obtain c where c: "wi_cbor_payload (le_wire env) (bl_payload blk) = Inr c" "wi_read_payload (le_wire env) c = Inr (bl_payload blk)"
    using assms(2) unfolding wire_ok_def by blast
  have "stored env l' = stored env l" if "la_blobs l' = la_blobs l" using that by (simp add: stored_def fun_eq_iff)
  then have "(r = Inr () \<and> stored env l' = (stored env l)(block_key blk \<mapsto> bl_payload blk) \<and> (\<exists>row. row_of env blk row \<and> la_blocks l' = la_blocks l @ [row]))
      \<or> (r \<noteq> Inr () \<and> la_blocks l' = la_blocks l \<and> (stored env l' = stored env l \<or> stored env l' = (stored env l)(block_key blk \<mapsto> bl_payload blk)))"
    using insert_block_effect [OF assms(4) Inr c(1)] blob_put_stored [OF names_ok_paths [OF assms(1)] c(2), of l' l] by (auto simp: block_key_def)
  moreover have "row_key row = block_key blk" if "row_of env blk row" for row using that by (simp add: row_of_def row_key_def)
  moreover have "row_key row \<noteq> block_key blk" if "block_key blk \<notin> row_key ` set (la_blocks l)" "row \<in> set (la_blocks l)" for row
    using that by (metis imageI)
  ultimately show ?thesis using assms(3) Inr by (auto simp: payloads_ok_def list_all_iff)
qed

end
