(* ===== verification/Http_Sink.thy ===== *)
theory Http_Sink
  imports Wire Guards
begin

text \<open>
  The sink that posts to the ingestion server (\<open>telemetry-sink/src/http_event_sink.rs\<close>). The calls of
  the dispatcher become messages of a channel; a thread of its own takes them out, turns them into
  requests, and ticks the flush monitor when nothing arrives. The counter of waiting messages is
  shared by both sides and is kept at its width.

  The HTTP client, the decorator of requests, the retry library and the random identifiers are the
  record \<open>http_env\<close>. What they answer may change from call to call, so each of them is given the
  number of external calls made before. The messages that the sink gives to the log macros are
  listed with their level and the fixed part of their text.
\<close>

section \<open>Messages and requests\<close>

datatype SinkEvent =
    Startup ProcessInfo
  | InitStream StreamInfo
  | ProcessLogBlock EventBlock
  | ProcessMetricsBlock EventBlock
  | ProcessThreadBlock EventBlock

record request =
  rq_url :: string
  rq_body :: bytes

record http_env =
  he_wire :: wire
  he_su :: surroundings
  he_sites :: call_sites
  he_shuffle :: "UserDefinedType list \<Rightarrow> UserDefinedType list"
  he_addr :: string
  he_max_queue_size :: i64
  he_client :: "unit res"
  he_build :: "string \<Rightarrow> bytes \<Rightarrow> request res"
  he_decorate :: "nat \<Rightarrow> request \<Rightarrow> request res"
  he_execute :: "nat \<Rightarrow> request \<Rightarrow> unit res"
  he_attempts :: "(nat \<Rightarrow> bool) \<Rightarrow> nat"
  he_new_v4 :: "nat \<Rightarrow> uuid"

text \<open>
  Where the worker is: before its client exists, waiting for a message, holding one, through with
  one but before the counter goes down, ticking the flush monitor, or gone.
\<close>

datatype worker = Starting | Waiting | Holding SinkEvent | Handled | Ticking | Gone

record HttpEventSink =
  hs_sender :: bool
  hs_receiver :: bool
  hs_queue :: "SinkEvent list"
  hs_sending :: "SinkEvent option"
  hs_queue_size :: i64
  hs_worker :: worker
  hs_process_info :: "ProcessInfo option"
  hs_ticket :: nat
  hs_requests :: "request list"
  hs_logs :: "(Level \<times> string) list"

definition HttpEventSink_new :: HttpEventSink where
  "HttpEventSink_new = \<lparr>hs_sender = True, hs_receiver = True, hs_queue = [], hs_sending = None, hs_queue_size = 0,
     hs_worker = Starting, hs_process_info = None, hs_ticket = 0, hs_requests = [], hs_logs = []\<rparr>"

definition say :: "Level \<Rightarrow> string \<Rightarrow> HttpEventSink \<Rightarrow> HttpEventSink" where
  "say lvl msg h = h\<lparr>hs_logs := hs_logs h @ [(lvl, msg)]\<rparr>"

section \<open>The side of the dispatcher\<close>

text \<open>
  \<open>send\<close> runs under the mutex of the sender, so one thread at a time is inside; the counter goes up
  before the message is in the channel.
\<close>

definition send_begin :: "SinkEvent \<Rightarrow> HttpEventSink \<Rightarrow> HttpEventSink" where
  "send_begin e h = (if hs_sender h then h\<lparr>hs_queue_size := hs_queue_size h + 1, hs_sending := Some e\<rparr> else h)"

definition send_end :: "HttpEventSink \<Rightarrow> HttpEventSink" where
  "send_end h = (case hs_sending h of
       None \<Rightarrow> h
     | Some e \<Rightarrow> if hs_receiver h then h\<lparr>hs_queue := hs_queue h @ [e], hs_sending := None\<rparr>
         else say Error ''sending on a closed channel'' (h\<lparr>hs_queue_size := hs_queue_size h - 1, hs_sending := None\<rparr>))"

definition send :: "SinkEvent \<Rightarrow> HttpEventSink \<Rightarrow> HttpEventSink" where
  "send e h = send_end (send_begin e h)"

definition HttpEventSink_drop :: "HttpEventSink \<Rightarrow> HttpEventSink" where
  "HttpEventSink_drop h = h\<lparr>hs_sender := False\<rparr>"

text \<open>The trait: which message a call of the dispatcher sends.\<close>

fun event_of_call :: "http_env \<Rightarrow> sink_call \<Rightarrow> SinkEvent option" where
  "event_of_call env (OnStartup info) = Some (Startup info)"
| "event_of_call env OnShutdown = None"
| "event_of_call env (OnLogEnabled m) = None"
| "event_of_call env (OnLog m time args) = None"
| "event_of_call env (OnInitLogStream s) = Some (InitStream (log_stream_info (he_shuffle env) (su_abi (he_su env)) s))"
| "event_of_call env (OnProcessLogBlock b) = Some (ProcessLogBlock b)"
| "event_of_call env (OnInitMetricsStream s) = Some (InitStream (metrics_stream_info (he_shuffle env) (su_abi (he_su env)) s))"
| "event_of_call env (OnProcessMetricsBlock b) = Some (ProcessMetricsBlock b)"
| "event_of_call env (OnInitThreadStream s) = Some (InitStream (thread_stream_info (he_shuffle env) (su_abi (he_su env)) s))"
| "event_of_call env (OnProcessThreadBlock b) = Some (ProcessThreadBlock b)"

definition http_on_log_enabled :: "HttpEventSink \<Rightarrow> LogMetadata \<Rightarrow> bool" where
  "http_on_log_enabled h m = True"

definition http_is_busy :: "HttpEventSink \<Rightarrow> bool" where
  "http_is_busy h \<longleftrightarrow> sint (hs_queue_size h) > 0"

section \<open>The side of the worker\<close>

definition execute :: "http_env \<Rightarrow> request \<Rightarrow> HttpEventSink \<Rightarrow> unit res \<times> HttpEventSink" where
  "execute env rq h = (he_execute env (hs_ticket h) rq, h\<lparr>hs_ticket := hs_ticket h + 1, hs_requests := hs_requests h @ [rq]\<rparr>)"

definition decorate :: "http_env \<Rightarrow> request \<Rightarrow> HttpEventSink \<Rightarrow> request res \<times> HttpEventSink" where
  "decorate env rq h = (he_decorate env (hs_ticket h) rq, h\<lparr>hs_ticket := hs_ticket h + 1\<rparr>)"

definition post_attempt ::
  "http_env \<Rightarrow> string \<Rightarrow> string \<Rightarrow> bytes res \<Rightarrow> HttpEventSink \<Rightarrow> unit res \<times> HttpEventSink" where
  "post_attempt env url failure encoded h =
     (case and_then encoded (he_build env url) of
        Inl e \<Rightarrow> (Inl e, h)
      | Inr rq \<Rightarrow> (case decorate env rq h of
          (Inl e, h1) \<Rightarrow> (Inl e, h1)
        | (Inr rq', h1) \<Rightarrow> (case execute env rq' h1 of
            (Inl e, h2) \<Rightarrow> (Inl e, say Debug failure h2)
          | (Inr u, h2) \<Rightarrow> (Inr u, h2))))"

text \<open>
  \<open>tokio_retry::Retry::spawn\<close> repeats an action; \<open>he_attempts\<close> is the number of its runs, given
  which of them would succeed.
\<close>

fun after_attempts :: "('h \<Rightarrow> 'r res \<times> 'h) \<Rightarrow> nat \<Rightarrow> 'h \<Rightarrow> 'h" where
  "after_attempts action 0 h = h"
| "after_attempts action (Suc n) h = after_attempts action n (snd (action h))"

definition retry_spawn ::
  "http_env \<Rightarrow> (HttpEventSink \<Rightarrow> unit res \<times> HttpEventSink) \<Rightarrow> HttpEventSink \<Rightarrow> unit res \<times> HttpEventSink" where
  "retry_spawn env action h =
     (let n = he_attempts env (\<lambda>i. \<not> isl (fst (action (after_attempts action i h)))) in
      action (after_attempts action (n - 1) h))"

definition push_process :: "http_env \<Rightarrow> ProcessInfo \<Rightarrow> HttpEventSink \<Rightarrow> unit res \<times> HttpEventSink" where
  "push_process env process_info h =
     retry_spawn env
       (post_attempt env (he_addr env @ ''/ingestion/insert_process'') ''insert_process error'' (wi_cbor_process (he_wire env) process_info))
       (say Debug ''sending process'' h)"

definition push_stream :: "http_env \<Rightarrow> StreamInfo \<Rightarrow> HttpEventSink \<Rightarrow> unit res \<times> HttpEventSink" where
  "push_stream env stream_info h =
     retry_spawn env
       (post_attempt env (he_addr env @ ''/ingestion/insert_stream'') ''insert_stream error'' (wi_cbor_stream (he_wire env) stream_info)) h"

definition push_block ::
  "http_env \<Rightarrow> (uuid \<Rightarrow> ProcessInfo \<Rightarrow> EventBlock \<Rightarrow> bytes res) \<Rightarrow> EventBlock \<Rightarrow> ProcessInfo \<Rightarrow> HttpEventSink
    \<Rightarrow> unit res \<times> HttpEventSink" where
  "push_block env encode_bin buffer process_info h0 =
     (let h = say Debug ''push_block'' h0 in
      if sint (hs_queue_size h) \<ge> sint (he_max_queue_size env)
      then (Inr (), say Debug ''dropping data, queue over max_queue_size'' h)
      else let block_id = he_new_v4 env (hs_ticket h);
               h1 = say Debug ''encoding block_id'' (h\<lparr>hs_ticket := hs_ticket h + 1\<rparr>) in
        (case and_then (encode_bin block_id process_info buffer) (he_build env (he_addr env @ ''/ingestion/insert_block'')) of
           Inl e \<Rightarrow> (Inl e, h1)
         | Inr rq \<Rightarrow> (case decorate env rq h1 of
             (Inl e, h2) \<Rightarrow> (Inl e, h2)
           | (Inr rq', h2) \<Rightarrow> execute env rq' (say Debug ''push_block: executing request'' h2))))"

text \<open>\<open>if let Err(e) = ... { error!(...) }\<close>; a panic of the callee ends the thread.\<close>

definition report :: "string \<Rightarrow> unit res \<times> HttpEventSink \<Rightarrow> HttpEventSink res" where
  "report msg r = (case r of
       (Inr _, h) \<Rightarrow> Inr h
     | (Inl (Err e), h) \<Rightarrow> Inr (say Error msg h)
     | (Inl f, h) \<Rightarrow> Inl f)"

definition process_block ::
  "http_env \<Rightarrow> (uuid \<Rightarrow> ProcessInfo \<Rightarrow> EventBlock \<Rightarrow> bytes res) \<Rightarrow> string \<Rightarrow> EventBlock \<Rightarrow> HttpEventSink \<Rightarrow> HttpEventSink res" where
  "process_block env encode_bin msg buffer h =
     (case hs_process_info h of
        Some process_info \<Rightarrow> report msg (push_block env encode_bin buffer process_info h)
      | None \<Rightarrow> Inr (say Error ''trying to send blocks before Startup message'' h))"

fun handle_message :: "http_env \<Rightarrow> SinkEvent \<Rightarrow> HttpEventSink \<Rightarrow> HttpEventSink res" where
  "handle_message env (Startup process_info) h =
     report ''error sending process'' (push_process env process_info (h\<lparr>hs_process_info := Some process_info\<rparr>))"
| "handle_message env (InitStream stream_info) h = report ''error sending stream'' (push_stream env stream_info h)"
| "handle_message env (ProcessLogBlock buffer) h =
     process_block env (LogBlock_encode_bin (he_wire env) (he_su env) (he_sites env)) ''error sending log block'' buffer h"
| "handle_message env (ProcessMetricsBlock buffer) h =
     process_block env (MetricsBlock_encode_bin (he_wire env) (he_su env) (he_sites env)) ''error sending metrics block'' buffer h"
| "handle_message env (ProcessThreadBlock buffer) h =
     process_block env (ThreadBlock_encode_bin (he_wire env) (he_su env) (he_sites env)) ''error sending thread block'' buffer h"

text \<open>
  One pass of the loop of \<open>thread_proc_impl\<close>: from receiving to the counter that goes down at its
  end. The duration of the wait is decided by the flush monitor.
\<close>

definition wait_seconds :: "i64 \<Rightarrow> FlushMonitor \<Rightarrow> u64" where
  "wait_seconds now flusher = (if sint (time_to_flush_seconds now flusher) < 0 then 0 else time_to_flush_seconds now flusher)"

definition worker_start :: "http_env \<Rightarrow> uuid option \<Rightarrow> HttpEventSink \<Rightarrow> HttpEventSink" where
  "worker_start env pid h = (case he_client env of
       Inl e \<Rightarrow> say Error ''Error creating http client'' (h\<lparr>hs_worker := Gone, hs_receiver := False\<rparr>)
     | Inr _ \<Rightarrow> (let h1 = h\<lparr>hs_worker := Waiting\<rparr> in
         case pid of None \<Rightarrow> h1
         | Some _ \<Rightarrow> say Info ''timeline: https://analytics.legionengine.com/timeline/''
             (say Info ''metrics: https://analytics.legionengine.com/metrics/''
             (say Info ''log: https://analytics.legionengine.com/log/'' h1))))"

definition worker_receive :: "HttpEventSink \<Rightarrow> HttpEventSink" where
  "worker_receive h = (case hs_queue h of
       e # es \<Rightarrow> h\<lparr>hs_queue := es, hs_worker := Holding e\<rparr>
     | [] \<Rightarrow> if hs_sender h then h\<lparr>hs_worker := Ticking\<rparr> else h\<lparr>hs_worker := Gone, hs_receiver := False\<rparr>)"

definition worker_handle :: "http_env \<Rightarrow> SinkEvent \<Rightarrow> HttpEventSink \<Rightarrow> HttpEventSink" where
  "worker_handle env e h = (case handle_message env e h of
       Inr h' \<Rightarrow> h'\<lparr>hs_worker := Handled\<rparr>
     | Inl f \<Rightarrow> h\<lparr>hs_worker := Gone, hs_receiver := False\<rparr>)"

definition worker_count :: "HttpEventSink \<Rightarrow> HttpEventSink" where
  "worker_count h = h\<lparr>hs_queue_size := hs_queue_size h - 1, hs_worker := Waiting\<rparr>"

text \<open>
  The thread of the worker by itself: what it does next depends on the state only. \<open>drop\<close> waits for this
  thread after it has let go of the sender.
\<close>

definition worker_step :: "http_env \<Rightarrow> uuid option \<Rightarrow> HttpEventSink \<Rightarrow> HttpEventSink" where
  "worker_step env pid h = (case hs_worker h of
       Starting \<Rightarrow> worker_start env pid h
     | Waiting \<Rightarrow> worker_receive h
     | Holding e \<Rightarrow> worker_handle env e h
     | Handled \<Rightarrow> worker_count h
     | Ticking \<Rightarrow> worker_count h
     | Gone \<Rightarrow> h)"

definition worker_runs :: "http_env \<Rightarrow> uuid option \<Rightarrow> HttpEventSink \<Rightarrow> HttpEventSink \<Rightarrow> bool" where
  "worker_runs env pid h h' \<longleftrightarrow> (\<exists>n. h' = (worker_step env pid ^^ n) h)"

section \<open>Interleavings\<close>

text \<open>
  All states that threads which send and the worker reach together, with what was put into the
  channel so far, what was handled, the number of idle passes that have ended, and the largest
  number of outstanding messages at the start of handling one. A message is outstanding from the
  moment the counter goes up for it until the counter goes down.
\<close>

definition outstanding :: "HttpEventSink \<Rightarrow> nat" where
  "outstanding h = length (hs_queue h) + (if hs_sending h = None then 0 else 1)
     + (case hs_worker h of Holding _ \<Rightarrow> 1 | Handled \<Rightarrow> 1 | _ \<Rightarrow> 0)"

inductive http_reach :: "http_env \<Rightarrow> HttpEventSink \<Rightarrow> SinkEvent list \<Rightarrow> SinkEvent list \<Rightarrow> nat \<Rightarrow> nat \<Rightarrow> bool"
  for env where
  http_new: "http_reach env HttpEventSink_new [] [] 0 0"
| http_start: "http_reach env h sent fin idle peak \<Longrightarrow> hs_worker h = Starting \<Longrightarrow>
    http_reach env (worker_start env pid h) sent fin idle peak"
| http_send_begin: "http_reach env h sent fin idle peak \<Longrightarrow> hs_sending h = None \<Longrightarrow>
    http_reach env (send_begin e h) sent fin idle peak"
| http_send_end: "http_reach env h sent fin idle peak \<Longrightarrow> hs_sending h = Some e \<Longrightarrow>
    http_reach env (send_end h) (if hs_receiver h then sent @ [e] else sent) fin idle peak"
| http_drop: "http_reach env h sent fin idle peak \<Longrightarrow> hs_sending h = None \<Longrightarrow>
    http_reach env (HttpEventSink_drop h) sent fin idle peak"
| http_receive: "http_reach env h sent fin idle peak \<Longrightarrow> hs_worker h = Waiting \<Longrightarrow>
    http_reach env (worker_receive h) sent fin idle peak"
| http_handle: "http_reach env h sent fin idle peak \<Longrightarrow> hs_worker h = Holding e \<Longrightarrow>
    http_reach env (worker_handle env e h) sent (fin @ [e]) idle (max peak (outstanding h))"
| http_count: "http_reach env h sent fin idle peak \<Longrightarrow> hs_worker h = Handled \<Longrightarrow>
    http_reach env (worker_count h) sent fin idle peak"
| http_idle: "http_reach env h sent fin idle peak \<Longrightarrow> hs_worker h = Ticking \<Longrightarrow>
    http_reach env (worker_count h) sent fin (Suc idle) peak"

section \<open>The channel is a queue\<close>

text \<open>The fields that handling a message leaves alone.\<close>

definition same_channel :: "HttpEventSink \<Rightarrow> HttpEventSink \<Rightarrow> bool" where
  "same_channel h h' \<longleftrightarrow> hs_sender h' = hs_sender h \<and> hs_receiver h' = hs_receiver h \<and> hs_queue h' = hs_queue h
     \<and> hs_sending h' = hs_sending h \<and> hs_queue_size h' = hs_queue_size h \<and> hs_worker h' = hs_worker h"

lemma same_channel_refl [simp]: "same_channel h h"
  by (simp add: same_channel_def)

lemma same_channel_trans: "same_channel h h1 \<Longrightarrow> same_channel h1 h2 \<Longrightarrow> same_channel h h2"
  by (simp add: same_channel_def)

lemma same_channel_steps [simp]:
  "same_channel h (say lvl msg h1) \<longleftrightarrow> same_channel h h1"
  "same_channel (say lvl msg h) h1 \<longleftrightarrow> same_channel h h1"
  "same_channel h (h1\<lparr>hs_ticket := n\<rparr>) \<longleftrightarrow> same_channel h h1"
  "same_channel h (h1\<lparr>hs_process_info := p\<rparr>) \<longleftrightarrow> same_channel h h1"
  "same_channel (h\<lparr>hs_process_info := p\<rparr>) h1 \<longleftrightarrow> same_channel h h1"
  "same_channel h (snd (execute env rq h1)) \<longleftrightarrow> same_channel h h1"
  "same_channel h (snd (decorate env rq h1)) \<longleftrightarrow> same_channel h h1"
  by (simp_all add: same_channel_def say_def execute_def decorate_def)

lemma post_attempt_channel: "same_channel h (snd (post_attempt env url failure encoded h))"
  by (auto simp: post_attempt_def same_channel_def say_def execute_def decorate_def split: sum.splits prod.splits)

lemma after_attempts_channel:
  "(\<And>x. same_channel x (snd (action x))) \<Longrightarrow> same_channel h (after_attempts action n h)"
  by (induction n arbitrary: h) (auto intro: same_channel_trans)

lemma retry_spawn_channel: "(\<And>x. same_channel x (snd (action x))) \<Longrightarrow> same_channel h (snd (retry_spawn env action h))"
  unfolding retry_spawn_def Let_def using after_attempts_channel same_channel_trans by blast

lemma retry_post_channel: "same_channel h (snd (retry_spawn env (post_attempt env url failure encoded) h))"
  by (rule retry_spawn_channel) (rule post_attempt_channel)

lemma push_block_channel: "same_channel h (snd (push_block env encode_bin buffer info h))"
  by (auto simp: push_block_def Let_def same_channel_def say_def execute_def decorate_def split: sum.splits prod.splits)

lemma report_channel: "report msg r = Inr h' \<Longrightarrow> same_channel h (snd r) \<Longrightarrow> same_channel h h'"
  by (auto simp: report_def split: sum.splits prod.splits fault.splits)

lemma process_block_channel: "process_block env encode_bin msg buffer h = Inr h' \<Longrightarrow> same_channel h h'"
  by (auto simp: process_block_def dest!: report_channel [OF _ push_block_channel] split: option.splits)

lemma handle_message_channel: "handle_message env e h = Inr h' \<Longrightarrow> same_channel h h'"
proof (cases e)
  case (Startup p)
  then show "handle_message env e h = Inr h' \<Longrightarrow> same_channel h h'"
    using report_channel [OF _ retry_post_channel] by (fastforce simp: push_process_def)
next
  case (InitStream s)
  then show "handle_message env e h = Inr h' \<Longrightarrow> same_channel h h'"
    using report_channel [OF _ retry_post_channel] by (fastforce simp: push_stream_def)
qed (auto dest: process_block_channel)

text \<open>
  The abstract queue: what went in is what came out followed by what is inside. A worker that ended
  by itself, after the sender was dropped, has taken everything out.
\<close>

definition held :: "HttpEventSink \<Rightarrow> SinkEvent list" where
  "held h = (case hs_worker h of Holding e \<Rightarrow> [e] | _ \<Rightarrow> [])"

definition http_inv :: "HttpEventSink \<Rightarrow> SinkEvent list \<Rightarrow> SinkEvent list \<Rightarrow> nat \<Rightarrow> bool" where
  "http_inv h sent fin idle \<longleftrightarrow> sent = fin @ held h @ hs_queue h
     \<and> (hs_worker h \<noteq> Gone \<longrightarrow> hs_receiver h \<and> hs_queue_size h = of_nat (outstanding h) - of_nat idle)
     \<and> (hs_worker h = Gone \<longrightarrow> \<not> hs_receiver h)
     \<and> (\<not> hs_sender h \<longrightarrow> hs_sending h = None)
     \<and> (hs_worker h = Starting \<longrightarrow> fin = [])"

lemma http_inv_handle:
  assumes "http_inv h sent fin idle" and "hs_worker h = Holding e"
  shows "http_inv (worker_handle env e h) sent (fin @ [e]) idle"
proof (cases "handle_message env e h")
  case (Inl f)
  then show ?thesis using assms by (simp add: worker_handle_def http_inv_def held_def)
next
  case (Inr h')
  then have "same_channel h h'" by (rule handle_message_channel)
  then show ?thesis
    using assms Inr by (simp add: worker_handle_def http_inv_def held_def outstanding_def same_channel_def)
qed

lemma http_reach_inv: "http_reach env h sent fin idle peak \<Longrightarrow> http_inv h sent fin idle"
proof (induction rule: http_reach.induct)
  case (http_handle h sent fin idle peak e)
  then show ?case by (intro http_inv_handle)
qed (auto simp: http_inv_def held_def outstanding_def HttpEventSink_new_def worker_start_def say_def send_begin_def
    send_end_def HttpEventSink_drop_def worker_receive_def worker_count_def Let_def
    split: sum.splits option.splits list.splits worker.splits if_splits)

section \<open>The counter\<close>

text \<open>Every idle pass leaves the counter one lower than the number of outstanding messages.\<close>

lemma queue_size_value:
  assumes "http_reach env h sent fin idle peak" and "hs_worker h \<noteq> Gone" and "outstanding h < 2 ^ 63" and "idle < 2 ^ 63"
  shows "sint (hs_queue_size h) = int (outstanding h) - int idle"
proof -
  have "hs_queue_size h = word_of_int (int (outstanding h) - int idle)"
    using http_reach_inv [OF assms(1)] assms(2) by (simp add: http_inv_def)
  moreover have "- (2 ^ 63) \<le> int (outstanding h) - int idle" using assms(4) by simp
  moreover have "int (outstanding h) - int idle < 2 ^ 63" using assms(3) by simp
  ultimately show ?thesis by (simp only: sint_i64)
qed

section \<open>Nothing is lost\<close>

definition insert_url :: "http_env \<Rightarrow> SinkEvent \<Rightarrow> string" where
  "insert_url env e = he_addr env @ (case e of Startup _ \<Rightarrow> ''/ingestion/insert_process'' | InitStream _ \<Rightarrow> ''/ingestion/insert_stream''
     | _ \<Rightarrow> ''/ingestion/insert_block'')"

text \<open>The body of the request for a message, given the identifier of a block and the process.\<close>

fun message_body :: "http_env \<Rightarrow> uuid \<Rightarrow> ProcessInfo \<Rightarrow> SinkEvent \<Rightarrow> bytes res" where
  "message_body env block_id info (Startup p) = wi_cbor_process (he_wire env) p"
| "message_body env block_id info (InitStream s) = wi_cbor_stream (he_wire env) s"
| "message_body env block_id info (ProcessLogBlock b) = LogBlock_encode_bin (he_wire env) (he_su env) (he_sites env) block_id info b"
| "message_body env block_id info (ProcessMetricsBlock b) =
     MetricsBlock_encode_bin (he_wire env) (he_su env) (he_sites env) block_id info b"
| "message_body env block_id info (ProcessThreadBlock b) =
     ThreadBlock_encode_bin (he_wire env) (he_su env) (he_sites env) block_id info b"

definition answered :: "http_env \<Rightarrow> ProcessInfo \<Rightarrow> SinkEvent \<Rightarrow> request \<Rightarrow> bool" where
  "answered env info e rq \<longleftrightarrow> rq_url rq = insert_url env e \<and> (\<exists>block_id. message_body env block_id info e = Inr (rq_body rq))"

text \<open>A network and a server that work, and a library that does not repeat what succeeded.\<close>

definition http_works :: "http_env \<Rightarrow> bool" where
  "http_works env \<longleftrightarrow> (\<forall>url b. he_build env url b = Inr \<lparr>rq_url = url, rq_body = b\<rparr>)
     \<and> (\<forall>n rq. he_decorate env n rq = Inr rq) \<and> (\<forall>n rq. he_execute env n rq = Inr ())
     \<and> (\<forall>f. f 0 \<longrightarrow> he_attempts env f = 1) \<and> \<not> isl (he_client env)"

definition sendable :: "http_env \<Rightarrow> ProcessInfo \<Rightarrow> SinkEvent \<Rightarrow> bool" where
  "sendable env info e \<longleftrightarrow> (\<forall>block_id. \<exists>c. message_body env block_id info e = Inr c)"

lemma post_attempt_works:
  "http_works env \<Longrightarrow> post_attempt env url failure (Inr c) h
     = (Inr (), h\<lparr>hs_ticket := hs_ticket h + 2, hs_requests := hs_requests h @ [\<lparr>rq_url = url, rq_body = c\<rparr>]\<rparr>)"
  by (simp add: post_attempt_def http_works_def decorate_def execute_def)

lemma retry_spawn_works: "http_works env \<Longrightarrow> fst (action h) = Inr r \<Longrightarrow> retry_spawn env action h = action h"
  by (simp add: retry_spawn_def http_works_def)

lemma process_block_works:
  assumes "http_works env" and "\<And>block_id. \<exists>c. encode_bin block_id info b = Inr c"
    and "sint (hs_queue_size h) < sint (he_max_queue_size env)" and "hs_process_info h = Some info"
  shows "\<exists>h' block_id c. process_block env encode_bin msg b h = Inr h' \<and> encode_bin block_id info b = Inr c
    \<and> hs_requests h' = hs_requests h @ [\<lparr>rq_url = he_addr env @ ''/ingestion/insert_block'', rq_body = c\<rparr>]
    \<and> hs_process_info h' = Some info"
proof -
  obtain c where "encode_bin (he_new_v4 env (hs_ticket h)) info b = Inr c" using assms(2) by blast
  then show ?thesis
    using assms(1,3,4)
    by (auto simp: process_block_def report_def push_block_def Let_def http_works_def say_def decorate_def execute_def)
qed

lemma handle_message_works:
  assumes "http_works env" and "sendable env info e" and "hs_process_info h = Some info \<or> e = Startup info"
    and "\<And>p. e = Startup p \<Longrightarrow> p = info"
    and "sint (hs_queue_size h) < sint (he_max_queue_size env)"
  shows "\<exists>h' rq. handle_message env e h = Inr h' \<and> answered env info e rq \<and> hs_requests h' = hs_requests h @ [rq]
    \<and> hs_process_info h' = Some info"
proof -
  obtain c where c: "message_body env undefined info e = Inr c" using assms(2) by (auto simp: sendable_def)
  have bodies: "\<exists>c. message_body env block_id info e = Inr c" for block_id using assms(2) by (simp add: sendable_def)
  have blocks: "\<exists>h' rq. process_block env encode_bin msg b h = Inr h' \<and> rq_url rq = he_addr env @ ''/ingestion/insert_block''
      \<and> (\<exists>block_id. encode_bin block_id info b = Inr (rq_body rq)) \<and> hs_requests h' = hs_requests h @ [rq]
      \<and> hs_process_info h' = Some info"
    if "\<forall>p. e \<noteq> Startup p" and "\<And>block_id. \<exists>c. encode_bin block_id info b = Inr c" for encode_bin msg b
    using process_block_works [where encode_bin = encode_bin, OF assms(1) that(2) assms(5), of msg] that(1) assms(3) by fastforce
  show ?thesis
  proof (cases e)
    case (Startup p)
    then show ?thesis
      using c assms(1) assms(4) [OF Startup]
      by (auto simp: push_process_def retry_spawn_works post_attempt_works report_def say_def answered_def insert_url_def)
  next
    case (InitStream s)
    then show ?thesis
      using c assms(1,3)
      by (auto simp: push_stream_def retry_spawn_works post_attempt_works report_def answered_def insert_url_def)
  qed (use bodies blocks in \<open>auto simp: answered_def insert_url_def\<close>)
qed

text \<open>The one process that a sink serves announces itself first and once.\<close>

definition announced :: "ProcessInfo \<Rightarrow> SinkEvent list \<Rightarrow> bool" where
  "announced info es \<longleftrightarrow> (case es of [] \<Rightarrow> True | e # rest \<Rightarrow> e = Startup info \<and> (\<forall>p. Startup p \<notin> set rest))"

lemma announced_append: "announced info (xs @ ys) \<Longrightarrow> announced info xs"
  by (cases xs) (auto simp: announced_def)

lemma announced_snoc:
  "announced info (xs @ e # ys) \<Longrightarrow> (xs = [] \<longrightarrow> e = Startup info) \<and> (\<forall>p. e = Startup p \<longrightarrow> p = info)"
  by (cases xs) (auto simp: announced_def)

definition served :: "http_env \<Rightarrow> ProcessInfo \<Rightarrow> HttpEventSink \<Rightarrow> SinkEvent list \<Rightarrow> bool" where
  "served env info h fin \<longleftrightarrow> list_all2 (answered env info) fin (hs_requests h)
     \<and> (fin \<noteq> [] \<longrightarrow> hs_process_info h = Some info)
     \<and> (hs_worker h = Gone \<longrightarrow> \<not> hs_sender h \<and> hs_queue h = [] \<and> hs_sending h = None)"

lemma served_handle:
  assumes "http_works env" and "served env info h fin" and "http_inv h sent fin idle" and "hs_worker h = Holding e"
    and "announced info sent" and "list_all (sendable env info) sent"
    and "sint (hs_queue_size h) < sint (he_max_queue_size env)"
  shows "served env info (worker_handle env e h) (fin @ [e])"
proof -
  have sent: "sent = fin @ e # hs_queue h" using assms(3,4) by (simp add: http_inv_def held_def)
  then have e: "fin = [] \<longrightarrow> e = Startup info" "\<And>p. e = Startup p \<Longrightarrow> p = info" "sendable env info e"
    using announced_snoc assms(5,6) by (auto simp: list_all_iff)
  then have "hs_process_info h = Some info \<or> e = Startup info" using assms(2) by (auto simp: served_def)
  from handle_message_works [OF assms(1) e(3) this e(2) assms(7)] show ?thesis
    using assms(2) by (auto simp: served_def worker_handle_def intro: list_all2_appendI)
qed

lemma http_reach_served:
  assumes "http_reach env h sent fin idle peak" and "http_works env" and "announced info sent"
    and "list_all (sendable env info) sent" and "int peak < sint (he_max_queue_size env)" and "idle < 2 ^ 63"
  shows "served env info h fin"
  using assms
proof (induction rule: http_reach.induct)
  case (http_handle h sent fin idle peak e)
  have lim: "sint (he_max_queue_size env) < 2 ^ 63" using sint_lt [of "he_max_queue_size env"] by simp
  have inv: "http_inv h sent fin idle" by (rule http_reach_inv) (rule http_handle.hyps(1))
  have "sint (hs_queue_size h) = int (outstanding h) - int idle"
    using http_handle.prems http_handle.hyps lim by (intro queue_size_value) auto
  then have "sint (hs_queue_size h) < sint (he_max_queue_size env)" using http_handle.prems(4) by simp
  with http_handle inv show ?case by (intro served_handle) auto
next
  case (http_start h sent fin idle peak pid)
  then show ?case
    using http_reach_inv [OF http_start.hyps(1)]
    by (auto simp: served_def worker_start_def http_works_def say_def Let_def split: sum.splits option.splits)
next
  case (http_send_end h sent fin idle peak e)
  then have "announced info sent" "list_all (sendable env info) sent"
    using announced_append by (auto split: if_splits)
  then show ?case
    using http_send_end by (auto simp: served_def send_end_def say_def split: if_splits)
next
  case (http_receive h sent fin idle peak)
  then show ?case
    using http_reach_inv [OF http_receive.hyps(1)]
    by (auto simp: served_def worker_receive_def http_inv_def split: list.splits)
qed (auto simp: served_def HttpEventSink_new_def send_begin_def HttpEventSink_drop_def worker_count_def)

section \<open>Ending\<close>

text \<open>
  After the sender was dropped the worker drains the channel and ends: it never has to wait, and
  the messages that were sent are all handled.
\<close>

lemma worker_handle_works:
  assumes "http_works env" and "http_reach env h sent fin idle peak" and "hs_worker h = Holding e"
    and "announced info sent" and "list_all (sendable env info) sent"
    and "int (max peak (outstanding h)) < sint (he_max_queue_size env)" and "idle < 2 ^ 63"
  shows "hs_worker (worker_handle env e h) = Handled \<and> hs_queue (worker_handle env e h) = hs_queue h
    \<and> hs_sender (worker_handle env e h) = hs_sender h \<and> outstanding (worker_handle env e h) = outstanding h"
proof -
  have "served env info (worker_handle env e h) (fin @ [e])"
    using http_reach_served [OF http_handle [OF assms(2,3)] assms(1,4,5,6,7)] .
  moreover have "served env info h fin" using http_reach_served [OF assms(2,1,4,5)] assms(6,7) by simp
  ultimately have "length (hs_requests (worker_handle env e h)) = Suc (length (hs_requests h))"
    unfolding served_def by (elim conjE) (drule list_all2_lengthD, drule list_all2_lengthD, simp)
  then obtain h' where h': "handle_message env e h = Inr h'"
    by (cases "handle_message env e h") (auto simp: worker_handle_def)
  then show ?thesis
    using handle_message_channel [OF h'] assms(3) by (simp add: worker_handle_def same_channel_def outstanding_def)
qed

lemma worker_runs_refl [simp]: "worker_runs env pid h h"
  by (auto simp: worker_runs_def intro: exI [of _ 0])

lemma worker_runs_trans: "worker_runs env pid h h1 \<Longrightarrow> worker_runs env pid h1 h2 \<Longrightarrow> worker_runs env pid h h2"
  unfolding worker_runs_def by (metis comp_apply funpow_add)

lemma worker_runs_step: "worker_runs env pid (worker_step env pid h) h' \<Longrightarrow> worker_runs env pid h h'"
  unfolding worker_runs_def by (metis comp_apply funpow_Suc_right)

lemma gone_stays: "hs_worker h = Gone \<Longrightarrow> (worker_step env pid ^^ n) h = h"
  by (induction n) (simp_all add: worker_step_def)

lemma drain:
  assumes "http_works env" and "announced info sent" and "list_all (sendable env info) sent" and "idle < 2 ^ 63"
  shows "http_reach env h sent fin idle peak \<Longrightarrow> hs_worker h = Waiting \<Longrightarrow> \<not> hs_sender h \<Longrightarrow>
    int peak < sint (he_max_queue_size env) \<Longrightarrow> int (outstanding h) < sint (he_max_queue_size env) \<Longrightarrow>
    \<exists>h' peak'. worker_runs env pid h h' \<and> http_reach env h' sent sent idle peak' \<and> hs_worker h' = Gone \<and> int peak' < sint (he_max_queue_size env)"
proof (induction "hs_queue h" arbitrary: h fin peak)
  case Nil
  have "http_reach env (worker_receive h) sent fin idle peak" by (rule http_receive [OF Nil.prems(1,2)])
  moreover have "hs_worker (worker_receive h) = Gone" using Nil by (simp add: worker_receive_def)
  moreover have "sent = fin"
    using http_reach_inv [OF Nil.prems(1)] Nil by (simp add: http_inv_def held_def)
  moreover have "worker_runs env pid h (worker_receive h)" by (rule worker_runs_step) (simp add: worker_step_def Nil.prems(2))
  ultimately show ?case using Nil.prems(4) by blast
next
  case (Cons e es)
  let ?h1 = "worker_receive h"
  have h1: "http_reach env ?h1 sent fin idle peak" by (rule http_receive [OF Cons.prems(1,2)])
  have w1: "hs_worker ?h1 = Holding e" "hs_queue ?h1 = es" "\<not> hs_sender ?h1" "outstanding ?h1 = outstanding h"
    using Cons.prems Cons.hyps(2) [symmetric] by (auto simp: worker_receive_def outstanding_def)
  let ?h2 = "worker_handle env e ?h1"
  have lim: "int (max peak (outstanding ?h1)) < sint (he_max_queue_size env)" using Cons.prems w1 by simp
  have h2: "http_reach env ?h2 sent (fin @ [e]) idle (max peak (outstanding ?h1))" by (rule http_handle [OF h1 w1(1)])
  have w2: "hs_worker ?h2 = Handled" "hs_queue ?h2 = es" "\<not> hs_sender ?h2" "outstanding ?h2 = outstanding h"
    using worker_handle_works [OF assms(1) h1 w1(1) assms(2,3) lim assms(4)] w1 by auto
  let ?h3 = "worker_count ?h2"
  have "http_reach env ?h3 sent (fin @ [e]) idle (max peak (outstanding ?h1))" by (rule http_count [OF h2 w2(1)])
  moreover have "hs_worker ?h3 = Waiting" "es = hs_queue ?h3" "\<not> hs_sender ?h3" using w2 by (simp_all add: worker_count_def)
  moreover have "outstanding ?h3 \<le> outstanding ?h2" using w2 by (simp add: outstanding_def worker_count_def)
  then have "int (outstanding ?h3) < sint (he_max_queue_size env)" using w2(4) Cons.prems(5) by simp
  ultimately obtain h' peak' where h': "worker_runs env pid ?h3 h'" "http_reach env h' sent sent idle peak'" "hs_worker h' = Gone"
    "int peak' < sint (he_max_queue_size env)"
    using Cons.hyps(1) [of ?h3 "fin @ [e]" "max peak (outstanding ?h1)"] lim by blast
  have "?h3 = worker_step env pid (worker_step env pid (worker_step env pid h))"
    using Cons.prems(2) w1(1) w2(1) by (simp add: worker_step_def)
  with h' show ?case using worker_runs_step by metis
qed

lemma reaches_waiting:
  assumes "http_works env" and "announced info sent" and "list_all (sendable env info) sent" and "Suc idle < 2 ^ 63"
    and "http_reach env h sent fin idle peak" and "\<not> hs_sender h" and "hs_worker h \<noteq> Gone"
    and "int peak < sint (he_max_queue_size env)" and "int (outstanding h) < sint (he_max_queue_size env)"
  shows "\<exists>h' fin' idle' peak'. worker_runs env pid h h' \<and> http_reach env h' sent fin' idle' peak' \<and> hs_worker h' = Waiting \<and> \<not> hs_sender h'
    \<and> int peak' < sint (he_max_queue_size env) \<and> int (outstanding h') < sint (he_max_queue_size env) \<and> idle' \<le> Suc idle"
proof -
  have found: ?thesis if "worker_runs env pid h h'" "http_reach env h' sent fin' idle' peak'" "hs_worker h' = Waiting" "hs_sender h' = hs_sender h"
    "int peak' < sint (he_max_queue_size env)" "outstanding h' \<le> outstanding h" "idle' \<le> Suc idle" for h' fin' idle' peak'
    using that assms(6,9) by (intro exI [of _ h'] exI [of _ fin'] exI [of _ idle'] exI [of _ peak']) auto
  have onward: "worker_runs env pid h (worker_step env pid h)" "worker_runs env pid h (worker_step env pid (worker_step env pid h))"
    by (rule worker_runs_step, simp) (rule worker_runs_step, rule worker_runs_step, simp)
  have count: "hs_worker (worker_count h1) = Waiting" "hs_sender (worker_count h1) = hs_sender h1"
    "outstanding (worker_count h1) \<le> outstanding h1" for h1 by (simp_all add: worker_count_def outstanding_def)
  show ?thesis
  proof (cases "hs_worker h")
    case Starting
    have "hs_worker (worker_start env pid h) = Waiting" "hs_sender (worker_start env pid h) = hs_sender h"
      "outstanding (worker_start env pid h) \<le> outstanding h"
      using assms(1) Starting by (auto simp: worker_start_def http_works_def outstanding_def say_def Let_def split: sum.splits option.splits)
    from found [OF _ http_start [OF assms(5) Starting] this(1,2) assms(8) this(3)] show ?thesis
      using onward(1) Starting by (simp add: worker_step_def)
  next
    case Waiting
    from found [OF _ assms(5) Waiting refl assms(8)] show ?thesis by simp
  next
    case (Holding e)
    let ?h2 = "worker_handle env e h"
    have lim: "int (max peak (outstanding h)) < sint (he_max_queue_size env)" using assms(8,9) by simp
    have w: "hs_worker ?h2 = Handled" "hs_sender ?h2 = hs_sender h" "outstanding ?h2 = outstanding h"
      using worker_handle_works [OF assms(1,5) Holding assms(2,3) lim] assms(4) by auto
    have "worker_runs env pid h (worker_count ?h2)" using onward(2) Holding w(1) by (simp add: worker_step_def)
    then show ?thesis
      using found [OF _ http_count [OF http_handle [OF assms(5) Holding] w(1)] count(1) _ lim] count(2,3) [of ?h2] w by simp
  next
    case Handled
    from found [OF _ http_count [OF assms(5) Handled] count(1,2) assms(8) count(3)] show ?thesis
      using onward(1) Handled by (simp add: worker_step_def)
  next
    case Ticking
    from found [OF _ http_idle [OF assms(5) Ticking] count(1,2) assms(8) count(3)] show ?thesis
      using onward(1) Ticking by (simp add: worker_step_def)
  qed (use assms(7) in simp)
qed

text \<open>
  C22. The channel refines a queue: in every interleaving of the senders with the worker, the messages
  that were put in are those that were handled, in order, followed by the one in hand and those in the
  channel; and as long as the worker lives the counter is the number of outstanding messages less
  the number of idle passes, so that the sink calls itself busy only when more messages are
  outstanding than there were idle passes.
\<close>

theorem http_channel:
  assumes "http_reach env h sent fin idle peak"
  shows "sent = fin @ held h @ hs_queue h
    \<and> (hs_worker h \<noteq> Gone \<longrightarrow> outstanding h < 2 ^ 63 \<longrightarrow> idle < 2 ^ 63 \<longrightarrow>
        sint (hs_queue_size h) = int (outstanding h) - int idle \<and> (http_is_busy h \<longleftrightarrow> idle < outstanding h))"
  using http_reach_inv [OF assms] queue_size_value [OF assms] by (auto simp: http_inv_def http_is_busy_def)

text \<open>
  C23. Dropping the sink loses nothing. In whatever interleaving of senders and worker it happens, with a
  server that answers and fewer waiting messages than the limit: from the state that the drop leaves, the
  thread of the worker, which the drop waits for, comes to its end after finitely many steps and
  stays there, and then the server has got, for every message that was ever sent, in order, one request
  to the right address with the encoded message.
\<close>

theorem http_drop_delivers:
  assumes "http_works env" and "http_reach env h sent fin idle peak" and "hs_sender h" and "hs_sending h = None"
    and "announced info sent" and "list_all (sendable env info) sent" and "Suc idle < 2 ^ 63"
    and "int peak < sint (he_max_queue_size env)" and "int (outstanding h) < sint (he_max_queue_size env)"
  shows "\<exists>n. \<forall>m\<ge>n. let h' = (worker_step env pid ^^ m) (HttpEventSink_drop h) in
    hs_worker h' = Gone \<and> list_all2 (answered env info) sent (hs_requests h')"
proof -
  let ?h = "HttpEventSink_drop h"
  have idle: "idle < 2 ^ 63" using assms(7) by linarith
  have alive: "hs_worker ?h \<noteq> Gone"
    using http_reach_served [OF assms(2,1,5,6,8) idle] assms(3) by (auto simp: served_def HttpEventSink_drop_def)
  have drop: "\<not> hs_sender ?h" "outstanding ?h = outstanding h" by (simp_all add: HttpEventSink_drop_def outstanding_def)
  obtain h1 fin1 idle1 peak1 where h1: "worker_runs env pid ?h h1" "http_reach env h1 sent fin1 idle1 peak1" "hs_worker h1 = Waiting" "\<not> hs_sender h1"
    "int peak1 < sint (he_max_queue_size env)" "int (outstanding h1) < sint (he_max_queue_size env)" "idle1 \<le> Suc idle"
    using reaches_waiting [OF assms(1,5,6,7) http_drop [OF assms(2,4)] drop(1) alive assms(8), of pid] assms(9) drop(2) by metis
  then have i: "idle1 < 2 ^ 63" using assms(7) by linarith
  obtain h2 peak2 where h2: "worker_runs env pid h1 h2" "http_reach env h2 sent sent idle1 peak2" "hs_worker h2 = Gone" "int peak2 < sint (he_max_queue_size env)"
    using drain [OF assms(1,5,6) i h1(2-6)] by blast
  obtain n where n: "h2 = (worker_step env pid ^^ n) ?h" using worker_runs_trans [OF h1(1) h2(1)] by (auto simp: worker_runs_def)
  have "(worker_step env pid ^^ m) ?h = h2" if "n \<le> m" for m
    using gone_stays [OF h2(3), where env = env and pid = pid and n = "m - n"] funpow_add [of "m - n" n "worker_step env pid"] that n by simp
  then show ?thesis using http_reach_served [OF h2(2) assms(1,5,6) h2(4) i] h2(3) by (auto simp: served_def Let_def)
qed

end
