(* ===== verification/Ingestion.thy ===== *)
theory Ingestion
  imports Data_Lake Http_Sink
begin

text \<open>
  The ingestion server (\<open>telemetry-ingestion-srv/src/main.rs\<close>) behind the sink of \<open>Http_Sink\<close>: its
  routes, and what the lake holds after it served the requests of a process. A handler reports no
  error to its client; what fails is only logged.
\<close>

section \<open>Routes\<close>

definition insert_process_request :: "lake_env \<Rightarrow> bytes \<Rightarrow> lake \<Rightarrow> lake" where
  "insert_process_request env body l = snd (insert_process env body l)"

definition insert_stream_request :: "lake_env \<Rightarrow> bytes \<Rightarrow> lake \<Rightarrow> lake" where
  "insert_stream_request env body l = snd (insert_stream env body l)"

definition insert_block_request :: "lake_env \<Rightarrow> bytes \<Rightarrow> lake \<Rightarrow> lake" where
  "insert_block_request env body l = (if body = [] then l else snd (insert_block env body l))"

definition body_limit :: nat where
  "body_limit = 100 * 1024 * 1024"

definition serve_http :: "lake_env \<Rightarrow> string \<Rightarrow> request \<Rightarrow> lake \<Rightarrow> lake" where
  "serve_http env addr rq l =
     (if length (rq_body rq) > body_limit then l
      else if rq_url rq = addr @ ''/ingestion/insert_process'' then insert_process_request env (rq_body rq) l
      else if rq_url rq = addr @ ''/ingestion/insert_stream'' then insert_stream_request env (rq_body rq) l
      else if rq_url rq = addr @ ''/ingestion/insert_block'' then insert_block_request env (rq_body rq) l
      else l)"

definition serve_all :: "lake_env \<Rightarrow> string \<Rightarrow> request list \<Rightarrow> lake \<Rightarrow> lake" where
  "serve_all env addr rqs l = fold (serve_http env addr) rqs l"

section \<open>Streams and processes are read back\<close>

text \<open>Iterating over a hash map visits every entry once.\<close>

definition iter_ok :: "lake_env \<Rightarrow> bool" where
  "iter_ok env \<longleftrightarrow> (\<forall>m. finite (dom m) \<longrightarrow> map_of (le_iter env m) = m \<and> distinct (map fst (le_iter env m)))"

lemma into_hashmap_fold: "fold (\<lambda>p m. m(pr_key p \<mapsto> pr_value p)) (map (\<lambda>(k, v). \<lparr>pr_key = k, pr_value = v\<rparr>) kvs) m
    = m ++ map_of (rev kvs)"
proof (induction kvs arbitrary: m)
  case (Cons kv kvs)
  then show ?case by (cases kv) (simp add: map_add_def fun_eq_iff split: option.splits)
qed simp

lemma map_of_rev: "distinct (map fst kvs) \<Longrightarrow> map_of (rev kvs) = map_of kvs"
  by (subst map_of_inject_set) (simp_all add: rev_map [symmetric])

lemma properties_roundtrip: "iter_ok env \<Longrightarrow> finite (dom m) \<Longrightarrow> into_hashmap (make_properties env m) = m"
  by (simp add: into_hashmap_def make_properties_def into_hashmap_fold iter_ok_def map_of_rev)

definition stream_row :: "lake_env \<Rightarrow> StreamInfo \<Rightarrow> StreamRow \<Rightarrow> bool" where
  "stream_row env si r \<longleftrightarrow> sw_stream_id r = si_stream_id si \<and> sw_process_id r = si_process_id si
     \<and> wi_read_udts (le_wire env) (sw_dependencies_metadata r) = Inr (si_dependencies_metadata si)
     \<and> wi_read_udts (le_wire env) (sw_objects_metadata r) = Inr (si_objects_metadata si)
     \<and> sw_tags r = si_tags si \<and> into_hashmap (sw_properties r) = si_properties si"

lemma strip_idem [simp]: "strip_secondary (strip_secondary u) = strip_secondary u"
  by (simp add: strip_secondary_def)

lemma strip_strip [simp]: "strip_secondary \<circ> strip_secondary = strip_secondary"
  by (simp add: fun_eq_iff)

lemma insert_stream_works:
  assumes "reliable env" and "wire_stream_ok (le_wire env)" and "iter_ok env" and "finite (dom (si_properties si))"
    and "wi_read_stream (le_wire env) body = Inr (sent_stream_info si)"
  shows "\<exists>l' r. insert_stream env body l = (Inr (), l') \<and> la_streams l' = la_streams l @ [r] \<and> stream_row env (sent_stream_info si) r
    \<and> la_blocks l' = la_blocks l \<and> la_blobs l' = la_blobs l \<and> la_processes l' = la_processes l"
proof -
  have udts: "\<exists>c. wi_cbor_udts (le_wire env) us = Inr c \<and> wi_read_udts (le_wire env) c = Inr (map strip_secondary us)" for us
    using assms(2) unfolding wire_stream_ok_def by blast
  obtain c1 where c1: "wi_cbor_udts (le_wire env) (si_dependencies_metadata (sent_stream_info si)) = Inr c1"
    "wi_read_udts (le_wire env) c1 = Inr (si_dependencies_metadata (sent_stream_info si))"
    using udts [of "si_dependencies_metadata (sent_stream_info si)"] by (auto simp: sent_stream_info_def)
  obtain c2 where c2: "wi_cbor_udts (le_wire env) (si_objects_metadata (sent_stream_info si)) = Inr c2"
    "wi_read_udts (le_wire env) c2 = Inr (si_objects_metadata (sent_stream_info si))"
    using udts [of "si_objects_metadata (sent_stream_info si)"] by (auto simp: sent_stream_info_def)
  have "si_properties (sent_stream_info si) = si_properties si" by (simp add: sent_stream_info_def)
  then show ?thesis
    using assms(1,5) c1 c2 properties_roundtrip [OF assms(3,4)] by (simp add: insert_stream_def stream_row_def)
qed

lemma find_stream_row:
  assumes "reliable env" and "filter (\<lambda>r. sw_stream_id r = sid) (la_streams l) = r # rs" and "stream_row env si r"
    and "si_stream_id si = sid"
  shows "find_stream env sid l = (Inr si, l\<lparr>la_calls := la_calls l + 1\<rparr>)"
  using assms by (simp add: find_stream_def fetch_one_def stream_row_def) (simp add: bind_io_def)

definition process_row :: "lake_env \<Rightarrow> ProcessInfo \<Rightarrow> ProcessRow \<Rightarrow> bool" where
  "process_row env info r \<longleftrightarrow> process_from_row r = info\<lparr>pi_start_time := le_timestamptz env (pi_start_time info)\<rparr>"

lemma insert_process_works:
  assumes "reliable env" and "iter_ok env" and "finite (dom (pi_properties info))" and "process_fits info"
    and "wi_read_process (le_wire env) body = Inr info"
  shows "\<exists>l' r. insert_process env body l = (Inr (), l') \<and> la_processes l' = la_processes l @ [r] \<and> process_row env info r
    \<and> la_blocks l' = la_blocks l \<and> la_blobs l' = la_blobs l \<and> la_streams l' = la_streams l"
  using assms properties_roundtrip [OF assms(2,3)]
  by (simp add: insert_process_def process_row_def process_from_row_def)

lemma find_process_row:
  assumes "reliable env" and "filter (\<lambda>r. pw_process_id r = pid) (la_processes l) = r # rs" and "process_row env info r"
  shows "find_process env pid l = (Inr (info\<lparr>pi_start_time := le_timestamptz env (pi_start_time info)\<rparr>), l\<lparr>la_calls := la_calls l + 1\<rparr>)"
  using assms by (simp add: find_process_def fetch_one_def process_row_def) (simp add: bind_io_def)

section \<open>The lake after the requests of a process\<close>

definition lake_init :: lake where
  "lake_init = \<lparr>la_calls = 0, la_blobs = Map.empty, la_objects = schema_objects, la_version = [LATEST_SCHEMA_VERSION],
     la_processes = [], la_streams = [], la_blocks = []\<rparr>"

fun started :: "SinkEvent \<Rightarrow> ProcessInfo list" where
  "started (Startup p) = [p]" | "started _ = []"

fun opened :: "SinkEvent \<Rightarrow> StreamInfo list" where
  "opened (InitStream s) = [sent_stream_info s]" | "opened _ = []"

fun carried :: "SinkEvent \<Rightarrow> EventBlock list" where
  "carried (ProcessLogBlock b) = [b]" | "carried (ProcessMetricsBlock b) = [b]" | "carried (ProcessThreadBlock b) = [b]"
| "carried _ = []"

text \<open>How the dependencies of the block in a message are extracted.\<close>

fun extractor :: "surroundings \<Rightarrow> call_sites \<Rightarrow> SinkEvent \<Rightarrow> hqueue \<Rightarrow> hqueue res" where
  "extractor su sites (ProcessLogBlock b) = LogMsgQueue_extract (su_alloc su) (su_abi su) (su_memory su) (cs_logs sites)"
| "extractor su sites (ProcessMetricsBlock b) = MetricsMsgQueue_extract (su_alloc su) (su_abi su) (su_memory su) (cs_metrics sites)"
| "extractor su sites (ProcessThreadBlock b) =
     ThreadEventQueue_extract (su_alloc su) (su_abi su) (su_memory su) (cs_spans sites) (cs_locations sites)"
| "extractor su sites _ = (\<lambda>_. Inl UB)"

definition block_events :: "SinkEvent list \<Rightarrow> SinkEvent list" where
  "block_events es = filter (\<lambda>e. carried e \<noteq> []) es"

definition request_block :: "wire \<Rightarrow> string \<Rightarrow> request \<Rightarrow> Block list" where
  "request_block wi addr rq = (if rq_url rq = addr @ ''/ingestion/insert_block''
     then (case wi_read_block wi (rq_body rq) of Inr b \<Rightarrow> [b] | Inl _ \<Rightarrow> []) else [])"

text \<open>A block on its way belongs to a message.\<close>

definition block_of_event :: "http_env \<Rightarrow> ProcessInfo \<Rightarrow> SinkEvent \<Rightarrow> Block \<Rightarrow> bool" where
  "block_of_event henv info e blk \<longleftrightarrow> (\<exists>b deps. carried e = [b] \<and> extractor (he_su henv) (he_sites henv) e (eb_events b) = Inr deps
     \<and> carries (he_wire henv) info b deps blk)"

lemma message_body_block:
  "carried e = [b] \<Longrightarrow> message_body henv block_id info e
     = encode_block (he_wire henv) block_id (extractor (he_su henv) (he_sites henv) e) info b"
  by (cases e) (simp_all add: LogBlock_encode_bin_def MetricsBlock_encode_bin_def ThreadBlock_encode_bin_def)

lemma answered_block:
  assumes "wire_ok (he_wire henv)" and "answered henv info e rq" and "carried e = [b]"
  shows "\<exists>blk. wi_read_block (he_wire henv) (rq_body rq) = Inr blk \<and> block_of_event henv info e blk
    \<and> request_block (he_wire henv) (he_addr henv) rq = [blk] \<and> rq_url rq = he_addr henv @ ''/ingestion/insert_block''"
proof -
  have url: "rq_url rq = he_addr henv @ ''/ingestion/insert_block''"
    using assms(2,3) by (cases e) (auto simp: answered_def insert_url_def)
  obtain block_id where "encode_block (he_wire henv) block_id (extractor (he_su henv) (he_sites henv) e) info b = Inr (rq_body rq)"
    using assms(2) message_body_block [OF assms(3)] by (auto simp: answered_def)
  from encode_block_inv [OF assms(1) this] show ?thesis
    using url assms(3) by (auto simp: block_of_event_def request_block_def)
qed

text \<open>What the client and the server assume of their surroundings, and of a message.\<close>

definition server_ok :: "lake_env \<Rightarrow> http_env \<Rightarrow> bool" where
  "server_ok env henv \<longleftrightarrow> reliable env \<and> paths_ok env \<and> iter_ok env \<and> he_wire henv = le_wire env
     \<and> wire_ok (le_wire env) \<and> wire_stream_ok (le_wire env) \<and> wire_process_ok (le_wire env)"

definition request_ok :: "SinkEvent \<Rightarrow> request \<Rightarrow> bool" where
  "request_ok e rq \<longleftrightarrow> rq_body rq \<noteq> [] \<and> length (rq_body rq) \<le> body_limit
     \<and> (case e of Startup p \<Rightarrow> finite (dom (pi_properties p)) \<and> process_fits p | InitStream s \<Rightarrow> finite (dom (si_properties s)) | _ \<Rightarrow> True)"

definition lake_holds :: "lake_env \<Rightarrow> http_env \<Rightarrow> SinkEvent list \<Rightarrow> request list \<Rightarrow> lake \<Rightarrow> bool" where
  "lake_holds env henv es rqs l \<longleftrightarrow>
     list_all2 (process_row env) (concat (map started es)) (la_processes l)
     \<and> list_all2 (stream_row env) (concat (map opened es)) (la_streams l)
     \<and> list_all2 (row_of env) (concat (map (request_block (le_wire env) (he_addr henv)) rqs)) (la_blocks l)
     \<and> list_all (\<lambda>blk. stored env l (block_key blk) = Some (bl_payload blk))
         (concat (map (request_block (le_wire env) (he_addr henv)) rqs))"

lemma stored_blobs: "la_blobs l' = la_blobs l \<Longrightarrow> stored env l' = stored env l"
  by (simp add: stored_def fun_eq_iff)

lemma serve_startup:
  assumes "server_ok env henv" and "answered henv info (Startup p) rq" and "request_ok (Startup p) rq"
    and "lake_holds env henv es rqs l"
  shows "lake_holds env henv (es @ [Startup p]) (rqs @ [rq]) (serve_http env (he_addr henv) rq l)"
proof -
  have url: "rq_url rq = he_addr henv @ ''/ingestion/insert_process''" "wi_cbor_process (le_wire env) p = Inr (rq_body rq)"
    using assms(1,2) by (auto simp: answered_def insert_url_def server_ok_def)
  have fin: "finite (dom (pi_properties p))" "length (rq_body rq) \<le> body_limit" "process_fits p" using assms(3) by (simp_all add: request_ok_def)
  have ok: "reliable env" "iter_ok env" "wire_process_ok (le_wire env)" using assms(1) by (simp_all add: server_ok_def)
  have "wi_read_process (le_wire env) (rq_body rq) = Inr p"
    using ok(3) url(2) fin(1) unfolding wire_process_ok_def by (metis Inr_inject)
  from insert_process_works [OF ok(1,2) fin(1,3) this] obtain l' r where
    l': "insert_process env (rq_body rq) l = (Inr (), l')" "la_processes l' = la_processes l @ [r]" "process_row env p r"
    "la_blocks l' = la_blocks l" "la_blobs l' = la_blobs l" "la_streams l' = la_streams l" by blast
  have "serve_http env (he_addr henv) rq l = l'" using url(1) fin(2) l'(1) by (simp add: serve_http_def insert_process_request_def)
  moreover have "request_block (le_wire env) (he_addr henv) rq = []" using url(1) by (simp add: request_block_def)
  ultimately show ?thesis
    using assms(4) l' stored_blobs [OF l'(5)] by (simp add: lake_holds_def list_all2_appendI)
qed

lemma serve_stream:
  assumes "server_ok env henv" and "answered henv info (InitStream s) rq" and "request_ok (InitStream s) rq"
    and "lake_holds env henv es rqs l"
  shows "lake_holds env henv (es @ [InitStream s]) (rqs @ [rq]) (serve_http env (he_addr henv) rq l)"
proof -
  have url: "rq_url rq = he_addr henv @ ''/ingestion/insert_stream''" "wi_cbor_stream (le_wire env) s = Inr (rq_body rq)"
    using assms(1,2) by (auto simp: answered_def insert_url_def server_ok_def)
  have fin: "finite (dom (si_properties s))" "length (rq_body rq) \<le> body_limit" using assms(3) by (simp_all add: request_ok_def)
  have ok: "reliable env" "iter_ok env" "wire_stream_ok (le_wire env)" using assms(1) by (simp_all add: server_ok_def)
  have "wi_read_stream (le_wire env) (rq_body rq) = Inr (sent_stream_info s)"
    using ok(3) url(2) fin(1) unfolding wire_stream_ok_def by (metis Inr_inject)
  from insert_stream_works [OF ok(1,3,2) fin(1) this] obtain l' r where
    l': "insert_stream env (rq_body rq) l = (Inr (), l')" "la_streams l' = la_streams l @ [r]" "stream_row env (sent_stream_info s) r"
    "la_blocks l' = la_blocks l" "la_blobs l' = la_blobs l" "la_processes l' = la_processes l" by blast
  have "serve_http env (he_addr henv) rq l = l'" using url(1) fin(2) l'(1) by (simp add: serve_http_def insert_stream_request_def)
  moreover have "request_block (le_wire env) (he_addr henv) rq = []" using url(1) by (simp add: request_block_def)
  ultimately show ?thesis
    using assms(4) l' stored_blobs [OF l'(5)] by (simp add: lake_holds_def list_all2_appendI)
qed

lemma serve_block:
  assumes "server_ok env henv" and "answered henv info e rq" and "request_ok e rq" and "carried e = [b]"
    and "lake_holds env henv es rqs l"
    and "distinct (map block_key (concat (map (request_block (le_wire env) (he_addr henv)) (rqs @ [rq]))))"
  shows "lake_holds env henv (es @ [e]) (rqs @ [rq]) (serve_http env (he_addr henv) rq l)"
proof -
  have ok: "reliable env" "wire_ok (le_wire env)" "paths_ok env" "he_wire henv = le_wire env"
    using assms(1) by (simp_all add: server_ok_def)
  obtain blk where blk: "wi_read_block (le_wire env) (rq_body rq) = Inr blk" "block_of_event henv info e blk"
    "request_block (le_wire env) (he_addr henv) rq = [blk]" "rq_url rq = he_addr henv @ ''/ingestion/insert_block''"
    using answered_block [OF _ assms(2,4)] ok by auto
  then obtain t1 t2 where "wi_from_rfc3339 (le_wire env) (bl_begin_time blk) = Inr t1" "wi_from_rfc3339 (le_wire env) (bl_end_time blk) = Inr t2"
    using ok(4) by (auto simp: block_of_event_def carries_def)
  from insert_block_works [OF ok(1-3) blk(1) this] obtain l' r where
    l': "insert_block env (rq_body rq) l = (Inr (), l')" "la_blocks l' = la_blocks l @ [r]" "row_of env blk r"
    "stored env l' = (stored env l)(block_key blk \<mapsto> bl_payload blk)" "la_streams l' = la_streams l" "la_processes l' = la_processes l"
    by blast
  have "serve_http env (he_addr henv) rq l = l'"
    using blk(4) l'(1) assms(3) by (simp add: serve_http_def insert_block_request_def request_ok_def)
  moreover have "list_all (\<lambda>x. stored env l' (block_key x) = Some (bl_payload x)) (concat (map (request_block (le_wire env) (he_addr henv)) rqs))"
  proof -
    let ?old = "concat (map (request_block (le_wire env) (he_addr henv)) rqs)"
    have "block_key blk \<notin> block_key ` set ?old" using assms(6) blk(3) by auto
    then have new: "block_key x \<noteq> block_key blk" if "x \<in> set ?old" for x using that image_eqI by metis
    have "\<forall>x \<in> set ?old. stored env l (block_key x) = Some (bl_payload x)"
      using assms(5) unfolding lake_holds_def list_all_iff by (elim conjE)
    then show ?thesis unfolding list_all_iff l'(4) using new by simp
  qed
  moreover have "started e = []" "opened e = []" using assms(4) by (cases e; simp)+
  ultimately show ?thesis
    using assms(5) l' blk(3) by (auto simp: lake_holds_def intro: list_all2_appendI)
qed

lemma serve_all_holds:
  assumes "server_ok env henv" and "list_all2 (answered henv info) es rqs" and "list_all2 request_ok es rqs"
    and "distinct (map block_key (concat (map (request_block (le_wire env) (he_addr henv)) rqs)))"
  shows "lake_holds env henv es rqs (serve_all env (he_addr henv) rqs lake_init)"
  using assms(2-4)
proof (induction es arbitrary: rqs rule: rev_induct)
  case Nil
  then show ?case by (simp add: lake_holds_def lake_init_def serve_all_def)
next
  case (snoc e es)
  obtain rqs' rq where rqs: "rqs = rqs' @ [rq]" "list_all2 (answered henv info) es rqs'" "answered henv info e rq"
    using snoc.prems(1) by (auto simp: list_all2_append1 list_all2_Cons1)
  then have ok: "list_all2 request_ok es rqs'" "request_ok e rq"
    using snoc.prems(2) list_all2_lengthD [OF rqs(2)] by (auto simp: list_all2_append)
  have IH: "lake_holds env henv es rqs' (serve_all env (he_addr henv) rqs' lake_init)"
    by (rule snoc.IH [OF rqs(2) ok(1)]) (use snoc.prems(3) rqs(1) in simp)
  have step: "serve_all env (he_addr henv) rqs lake_init = serve_http env (he_addr henv) rq (serve_all env (he_addr henv) rqs' lake_init)"
    by (simp add: serve_all_def rqs(1))
  show ?case
  proof (cases e)
    case (Startup p)
    then show ?thesis using serve_startup [OF assms(1)] rqs ok(2) IH step by simp
  next
    case (InitStream s)
    then show ?thesis using serve_stream [OF assms(1)] rqs ok(2) IH step by simp
  qed (use serve_block [OF assms(1) rqs(3) ok(2) _ IH] snoc.prems(3) rqs(1) step in simp_all)
qed

end
