(* ===== verification/Float64.thy ===== *)
theory Float64
  imports Complex_Main Prelude "HOL-Library.Log_Nat"
begin

text \<open>
  The double precision arithmetic that the analytics code uses to convert ticks, as exact rationals
  with rounding. A finite double is the rational that it denotes; every operation rounds its exact
  result to 53 significant bits, to nearest with ties to even. The exponent is not bounded: the
  values of this program, quotients and products of 64-bit integers and a power of ten, are far from
  the limits of the format. The sign of zero is not kept, since nothing divides by a computed zero.
\<close>

section \<open>Rounding\<close>

text \<open>The position of the leading bit, and a power of two with any exponent.\<close>

definition pow2 :: "int \<Rightarrow> rat" where
  "pow2 k = (if 0 \<le> k then 2 ^ nat k else 1 / 2 ^ nat (- k))"

definition leading :: "rat \<Rightarrow> int" where
  "leading x = (let (p, q) = quotient_of \<bar>x\<bar>; k = int (floorlog 2 (nat p)) - int (floorlog 2 (nat q)) in
     if pow2 k \<le> \<bar>x\<bar> then k else k - 1)"

definition round_even :: "rat \<Rightarrow> int" where
  "round_even x = (let n = \<lfloor>x\<rfloor>; d = x - of_int n in
     if d < 1 / 2 then n else if d > 1 / 2 then n + 1 else if even n then n else n + 1)"

definition fround :: "rat \<Rightarrow> rat" where
  "fround x = (if x = 0 then 0 else let q = pow2 (leading x - 52) in of_int (round_even (x / q)) * q)"

section \<open>Doubles\<close>

datatype f64 = Finite rat | Infinite bool | NotANumber

definition f64_of_int :: "int \<Rightarrow> f64" where
  "f64_of_int n = Finite (fround (of_int n))"

fun f64_div :: "f64 \<Rightarrow> f64 \<Rightarrow> f64" where
  "f64_div (Finite a) (Finite b) =
     (if b \<noteq> 0 then Finite (fround (a / b)) else if a = 0 then NotANumber else Infinite (a < 0))"
| "f64_div (Finite a) (Infinite s) = Finite 0"
| "f64_div (Infinite s) (Finite b) = Infinite (s \<noteq> (b < 0))"
| "f64_div _ _ = NotANumber"

fun f64_mul :: "f64 \<Rightarrow> f64 \<Rightarrow> f64" where
  "f64_mul (Finite a) (Finite b) = Finite (fround (a * b))"
| "f64_mul (Finite a) (Infinite s) = (if a = 0 then NotANumber else Infinite (s \<noteq> (a < 0)))"
| "f64_mul (Infinite s) (Finite b) = (if b = 0 then NotANumber else Infinite (s \<noteq> (b < 0)))"
| "f64_mul (Infinite s) (Infinite t) = Infinite (s \<noteq> t)"
| "f64_mul _ _ = NotANumber"

fun f64_add :: "f64 \<Rightarrow> f64 \<Rightarrow> f64" where
  "f64_add (Finite a) (Finite b) = Finite (fround (a + b))"
| "f64_add (Finite a) (Infinite s) = Infinite s"
| "f64_add (Infinite s) (Finite b) = Infinite s"
| "f64_add (Infinite s) (Infinite t) = (if s = t then Infinite s else NotANumber)"
| "f64_add _ _ = NotANumber"

text \<open>\<open>f64::round\<close>: to the nearest integer, ties away from zero.\<close>

definition round_away :: "rat \<Rightarrow> int" where
  "round_away x = (if x < 0 then - \<lfloor>- x + 1 / 2\<rfloor> else \<lfloor>x + 1 / 2\<rfloor>)"

fun f64_round :: "f64 \<Rightarrow> f64" where
  "f64_round (Finite x) = Finite (of_int (round_away x))"
| "f64_round (Infinite s) = Infinite s"
| "f64_round NotANumber = NotANumber"

text \<open>\<open>as i64\<close>: toward zero, saturating, and zero for a value that is not a number.\<close>

definition clamp_i64 :: "int \<Rightarrow> int" where
  "clamp_i64 n = max (- (2 ^ 63)) (min (2 ^ 63 - 1) n)"

fun f64_to_i64 :: "f64 \<Rightarrow> i64" where
  "f64_to_i64 (Finite x) = word_of_int (clamp_i64 (if x < 0 then \<lceil>x\<rceil> else \<lfloor>x\<rfloor>))"
| "f64_to_i64 (Infinite s) = word_of_int (if s then - (2 ^ 63) else 2 ^ 63 - 1)"
| "f64_to_i64 NotANumber = 0"

section \<open>Rounding is monotone\<close>

lemma pow2_pos [simp]: "0 < pow2 k"
  by (simp add: pow2_def)

lemma pow2_add1: "pow2 (k + 1) = 2 * pow2 k"
proof (cases "0 \<le> k")
  case True
  then show ?thesis by (simp add: pow2_def nat_add_distrib)
next
  case False
  then have "nat (- k) = Suc (nat (- (k + 1)))" by simp
  then show ?thesis using False by (simp add: pow2_def)
qed

lemma pow2_minus: "pow2 (k - int n) * 2 ^ n = pow2 k"
proof (induction n)
  case (Suc n)
  have "pow2 (k - int n) = 2 * pow2 (k - int (Suc n))" using pow2_add1 [of "k - int (Suc n)"] by (simp add: algebra_simps)
  then show ?case using Suc by simp
qed simp

lemma pow2_mono: "j \<le> k \<Longrightarrow> pow2 j \<le> pow2 k"
proof -
  assume "j \<le> k"
  then obtain n where k: "k = j + int n" using zle_iff_zadd by blast
  have "pow2 j * 1 \<le> pow2 j * 2 ^ n" by (intro mult_left_mono) (simp_all add: less_imp_le)
  also have "pow2 j * 2 ^ n = pow2 k" using pow2_minus [of k n] by (simp add: k)
  finally show ?thesis by simp
qed

lemma pow2_nat: "pow2 (int a) = 2 ^ a"
  by (simp add: pow2_def)

lemma pow2_diff: "pow2 (int a - int b) = 2 ^ a / 2 ^ b"
  using pow2_minus [of "int a" b] pow2_nat [of a] by (simp add: field_simps)

lemma leading_bounds:
  assumes "x \<noteq> 0"
  shows "pow2 (leading x) \<le> \<bar>x\<bar>" and "\<bar>x\<bar> < pow2 (leading x + 1)"
proof -
  obtain p q where pq: "quotient_of \<bar>x\<bar> = (p, q)" by (cases "quotient_of \<bar>x\<bar>")
  have q: "0 < q" using quotient_of_denom_pos [OF pq] .
  have x: "\<bar>x\<bar> = of_int p / of_int q" using quotient_of_div [OF pq] .
  have "0 < (of_int p / of_int q :: rat)" using assms unfolding x [symmetric] by simp
  then have p: "0 < p" using q by (simp add: zero_less_divide_iff)
  define a b where "a = floorlog 2 (nat p)" and "b = floorlog 2 (nat q)"
  have fa: "2 ^ (a - 1) \<le> nat p" "nat p < 2 ^ a" "0 < a"
    using floorlog_bounds [of "nat p" 2] p by (auto simp: a_def floorlog_def)
  have fb: "2 ^ (b - 1) \<le> nat q" "nat q < 2 ^ b" "0 < b"
    using floorlog_bounds [of "nat q" 2] q by (auto simp: b_def floorlog_def)
  have up: "of_int p < (2 ^ a :: rat)" "(of_int q :: rat) < 2 ^ b"
    using fa(2) fb(2) p q by (metis nat_less_iff of_int_less_iff of_int_numeral of_int_power of_nat_numeral of_nat_power less_le)+
  have down: "(2 ^ (a - 1) :: rat) \<le> of_int p" "(2 ^ (b - 1) :: rat) \<le> of_int q"
    using fa(1) fb(1) p q by (metis le_nat_iff of_int_le_iff of_int_numeral of_int_power of_nat_numeral of_nat_power less_le)+
  have two: "(2 :: rat) ^ a = 2 * 2 ^ (a - 1)" "(2 :: rat) ^ b = 2 * 2 ^ (b - 1)"
    using fa(3) fb(3) by (metis Suc_diff_1 power_Suc)+
  let ?k = "int a - int b"
  have "\<bar>x\<bar> < 2 ^ a / 2 ^ (b - 1)" unfolding x using up(1) down(2) p q by (intro frac_less) auto
  then have hi: "\<bar>x\<bar> < pow2 (?k + 1)" unfolding pow2_add1 pow2_diff two(2) by simp
  have "2 ^ (a - 1) / 2 ^ b \<le> \<bar>x\<bar>" unfolding x using up(2) down(1) p q by (intro frac_le) auto
  then have lo: "pow2 (?k - 1) \<le> \<bar>x\<bar>"
    using pow2_add1 [of "?k - 1"] pow2_diff [of a b] two(1) by simp
  have l: "leading x = (if pow2 ?k \<le> \<bar>x\<bar> then ?k else ?k - 1)"
    by (simp add: leading_def pq a_def b_def)
  show "pow2 (leading x) \<le> \<bar>x\<bar>" and "\<bar>x\<bar> < pow2 (leading x + 1)" using hi lo by (simp_all add: l)
qed

lemma round_even_error: "\<bar>of_int (round_even x) - x\<bar> \<le> 1 / 2"
proof -
  have "round_even x = \<lfloor>x\<rfloor> \<and> x - of_int \<lfloor>x\<rfloor> \<le> 1 / 2 \<or> round_even x = \<lfloor>x\<rfloor> + 1 \<and> 1 / 2 \<le> x - of_int \<lfloor>x\<rfloor>"
    unfolding round_even_def Let_def by (auto simp del: of_int_add)
  then show ?thesis unfolding abs_le_iff by (elim disjE conjE) (simp_all only: of_int_add of_int_1, linarith+)
qed

lemma round_even_of_int [simp]: "round_even (of_int n) = n"
  by (simp add: round_even_def)

lemma round_even_mono: "x \<le> y \<Longrightarrow> round_even x \<le> round_even y"
proof (rule ccontr)
  assume xy: "x \<le> y" and "\<not> round_even x \<le> round_even y"
  then have gt: "round_even y + 1 \<le> round_even x" by simp
  have "of_int (round_even x) \<le> x + 1 / 2" "y - 1 / 2 \<le> of_int (round_even y)"
    using round_even_error [of x] round_even_error [of y] unfolding abs_le_iff by linarith+
  moreover have "of_int (round_even y) + 1 \<le> (of_int (round_even x) :: rat)" using gt of_int_le_iff [of "round_even y + 1" "round_even x"] by simp
  ultimately have "x = y" using xy by linarith
  then show False using gt by simp
qed

lemma round_even_neg: "round_even (- x) = - round_even x"
proof -
  define n d where "n = \<lfloor>x\<rfloor>" and "d = x - of_int n"
  have x: "x = of_int n + d" and d: "0 \<le> d" "d < 1" unfolding d_def n_def by (simp_all, linarith)
  show ?thesis
  proof (cases "d = 0")
    case True
    then show ?thesis using x by (simp add: round_even_def)
  next
    case False
    have f: "\<lfloor>- x\<rfloor> = - n - 1" using x d False by (intro floor_unique) simp_all
    have "- x - of_int (- n - 1) = 1 - d" by (simp add: x)
    then show ?thesis unfolding round_even_def Let_def f n_def [symmetric] d_def [symmetric] by auto
  qed
qed

lemma leading_neg [simp]: "leading (- x) = leading x"
  by (simp add: leading_def)

lemma fround_0 [simp]: "fround 0 = 0"
  by (simp add: fround_def)

lemma fround_neg: "fround (- x) = - fround x"
  by (simp add: fround_def Let_def round_even_neg)

lemma fround_between:
  assumes "0 < x"
  shows "pow2 (leading x) \<le> fround x" and "fround x \<le> pow2 (leading x + 1)"
proof -
  let ?q = "pow2 (leading x - 52)"
  have q: "?q * 2 ^ 52 = pow2 (leading x)" "0 < ?q" using pow2_minus [of "leading x" 52] by simp_all
  have x: "pow2 (leading x) \<le> x" "x < pow2 (leading x + 1)" using leading_bounds [of x] assms by simp_all
  have "of_int (2 ^ 52) \<le> x / ?q" using x(1) q by (simp add: field_simps)
  then have lo: "2 ^ 52 \<le> round_even (x / ?q)" using round_even_mono round_even_of_int by metis
  have "x / ?q \<le> of_int (2 ^ 53)" using x(2) q pow2_add1 [of "leading x"] by (simp add: field_simps)
  then have hi: "round_even (x / ?q) \<le> 2 ^ 53" using round_even_mono round_even_of_int by metis
  have f: "fround x = of_int (round_even (x / ?q)) * ?q" using assms by (simp add: fround_def Let_def)
  have "of_int (2 ^ 52) * ?q \<le> fround x" unfolding f using lo q(2) by (intro mult_right_mono) (simp_all only: of_int_le_iff less_imp_le)
  then show "pow2 (leading x) \<le> fround x" using q(1) by (simp add: mult.commute)
  have "fround x \<le> of_int (2 ^ 53) * ?q" unfolding f using hi q(2) by (intro mult_right_mono) (simp_all only: of_int_le_iff less_imp_le)
  then show "fround x \<le> pow2 (leading x + 1)" using q(1) pow2_add1 [of "leading x"] by (simp add: mult.commute)
qed

lemma fround_mono_pos:
  assumes "0 < x" and "x \<le> y"
  shows "fround x \<le> fround y"
proof -
  have y: "0 < y" using assms by simp
  have "leading x \<le> leading y"
  proof (rule ccontr)
    assume "\<not> leading x \<le> leading y"
    then have "pow2 (leading y + 1) \<le> pow2 (leading x)" by (intro pow2_mono) simp
    then show False using leading_bounds [of x] leading_bounds [of y] assms y by simp
  qed
  then consider "leading x = leading y" | "leading x + 1 \<le> leading y" by linarith
  then show ?thesis
  proof cases
    case 1
    have "x / pow2 (leading y - 52) \<le> y / pow2 (leading y - 52)" using assms(2) by (intro divide_right_mono) (simp_all add: less_imp_le)
    then have "round_even (x / pow2 (leading y - 52)) \<le> round_even (y / pow2 (leading y - 52))" by (rule round_even_mono)
    then show ?thesis using 1 assms y by (simp add: fround_def Let_def mult_right_mono less_imp_le)
  next
    case 2
    then show ?thesis using fround_between [OF assms(1)] fround_between [OF y] pow2_mono [OF 2] by linarith
  qed
qed

lemma fround_pos: "0 < x \<Longrightarrow> 0 < fround x"
  using fround_between(1) [of x] pow2_pos [of "leading x"] by linarith

lemma fround_mono: "x \<le> y \<Longrightarrow> fround x \<le> fround y"
proof -
  assume xy: "x \<le> y"
  consider "0 < x" | "y < 0" | "x \<le> 0" "0 \<le> y" by linarith
  then show ?thesis
  proof cases
    case 2
    then show ?thesis using fround_mono_pos [of "- y" "- x"] xy by (simp add: fround_neg)
  next
    case 3
    have "fround x \<le> 0" using 3(1) fround_pos [of "- x"] by (cases "x = 0") (simp_all add: fround_neg)
    moreover have "0 \<le> fround y" using 3(2) fround_pos [of y] by (cases "y = 0") simp_all
    ultimately show ?thesis by simp
  qed (use fround_mono_pos xy in blast)
qed

text \<open>The relative error of one rounding.\<close>

lemma fround_error: "\<bar>fround x - x\<bar> \<le> \<bar>x\<bar> / 2 ^ 53"
proof (cases "x = 0")
  case False
  let ?q = "pow2 (leading x - 52)"
  have q: "?q * 2 ^ 52 = pow2 (leading x)" "0 < ?q" using pow2_minus [of "leading x" 52] by simp_all
  have "fround x - x = (of_int (round_even (x / ?q)) - x / ?q) * ?q" using False less_imp_neq [OF q(2)] by (simp add: fround_def Let_def algebra_simps)
  then have "\<bar>fround x - x\<bar> = \<bar>of_int (round_even (x / ?q)) - x / ?q\<bar> * ?q" using q(2) by (simp only: abs_mult abs_of_pos)
  also have "\<dots> \<le> 1 / 2 * ?q" by (intro mult_right_mono round_even_error) (simp add: less_imp_le)
  also have "1 / 2 * ?q = pow2 (leading x) / 2 ^ 53" using q(1) by simp
  also have "\<dots> \<le> \<bar>x\<bar> / 2 ^ 53" using leading_bounds(1) [OF False] by (intro divide_right_mono) simp_all
  finally show ?thesis .
qed simp

lemma fround_int: "\<bar>n\<bar> \<le> 2 ^ 53 \<Longrightarrow> fround (of_int n) = of_int n"
proof (cases "n = 0")
  case False
  assume n: "\<bar>n\<bar> \<le> 2 ^ 53"
  let ?x = "of_int n :: rat"
  have "leading ?x \<le> 53"
  proof (rule ccontr)
    assume "\<not> leading ?x \<le> 53"
    then have "pow2 54 \<le> \<bar>?x\<bar>" using pow2_mono [of 54 "leading ?x"] leading_bounds(1) [of ?x] False by simp
    moreover have "\<bar>?x\<bar> \<le> 2 ^ 53" using n by (metis of_int_abs of_int_le_iff of_int_numeral of_int_power)
    ultimately show False by (simp add: pow2_def)
  qed
  have "\<exists>m :: int. ?x / pow2 (leading ?x - 52) = of_int m"
  proof (cases "leading ?x \<le> 52")
    case True
    then have "?x / pow2 (leading ?x - 52) = of_int (n * 2 ^ nat (52 - leading ?x))"
      by (cases "leading ?x = 52") (simp_all add: pow2_def)
    then show ?thesis by blast
  next
    case lead: False
    then have "pow2 53 \<le> \<bar>?x\<bar>" using \<open>leading ?x \<le> 53\<close> leading_bounds(1) [of ?x] \<open>n \<noteq> 0\<close> by (cases "leading ?x = 53") auto
    then have "\<bar>n\<bar> = 2 ^ 53" using n by (simp add: pow2_def)
    moreover have "leading ?x = 53" using lead \<open>leading ?x \<le> 53\<close> by simp
    moreover have "n = 2 ^ 53 \<or> n = - (2 ^ 53)" using \<open>\<bar>n\<bar> = 2 ^ 53\<close> by linarith
    ultimately have "?x / pow2 (leading ?x - 52) = of_int (n div 2)" by (auto simp: pow2_def)
    then show ?thesis by blast
  qed
  then obtain m :: int where m: "?x / pow2 (leading ?x - 52) = of_int m" by blast
  then have "of_int m * pow2 (leading ?x - 52) = ?x" by (metis less_irrefl nonzero_eq_divide_eq pow2_pos)
  then show ?thesis using False m by (simp add: fround_def Let_def)
qed simp

lemma round_away_mono: "x \<le> y \<Longrightarrow> round_away x \<le> round_away y"
  unfolding round_away_def by (auto simp: floor_mono) linarith+

lemma round_away_error: "\<bar>of_int (round_away x) - x\<bar> \<le> 1 / 2"
proof (cases "x < 0")
  case True
  then have "round_away x = - \<lfloor>- x + 1 / 2\<rfloor>" by (simp add: round_away_def)
  then show ?thesis unfolding abs_le_iff by (simp only: of_int_minus) linarith
next
  case False
  then have "round_away x = \<lfloor>x + 1 / 2\<rfloor>" by (simp add: round_away_def)
  then show ?thesis unfolding abs_le_iff by (simp only:) linarith
qed

lemma clamp_mono: "m \<le> n \<Longrightarrow> clamp_i64 m \<le> clamp_i64 n"
  by (simp add: clamp_i64_def)

end
