(* ===== verification/Convert_Ticks.thy ===== *)
theory Convert_Ticks
  imports Float64 Dispatch
begin

text \<open>
  From ticks to time (\<open>analytics/src/time.rs\<close>). A date and a duration are numbers of nanoseconds;
  ticks and the results are 64-bit integers that wrap, as in a release build.
\<close>

section \<open>Conversions\<close>

definition NANOS_PER_SEC :: f64 where
  "NANOS_PER_SEC = Finite 1000000000"

record ConvertTicks =
  ct_tick_offset :: i64
  ct_process_start_ns :: i64
  ct_frequency :: i64
  ct_inv_tsc_frequency_ms :: f64
  ct_inv_tsc_frequency_ns :: f64

definition f64_of_i64 :: "i64 \<Rightarrow> f64" where
  "f64_of_i64 n = f64_of_int (sint n)"

definition get_tsc_frequency_inverse_ms :: "i64 \<Rightarrow> f64" where
  "get_tsc_frequency_inverse_ms tsc_frequency = f64_div (Finite 1000) (f64_of_i64 tsc_frequency)"

definition get_tsc_frequency_inverse_ns :: "i64 \<Rightarrow> f64" where
  "get_tsc_frequency_inverse_ns tsc_frequency = f64_div NANOS_PER_SEC (f64_of_i64 tsc_frequency)"

definition get_process_tick_length_ms :: "ProcessInfo \<Rightarrow> f64" where
  "get_process_tick_length_ms process_info = get_tsc_frequency_inverse_ms (pi_tsc_frequency process_info)"

text \<open>\<open>timestamp_nanos_opt().unwrap_or_default()\<close>: zero when the date does not fit.\<close>

definition timestamp_nanos :: "int \<Rightarrow> i64" where
  "timestamp_nanos t = (if - (2 ^ 63) \<le> t \<and> t < 2 ^ 63 then word_of_int t else 0)"

definition from_meta_data :: "i64 \<Rightarrow> i64 \<Rightarrow> i64 \<Rightarrow> ConvertTicks" where
  "from_meta_data start_ticks process_start_ns frequency =
     \<lparr>ct_tick_offset = start_ticks, ct_process_start_ns = process_start_ns, ct_frequency = frequency,
      ct_inv_tsc_frequency_ms = get_tsc_frequency_inverse_ms frequency,
      ct_inv_tsc_frequency_ns = get_tsc_frequency_inverse_ns frequency\<rparr>"

definition ConvertTicks_new :: "ProcessInfo \<Rightarrow> ConvertTicks" where
  "ConvertTicks_new process =
     from_meta_data (pi_start_ticks process) (timestamp_nanos (pi_start_time process)) (pi_tsc_frequency process)"

definition get_time :: "ConvertTicks \<Rightarrow> i64 \<Rightarrow> f64" where
  "get_time ct ts = f64_mul (f64_of_i64 (ts - ct_tick_offset ct)) (ct_inv_tsc_frequency_ms ct)"

text \<open>\<open>num_seconds\<close> and \<open>subsec_nanos\<close> split a duration toward zero.\<close>

definition num_seconds :: "int \<Rightarrow> int" where
  "num_seconds delta = sgn delta * (\<bar>delta\<bar> div 1000000000)"

definition subsec_nanos :: "int \<Rightarrow> int" where
  "subsec_nanos delta = sgn delta * (\<bar>delta\<bar> mod 1000000000)"

definition to_ticks :: "ConvertTicks \<Rightarrow> int \<Rightarrow> i64" where
  "to_ticks ct delta =
     (let seconds = f64_of_int (num_seconds delta);
          seconds' = f64_add seconds (f64_div (f64_of_int (subsec_nanos delta)) NANOS_PER_SEC);
          freq = f64_of_i64 (ct_frequency ct) in
      f64_to_i64 (f64_round (f64_mul seconds' freq)))"

definition ticks_to_nanoseconds :: "ConvertTicks \<Rightarrow> i64 \<Rightarrow> i64" where
  "ticks_to_nanoseconds ct ticks =
     (let delta = f64_of_i64 (ticks - ct_tick_offset ct);
          ns_since_process_start = f64_to_i64 (f64_round (f64_mul delta (ct_inv_tsc_frequency_ns ct))) in
      ct_process_start_ns ct + ns_since_process_start)"

section \<open>Order is kept\<close>

text \<open>The nanoseconds since the start of the process, as the exact integer that the last step clamps.\<close>

definition ns_since_start :: "int \<Rightarrow> int \<Rightarrow> int" where
  "ns_since_start frequency delta = round_away (fround (fround (of_int delta) * fround (1000000000 / fround (of_int frequency))))"

lemma fround_nonneg: "0 \<le> x \<Longrightarrow> 0 \<le> fround x"
  using fround_mono [of 0 x] by simp

lemma inv_frequency: "0 < f \<Longrightarrow> get_tsc_frequency_inverse_ns f' = Finite (fround (1000000000 / fround (of_int f)))"
  if "sint f' = f" for f' :: i64
  using that fround_pos [of "of_int f"]
  by (simp add: get_tsc_frequency_inverse_ns_def NANOS_PER_SEC_def f64_of_i64_def f64_of_int_def)

lemma ticks_to_nanoseconds_eq:
  assumes "0 < sint frequency"
  shows "ticks_to_nanoseconds (from_meta_data start_ticks start_ns frequency) t
    = start_ns + word_of_int (clamp_i64 (ns_since_start (sint frequency) (sint (t - start_ticks))))"
  using inv_frequency [OF refl assms]
  by (simp add: ticks_to_nanoseconds_def from_meta_data_def Let_def f64_of_i64_def f64_of_int_def ns_since_start_def)

lemma ns_since_start_0: "ns_since_start frequency 0 = 0"
  by (simp add: ns_since_start_def round_away_def floor_eq_iff)

lemma ns_since_start_mono:
  assumes "0 < frequency" and "d1 \<le> d2"
  shows "ns_since_start frequency d1 \<le> ns_since_start frequency d2"
proof -
  have "0 \<le> fround (1000000000 / fround (of_int frequency))"
    using assms(1) by (intro fround_nonneg divide_nonneg_nonneg) simp_all
  then have "fround (of_int d1) * fround (1000000000 / fround (of_int frequency))
      \<le> fround (of_int d2) * fround (1000000000 / fround (of_int frequency))"
    using assms(2) by (intro mult_right_mono fround_mono) simp_all
  then show ?thesis unfolding ns_since_start_def by (intro round_away_mono fround_mono)
qed

text \<open>
  C26. The conversion of ticks to nanoseconds keeps the order of events: for a positive frequency and
  events after the start of the process, an event with more ticks never gets an earlier time, as
  long as the times fit the range of 64-bit nanoseconds.
\<close>

theorem ticks_to_nanoseconds_mono:
  assumes "0 < sint frequency" and "sint start_ticks \<le> sint t1" and "sint t1 \<le> sint t2" and "0 \<le> sint start_ticks"
    and "sint start_ns + clamp_i64 (ns_since_start (sint frequency) (sint t2 - sint start_ticks)) < 2 ^ 63"
  shows "sint (ticks_to_nanoseconds (from_meta_data start_ticks start_ns frequency) t1)
    \<le> sint (ticks_to_nanoseconds (from_meta_data start_ticks start_ns frequency) t2)"
proof -
  let ?ns = "\<lambda>t. clamp_i64 (ns_since_start (sint frequency) (sint t - sint start_ticks))"
  have d: "sint (t - start_ticks) = sint t - sint start_ticks" if "sint start_ticks \<le> sint t" for t
  proof -
    have "t - start_ticks = word_of_int (sint t - sint start_ticks)" by simp
    moreover have "sint t < 2 ^ 63" using sint_lt [of t] by simp
    ultimately show ?thesis using that assms(4) by (simp only: sint_i64)
  qed
  have mono: "?ns t1 \<le> ?ns t2" using ns_since_start_mono [OF assms(1)] assms(3) by (intro clamp_mono) simp
  have "0 \<le> ns_since_start (sint frequency) (sint t1 - sint start_ticks)"
    using ns_since_start_mono [OF assms(1), of 0 "sint t1 - sint start_ticks"] assms(2) by (simp add: ns_since_start_0)
  then have pos: "0 \<le> ?ns t1" by (simp add: clamp_i64_def)
  have start: "- (2 ^ 63) \<le> sint start_ns" using sint_ge [of start_ns] by simp
  have val: "sint (ticks_to_nanoseconds (from_meta_data start_ticks start_ns frequency) t) = sint start_ns + ?ns t"
    if "sint start_ticks \<le> sint t" "0 \<le> ?ns t" "?ns t \<le> ?ns t2" for t
  proof -
    have "ticks_to_nanoseconds (from_meta_data start_ticks start_ns frequency) t = word_of_int (sint start_ns + ?ns t)"
      unfolding ticks_to_nanoseconds_eq [OF assms(1)] d [OF that(1)] by simp
    then show ?thesis using that start assms(5) by (simp only: sint_i64)
  qed
  show ?thesis using val [of t1] val [of t2] mono pos assms(2,3) by simp
qed

section \<open>Accuracy\<close>

lemma fround_scaled: "\<exists>e. fround x = x * (1 + e) \<and> \<bar>e\<bar> \<le> 1 / 2 ^ 53"
proof (cases "x = 0")
  case False
  let ?e = "(fround x - x) / x"
  have "\<bar>?e\<bar> = \<bar>fround x - x\<bar> / \<bar>x\<bar>" by simp
  also have "\<dots> \<le> (\<bar>x\<bar> / 2 ^ 53) / \<bar>x\<bar>" by (intro divide_right_mono fround_error) simp
  also have "\<dots> = 1 / 2 ^ 53" using False by simp
  finally have "\<bar>?e\<bar> \<le> 1 / 2 ^ 53" .
  moreover have "fround x = x * (1 + ?e)" using False by (simp add: field_simps)
  ultimately show ?thesis by blast
qed (auto intro: exI [of _ 0])

lemma ns_since_start_accurate:
  assumes "0 < frequency" and "frequency \<le> 2 ^ 53" and "\<bar>delta\<bar> \<le> 2 ^ 53"
  shows "\<bar>of_int (ns_since_start frequency delta) - of_int delta * 1000000000 / of_int frequency\<bar>
    \<le> 1 / 2 + \<bar>of_int delta * 1000000000 / of_int frequency\<bar> / (2 ^ 51 :: rat)"
proof -
  let ?inv = "1000000000 / of_int frequency :: rat" and ?x = "of_int delta * 1000000000 / of_int frequency :: rat"
  have exact: "fround (of_int frequency) = of_int frequency" "fround (of_int delta) = of_int delta"
    using assms by (simp_all add: fround_int)
  obtain e1 where e1: "fround ?inv = ?inv * (1 + e1)" "\<bar>e1\<bar> \<le> 1 / 2 ^ 53" using fround_scaled by blast
  obtain e2 where e2: "fround (of_int delta * fround ?inv) = of_int delta * fround ?inv * (1 + e2)" "\<bar>e2\<bar> \<le> 1 / 2 ^ 53"
    using fround_scaled by blast
  define y where "y = fround (of_int delta * fround ?inv)"
  have "y = of_int delta * fround ?inv * (1 + e2)" unfolding y_def by (rule e2(1))
  also have "\<dots> = of_int delta * (?inv * (1 + e1)) * (1 + e2)" unfolding e1(1) ..
  finally have y: "y - ?x = ?x * (e1 + e2 + e1 * e2)" by (simp add: algebra_simps add_divide_distrib)
  have "\<bar>e1 * e2\<bar> \<le> (1 / 2 ^ 53) * (1 / 2 ^ 53)" unfolding abs_mult by (intro mult_mono e1(2) e2(2)) simp_all
  then have "\<bar>e1 + e2 + e1 * e2\<bar> \<le> 1 / 2 ^ 51"
    using e1(2) e2(2) unfolding abs_le_iff by (simp_all add: field_simps)
  then have "\<bar>y - ?x\<bar> \<le> \<bar>?x\<bar> * (1 / 2 ^ 51)" unfolding y abs_mult by (intro mult_left_mono) simp_all
  moreover have "\<bar>of_int (round_away y) - y\<bar> \<le> 1 / 2" by (rule round_away_error)
  moreover have "ns_since_start frequency delta = round_away y" unfolding ns_since_start_def y_def exact by simp
  ultimately show ?thesis unfolding abs_le_iff by simp
qed

text \<open>
  C27. The conversion is accurate: for a frequency and a number of ticks since the start that a double
  represents exactly, and a time that fits, the result is within half a nanosecond of the exact
  quotient, up to a relative error of at most \<open>2\<^sup>-\<^sup>5\<^sup>1\<close>.
\<close>

theorem ticks_to_nanoseconds_accurate:
  fixes start_ticks start_ns frequency t :: i64
  defines "exact \<equiv> of_int (sint (t - start_ticks)) * 1000000000 / of_int (sint frequency) :: rat"
  assumes "0 < sint frequency" and "sint frequency \<le> 2 ^ 53" and "\<bar>sint (t - start_ticks)\<bar> \<le> 2 ^ 53"
    and "\<bar>exact\<bar> \<le> 2 ^ 61" and "\<bar>sint start_ns\<bar> \<le> 2 ^ 62"
  shows "\<bar>of_int (sint (ticks_to_nanoseconds (from_meta_data start_ticks start_ns frequency) t) - sint start_ns) - exact\<bar>
    \<le> 1 / 2 + \<bar>exact\<bar> / 2 ^ 51"
proof -
  let ?ns = "ns_since_start (sint frequency) (sint (t - start_ticks))"
  have acc: "\<bar>of_int ?ns - exact\<bar> \<le> 1 / 2 + \<bar>exact\<bar> / 2 ^ 51"
    unfolding exact_def by (rule ns_since_start_accurate) (use assms in simp_all)
  then have "\<bar>of_int ?ns :: rat\<bar> < of_int (2 ^ 62)" using assms(5) by simp
  then have ns: "\<bar>?ns\<bar> < 2 ^ 62" unfolding of_int_abs [symmetric] of_int_less_iff .
  then have "clamp_i64 ?ns = ?ns" by (simp add: clamp_i64_def)
  then have "ticks_to_nanoseconds (from_meta_data start_ticks start_ns frequency) t = word_of_int (sint start_ns + ?ns)"
    using ticks_to_nanoseconds_eq [OF assms(2)] by simp
  then have "sint (ticks_to_nanoseconds (from_meta_data start_ticks start_ns frequency) t) = sint start_ns + ?ns"
  proof -
    have "- (2 ^ 63) \<le> sint start_ns + ?ns" "sint start_ns + ?ns < 2 ^ 63" using ns assms(6) unfolding abs_le_iff abs_less_iff by simp_all
    then show ?thesis unfolding \<open>ticks_to_nanoseconds _ t = _\<close> by (rule sint_i64)
  qed
  then show ?thesis using acc by simp
qed

end
