(* ===== verification/Arrow.thy ===== *)
theory Arrow
  imports Convert_Ticks Data_Lake
begin

text \<open>
  The columns that the queries of the analytics library fill. A builder is the list of the values
  appended to it. A dictionary builder gives every distinct value a key of a fixed width and panics
  when it runs out of keys; how many there are is part of the parameter \<open>arrow\<close>. A record batch is
  made of columns of equal length, with their names. A double in a column is its bit pattern.
\<close>

record arrow =
  ar_keys8 :: nat
  ar_keys16 :: nat

definition dict_append :: "nat \<Rightarrow> string \<Rightarrow> string list \<Rightarrow> string list res" where
  "dict_append keys v col =
     (if v \<in> set col \<or> card (set col) < keys then Inr (col @ [v]) else Inl (Panic ''dictionary key overflow''))"

datatype Column =
    TimestampColumn "i64 list"
  | Int64Column "i64 list"
  | Int32Column "u32 list"
  | UInt32Column "u32 list"
  | Float64Column "u64 list"
  | Utf8Column "string list"
  | DictionaryColumn nat "string list"
  | NullableUtf8Column "string option list"
  | Utf8ListColumn "string list list"
  | PropertyListColumn "Property list list"

fun column_len :: "Column \<Rightarrow> nat" where
  "column_len (TimestampColumn c) = length c"
| "column_len (Int64Column c) = length c"
| "column_len (Int32Column c) = length c"
| "column_len (UInt32Column c) = length c"
| "column_len (Float64Column c) = length c"
| "column_len (Utf8Column c) = length c"
| "column_len (DictionaryColumn k c) = length c"
| "column_len (NullableUtf8Column c) = length c"
| "column_len (Utf8ListColumn c) = length c"
| "column_len (PropertyListColumn c) = length c"

type_synonym RecordBatch = "(string \<times> Column) list"

text \<open>\<open>RecordBatch::try_new\<close>\<close>

definition batch_try_new :: "RecordBatch \<Rightarrow> RecordBatch res" where
  "batch_try_new cols =
     (if (\<forall>c \<in> set cols. column_len (snd c) = column_len (snd (hd cols))) then Inr cols
      else Inl (Err ''building record batch''))"

lemma dict_append_ok: "card (set (col @ [v])) \<le> keys \<Longrightarrow> dict_append keys v col = Inr (col @ [v])"
  by (cases "v \<in> set col") (simp_all add: dict_append_def)

section \<open>Loops over blocks\<close>

text \<open>A \<open>for\<close> loop whose body reads the lake and may end the loop early.\<close>

fun for_io :: "('s \<Rightarrow> 'b \<Rightarrow> ('l, 's \<times> bool) io) \<Rightarrow> 's \<Rightarrow> 'b list \<Rightarrow> ('l, 's) io" where
  "for_io body s [] = pure_io (Inr s)"
| "for_io body s (b # bs) = bind_io (body s b) (\<lambda>(s', continue). if continue then for_io body s' bs else pure_io (Inr s'))"

lemma take_take_append: "take n (take n xs @ ys) = take n (xs @ ys)"
  by (cases "n \<le> length xs") simp_all

end
