(* ===== verification/Row_Scan.thy ===== *)
theory Row_Scan
  imports Arrow
begin

text \<open>
  What the queries of the analytics library have in common: the values of a block are turned into
  rows, rows before the range are skipped, reading stops at the first row after it, and at most
  \<open>lim\<close> rows are kept. The locale states what one step of such a query does to the rows that were
  collected so far; its lemmas say what is collected from a block and from a sequence of blocks.
\<close>

section \<open>Rows in a range\<close>

definition rows_in_range :: "('r \<Rightarrow> i64) \<Rightarrow> i64 \<Rightarrow> i64 \<Rightarrow> 'r list \<Rightarrow> 'r list" where
  "rows_in_range time t1 t2 rs = filter (\<lambda>r. sint t1 \<le> sint (time r)) (takeWhile (\<lambda>r. sint (time r) \<le> sint t2) rs)"

lemma rows_in_range_Nil [simp]: "rows_in_range time t1 t2 [] = []"
  by (simp add: rows_in_range_def)

lemma rows_in_range_Cons: "rows_in_range time t1 t2 (r # rs) =
    (if sint t2 < sint (time r) then [] else if sint t1 \<le> sint (time r) then r # rows_in_range time t1 t2 rs else rows_in_range time t1 t2 rs)"
  by (simp add: rows_in_range_def)

lemma rows_in_range_subset: "set (rows_in_range time t1 t2 rs) \<subseteq> set rs"
  by (auto simp: rows_in_range_def dest!: set_takeWhileD)

lemma rows_in_empty_range: "sint t2 < sint t1 \<Longrightarrow> rows_in_range time t1 t2 rs = []"
  by (auto simp: rows_in_range_def filter_empty_conv dest!: set_takeWhileD)

lemma rows_in_range_append: "rows_in_range time t1 t2 (rs @ rs') =
    (if \<exists>r \<in> set rs. sint t2 < sint (time r) then rows_in_range time t1 t2 rs
     else rows_in_range time t1 t2 rs @ rows_in_range time t1 t2 rs')"
  by (induction rs) (auto simp: rows_in_range_Cons)

lemma rows_in_range_sorted:
  "sorted (map (\<lambda>r. sint (time r)) rs) \<Longrightarrow>
     rows_in_range time t1 t2 rs = filter (\<lambda>r. sint t1 \<le> sint (time r) \<and> sint (time r) \<le> sint t2) rs"
proof (induction rs)
  case (Cons r rs)
  show ?case
  proof (cases "sint (time r) \<le> sint t2")
    case True
    then show ?thesis using Cons by (simp add: rows_in_range_Cons)
  next
    case False
    then have "\<forall>x \<in> set rs. \<not> sint (time x) \<le> sint t2" using Cons.prems by auto
    then show ?thesis using False by (auto simp: rows_in_range_Cons filter_empty_conv)
  qed
qed simp

lemma rows_in_range_blocks:
  "sorted (map (\<lambda>r. sint (time r)) (concat rss)) \<Longrightarrow> concat (map (rows_in_range time t1 t2) rss)
     = filter (\<lambda>r. sint t1 \<le> sint (time r) \<and> sint (time r) \<le> sint t2) (concat rss)"
proof (induction rss)
  case (Cons rs rss)
  then show ?case using rows_in_range_sorted [of time rs t1 t2] by (simp add: sorted_append)
qed simp

text \<open>A counter that does not exceed a limit that fits into an \<open>i64\<close>.\<close>

lemma sint_count:
  assumes "n \<le> nat (sint (limit :: i64))"
  shows "sint (word_of_nat n :: i64) = int n"
proof -
  have "int n < 2 ^ 63" using assms sint_lt [of limit] by (cases "0 \<le> sint limit") auto
  then show ?thesis using sint_i64 [of "int n"] by simp
qed

lemma take_le: "length (take n xs) \<le> n"
  by simp

section \<open>A scan over blocks\<close>

locale row_scan =
  fixes builder :: "'r list \<Rightarrow> 's" and step :: "'s \<Rightarrow> 'r \<Rightarrow> ('s \<times> bool) res"
    and time :: "'r \<Rightarrow> i64" and t1 t2 :: i64 and lim :: nat and fits :: "'r list \<Rightarrow> bool"
  assumes fits_subset: "fits ys \<Longrightarrow> set xs \<subseteq> set ys \<Longrightarrow> fits xs"
    and step_row: "length rows \<le> lim \<Longrightarrow> fits (rows @ [r]) \<Longrightarrow>
      rows' = (if sint t1 \<le> sint (time r) \<and> sint (time r) \<le> sint t2 \<and> length rows < lim then rows @ [r] else rows) \<Longrightarrow>
      \<exists>c. step (builder rows) r = Inr (builder rows', c)
        \<and> (c \<longrightarrow> sint (time r) \<le> sint t2 \<or> sint t2 < sint t1) \<and> (\<not> c \<longrightarrow> sint t2 < sint (time r) \<or> lim \<le> length rows')"
begin

abbreviation selected :: "'r list \<Rightarrow> 'r list" where
  "selected \<equiv> rows_in_range time t1 t2"

lemma feed_rows:
  assumes "length rows \<le> lim" and "fits (rows @ rs)"
  shows "\<exists>c. feed step (builder rows) rs = Inr (builder (take lim (rows @ selected rs)), c)
    \<and> (c \<longrightarrow> (\<forall>r \<in> set rs. sint (time r) \<le> sint t2) \<or> sint t2 < sint t1)
    \<and> (\<not> c \<longrightarrow> (\<exists>r \<in> set rs. sint t2 < sint (time r)) \<or> lim \<le> length (rows @ selected rs))"
  using assms
proof (induction rs arbitrary: rows)
  case Nil
  then show ?case by auto
next
  case (Cons r rs)
  define rows' where "rows' = (if sint t1 \<le> sint (time r) \<and> sint (time r) \<le> sint t2 \<and> length rows < lim then rows @ [r] else rows)"
  have "fits (rows @ [r])" by (rule fits_subset [OF Cons.prems(2)]) auto
  from step_row [OF Cons.prems(1) this rows'_def] obtain c where
    c: "step (builder rows) r = Inr (builder rows', c)" "c \<longrightarrow> sint (time r) \<le> sint t2 \<or> sint t2 < sint t1"
      "\<not> c \<longrightarrow> sint t2 < sint (time r) \<or> lim \<le> length rows'" by blast
  have le: "length rows' \<le> lim" using Cons.prems(1) by (auto simp: rows'_def)
  have fits: "fits (rows' @ rs)" by (rule fits_subset [OF Cons.prems(2)]) (auto simp: rows'_def split: if_splits)
  have taken: "take lim (rows @ selected (r # rs)) = take lim (rows' @ selected rs)"
    if "sint (time r) \<le> sint t2 \<or> sint t2 < sint t1"
    using that Cons.prems(1) rows_in_empty_range [of t2 t1 time]
    by (cases "length rows < lim") (auto simp: rows'_def rows_in_range_Cons take_Cons' Suc_diff_Suc)
  show ?case
  proof (cases c)
    case True
    obtain c' where "feed step (builder rows') rs = Inr (builder (take lim (rows' @ selected rs)), c')"
      "c' \<longrightarrow> (\<forall>r \<in> set rs. sint (time r) \<le> sint t2) \<or> sint t2 < sint t1"
      "\<not> c' \<longrightarrow> (\<exists>r \<in> set rs. sint t2 < sint (time r)) \<or> lim \<le> length (rows' @ selected rs)"
      using Cons.IH [OF le fits] by blast
    moreover have "length (rows' @ selected rs) \<le> length (rows @ selected (r # rs))"
      using True c(2) rows_in_empty_range [of t2 t1 time] by (auto simp: rows'_def rows_in_range_Cons)
    ultimately show ?thesis using c True taken by (auto simp: not_le simp del: take_append)
  next
    case False
    have "take lim (rows @ selected (r # rs)) = rows'"
    proof (cases "sint (time r) \<le> sint t2")
      case True
      then have "length rows' = lim" using c(3) False le by auto
      then show ?thesis using taken True by simp
    qed (use Cons.prems(1) in \<open>simp add: rows'_def rows_in_range_Cons\<close>)
    moreover have "sint t2 < sint (time r) \<or> lim \<le> length (rows @ selected (r # rs))"
      using c(3) False by (auto simp: rows'_def rows_in_range_Cons split: if_splits)
    ultimately show ?thesis using c(1) False by auto
  qed
qed

text \<open>Blocks that are read one after the other, all of them.\<close>

lemma scan_all_blocks:
  assumes body: "\<And>s b rs l. reads l b rs \<Longrightarrow> body s b l = (case feed step s rs of
        Inl e \<Rightarrow> (Inl e, called l) | Inr (s', _) \<Rightarrow> (Inr (s', True), called l))"
    and called: "\<And>l. reads (called l) = reads l"
    and "list_all2 (reads l) bs rss" and "length rows \<le> lim" and "fits (rows @ concat rss)"
  shows "\<exists>l'. for_io body (builder rows) bs l = (Inr (builder (take lim (rows @ concat (map selected rss)))), l')"
  using assms(3-5)
proof (induction bs arbitrary: rss rows l)
  case Nil
  then show ?case by (simp add: pure_io_def)
next
  case (Cons b bs)
  obtain rs rss' where rss: "rss = rs # rss'" "reads l b rs" "list_all2 (reads l) bs rss'"
    using Cons.prems(1) by (auto simp: list_all2_Cons1)
  have "fits (rows @ rs)" by (rule fits_subset [OF Cons.prems(3)]) (auto simp: rss(1))
  from feed_rows [OF Cons.prems(2) this] obtain c where
    c: "feed step (builder rows) rs = Inr (builder (take lim (rows @ selected rs)), c)" by blast
  have l1: "body (builder rows) b l = (Inr (builder (take lim (rows @ selected rs)), True), called l)"
    using body [OF rss(2), of "builder rows"] c by simp
  have "list_all2 (reads (called l)) bs rss'" using rss(3) by (simp add: called)
  moreover have "fits (take lim (rows @ selected rs) @ concat rss')"
    by (rule fits_subset [OF Cons.prems(3)]) (use rows_in_range_subset [of time t1 t2 rs] in \<open>auto simp: rss(1) dest!: in_set_takeD\<close>)
  ultimately obtain l' where "for_io body (builder (take lim (rows @ selected rs))) bs (called l)
      = (Inr (builder (take lim (take lim (rows @ selected rs) @ concat (map selected rss')))), l')"
    using Cons.IH [OF _ take_le] by blast
  then show ?case using l1 unfolding take_take_append by (simp add: bind_io_def rss(1) del: take_append)
qed

text \<open>Blocks that are read until reading stops.\<close>

lemma scan_blocks:
  assumes body: "\<And>s b rs l. reads l b rs \<Longrightarrow> body s b l = (feed step s rs, called l)"
    and called: "\<And>l. reads (called l) = reads l"
    and "list_all2 (reads l) bs rss" and "length rows \<le> lim" and "fits (rows @ concat rss)"
  shows "\<exists>l'. for_io body (builder rows) bs l = (Inr (builder (take lim (rows @ selected (concat rss)))), l')"
  using assms(3-5)
proof (induction bs arbitrary: rss rows l)
  case Nil
  then show ?case by (simp add: pure_io_def)
next
  case (Cons b bs)
  obtain rs rss' where rss: "rss = rs # rss'" "reads l b rs" "list_all2 (reads l) bs rss'"
    using Cons.prems(1) by (auto simp: list_all2_Cons1)
  have "fits (rows @ rs)" by (rule fits_subset [OF Cons.prems(3)]) (auto simp: rss(1))
  from feed_rows [OF Cons.prems(2) this] obtain c where
    c: "feed step (builder rows) rs = Inr (builder (take lim (rows @ selected rs)), c)"
      "c \<longrightarrow> (\<forall>r \<in> set rs. sint (time r) \<le> sint t2) \<or> sint t2 < sint t1"
      "\<not> c \<longrightarrow> (\<exists>r \<in> set rs. sint t2 < sint (time r)) \<or> lim \<le> length (rows @ selected rs)" by blast
  have l1: "body (builder rows) b l = (Inr (builder (take lim (rows @ selected rs)), c), called l)"
    using body [OF rss(2), of "builder rows"] c(1) by simp
  show ?case
  proof (cases c)
    case True
    have "list_all2 (reads (called l)) bs rss'" using rss(3) by (simp add: called)
    moreover have "fits (take lim (rows @ selected rs) @ concat rss')"
      by (rule fits_subset [OF Cons.prems(3)]) (use rows_in_range_subset [of time t1 t2 rs] in \<open>auto simp: rss(1) dest!: in_set_takeD\<close>)
    ultimately obtain l' where "for_io body (builder (take lim (rows @ selected rs))) bs (called l)
        = (Inr (builder (take lim (take lim (rows @ selected rs) @ selected (concat rss')))), l')"
      using Cons.IH [OF _ take_le] by blast
    moreover have "rows @ selected rs @ selected (concat rss') = rows @ selected (concat rss)"
      using c(2) True rows_in_empty_range [of t2 t1 time] by (auto simp: rss(1) rows_in_range_append)
    ultimately show ?thesis using l1 True unfolding take_take_append by (simp add: bind_io_def del: take_append)
  next
    case False
    then have "take lim (rows @ selected (concat rss)) = take lim (rows @ selected rs)"
      using c(3) by (auto simp: rss(1) rows_in_range_append)
    then show ?thesis using l1 False by (simp add: bind_io_def pure_io_def)
  qed
qed

end

section \<open>Blocks that read as given values\<close>

text \<open>The payload of the block is in the lake, and parsing it shows the given values to the function.\<close>

definition block_reads ::
  "nat \<Rightarrow> lake_env \<Rightarrow> lake \<Rightarrow> StreamInfo \<Rightarrow> ('s \<Rightarrow> Value \<Rightarrow> ('s \<times> bool) res) \<Rightarrow> BlockMetadata \<Rightarrow> Value list \<Rightarrow> bool" where
  "block_reads stack env l stream f block vals \<longleftrightarrow>
     (\<exists>p. stored env l (si_process_id stream, si_stream_id stream, bm_block_id block) = Some p
       \<and> (\<forall>s. parse_block stack (le_wire env) stream p f s = feed f s vals))"

definition counted :: "lake \<Rightarrow> lake" where
  "counted l = l\<lparr>la_calls := la_calls l + 1\<rparr>"

lemma block_reads_calls [simp]:
  "block_reads stack env (l\<lparr>la_calls := n\<rparr>) stream f = block_reads stack env l stream f"
  "block_reads stack env (counted l) stream f = block_reads stack env l stream f"
  by (simp_all add: block_reads_def fun_eq_iff stored_def counted_def)

text \<open>The block reads as the given rows: each value is one of the events, whose row goes to \<open>step\<close>.\<close>

definition rows_read ::
  "nat \<Rightarrow> lake_env \<Rightarrow> StreamInfo \<Rightarrow> ('s \<Rightarrow> Value \<Rightarrow> ('s \<times> bool) res) \<Rightarrow> ('e \<Rightarrow> Value) \<Rightarrow> ('e \<Rightarrow> 'r) \<Rightarrow> lake \<Rightarrow> BlockMetadata
    \<Rightarrow> 'r list \<Rightarrow> bool" where
  "rows_read stack env stream f meaning row l block rs \<longleftrightarrow>
     (\<exists>es. rs = map row es \<and> block_reads stack env l stream f block (map meaning es))"

lemma rows_read_calls: "rows_read stack env stream f meaning row (counted l) = rows_read stack env stream f meaning row l"
  by (simp add: rows_read_def fun_eq_iff)

lemma rows_read_blocks:
  "list_all2 (\<lambda>b es. block_reads stack env l stream f b (map meaning es)) bs ess \<Longrightarrow>
     list_all2 (rows_read stack env stream f meaning row l) bs (map (map row) ess)"
  unfolding list_all2_map2 by (erule list_all2_mono) (auto simp: rows_read_def)

lemma feed_values:
  assumes "\<And>s e. f s (meaning e) = step s (row e)"
  shows "feed f s (map meaning es) = feed step s (map row es)"
proof (induction es arbitrary: s)
  case (Cons e es)
  then show ?case by (cases "step s (row e)") (auto simp: assms)
qed simp

lemma fetch_rows:
  assumes "reliable env" and "rows_read stack env stream f meaning row l b rs" and "\<And>s e. f s (meaning e) = step s (row e)"
  shows "\<exists>p. fetch_block_payload env (si_process_id stream) (si_stream_id stream) (bm_block_id b) l = (Inr p, counted l)
    \<and> (\<forall>s. parse_block stack (le_wire env) stream p f s = feed step s rs)"
  using assms(2) fetch_stored [OF assms(1)] feed_values [of f meaning step row, OF assms(3)]
  by (auto simp: rows_read_def block_reads_def counted_def)

end
