(* ===== verification/Pipeline.thy ===== *)
theory Pipeline
  imports Stream_Identity Ingestion Row_Scan
begin

text \<open>
  From the dispatcher of a process to the answer of a query: the calls of the sink become messages,
  the messages requests, the requests rows and payloads of the lake, and the query finds the rows of
  the stream, reads their payloads and returns one row per event.
\<close>

section \<open>Messages and rows\<close>

definition sent_events :: "http_env \<Rightarrow> sink_call list \<Rightarrow> SinkEvent list" where
  "sent_events henv calls = concat (map (\<lambda>c. case event_of_call henv c of None \<Rightarrow> [] | Some e \<Rightarrow> [e]) calls)"

text \<open>A row of the table of blocks that stands for a message, with the payload in the store.\<close>

definition in_lake :: "lake_env \<Rightarrow> http_env \<Rightarrow> ProcessInfo \<Rightarrow> lake \<Rightarrow> SinkEvent \<Rightarrow> BlockRow \<Rightarrow> bool" where
  "in_lake env henv info l e r \<longleftrightarrow> (\<exists>blk. block_of_event henv info e blk \<and> row_of env blk r
     \<and> stored env l (block_key blk) = Some (bl_payload blk))"

lemma request_blocks:
  assumes "server_ok env henv" and "list_all2 (answered henv info) es rqs"
  shows "list_all2 (block_of_event henv info) (block_events es) (concat (map (request_block (le_wire env) (he_addr henv)) rqs))"
  using assms(2)
proof (induction es rqs rule: list_all2_induct)
  case Nil
  then show ?case by (simp add: block_events_def)
next
  case (Cons e es rq rqs)
  have w: "wire_ok (he_wire henv)" "he_wire henv = le_wire env" using assms(1) by (simp_all add: server_ok_def)
  show ?case
  proof (cases "carried e")
    case Nil
    then have "request_block (le_wire env) (he_addr henv) rq = []"
      using Cons.hyps(1) by (cases e) (auto simp: answered_def insert_url_def request_block_def)
    then show ?thesis using Cons.IH Nil by (simp add: block_events_def)
  next
    case (Cons b bs)
    then have "carried e = [b]" by (cases e) auto
    from answered_block [OF w(1) \<open>answered henv info e rq\<close> this] show ?thesis using \<open>carried e = [b]\<close> Cons.IH w(2) by (auto simp: block_events_def)
  qed
qed

lemma lake_rows:
  assumes "server_ok env henv" and "list_all2 (answered henv info) es rqs" and "lake_holds env henv es rqs l"
  shows "list_all2 (in_lake env henv info l) (block_events es) (la_blocks l)"
proof -
  let ?blks = "concat (map (request_block (le_wire env) (he_addr henv)) rqs)"
  have "list_all2 (block_of_event henv info) (block_events es) ?blks" by (rule request_blocks [OF assms(1,2)])
  moreover have "list_all2 (row_of env) ?blks (la_blocks l)" using assms(3) unfolding lake_holds_def by (elim conjE)
  moreover have "\<forall>blk \<in> set ?blks. stored env l (block_key blk) = Some (bl_payload blk)"
    using assms(3) unfolding lake_holds_def list_all_iff by (elim conjE)
  ultimately show ?thesis
    unfolding list_all2_conv_all_nth in_lake_def by (metis nth_mem)
qed

lemma list_all2_filter:
  "list_all2 R xs ys \<Longrightarrow> (\<And>x y. R x y \<Longrightarrow> P x = Q y) \<Longrightarrow> list_all2 R (filter P xs) (filter Q ys)"
  by (induction rule: list_all2_induct) auto

section \<open>The blocks of one stream\<close>

definition of_stream :: "uuid \<Rightarrow> SinkEvent \<Rightarrow> bool" where
  "of_stream sid e \<longleftrightarrow> (\<exists>b. carried e = [b] \<and> eb_stream_id b = sid)"

lemma in_lake_stream: "in_lake env henv info l e r \<Longrightarrow> of_stream sid e = (bw_stream_id r = sid)"
  by (auto simp: in_lake_def of_stream_def block_of_event_def carries_def row_of_def block_key_def)

lemma stream_rows:
  assumes "list_all2 (in_lake env henv info l) (block_events es) (la_blocks l)"
  shows "list_all2 (in_lake env henv info l) (filter (of_stream sid) es) (filter (\<lambda>r. bw_stream_id r = sid) (la_blocks l))"
proof -
  have "filter (of_stream sid) (block_events es) = filter (of_stream sid) es"
    unfolding block_events_def filter_filter by (rule filter_cong) (auto simp: of_stream_def)
  moreover have "list_all2 (in_lake env henv info l) (filter (of_stream sid) (block_events es)) (filter (\<lambda>r. bw_stream_id r = sid) (la_blocks l))"
    by (rule list_all2_filter [OF assms in_lake_stream])
  ultimately show ?thesis by simp
qed

lemma list_all2_right: "list_all2 R xs ys \<Longrightarrow> y \<in> set ys \<Longrightarrow> \<exists>x \<in> set xs. R x y"
  by (induction rule: list_all2_induct) auto

lemma list_all2_map_eq: "list_all2 R xs ys \<Longrightarrow> (\<And>x y. R x y \<Longrightarrow> f x = g y) \<Longrightarrow> map g ys = map f xs"
  by (induction rule: list_all2_induct) auto

text \<open>The rows that the query finds, when the range covers them all and they are in the order of their ticks.\<close>

definition ticks_cover :: "ProcessInfo \<Rightarrow> i64 \<Rightarrow> i64 \<Rightarrow> EventBlock list \<Rightarrow> bool" where
  "ticks_cover info begin_ticks end_ticks bs \<longleftrightarrow>
     sorted (map (\<lambda>b. sint (dt_ticks (eb_begin b) - pi_start_ticks info)) bs)
     \<and> (\<forall>b \<in> set bs. sint (dt_ticks (eb_begin b) - pi_start_ticks info) \<le> sint end_ticks
         \<and> (\<forall>t. eb_end b = Some t \<longrightarrow> sint begin_ticks \<le> sint (dt_ticks t - pi_start_ticks info)))"

lemma covered_rows:
  assumes "\<And>b. carried (wrap b) = [b]"
    and "list_all2 (\<lambda>b. in_lake env henv info l (wrap b)) bs (filter (\<lambda>r. bw_stream_id r = sid) (la_blocks l))"
    and "ticks_cover info begin_ticks end_ticks bs"
  shows "sort_key (\<lambda>r. sint (bw_begin_ticks r)) (filter (\<lambda>r. bw_stream_id r = sid \<and> sint (bw_begin_ticks r) \<le> sint end_ticks
      \<and> sint (bw_end_ticks r) \<ge> sint begin_ticks) (la_blocks l)) = filter (\<lambda>r. bw_stream_id r = sid) (la_blocks l)"
proof -
  let ?rows = "filter (\<lambda>r. bw_stream_id r = sid) (la_blocks l)"
  have ticks: "bw_begin_ticks r = dt_ticks (eb_begin b) - pi_start_ticks info
      \<and> (\<exists>t. eb_end b = Some t \<and> bw_end_ticks r = dt_ticks t - pi_start_ticks info)"
    if "in_lake env henv info l (wrap b) r" for b r
    using that assms(1) by (auto simp: in_lake_def block_of_event_def carries_def row_of_def)
  have keys: "map (\<lambda>r. sint (bw_begin_ticks r)) ?rows = map (\<lambda>b. sint (dt_ticks (eb_begin b) - pi_start_ticks info)) bs"
    by (rule list_all2_map_eq [OF assms(2)]) (use ticks in auto)
  have "sint (bw_begin_ticks r) \<le> sint end_ticks \<and> sint (bw_end_ticks r) \<ge> sint begin_ticks" if r: "r \<in> set ?rows" for r
  proof -
    obtain b where "b \<in> set bs" "in_lake env henv info l (wrap b) r"
      using list_all2_right [OF assms(2) r] by blast
    with ticks [of b r] assms(3) show ?thesis unfolding ticks_cover_def by auto
  qed
  then have "filter (\<lambda>r. bw_stream_id r = sid \<and> sint (bw_begin_ticks r) \<le> sint end_ticks
      \<and> sint (bw_end_ticks r) \<ge> sint begin_ticks) (la_blocks l) = ?rows" by (intro filter_cong) auto
  moreover have "sorted (map (\<lambda>r. sint (bw_begin_ticks r)) ?rows)" unfolding keys using assms(3) by (simp add: ticks_cover_def)
  ultimately show ?thesis by (simp add: sort_key_id_if_sorted)
qed

section \<open>What a query finds of a stream\<close>

definition query_ticks :: "lake_env \<Rightarrow> ProcessInfo \<Rightarrow> ConvertTicks" where
  "query_ticks env info = ConvertTicks_new (info\<lparr>pi_start_time := le_timestamptz env (pi_start_time info)\<rparr>)"

definition query_tick :: "lake_env \<Rightarrow> ProcessInfo \<Rightarrow> int \<Rightarrow> i64" where
  "query_tick env info t = to_ticks (query_ticks env info) (t - le_timestamptz env (pi_start_time info))"

text \<open>
  What a process sent of one stream: it announced itself first, the first announcement of the identifier
  is that of the stream, the messages of the stream carry the given blocks, and these name both.
\<close>

definition stream_sent ::
  "http_env \<Rightarrow> ProcessInfo \<Rightarrow> (EventBlock \<Rightarrow> SinkEvent) \<Rightarrow> StreamInfo \<Rightarrow> EventBlock list \<Rightarrow> SinkEvent list \<Rightarrow> bool" where
  "stream_sent henv info wrap stream bs es \<longleftrightarrow> (\<exists>rest. es = Startup info # rest)
     \<and> (\<exists>ss. filter (\<lambda>s. si_stream_id s = si_stream_id stream) (concat (map opened es)) = stream # ss)
     \<and> filter (of_stream (si_stream_id stream)) es = map wrap bs
     \<and> si_process_id stream = pi_process_id info
     \<and> (\<forall>b \<in> set bs. eb_stream_id b = si_stream_id stream \<and> eb_process_id b = pi_process_id info)"

lemma list_all2_filter_hd:
  assumes "list_all2 R xs ys" and "\<And>x y. R x y \<Longrightarrow> P x = Q y" and "filter P xs = x # xs'"
  shows "\<exists>y ys'. filter Q ys = y # ys' \<and> R x y"
proof -
  have "list_all2 R (filter P xs) (filter Q ys)" by (rule list_all2_filter [OF assms(1)]) (rule assms(2))
  then show ?thesis using assms(3) by (auto simp: list_all2_Cons1)
qed

lemma stream_found:
  assumes "server_ok env henv" and "list_all2 (answered henv info) es rqs" and "lake_holds env henv es rqs l"
    and "stream_sent henv info wrap stream bs es" and "\<And>b. carried (wrap b) = [b]" and "ticks_cover info begin_ticks end_ticks bs"
  shows "find_stream env (si_stream_id stream) (l\<lparr>la_calls := n\<rparr>) = (Inr stream, l\<lparr>la_calls := n + 1\<rparr>)"
    and "find_process env (pi_process_id info) (l\<lparr>la_calls := n\<rparr>)
      = (Inr (info\<lparr>pi_start_time := le_timestamptz env (pi_start_time info)\<rparr>), l\<lparr>la_calls := n + 1\<rparr>)"
    and "\<exists>rows. list_all2 (\<lambda>b. in_lake env henv info l (wrap b)) bs rows
      \<and> (\<forall>n. find_stream_blocks_in_range env (si_stream_id stream) begin_ticks end_ticks (l\<lparr>la_calls := n\<rparr>)
          = (Inr (map map_row_block rows), l\<lparr>la_calls := n + 1\<rparr>))"
proof -
  have rel: "reliable env" using assms(1) by (simp add: server_ok_def)
  obtain rest where es: "es = Startup info # rest" using assms(4) by (auto simp: stream_sent_def)
  obtain p ps where p: "la_processes l = p # ps" "process_row env info p"
    using assms(3) unfolding lake_holds_def es by (auto simp: list_all2_Cons1)
  have "pw_process_id p = pi_process_id info"
    using p(2) by (auto simp: process_row_def process_from_row_def dest: arg_cong [where f = pi_process_id])
  then show "find_process env (pi_process_id info) (l\<lparr>la_calls := n\<rparr>)
      = (Inr (info\<lparr>pi_start_time := le_timestamptz env (pi_start_time info)\<rparr>), l\<lparr>la_calls := n + 1\<rparr>)"
    using p find_process_row [OF rel _ p(2), of "pi_process_id info" "l\<lparr>la_calls := n\<rparr>"] by simp
  have "list_all2 (stream_row env) (concat (map opened es)) (la_streams l)" using assms(3) by (simp add: lake_holds_def)
  moreover obtain ss where "filter (\<lambda>s. si_stream_id s = si_stream_id stream) (concat (map opened es)) = stream # ss"
    using assms(4) by (auto simp: stream_sent_def)
  ultimately obtain r rs where r: "filter (\<lambda>r. sw_stream_id r = si_stream_id stream) (la_streams l) = r # rs" "stream_row env stream r"
    using list_all2_filter_hd [of "stream_row env" "concat (map opened es)" "la_streams l" "\<lambda>s. si_stream_id s = si_stream_id stream"
        "\<lambda>r. sw_stream_id r = si_stream_id stream" stream ss]
    by (force simp: stream_row_def)
  show "find_stream env (si_stream_id stream) (l\<lparr>la_calls := n\<rparr>) = (Inr stream, l\<lparr>la_calls := n + 1\<rparr>)"
    using find_stream_row [OF rel _ r(2) refl, of "l\<lparr>la_calls := n\<rparr>"] r(1) by simp
  let ?rows = "filter (\<lambda>r. bw_stream_id r = si_stream_id stream) (la_blocks l)"
  have "list_all2 (in_lake env henv info l) (map wrap bs) ?rows"
    using stream_rows [OF lake_rows [OF assms(1-3)], of "si_stream_id stream"] assms(4) by (simp add: stream_sent_def)
  then have rows: "list_all2 (\<lambda>b. in_lake env henv info l (wrap b)) bs ?rows" by (simp add: list_all2_map1)
  have "find_stream_blocks_in_range env (si_stream_id stream) begin_ticks end_ticks (l\<lparr>la_calls := n\<rparr>)
      = (Inr (map map_row_block ?rows), l\<lparr>la_calls := n + 1\<rparr>)" for n
    using covered_rows [OF assms(5) rows assms(6)] rel by (simp add: find_stream_blocks_in_range_def fetch_all_def) (simp add: bind_io_def)
  then show "\<exists>rows. list_all2 (\<lambda>b. in_lake env henv info l (wrap b)) bs rows
      \<and> (\<forall>n. find_stream_blocks_in_range env (si_stream_id stream) begin_ticks end_ticks (l\<lparr>la_calls := n\<rparr>)
          = (Inr (map map_row_block rows), l\<lparr>la_calls := n + 1\<rparr>))" using rows by blast
qed

text \<open>Blocks whose rows are in the lake read as their events, when the events of one block do.\<close>

lemma blocks_read:
  assumes "server_ok env henv" and "stream_sent henv info wrap stream bs es" and "\<And>b. carried (wrap b) = [b]"
    and "list_all2 (\<lambda>b. in_lake env henv info l (wrap b)) bs rows" and "list_all2 (\<lambda>b. represents (eb_events b)) bs ess"
    and parses: "\<And>b es blk s. represents (eb_events b) es \<Longrightarrow> (\<exists>pre post. concat ess = pre @ es @ post) \<Longrightarrow> block_of_event henv info (wrap b) blk \<Longrightarrow>
      parse_block stack (he_wire henv) stream (bl_payload blk) f s = feed f s (map meaning es)"
  shows "list_all2 (\<lambda>r es. block_reads stack env l stream f r (map meaning es)) (map map_row_block rows) ess"
proof -
  have wire: "he_wire henv = le_wire env" using assms(1) by (simp add: server_ok_def)
  have ids: "\<forall>b \<in> set bs. eb_stream_id b = si_stream_id stream \<and> eb_process_id b = si_process_id stream"
    using assms(2) by (simp add: stream_sent_def)
  have len: "length bs = length rows" "length bs = length ess" using assms(4,5) by (blast dest: list_all2_lengthD)+
  have "block_reads stack env l stream f (map_row_block (rows ! i)) (map meaning (ess ! i))" if i: "i < length bs" for i
  proof -
    let ?b = "bs ! i"
    obtain blk where blk: "block_of_event henv info (wrap ?b) blk" "row_of env blk (rows ! i)"
      "stored env l (block_key blk) = Some (bl_payload blk)" using list_all2_nthD [OF assms(4) i] by (auto simp: in_lake_def)
    have "block_key blk = (si_process_id stream, si_stream_id stream, bw_block_id (rows ! i))"
      using blk(1,2) ids nth_mem [OF i] assms(3) by (auto simp: block_of_event_def carries_def row_of_def block_key_def)
    moreover have "concat ess = concat (take i ess) @ ess ! i @ concat (drop (Suc i) ess)"
      using id_take_nth_drop [of i ess] i len by (metis concat.simps(2) concat_append)
    then have "parse_block stack (le_wire env) stream (bl_payload blk) f s = feed f s (map meaning (ess ! i))" for s
      using parses [OF list_all2_nthD [OF assms(5) i] _ blk(1)] wire by auto
    ultimately show ?thesis using blk(3) by (simp add: block_reads_def map_row_block_def)
  qed
  then show ?thesis using len by (simp add: list_all2_conv_all_nth)
qed

text \<open>Both at once: what a query that starts by looking up the stream and its process goes on with.\<close>

definition query_start ::
  "lake_env \<Rightarrow> uuid \<Rightarrow> (StreamInfo \<Rightarrow> ProcessInfo \<Rightarrow> (lake, 'a) io) \<Rightarrow> (lake, 'a) io" where
  "query_start env sid k =
     bind_io (external env ''acquire'') (\<lambda>_.
     bind_io (find_stream env sid) (\<lambda>stream_info.
     bind_io (find_process env (si_process_id stream_info)) (\<lambda>process_info. k stream_info process_info)))"

lemma query_start_found:
  assumes "server_ok env henv" and "list_all2 (answered henv info) es rqs" and "lake_holds env henv es rqs l"
    and "stream_sent henv info wrap stream bs es" and "\<And>b. carried (wrap b) = [b]" and "ticks_cover info begin_ticks end_ticks bs"
  shows "query_start env (si_stream_id stream) k l
    = k stream (info\<lparr>pi_start_time := le_timestamptz env (pi_start_time info)\<rparr>) (l\<lparr>la_calls := la_calls l + 3\<rparr>)"
proof -
  have rel: "reliable env" using assms(1) by (simp add: server_ok_def)
  have pid: "si_process_id stream = pi_process_id info" using assms(4) by (simp add: stream_sent_def)
  note found = stream_found [OF assms]
  show ?thesis
    using external_reliable [OF rel] found(1) [of "Suc (la_calls l)"] found(2) [of "Suc (Suc (la_calls l))"] pid
    by (simp add: query_start_def bind_io_def numeral_3_eq_3)
qed

lemma stream_query:
  assumes "server_ok env henv" and "list_all2 (answered henv info) es rqs" and "lake_holds env henv es rqs l"
    and "stream_sent henv info wrap stream bs es" and "\<And>b. carried (wrap b) = [b]" and "ticks_cover info begin_ticks end_ticks bs"
    and "list_all2 (\<lambda>b. represents (eb_events b)) bs ess"
    and parses: "\<And>b es blk s. represents (eb_events b) es \<Longrightarrow> (\<exists>pre post. concat ess = pre @ es @ post) \<Longrightarrow> block_of_event henv info (wrap b) blk \<Longrightarrow>
      parse_block stack (he_wire henv) stream (bl_payload blk) f s = feed f s (map meaning es)"
  shows "\<exists>blocks l1 l2. (\<forall>k :: StreamInfo \<Rightarrow> ProcessInfo \<Rightarrow> (lake, 'a) io. query_start env (si_stream_id stream) k l
        = k stream (info\<lparr>pi_start_time := le_timestamptz env (pi_start_time info)\<rparr>) l1)
    \<and> find_stream_blocks_in_range env (si_stream_id stream) begin_ticks end_ticks l1 = (Inr blocks, l2)
    \<and> list_all2 (\<lambda>r es. block_reads stack env l2 stream f r (map meaning es)) blocks ess"
proof -
  obtain rows where rows: "list_all2 (\<lambda>b. in_lake env henv info l (wrap b)) bs rows"
    "\<And>n. find_stream_blocks_in_range env (si_stream_id stream) begin_ticks end_ticks (l\<lparr>la_calls := n\<rparr>)
          = (Inr (map map_row_block rows), l\<lparr>la_calls := n + 1\<rparr>)" using stream_found(3) [OF assms(1-6)] by auto
  have "list_all2 (\<lambda>r es. block_reads stack env l stream f r (map meaning es)) (map map_row_block rows) ess"
    by (rule blocks_read [OF assms(1,4,5) rows(1) assms(7) parses])
  moreover note query_start_found [OF assms(1-6), where 'a = 'a]
  ultimately show ?thesis
    using rows(2) [of "la_calls l + 3"]
    by (intro exI [of _ "map map_row_block rows"] exI [of _ "l\<lparr>la_calls := la_calls l + 3\<rparr>"] exI [of _ "l\<lparr>la_calls := la_calls l + 3 + 1\<rparr>"]) simp
qed

lemma consistent_append: "consistent_actions dep_id refs (xs @ ys) \<Longrightarrow> consistent_actions dep_id refs xs \<and> consistent_actions dep_id refs ys"
  by (simp add: consistent_actions_def inj_on_Un)

section \<open>A process that stopped\<close>

lemma stream_messages:
  assumes "\<And>c. c \<in> set calls \<Longrightarrow> filter (of_stream sid) (sent_events henv [c]) = map wrap (blocks_of c)"
  shows "filter (of_stream sid) (sent_events henv calls) = map wrap (concat (map blocks_of calls))"
  using assms
proof (induction calls)
  case (Cons c calls)
  have "sent_events henv (c # calls) = sent_events henv [c] @ sent_events henv calls" by (simp add: sent_events_def)
  then show ?case using Cons.IH Cons.prems by simp
qed (simp add: sent_events_def)

lemma block_calls:
  "OnProcessLogBlock b \<in> set calls \<Longrightarrow> b \<in> set (log_blocks calls)"
  "OnProcessMetricsBlock b \<in> set calls \<Longrightarrow> b \<in> set (metrics_blocks calls)"
  "OnProcessThreadBlock b \<in> set calls \<Longrightarrow> b \<in> set (thread_blocks calls)"
  by (force simp: log_blocks_def metrics_blocks_def thread_blocks_def)+

definition stopped_calls :: "ProcessInfo \<Rightarrow> EventStream \<Rightarrow> EventStream \<Rightarrow> sink_call list \<Rightarrow> bool" where
  "stopped_calls info ls ms calls \<longleftrightarrow> (\<exists>rest. calls = OnStartup info # OnInitLogStream ls # OnInitMetricsStream ms # rest
     \<and> list_all (belongs (pi_process_id info) (stream_id ls) (stream_id ms)) rest)
     \<and> sde_process_id (es_stream_desc ls) = pi_process_id info \<and> sde_process_id (es_stream_desc ms) = pi_process_id info"

lemma shutdown_calls:
  assumes "reach su w logs metrics spans" and "G_DISPATCH w = Some d" and "live d" and "shutdown_telemetry su ck1 ck2 w = Inr w'"
    and "hd (sink_calls w') = OnStartup info"
  shows "\<exists>ls ms. stopped_calls info ls ms (sink_calls w') \<and> stream_id ls = stream_id (log_stream d) \<and> stream_id ms = stream_id (metrics_stream d)
    \<and> (\<exists>ess. list_all2 (\<lambda>b. log_msg.represents (su_abi su) (eb_events b)) (log_blocks (sink_calls w')) ess \<and> concat ess = logs)
    \<and> (\<exists>ess. list_all2 (\<lambda>b. metrics_msg.represents (su_abi su) (eb_events b)) (metrics_blocks (sink_calls w')) ess \<and> concat ess = metrics)"
proof -
  obtain w2 d2 where w2: "reach su w2 logs metrics spans" "G_DISPATCH w2 = Some d2"
    "log_msg.delivers (su_abi su) True (log_blocks (sink_calls w2)) logs (log_stream d2)" "is_empty (log_stream d2)"
    "metrics_msg.delivers (su_abi su) True (metrics_blocks (sink_calls w2)) metrics (metrics_stream d2)" "is_empty (metrics_stream d2)"
    "w' = w2\<lparr>G_DISPATCH := Some (d2\<lparr>sink := NullEventSink\<rparr>), sink_calls := sink_calls w2 @ [OnShutdown]\<rparr>"
    using shutdown_flushed [OF assms(1-3), of ck1 ck2] assms(4) by auto
  have d2: "identified d2 (sink_calls w2)" using reach_identified [OF w2(1,2)] by blast
  have same: "stream_id (log_stream d2) = stream_id (log_stream d)" "stream_id (metrics_stream d2) = stream_id (metrics_stream d)"
    using shutdown_names [OF conjunct1 [OF reach_identified [OF assms(1,2)]] assms(2,4)] w2(7) by (auto simp: same_names_def)
  obtain info' ls ms rest where
    calls: "sink_calls w2 = [OnStartup info', OnInitLogStream ls, OnInitMetricsStream ms] @ rest" and
    ids: "pi_process_id info' = process_id d2" "stream_id ls = stream_id (log_stream d2)" "sde_process_id (es_stream_desc ls) = process_id d2"
      "stream_id ms = stream_id (metrics_stream d2)" "sde_process_id (es_stream_desc ms) = process_id d2"
      "list_all (belongs (process_id d2) (stream_id (log_stream d2)) (stream_id (metrics_stream d2))) rest"
    using d2 unfolding identified_def by blast
  have "sink_calls w' = OnStartup info # OnInitLogStream ls # OnInitMetricsStream ms # (rest @ [OnShutdown])" "info' = info"
    using w2(7) calls assms(5) by simp_all
  then have "stopped_calls info ls ms (sink_calls w')" using ids by (simp add: stopped_calls_def belongs_def [of _ _ _ OnShutdown])
  moreover have "log_blocks (sink_calls w') = log_blocks (sink_calls w2)" "metrics_blocks (sink_calls w') = metrics_blocks (sink_calls w2)"
    by (simp_all add: w2(7) is_block_call_def)
  ultimately show ?thesis
    using log_msg.delivers_blocks [OF w2(3,4)] metrics_msg.delivers_blocks [OF w2(5,6)] ids(2,4) same by metis
qed

end
