(* ===== verification/Log_Query.thy ===== *)
theory Log_Query
  imports Row_Scan
begin

text \<open>
  Reading logs (\<open>analytics/src/log_entry.rs\<close>, \<open>log_entries_table.rs\<close>, \<open>query_log_entries.rs\<close>): a value
  of a log block becomes an entry, the entries of a time range fill the columns of a record batch up
  to a limit, block after block.
\<close>

section \<open>Entries\<close>

record LogEntry =
  le_time :: i64
  le_level :: u32
  le_target :: string
  le_msg :: string

definition log_entry_from_object :: "ConvertTicks \<Rightarrow> Object \<Rightarrow> LogEntry option res" where
  "log_entry_from_object ct obj =
     (if obj_type_name obj = ''LogStaticStrEvent'' then
        and_then (obj_get get_i64 obj ''time'') (\<lambda>ticks.
        and_then (obj_get get_object obj ''desc'') (\<lambda>desc.
        and_then (obj_get get_u32 desc ''level'') (\<lambda>level.
        and_then (obj_get get_string desc ''target'') (\<lambda>target.
        and_then (obj_get get_string desc ''fmt_str'') (\<lambda>msg.
        Inr (Some \<lparr>le_time = ticks_to_nanoseconds ct ticks, le_level = level, le_target = target, le_msg = msg\<rparr>))))))
      else if obj_type_name obj = ''LogStringEvent'' then
        and_then (obj_get get_i64 obj ''time'') (\<lambda>ticks.
        and_then (obj_get get_object obj ''desc'') (\<lambda>desc.
        and_then (obj_get get_u32 desc ''level'') (\<lambda>level.
        and_then (obj_get get_string desc ''target'') (\<lambda>target.
        and_then (obj_get get_string obj ''msg'') (\<lambda>msg.
        Inr (Some \<lparr>le_time = ticks_to_nanoseconds ct ticks, le_level = level, le_target = target, le_msg = msg\<rparr>))))))
      else if obj_type_name obj \<in> {''LogStaticStrInteropEvent'', ''LogStringInteropEventV2'', ''LogStringInteropEventV3''} then
        and_then (obj_get get_i64 obj ''time'') (\<lambda>ticks.
        and_then (obj_get get_u32 obj ''level'') (\<lambda>level.
        and_then (obj_get get_string obj ''target'') (\<lambda>target.
        and_then (obj_get get_string obj ''msg'') (\<lambda>msg.
        Inr (Some \<lparr>le_time = ticks_to_nanoseconds ct ticks, le_level = level, le_target = target, le_msg = msg\<rparr>)))))
      else Inr None)"

fun log_entry_from_value :: "ConvertTicks \<Rightarrow> Value \<Rightarrow> LogEntry option res" where
  "log_entry_from_value ct (VObject obj) = log_entry_from_object ct obj"
| "log_entry_from_value ct _ = Inr None"

definition each_entry :: "ConvertTicks \<Rightarrow> ('s \<Rightarrow> LogEntry \<Rightarrow> ('s \<times> bool) res) \<Rightarrow> 's \<Rightarrow> Value \<Rightarrow> ('s \<times> bool) res" where
  "each_entry ct f s val =
     and_then (log_entry_from_value ct val) (\<lambda>entry. case entry of None \<Rightarrow> Inr (s, True) | Some e \<Rightarrow> f s e)"

definition for_each_log_entry_in_block ::
  "nat \<Rightarrow> lake_env \<Rightarrow> ConvertTicks \<Rightarrow> StreamInfo \<Rightarrow> BlockMetadata \<Rightarrow> ('s \<Rightarrow> LogEntry \<Rightarrow> ('s \<times> bool) res) \<Rightarrow> 's
    \<Rightarrow> (lake, 's) io" where
  "for_each_log_entry_in_block stack env ct stream block f s =
     bind_io (fetch_block_payload env (si_process_id stream) (si_stream_id stream) (bm_block_id block)) (\<lambda>payload.
     pure_io (and_then (parse_block stack (le_wire env) stream payload (each_entry ct f) s) (\<lambda>(s', _). Inr s')))"

section \<open>The table\<close>

record LogEntriesRecordBuilder =
  lb_times :: "i64 list"
  lb_targets :: "string list"
  lb_levels :: "u32 list"
  lb_msgs :: "string list"

definition log_builder_empty :: LogEntriesRecordBuilder where
  "log_builder_empty = \<lparr>lb_times = [], lb_targets = [], lb_levels = [], lb_msgs = []\<rparr>"

definition log_builder_len :: "LogEntriesRecordBuilder \<Rightarrow> i64" where
  "log_builder_len b = word_of_nat (length (lb_times b))"

definition log_builder_append :: "arrow \<Rightarrow> LogEntry \<Rightarrow> LogEntriesRecordBuilder \<Rightarrow> LogEntriesRecordBuilder res" where
  "log_builder_append ar row b =
     and_then (dict_append (ar_keys16 ar) (le_target row) (lb_targets b)) (\<lambda>targets.
     Inr \<lparr>lb_times = lb_times b @ [le_time row], lb_targets = targets, lb_levels = lb_levels b @ [le_level row],
       lb_msgs = lb_msgs b @ [le_msg row]\<rparr>)"

definition log_builder_finish :: "LogEntriesRecordBuilder \<Rightarrow> RecordBatch res" where
  "log_builder_finish b = batch_try_new
     [(''time'', TimestampColumn (lb_times b)), (''target'', DictionaryColumn 16 (lb_targets b)),
      (''level'', Int32Column (lb_levels b)), (''msg'', Utf8Column (lb_msgs b))]"

section \<open>The query\<close>

definition log_row :: "arrow \<Rightarrow> i64 \<Rightarrow> i64 \<Rightarrow> i64 \<Rightarrow> LogEntriesRecordBuilder \<Rightarrow> LogEntry \<Rightarrow> (LogEntriesRecordBuilder \<times> bool) res" where
  "log_row ar begin_ns end_ns limit b e =
     and_then (if sint (le_time e) \<ge> sint begin_ns \<and> sint (le_time e) \<le> sint end_ns \<and> sint (log_builder_len b) < sint limit
       then log_builder_append ar e b else Inr b) (\<lambda>b'.
     Inr (b', sint (le_time e) \<le> sint end_ns \<and> sint (log_builder_len b') < sint limit))"

definition log_block_rows ::
  "nat \<Rightarrow> lake_env \<Rightarrow> arrow \<Rightarrow> i64 \<Rightarrow> i64 \<Rightarrow> i64 \<Rightarrow> ConvertTicks \<Rightarrow> StreamInfo \<Rightarrow> LogEntriesRecordBuilder \<Rightarrow> BlockMetadata
    \<Rightarrow> (lake, LogEntriesRecordBuilder \<times> bool) io" where
  "log_block_rows stack env ar begin_ns end_ns limit ct stream b block =
     bind_io (for_each_log_entry_in_block stack env ct stream block (log_row ar begin_ns end_ns limit) b) (\<lambda>b'. pure_io (Inr (b', True)))"

definition make_log_entries_record_batch ::
  "nat \<Rightarrow> lake_env \<Rightarrow> arrow \<Rightarrow> BlockMetadata list \<Rightarrow> int \<Rightarrow> int \<Rightarrow> i64 \<Rightarrow> ConvertTicks \<Rightarrow> StreamInfo \<Rightarrow> (lake, RecordBatch) io" where
  "make_log_entries_record_batch stack env ar blocks begin_time end_time limit ct stream =
     bind_io (for_io (log_block_rows stack env ar (timestamp_nanos begin_time) (timestamp_nanos end_time) limit ct stream)
       log_builder_empty blocks) (\<lambda>b. pure_io (log_builder_finish b))"

definition query_log_entries ::
  "nat \<Rightarrow> lake_env \<Rightarrow> arrow \<Rightarrow> uuid \<Rightarrow> int \<Rightarrow> int \<Rightarrow> i64 \<Rightarrow> (lake, RecordBatch) io" where
  "query_log_entries stack env ar sid begin_time end_time limit =
     bind_io (external env ''acquire'') (\<lambda>_.
     bind_io (find_stream env sid) (\<lambda>stream_info.
     bind_io (find_process env (si_process_id stream_info)) (\<lambda>process_info.
     let convert_ticks = ConvertTicks_new process_info;
         relative_begin_ticks = to_ticks convert_ticks (begin_time - pi_start_time process_info);
         relative_end_ticks = to_ticks convert_ticks (end_time - pi_start_time process_info) in
     bind_io (find_stream_blocks_in_range env sid relative_begin_ticks relative_end_ticks) (\<lambda>blocks.
     make_log_entries_record_batch stack env ar blocks begin_time end_time limit convert_ticks stream_info))))"

section \<open>What a log event becomes\<close>

definition log_entry_of :: "memory \<Rightarrow> (u64 \<rightharpoonup> LogMetadata) \<Rightarrow> ConvertTicks \<Rightarrow> LogMsgQueueAny \<Rightarrow> LogEntry" where
  "log_entry_of mem descs ct e = (case e of
     LogStaticStrEvent x \<Rightarrow> (let m = the (descs (lse_desc x)) in
       \<lparr>le_time = ticks_to_nanoseconds ct (lse_time x), le_level = Level_as_u32 (lm_level m),
        le_target = str_text mem (lm_target m), le_msg = str_text mem (lm_fmt_str m)\<rparr>)
   | LogStringEvent x \<Rightarrow> (let m = the (descs (ls_desc x)) in
       \<lparr>le_time = ticks_to_nanoseconds ct (ls_time x), le_level = Level_as_u32 (lm_level m),
        le_target = str_text mem (lm_target m), le_msg = ls_dyn_str x\<rparr>)
   | LogStaticStrInteropEvent x \<Rightarrow>
       \<lparr>le_time = ticks_to_nanoseconds ct (lsi_time x), le_level = lsi_level x,
        le_target = string_id_text mem (lsi_target x), le_msg = string_id_text mem (lsi_msg x)\<rparr>
   | LogStringInteropEvent x \<Rightarrow>
       \<lparr>le_time = ticks_to_nanoseconds ct (li_time x), le_level = li_level x,
        le_target = string_id_text mem (li_target x), le_msg = li_msg x\<rparr>)"

lemma log_entry_from_meaning:
  "log_entry_from_value ct (log_meaning mem descs e) = Inr (Some (log_entry_of mem descs ct e))"
  by (cases e) (simp_all add: log_entry_from_object_def log_entry_of_def log_desc_meaning_def Let_def obj_get_def obj_get_ref_def)

lemma each_entry_meaning: "each_entry ct f s (log_meaning mem descs e) = f s (log_entry_of mem descs ct e)"
  by (simp add: each_entry_def log_entry_from_meaning)

section \<open>Which rows a query returns\<close>

definition log_builder_of :: "LogEntry list \<Rightarrow> LogEntriesRecordBuilder" where
  "log_builder_of es = \<lparr>lb_times = map le_time es, lb_targets = map le_target es, lb_levels = map le_level es, lb_msgs = map le_msg es\<rparr>"

definition log_batch_of :: "LogEntry list \<Rightarrow> RecordBatch" where
  "log_batch_of es = [(''time'', TimestampColumn (map le_time es)), (''target'', DictionaryColumn 16 (map le_target es)),
     (''level'', Int32Column (map le_level es)), (''msg'', Utf8Column (map le_msg es))]"

lemma log_builder_append_of:
  "card (set (map le_target (rows @ [e]))) \<le> ar_keys16 ar \<Longrightarrow>
     log_builder_append ar e (log_builder_of rows) = Inr (log_builder_of (rows @ [e]))"
  using dict_append_ok [of "map le_target rows" "le_target e" "ar_keys16 ar"]
  by (simp add: log_builder_append_def log_builder_of_def)

lemma log_builder_len_of:
  fixes limit :: i64
  assumes "length rows \<le> nat (sint limit)"
  shows "sint (log_builder_len (log_builder_of rows)) = int (length rows)"
  using sint_count [OF assms] by (simp add: log_builder_len_def log_builder_of_def)

lemma log_row_of:
  assumes "length rows \<le> nat (sint limit)" and "card (set (map le_target (rows @ [e]))) \<le> ar_keys16 ar"
  shows "log_row ar begin_ns end_ns limit (log_builder_of rows) e
    = (let rows' = (if sint begin_ns \<le> sint (le_time e) \<and> sint (le_time e) \<le> sint end_ns \<and> length rows < nat (sint limit)
         then rows @ [e] else rows) in
       Inr (log_builder_of rows', sint (le_time e) \<le> sint end_ns \<and> length rows' < nat (sint limit)))"
proof -
  have lt: "sint (log_builder_len (log_builder_of rs)) < sint limit \<longleftrightarrow> length rs < nat (sint limit)"
    if "length rs \<le> nat (sint limit)" for rs
    using log_builder_len_of [OF that] that by linarith
  show ?thesis
    using assms lt [of rows] lt [of "rows @ [e]"] by (simp add: log_row_def Let_def log_builder_append_of)
qed

definition log_rows_fit :: "arrow \<Rightarrow> LogEntry list \<Rightarrow> bool" where
  "log_rows_fit ar rows \<longleftrightarrow> card (set (map le_target rows)) \<le> ar_keys16 ar"

interpretation log_scan: row_scan log_builder_of "log_row ar begin_ns end_ns limit" le_time begin_ns end_ns "nat (sint limit)" "log_rows_fit ar"
  for ar begin_ns end_ns limit
proof
  show "log_rows_fit ar xs" if "log_rows_fit ar ys" "set xs \<subseteq> set ys" for xs ys
    using card_mono [OF _ image_mono [OF that(2), of le_target]] that(1) by (simp add: log_rows_fit_def)
  show "\<exists>c. log_row ar begin_ns end_ns limit (log_builder_of rows) r = Inr (log_builder_of rows', c)
      \<and> (c \<longrightarrow> sint (le_time r) \<le> sint end_ns \<or> sint end_ns < sint begin_ns)
      \<and> (\<not> c \<longrightarrow> sint end_ns < sint (le_time r) \<or> nat (sint limit) \<le> length rows')"
    if "length rows \<le> nat (sint limit)" "log_rows_fit ar (rows @ [r])"
      "rows' = (if sint begin_ns \<le> sint (le_time r) \<and> sint (le_time r) \<le> sint end_ns \<and> length rows < nat (sint limit) then rows @ [r] else rows)"
    for rows r rows'
    using log_row_of [OF that(1) that(2) [unfolded log_rows_fit_def], of begin_ns end_ns] that(3) by (auto simp: Let_def)
qed

definition log_rows_read ::
  "nat \<Rightarrow> lake_env \<Rightarrow> arrow \<Rightarrow> i64 \<Rightarrow> i64 \<Rightarrow> i64 \<Rightarrow> ConvertTicks \<Rightarrow> memory \<Rightarrow> (u64 \<rightharpoonup> LogMetadata) \<Rightarrow> StreamInfo \<Rightarrow> lake
    \<Rightarrow> BlockMetadata \<Rightarrow> LogEntry list \<Rightarrow> bool" where
  "log_rows_read stack env ar begin_ns end_ns limit ct mem descs stream =
     rows_read stack env stream (each_entry ct (log_row ar begin_ns end_ns limit)) (log_meaning mem descs) (log_entry_of mem descs ct)"

lemma log_block_rows_eq:
  assumes "reliable env" and "log_rows_read stack env ar begin_ns end_ns limit ct mem descs stream l b rs"
  shows "log_block_rows stack env ar begin_ns end_ns limit ct stream s b l =
    (case feed (log_row ar begin_ns end_ns limit) s rs of
       Inl e \<Rightarrow> (Inl e, counted l) | Inr (s', _) \<Rightarrow> (Inr (s', True), counted l))"
proof -
  obtain p where p: "fetch_block_payload env (si_process_id stream) (si_stream_id stream) (bm_block_id b) l = (Inr p, counted l)"
    "\<And>s. parse_block stack (le_wire env) stream p (each_entry ct (log_row ar begin_ns end_ns limit)) s = feed (log_row ar begin_ns end_ns limit) s rs"
    using fetch_rows [OF assms(1) assms(2) [unfolded log_rows_read_def], of "log_row ar begin_ns end_ns limit"] by (auto simp: each_entry_meaning)
  show ?thesis by (simp add: log_block_rows_def for_each_log_entry_in_block_def bind_io_def p split: sum.splits prod.splits)
qed

lemma make_log_entries:
  assumes "reliable env"
    and "list_all2 (log_rows_read stack env ar (timestamp_nanos begin_time) (timestamp_nanos end_time) limit ct mem descs stream l) blocks rss"
    and "log_rows_fit ar (concat rss)"
  shows "\<exists>l'. make_log_entries_record_batch stack env ar blocks begin_time end_time limit ct stream l
    = (Inr (log_batch_of (take (nat (sint limit)) (concat (map
        (rows_in_range le_time (timestamp_nanos begin_time) (timestamp_nanos end_time)) rss)))), l')"
proof -
  have empty: "log_builder_of [] = log_builder_empty" by (simp add: log_builder_of_def log_builder_empty_def)
  let ?reads = "log_rows_read stack env ar (timestamp_nanos begin_time) (timestamp_nanos end_time) limit ct mem descs stream"
  let ?body = "log_block_rows stack env ar (timestamp_nanos begin_time) (timestamp_nanos end_time) limit ct stream"
  have "\<exists>l'. for_io ?body (log_builder_of []) blocks l = (Inr (log_builder_of (take (nat (sint limit))
      ([] @ concat (map (rows_in_range le_time (timestamp_nanos begin_time) (timestamp_nanos end_time)) rss)))), l')"
    by (rule log_scan.scan_all_blocks [where reads = ?reads and called = counted])
      (use assms in \<open>simp_all add: log_block_rows_eq log_rows_read_def rows_read_calls\<close>)
  then show ?thesis
    by (auto simp: empty make_log_entries_record_batch_def bind_io_def [of "for_io f b bs" for f b bs])
      (auto simp: log_builder_finish_def batch_try_new_def log_builder_of_def log_batch_of_def)
qed

end
