(* ===== verification/Log_Pipeline.thy ===== *)
theory Log_Pipeline
  imports Pipeline Log_Query
begin

text \<open>
  Logs, from the process that records them to the answer of a query for them.
\<close>

section \<open>Reading a log block back\<close>

definition log_events_ok :: "http_env \<Rightarrow> LogMsgQueueAny list \<Rightarrow> bool" where
  "log_events_ok henv es \<longleftrightarrow> list_all (log_refs_ok (su_memory (he_su henv)) (cs_logs (he_sites henv))) es
     \<and> consistent_actions LogDepsQueue_dep_id LogDepsQueue_refs (concat (map (log_actions (cs_logs (he_sites henv))) es))"

lemma log_events_ok_append:
  assumes "log_events_ok henv (xs @ ys)"
  shows "log_events_ok henv xs" "log_events_ok henv ys"
  using assms by (auto simp: log_events_ok_def dest: consistent_append)

definition log_metadata_ok :: "http_env \<Rightarrow> bool" where
  "log_metadata_ok henv \<longleftrightarrow> layout_ok (su_abi (he_su henv)) StringId_decl \<and> layout_ok (su_abi (he_su henv)) LogMetadataRecord_decl
     \<and> is_shuffle (he_shuffle henv)"

definition log_stream_read :: "http_env \<Rightarrow> StreamInfo \<Rightarrow> bool" where
  "log_stream_read henv stream \<longleftrightarrow>
     si_dependencies_metadata stream = stream_metadata (he_shuffle henv) (LogDepsQueue_reflect_contained (su_abi (he_su henv)))
     \<and> si_objects_metadata stream = stream_metadata (he_shuffle henv) (LogMsgQueue_reflect_contained (su_abi (he_su henv)))"

lemma log_block_parses:
  assumes "log_metadata_ok henv" and "log_msg.represents (su_abi (he_su henv)) (eb_events b) es" and "log_events_ok henv es"
    and "log_stream_read henv stream" and "block_of_event henv info (ProcessLogBlock b) blk"
  shows "parse_block (Suc (Suc stack)) (he_wire henv) stream (bl_payload blk) f s
    = feed f s (map (log_meaning (su_memory (he_su henv)) (cs_logs (he_sites henv))) es)"
proof -
  let ?abi = "su_abi (he_su henv)" let ?mem = "su_memory (he_su henv)" let ?descs = "cs_logs (he_sites henv)"
  let ?udts = "stream_metadata (he_shuffle henv) (LogMsgQueue_reflect_contained ?abi)"
  let ?deps = "stream_metadata (he_shuffle henv) (LogDepsQueue_reflect_contained ?abi)"
  obtain dq where dq: "LogMsgQueue_extract (su_alloc (he_su henv)) ?abi ?mem ?descs (eb_events b) = Inr dq"
    "carries (he_wire henv) info b dq blk" using assms(5) by (auto simp: block_of_event_def)
  have "list_all (LogMsgQueue_valid ?abi) es" using assms(2) by (simp add: log_msg.represents_def)
  then have "list_all (LogMsgQueue_ready ?abi ?mem ?descs ?udts ?deps) es"
    using assms(1,3) log_ready unfolding list_all_iff log_metadata_ok_def log_events_ok_def by blast
  then have "log_block.objects.represents ?abi ?mem ?descs ?udts ?deps (eb_events b) es"
    using assms(2) by (simp add: log_msg.represents_def log_block.objects.represents_def)
  moreover have "consistent_actions LogDepsQueue_dep_id LogDepsQueue_refs (concat (map (log_actions ?descs) es))"
    using assms(3) by (simp add: log_events_ok_def)
  ultimately obtain h where "read_dependencies (Suc (Suc stack)) ?deps (q_buffer dq) = Inr h"
    "parse_object_buffer (Suc (Suc stack)) h ?udts (q_buffer (eb_events b)) f s = feed f s (map (log_meaning ?mem ?descs) es)"
    using log_block.block_roundtrip [of ?abi ?mem ?descs ?udts ?deps "eb_events b" es "su_alloc (he_su henv)" stack f s] dq(1) by auto
  then show ?thesis
    using dq(2) assms(4) by (simp add: parse_block_def carries_def log_stream_read_def)
qed

section \<open>The stream\<close>

definition other_blocks :: "sink_call list \<Rightarrow> EventBlock list" where
  "other_blocks calls = metrics_blocks calls @ thread_blocks calls"

definition sent_log_stream :: "http_env \<Rightarrow> EventStream \<Rightarrow> StreamInfo" where
  "sent_log_stream henv ls = sent_stream_info (log_stream_info (he_shuffle henv) (su_abi (he_su henv)) ls)"

lemma sent_log_stream_ids:
  "si_stream_id (sent_log_stream henv ls) = stream_id ls" "si_process_id (sent_log_stream henv ls) = sde_process_id (es_stream_desc ls)"
  "log_stream_read henv (sent_log_stream henv ls)"
  by (simp_all add: sent_log_stream_def log_stream_info_def log_stream_read_def sent_metadata)
    (simp_all add: sent_stream_info_def make_stream_info_def Let_def)

lemma logs_sent:
  assumes "stopped_calls info ls ms calls" and "\<forall>b \<in> set (other_blocks calls). eb_stream_id b \<noteq> stream_id ls"
  shows "stream_sent henv info ProcessLogBlock (sent_log_stream henv ls) (log_blocks calls) (sent_events henv calls)"
proof -
  obtain rest where calls: "calls = OnStartup info # OnInitLogStream ls # OnInitMetricsStream ms # rest"
    and own: "list_all (belongs (pi_process_id info) (stream_id ls) (stream_id ms)) rest" using assms(1) by (auto simp: stopped_calls_def)
  have ids: "\<forall>b \<in> set (log_blocks calls). eb_stream_id b = stream_id ls \<and> eb_process_id b = pi_process_id info"
    using own unfolding calls list_all_iff belongs_def log_blocks_def by (auto split: sink_call.splits)
  have "filter (of_stream (stream_id ls)) (sent_events henv [c]) = map ProcessLogBlock (case c of OnProcessLogBlock b \<Rightarrow> [b] | _ \<Rightarrow> [])"
    if "c \<in> set calls" for c
    using that block_calls [of _ calls] ids assms(2)
    by (cases c rule: sink_call.exhaust) (simp_all add: sent_events_def of_stream_def other_blocks_def)
  from stream_messages [OF this] have "filter (of_stream (stream_id ls)) (sent_events henv calls) = map ProcessLogBlock (log_blocks calls)"
    by (simp add: log_blocks_def)
  moreover have "sent_events henv calls = Startup info # InitStream (log_stream_info (he_shuffle henv) (su_abi (he_su henv)) ls)
      # InitStream (metrics_stream_info (he_shuffle henv) (su_abi (he_su henv)) ms) # sent_events henv rest" by (simp add: calls sent_events_def)
  ultimately show ?thesis
    using ids assms(1) by (simp add: stream_sent_def sent_log_stream_ids stopped_calls_def flip: sent_log_stream_def)
qed

section \<open>The query\<close>

lemma query_log_entries_finds:
  assumes "server_ok env henv" and "log_metadata_ok henv"
    and "stream_sent henv info ProcessLogBlock (sent_log_stream henv ls) bs es"
    and "list_all2 (answered henv info) es rqs" and "lake_holds env henv es rqs l"
    and "list_all2 (\<lambda>b. log_msg.represents (su_abi (he_su henv)) (eb_events b)) bs ess" and "log_events_ok henv (concat ess)"
    and "ticks_cover info (query_tick env info t1) (query_tick env info t2) bs"
    and "row = log_entry_of (su_memory (he_su henv)) (cs_logs (he_sites henv)) (query_ticks env info)"
    and "log_rows_fit ar (map row (concat ess))"
  shows "\<exists>l'. query_log_entries (Suc (Suc stack)) env ar (stream_id ls) t1 t2 limit l
    = (Inr (log_batch_of (take (nat (sint limit))
        (concat (map (rows_in_range le_time (timestamp_nanos t1) (timestamp_nanos t2)) (map (map row) ess))))), l')"
proof -
  let ?stream = "sent_log_stream henv ls"
  let ?f = "each_entry (query_ticks env info) (log_row ar (timestamp_nanos t1) (timestamp_nanos t2) limit)"
  have rel: "reliable env" using assms(1) by (simp add: server_ok_def)
  have parses: "parse_block (Suc (Suc stack)) (he_wire henv) ?stream (bl_payload blk) ?f s
      = feed ?f s (map (log_meaning (su_memory (he_su henv)) (cs_logs (he_sites henv))) es)"
    if "log_msg.represents (su_abi (he_su henv)) (eb_events b) es" "\<exists>pre post. concat ess = pre @ es @ post"
      "block_of_event henv info (ProcessLogBlock b) blk" for b es blk s
  proof -
    from that(2) have "log_events_ok henv es" using assms(7) log_events_ok_append by metis
    from log_block_parses [OF assms(2) that(1) this sent_log_stream_ids(3) that(3)] show ?thesis .
  qed
  have "\<exists>blocks l1 l2. (\<forall>k :: StreamInfo \<Rightarrow> ProcessInfo \<Rightarrow> (lake, RecordBatch) io. query_start env (si_stream_id ?stream) k l
        = k ?stream (info\<lparr>pi_start_time := le_timestamptz env (pi_start_time info)\<rparr>) l1)
    \<and> find_stream_blocks_in_range env (si_stream_id ?stream) (query_tick env info t1) (query_tick env info t2) l1 = (Inr blocks, l2)
    \<and> list_all2 (\<lambda>r es. block_reads (Suc (Suc stack)) env l2 ?stream ?f r (map (log_meaning (su_memory (he_su henv)) (cs_logs (he_sites henv))) es)) blocks ess"
    by (rule stream_query [OF assms(1,4,5,3) _ assms(8,6)]) (simp, blast intro: parses)
  then obtain blocks l1 l2 where found: "\<And>k :: StreamInfo \<Rightarrow> ProcessInfo \<Rightarrow> (lake, RecordBatch) io. query_start env (stream_id ls) k l
        = k ?stream (info\<lparr>pi_start_time := le_timestamptz env (pi_start_time info)\<rparr>) l1"
    "find_stream_blocks_in_range env (stream_id ls) (query_tick env info t1) (query_tick env info t2) l1 = (Inr blocks, l2)"
    "list_all2 (\<lambda>r es. block_reads (Suc (Suc stack)) env l2 ?stream ?f r (map (log_meaning (su_memory (he_su henv)) (cs_logs (he_sites henv))) es)) blocks ess"
    unfolding sent_log_stream_ids(1) by blast
  have "\<exists>l'. make_log_entries_record_batch (Suc (Suc stack)) env ar blocks t1 t2 limit (query_ticks env info) ?stream l2
      = (Inr (log_batch_of (take (nat (sint limit))
        (concat (map (rows_in_range le_time (timestamp_nanos t1) (timestamp_nanos t2)) (map (map row) ess))))), l')"
    using make_log_entries [OF rel rows_read_blocks [OF found(3), of row, unfolded assms(9), folded log_rows_read_def]] assms(9,10)
    by (simp add: map_concat)
  then show ?thesis
    by (simp add: query_log_entries_def found(1) [unfolded query_start_def] Let_def flip: query_ticks_def [of env info] query_tick_def [of env info])
      (simp add: bind_io_def found(2))
qed

section \<open>All of it\<close>

text \<open>
  C28. Logs, end to end. A process that recorded any number of logs, from any threads, stops its telemetry; the
  requests that its sink made are served; then a query for the log stream returns, in order and up to the
  limit, one row for every log whose time is in the range, with its level, target and message. (The
  blocks are in the order of their ticks and none of them is outside of the tick range of the query, the
  times of the logs do not decrease, and identifiers of streams and of blocks are not reused.)
\<close>

theorem logs_end_to_end:
  assumes "reach (he_su henv) w logs metrics spans" and "G_DISPATCH w = Some d" and "live d"
    and "shutdown_telemetry (he_su henv) ck1 ck2 w = Inr w'" and "hd (sink_calls w') = OnStartup info"
    and "server_ok env henv" and "log_metadata_ok henv" and "log_events_ok henv logs"
    and "list_all2 (answered henv info) (sent_events henv (sink_calls w')) rqs"
    and "list_all2 request_ok (sent_events henv (sink_calls w')) rqs"
    and "distinct (map block_key (concat (map (request_block (le_wire env) (he_addr henv)) rqs)))"
    and "\<forall>b \<in> set (other_blocks (sink_calls w')). eb_stream_id b \<noteq> stream_id (log_stream d)"
    and "ticks_cover info (query_tick env info t1) (query_tick env info t2) (log_blocks (sink_calls w'))"
    and "rows = map (log_entry_of (su_memory (he_su henv)) (cs_logs (he_sites henv)) (query_ticks env info)) logs"
    and "sorted (map (\<lambda>e. sint (le_time e)) rows)" and "card (set (map le_target rows)) \<le> ar_keys16 ar"
  shows "\<exists>l'. query_log_entries (Suc (Suc stack)) env ar (stream_id (log_stream d)) t1 t2 limit
      (serve_all env (he_addr henv) rqs lake_init)
    = (Inr (log_batch_of (take (nat (sint limit)) (filter (\<lambda>e. sint (timestamp_nanos t1) \<le> sint (le_time e)
        \<and> sint (le_time e) \<le> sint (timestamp_nanos t2)) rows))), l')"
proof -
  obtain ls ms ess where ls: "stopped_calls info ls ms (sink_calls w')" "stream_id ls = stream_id (log_stream d)"
    "list_all2 (\<lambda>b. log_msg.represents (su_abi (he_su henv)) (eb_events b)) (log_blocks (sink_calls w')) ess" "concat ess = logs"
    using shutdown_calls [OF assms(1-5)] by blast
  have sent: "stream_sent henv info ProcessLogBlock (sent_log_stream henv ls) (log_blocks (sink_calls w')) (sent_events henv (sink_calls w'))"
    using logs_sent [OF ls(1)] assms(12) ls(2) by simp
  have "lake_holds env henv (sent_events henv (sink_calls w')) rqs (serve_all env (he_addr henv) rqs lake_init)"
    by (rule serve_all_holds [OF assms(6,9-11)])
  note lake = this
  let ?row = "log_entry_of (su_memory (he_su henv)) (cs_logs (he_sites henv)) (query_ticks env info)"
  have rows: "concat (map (map ?row) ess) = rows" "map ?row (concat ess) = rows" unfolding assms(14) ls(4) [symmetric] by (simp_all add: map_concat)
  have "log_rows_fit ar (map ?row (concat ess))" "log_events_ok henv (concat ess)"
    using assms(8,16) rows(2) ls(4) by (simp_all add: log_rows_fit_def)
  from query_log_entries_finds [OF assms(6,7) sent assms(9) lake ls(3) this(2) assms(13) refl this(1), where limit = limit and stack = stack]
  show ?thesis unfolding ls(2) rows_in_range_blocks [of le_time "map (map ?row) ess", unfolded rows, OF assms(15)] .
qed

end
