(* ===== verification/Float_Bits.thy ===== *)
theory Float_Bits
  imports Float64
begin

text \<open>
  Doubles as their 64 bits (sign, eleven bits of exponent, 52 bits of fraction), for the values that
  the program stores without computing with them, and the cast of an unsigned integer to a double.
\<close>

definition f64_of_bits :: "u64 \<Rightarrow> f64" where
  "f64_of_bits b =
     (let s = 2 ^ 63 \<le> uint b; e = (uint b div 2 ^ 52) mod 2 ^ 11; m = uint b mod 2 ^ 52; sgn = (if s then - 1 else 1) in
      if e = 2047 then (if m = 0 then Infinite s else NotANumber)
      else if e = 0 then Finite (sgn * of_int m * pow2 (- 1074))
      else Finite (sgn * of_int (2 ^ 52 + m) * pow2 (e - 1075)))"

text \<open>\<open>n as f64\<close> for \<open>n : u64\<close>\<close>

definition bits_of_pos :: "int \<Rightarrow> int" where
  "bits_of_pos n = (let k = leading (of_int n) in (k + 1022) * 2 ^ 52 + round_even (of_int n / pow2 (k - 52)))"

definition u64_as_f64 :: "u64 \<Rightarrow> u64" where
  "u64_as_f64 n = (if n = 0 then 0 else word_of_int (bits_of_pos (uint n)))"

lemma leading_pos:
  assumes "1 \<le> n" and "n < 2 ^ 64"
  shows "0 \<le> leading (of_int n)" "leading (of_int n) \<le> 63"
proof -
  let ?x = "of_int n :: rat"
  have x: "1 \<le> ?x" "?x < 2 ^ 64" using assms by (simp, metis of_int_less_iff of_int_numeral of_int_power)
  have b: "pow2 (leading ?x) \<le> ?x" "?x < pow2 (leading ?x + 1)" using leading_bounds [of ?x] x(1) by auto
  show "0 \<le> leading ?x"
  proof (rule ccontr)
    assume "\<not> 0 \<le> leading ?x"
    then have "pow2 (leading ?x + 1) \<le> pow2 0" by (intro pow2_mono) simp
    then show False using b(2) x(1) by (simp add: pow2_def)
  qed
  show "leading ?x \<le> 63"
  proof (rule ccontr)
    assume "\<not> leading ?x \<le> 63"
    then have "pow2 64 \<le> pow2 (leading ?x)" by (intro pow2_mono) simp
    then show False using b(1) x(2) pow2_nat [of 64] by simp
  qed
qed

lemma bits_of_pos_fields:
  assumes "1 \<le> n" and "n < 2 ^ 64"
  shows "\<exists>e m. bits_of_pos n = e * 2 ^ 52 + m \<and> 0 < e \<and> e < 2047 \<and> 0 \<le> m \<and> m < 2 ^ 52
    \<and> fround (of_int n) = of_int (2 ^ 52 + m) * pow2 (e - 1075)"
proof -
  let ?x = "of_int n :: rat"
  define k where "k = leading ?x"
  define q where "q = pow2 (k - 52)"
  define m where "m = round_even (?x / q)"
  have k: "0 \<le> k" "k \<le> 63" using leading_pos [OF assms] by (simp_all add: k_def)
  have b: "pow2 k \<le> ?x" "?x < pow2 (k + 1)" using leading_bounds [of ?x] assms(1) by (auto simp: k_def)
  have q: "q * 2 ^ 52 = pow2 k" "q * 2 ^ 53 = pow2 (k + 1)" "0 < q"
    using pow2_minus [of k 52] pow2_minus [of "k + 1" 53] by (simp_all add: q_def)
  have "of_int (2 ^ 52) \<le> ?x / q" "?x / q \<le> of_int (2 ^ 53)"
    using b q by (simp_all add: field_simps)
  then have m: "2 ^ 52 \<le> m" "m \<le> 2 ^ 53"
    using round_even_mono [of "of_int (2 ^ 52)" "?x / q"] round_even_mono [of "?x / q" "of_int (2 ^ 53)"]
    unfolding m_def round_even_of_int by simp_all
  have v: "fround ?x = of_int m * q" using assms(1) by (simp add: fround_def Let_def m_def k_def q_def)
  have bits: "bits_of_pos n = (k + 1022) * 2 ^ 52 + m" by (simp add: bits_of_pos_def Let_def m_def k_def q_def)
  show ?thesis
  proof (cases "m = 2 ^ 53")
    case True
    then have "bits_of_pos n = (k + 1024) * 2 ^ 52 + 0" "fround ?x = of_int (2 ^ 52 + 0) * pow2 (k + 1024 - 1075)"
      using bits v pow2_add1 [of "k - 52"] by (simp_all add: q_def)
    then show ?thesis using k by (intro exI [of _ "k + 1024"] exI [of _ 0]) simp
  next
    case False
    then have "bits_of_pos n = (k + 1023) * 2 ^ 52 + (m - 2 ^ 52)" "fround ?x = of_int (2 ^ 52 + (m - 2 ^ 52)) * pow2 (k + 1023 - 1075)"
      using bits v by (simp_all add: q_def)
    then show ?thesis using k m False by (intro exI [of _ "k + 1023"] exI [of _ "m - 2 ^ 52"]) simp
  qed
qed

lemma f64_of_bits_cast: "f64_of_bits (u64_as_f64 n) = f64_of_int (uint n)"
proof (cases "n = 0")
  case True
  then show ?thesis by (simp add: u64_as_f64_def f64_of_bits_def f64_of_int_def Let_def)
next
  case False
  then have "1 \<le> uint n" using uint_ge_0 [of n] by (metis int_one_le_iff_zero_less uint_0_iff order_le_less)
  moreover have "uint n < 2 ^ 64" using uint_bounded [of n] by simp
  ultimately obtain e m where em: "bits_of_pos (uint n) = e * 2 ^ 52 + m" "0 < e" "e < 2047" "0 \<le> m" "m < 2 ^ 52"
    "fround (of_int (uint n)) = of_int (2 ^ 52 + m) * pow2 (e - 1075)" using bits_of_pos_fields by blast
  have w: "0 \<le> e * 2 ^ 52 + m" "e * 2 ^ 52 + m < 2 ^ 63" using em by simp_all
  have "uint (word_of_int i :: u64) = i" if "0 \<le> i" "i < 2 ^ 63" for i using that by (simp add: uint_word_of_int)
  from this [OF w] have "uint (u64_as_f64 n) = e * 2 ^ 52 + m" using False by (simp only: u64_as_f64_def em(1) if_False)
  moreover have "(e * 2 ^ 52 + m) div 2 ^ 52 = e" "(e * 2 ^ 52 + m) mod 2 ^ 52 = m" using em by simp_all
  ultimately show ?thesis using em w by (simp add: f64_of_bits_def f64_of_int_def Let_def)
qed

end
