(* ===== verification/Metrics_Query.thy ===== *)
theory Metrics_Query
  imports Row_Scan Float_Bits
begin

text \<open>
  Reading metrics (\<open>analytics/src/measure.rs\<close>, \<open>metrics_table.rs\<close>, \<open>query_metrics.rs\<close>): a value of a
  metrics block becomes a measure, the measures of a time range fill the columns of a record batch
  up to a limit; the loop over the blocks ends with the block in which reading stops.
\<close>

section \<open>Measures\<close>

text \<open>The value is the bit pattern of a double.\<close>

record Measure =
  me_time :: i64
  me_target :: string
  me_name :: string
  me_unit :: string
  me_value :: u64

definition measure_from_object :: "ConvertTicks \<Rightarrow> Object \<Rightarrow> Measure option res" where
  "measure_from_object ct obj =
     (if obj_type_name obj = ''FloatMetricEvent'' then
        and_then (obj_get get_i64 obj ''time'') (\<lambda>ticks.
        and_then (obj_get get_f64 obj ''value'') (\<lambda>value.
        and_then (obj_get get_object obj ''desc'') (\<lambda>desc.
        and_then (obj_get get_string desc ''target'') (\<lambda>target.
        and_then (obj_get get_string desc ''name'') (\<lambda>name.
        and_then (obj_get get_string desc ''unit'') (\<lambda>unit.
        Inr (Some \<lparr>me_time = ticks_to_nanoseconds ct ticks, me_target = target, me_name = name, me_unit = unit, me_value = value\<rparr>)))))))
      else if obj_type_name obj = ''IntegerMetricEvent'' then
        and_then (obj_get get_i64 obj ''time'') (\<lambda>ticks.
        and_then (obj_get get_u64 obj ''value'') (\<lambda>value.
        and_then (obj_get get_object obj ''desc'') (\<lambda>desc.
        and_then (obj_get get_string desc ''target'') (\<lambda>target.
        and_then (obj_get get_string desc ''name'') (\<lambda>name.
        and_then (obj_get get_string desc ''unit'') (\<lambda>unit.
        Inr (Some \<lparr>me_time = ticks_to_nanoseconds ct ticks, me_target = target, me_name = name, me_unit = unit,
          me_value = u64_as_f64 value\<rparr>)))))))
      else Inr None)"

fun measure_from_value :: "ConvertTicks \<Rightarrow> Value \<Rightarrow> Measure option res" where
  "measure_from_value ct (VObject obj) = measure_from_object ct obj"
| "measure_from_value ct _ = Inr None"

definition each_measure :: "ConvertTicks \<Rightarrow> ('s \<Rightarrow> Measure \<Rightarrow> ('s \<times> bool) res) \<Rightarrow> 's \<Rightarrow> Value \<Rightarrow> ('s \<times> bool) res" where
  "each_measure ct f s val =
     and_then (measure_from_value ct val) (\<lambda>measure. case measure of None \<Rightarrow> Inr (s, True) | Some x \<Rightarrow> f s x)"

definition for_each_measure_in_block ::
  "nat \<Rightarrow> lake_env \<Rightarrow> ConvertTicks \<Rightarrow> StreamInfo \<Rightarrow> BlockMetadata \<Rightarrow> ('s \<Rightarrow> Measure \<Rightarrow> ('s \<times> bool) res) \<Rightarrow> 's
    \<Rightarrow> (lake, 's \<times> bool) io" where
  "for_each_measure_in_block stack env ct stream block f s =
     bind_io (fetch_block_payload env (si_process_id stream) (si_stream_id stream) (bm_block_id block)) (\<lambda>payload.
     pure_io (parse_block stack (le_wire env) stream payload (each_measure ct f) s))"

section \<open>The table\<close>

record MetricsRecordBuilder =
  mb_times :: "i64 list"
  mb_targets :: "string list"
  mb_names :: "string list"
  mb_units :: "string list"
  mb_values :: "u64 list"

definition metrics_builder_empty :: MetricsRecordBuilder where
  "metrics_builder_empty = \<lparr>mb_times = [], mb_targets = [], mb_names = [], mb_units = [], mb_values = []\<rparr>"

definition metrics_builder_append :: "arrow \<Rightarrow> Measure \<Rightarrow> MetricsRecordBuilder \<Rightarrow> MetricsRecordBuilder res" where
  "metrics_builder_append ar row b =
     and_then (dict_append (ar_keys16 ar) (me_target row) (mb_targets b)) (\<lambda>targets.
     and_then (dict_append (ar_keys16 ar) (me_name row) (mb_names b)) (\<lambda>names.
     and_then (dict_append (ar_keys16 ar) (me_unit row) (mb_units b)) (\<lambda>units.
     Inr \<lparr>mb_times = mb_times b @ [me_time row], mb_targets = targets, mb_names = names, mb_units = units,
       mb_values = mb_values b @ [me_value row]\<rparr>)))"

definition metrics_builder_finish :: "MetricsRecordBuilder \<Rightarrow> RecordBatch res" where
  "metrics_builder_finish b = batch_try_new
     [(''time'', TimestampColumn (mb_times b)), (''target'', DictionaryColumn 16 (mb_targets b)),
      (''name'', DictionaryColumn 16 (mb_names b)), (''unit'', DictionaryColumn 16 (mb_units b)),
      (''value'', Float64Column (mb_values b))]"

section \<open>The query\<close>

text \<open>The state of the closure: the builder and the counter \<open>nb\<close>.\<close>

definition metrics_row ::
  "arrow \<Rightarrow> i64 \<Rightarrow> i64 \<Rightarrow> i64 \<Rightarrow> MetricsRecordBuilder \<times> i64 \<Rightarrow> Measure \<Rightarrow> ((MetricsRecordBuilder \<times> i64) \<times> bool) res" where
  "metrics_row ar begin_ns end_ns limit s x = (case s of (b, nb) \<Rightarrow>
     if sint (me_time x) < sint begin_ns then Inr ((b, nb), True)
     else if sint (me_time x) > sint end_ns \<or> sint nb \<ge> sint limit then Inr ((b, nb), False)
     else and_then (metrics_builder_append ar x b) (\<lambda>b'. Inr ((b', nb + 1), sint (nb + 1) < sint limit)))"

definition metrics_block_rows ::
  "nat \<Rightarrow> lake_env \<Rightarrow> arrow \<Rightarrow> i64 \<Rightarrow> i64 \<Rightarrow> i64 \<Rightarrow> ConvertTicks \<Rightarrow> StreamInfo \<Rightarrow> MetricsRecordBuilder \<times> i64 \<Rightarrow> BlockMetadata
    \<Rightarrow> (lake, (MetricsRecordBuilder \<times> i64) \<times> bool) io" where
  "metrics_block_rows stack env ar begin_ns end_ns limit ct stream s block =
     for_each_measure_in_block stack env ct stream block (metrics_row ar begin_ns end_ns limit) s"

definition make_metrics_record_batch ::
  "nat \<Rightarrow> lake_env \<Rightarrow> arrow \<Rightarrow> BlockMetadata list \<Rightarrow> i64 \<Rightarrow> int \<Rightarrow> int \<Rightarrow> ConvertTicks \<Rightarrow> StreamInfo \<Rightarrow> (lake, RecordBatch) io" where
  "make_metrics_record_batch stack env ar blocks limit begin_time end_time ct stream =
     bind_io (for_io (metrics_block_rows stack env ar (timestamp_nanos begin_time) (timestamp_nanos end_time) limit ct stream)
       (metrics_builder_empty, 0) blocks) (\<lambda>(b, nb). pure_io (metrics_builder_finish b))"

definition query_metrics :: "nat \<Rightarrow> lake_env \<Rightarrow> arrow \<Rightarrow> i64 \<Rightarrow> uuid \<Rightarrow> int \<Rightarrow> int \<Rightarrow> (lake, RecordBatch) io" where
  "query_metrics stack env ar limit sid begin_time end_time =
     bind_io (external env ''acquire'') (\<lambda>_.
     bind_io (find_stream env sid) (\<lambda>stream_info.
     bind_io (find_process env (si_process_id stream_info)) (\<lambda>process_info.
     let convert_ticks = ConvertTicks_new process_info;
         relative_begin_ticks = to_ticks convert_ticks (begin_time - pi_start_time process_info);
         relative_end_ticks = to_ticks convert_ticks (end_time - pi_start_time process_info) in
     bind_io (find_stream_blocks_in_range env sid relative_begin_ticks relative_end_ticks) (\<lambda>blocks.
     make_metrics_record_batch stack env ar blocks limit begin_time end_time convert_ticks stream_info))))"

section \<open>What a metric becomes\<close>

definition measure_of :: "memory \<Rightarrow> (u64 \<rightharpoonup> MetricMetadata) \<Rightarrow> ConvertTicks \<Rightarrow> MetricsMsgQueueAny \<Rightarrow> Measure" where
  "measure_of mem descs ct e = (let m = the (descs (metric_desc e)) in
     \<lparr>me_time = ticks_to_nanoseconds ct (case e of IntegerMetricEvent x \<Rightarrow> ime_time x | FloatMetricEvent x \<Rightarrow> fme_time x),
      me_target = str_text mem (mm_target m), me_name = str_text mem (mm_name m), me_unit = str_text mem (mm_unit m),
      me_value = (case e of IntegerMetricEvent x \<Rightarrow> u64_as_f64 (ime_value x) | FloatMetricEvent x \<Rightarrow> fme_value x)\<rparr>)"

lemma measure_from_meaning:
  "measure_from_value ct (metric_meaning mem descs e) = Inr (Some (measure_of mem descs ct e))"
  by (cases e) (simp_all add: measure_from_object_def measure_of_def metric_desc_meaning_def Let_def obj_get_def obj_get_ref_def)

lemma each_measure_meaning: "each_measure ct f s (metric_meaning mem descs e) = f s (measure_of mem descs ct e)"
  by (simp add: each_measure_def measure_from_meaning)

section \<open>Which rows a query returns\<close>

definition metrics_builder_of :: "Measure list \<Rightarrow> MetricsRecordBuilder" where
  "metrics_builder_of xs = \<lparr>mb_times = map me_time xs, mb_targets = map me_target xs, mb_names = map me_name xs,
     mb_units = map me_unit xs, mb_values = map me_value xs\<rparr>"

definition metrics_state_of :: "Measure list \<Rightarrow> MetricsRecordBuilder \<times> i64" where
  "metrics_state_of xs = (metrics_builder_of xs, word_of_nat (length xs))"

definition metrics_batch_of :: "Measure list \<Rightarrow> RecordBatch" where
  "metrics_batch_of xs = [(''time'', TimestampColumn (map me_time xs)), (''target'', DictionaryColumn 16 (map me_target xs)),
     (''name'', DictionaryColumn 16 (map me_name xs)), (''unit'', DictionaryColumn 16 (map me_unit xs)),
     (''value'', Float64Column (map me_value xs))]"

definition metrics_rows_fit :: "arrow \<Rightarrow> Measure list \<Rightarrow> bool" where
  "metrics_rows_fit ar rows \<longleftrightarrow> card (set (map me_target rows)) \<le> ar_keys16 ar \<and> card (set (map me_name rows)) \<le> ar_keys16 ar
     \<and> card (set (map me_unit rows)) \<le> ar_keys16 ar"

lemma metrics_builder_append_of:
  "metrics_rows_fit ar (rows @ [x]) \<Longrightarrow> metrics_builder_append ar x (metrics_builder_of rows) = Inr (metrics_builder_of (rows @ [x]))"
  using dict_append_ok [of "map me_target rows" "me_target x" "ar_keys16 ar"] dict_append_ok [of "map me_name rows" "me_name x" "ar_keys16 ar"]
    dict_append_ok [of "map me_unit rows" "me_unit x" "ar_keys16 ar"]
  by (simp add: metrics_builder_append_def metrics_builder_of_def metrics_rows_fit_def)

lemma metrics_row_of:
  assumes "length rows \<le> nat (sint limit)" and "metrics_rows_fit ar (rows @ [x])"
  shows "metrics_row ar begin_ns end_ns limit (metrics_state_of rows) x =
    (if sint (me_time x) < sint begin_ns then Inr (metrics_state_of rows, True)
     else if sint end_ns < sint (me_time x) \<or> nat (sint limit) \<le> length rows then Inr (metrics_state_of rows, False)
     else Inr (metrics_state_of (rows @ [x]), Suc (length rows) < nat (sint limit)))"
proof -
  have count: "sint (word_of_nat (length rs) :: i64) = int (length rs)" if "length rs \<le> nat (sint limit)" for rs :: "Measure list"
    by (rule sint_count [OF that])
  have one: "(word_of_nat (length rows) :: i64) + 1 = word_of_nat (length (rows @ [x]))" by simp
  have full: "sint (word_of_nat (length rows) :: i64) \<ge> sint limit \<longleftrightarrow> nat (sint limit) \<le> length rows"
    using count [OF assms(1)] by linarith
  have more: "sint (word_of_nat (length (rows @ [x])) :: i64) < sint limit \<longleftrightarrow> Suc (length rows) < nat (sint limit)"
    if "length rows < nat (sint limit)"
    using count [of "rows @ [x]"] that by simp linarith
  show ?thesis
    using full more metrics_builder_append_of [OF assms(2)] unfolding metrics_row_def metrics_state_of_def prod.case one
    by auto
qed

interpretation metrics_scan: row_scan metrics_state_of "metrics_row ar begin_ns end_ns limit" me_time begin_ns end_ns
    "nat (sint limit)" "metrics_rows_fit ar"
  for ar begin_ns end_ns limit
proof
  show "metrics_rows_fit ar xs" if "metrics_rows_fit ar ys" "set xs \<subseteq> set ys" for xs ys
    using that card_mono [OF _ image_mono [OF that(2), of me_target]] card_mono [OF _ image_mono [OF that(2), of me_name]]
      card_mono [OF _ image_mono [OF that(2), of me_unit]] by (simp add: metrics_rows_fit_def)
  show "\<exists>c. metrics_row ar begin_ns end_ns limit (metrics_state_of rows) r = Inr (metrics_state_of rows', c)
      \<and> (c \<longrightarrow> sint (me_time r) \<le> sint end_ns \<or> sint end_ns < sint begin_ns)
      \<and> (\<not> c \<longrightarrow> sint end_ns < sint (me_time r) \<or> nat (sint limit) \<le> length rows')"
    if "length rows \<le> nat (sint limit)" "metrics_rows_fit ar (rows @ [r])"
      "rows' = (if sint begin_ns \<le> sint (me_time r) \<and> sint (me_time r) \<le> sint end_ns \<and> length rows < nat (sint limit) then rows @ [r] else rows)"
    for rows r rows'
  proof (cases "sint (me_time r) < sint begin_ns")
    case True
    then have "rows' = rows" unfolding that(3) by simp
    then show ?thesis using True unfolding metrics_row_of [OF that(1,2)] by (intro exI [of _ True]) (simp, linarith)
  next
    case late: False
    then show ?thesis
    proof (cases "sint end_ns < sint (me_time r) \<or> nat (sint limit) \<le> length rows")
      case True
      then have "rows' = rows" unfolding that(3) by auto
      then show ?thesis using late True unfolding metrics_row_of [OF that(1,2)] by (intro exI [of _ False]) simp
    next
      case False
      then have "rows' = rows @ [r]" using late unfolding that(3) by auto
      then show ?thesis using late False unfolding metrics_row_of [OF that(1,2)]
        by (intro exI [of _ "Suc (length rows) < nat (sint limit)"]) simp
    qed
  qed
qed

definition metrics_rows_read ::
  "nat \<Rightarrow> lake_env \<Rightarrow> arrow \<Rightarrow> i64 \<Rightarrow> i64 \<Rightarrow> i64 \<Rightarrow> ConvertTicks \<Rightarrow> memory \<Rightarrow> (u64 \<rightharpoonup> MetricMetadata) \<Rightarrow> StreamInfo \<Rightarrow> lake
    \<Rightarrow> BlockMetadata \<Rightarrow> Measure list \<Rightarrow> bool" where
  "metrics_rows_read stack env ar begin_ns end_ns limit ct mem descs stream =
     rows_read stack env stream (each_measure ct (metrics_row ar begin_ns end_ns limit)) (metric_meaning mem descs) (measure_of mem descs ct)"

lemma metrics_block_rows_eq:
  assumes "reliable env" and "metrics_rows_read stack env ar begin_ns end_ns limit ct mem descs stream l b rs"
  shows "metrics_block_rows stack env ar begin_ns end_ns limit ct stream s b l = (feed (metrics_row ar begin_ns end_ns limit) s rs, counted l)"
proof -
  obtain p where p: "fetch_block_payload env (si_process_id stream) (si_stream_id stream) (bm_block_id b) l = (Inr p, counted l)"
    "\<And>s. parse_block stack (le_wire env) stream p (each_measure ct (metrics_row ar begin_ns end_ns limit)) s = feed (metrics_row ar begin_ns end_ns limit) s rs"
    using fetch_rows [OF assms(1) assms(2) [unfolded metrics_rows_read_def], of "metrics_row ar begin_ns end_ns limit"] by (auto simp: each_measure_meaning)
  show ?thesis by (simp add: metrics_block_rows_def for_each_measure_in_block_def bind_io_def p)
qed

lemma make_metrics_rows:
  assumes "reliable env"
    and "list_all2 (metrics_rows_read stack env ar (timestamp_nanos begin_time) (timestamp_nanos end_time) limit ct mem descs stream l) blocks rss"
    and "metrics_rows_fit ar (concat rss)"
  shows "\<exists>l'. make_metrics_record_batch stack env ar blocks limit begin_time end_time ct stream l
    = (Inr (metrics_batch_of (take (nat (sint limit))
        (rows_in_range me_time (timestamp_nanos begin_time) (timestamp_nanos end_time) (concat rss)))), l')"
proof -
  have empty: "metrics_state_of [] = (metrics_builder_empty, 0)"
    by (simp add: metrics_state_of_def metrics_builder_of_def metrics_builder_empty_def)
  let ?reads = "metrics_rows_read stack env ar (timestamp_nanos begin_time) (timestamp_nanos end_time) limit ct mem descs stream"
  let ?body = "metrics_block_rows stack env ar (timestamp_nanos begin_time) (timestamp_nanos end_time) limit ct stream"
  have "\<exists>l'. for_io ?body (metrics_state_of []) blocks l = (Inr (metrics_state_of (take (nat (sint limit))
      ([] @ rows_in_range me_time (timestamp_nanos begin_time) (timestamp_nanos end_time) (concat rss)))), l')"
    by (rule metrics_scan.scan_blocks [where reads = ?reads and called = counted])
      (use assms in \<open>simp_all add: metrics_block_rows_eq metrics_rows_read_def rows_read_calls\<close>)
  then show ?thesis
    by (auto simp: empty make_metrics_record_batch_def bind_io_def [of "for_io f b bs" for f b bs])
      (auto simp: metrics_state_of_def metrics_builder_finish_def batch_try_new_def metrics_builder_of_def metrics_batch_of_def)
qed

end
