(* ===== verification/Metrics_Pipeline.thy ===== *)
theory Metrics_Pipeline
  imports Pipeline Metrics_Query
begin

text \<open>
  Metrics, from the process that records them to the answer of a query for them.
\<close>

section \<open>Reading a metrics block back\<close>

definition metrics_events_ok :: "http_env \<Rightarrow> MetricsMsgQueueAny list \<Rightarrow> bool" where
  "metrics_events_ok henv es \<longleftrightarrow>
     list_all (\<lambda>e. \<exists>m. cs_metrics (he_sites henv) (metric_desc e) = Some m \<and> list_all (str_ok (su_memory (he_su henv))) (metric_strings m)) es
     \<and> consistent_actions MetricsDepsQueue_dep_id MetricsDepsQueue_refs (concat (map (metric_actions (cs_metrics (he_sites henv))) es))"

lemma metrics_events_ok_append:
  assumes "metrics_events_ok henv (xs @ ys)"
  shows "metrics_events_ok henv xs" "metrics_events_ok henv ys"
  using assms by (auto simp: metrics_events_ok_def dest: consistent_append)

definition metrics_metadata_ok :: "http_env \<Rightarrow> bool" where
  "metrics_metadata_ok henv \<longleftrightarrow> layout_ok (su_abi (he_su henv)) IntegerMetricEvent_decl
     \<and> layout_ok (su_abi (he_su henv)) FloatMetricEvent_decl \<and> layout_ok (su_abi (he_su henv)) MetricMetadataRecord_decl"

definition metrics_stream_read :: "http_env \<Rightarrow> StreamInfo \<Rightarrow> bool" where
  "metrics_stream_read henv stream \<longleftrightarrow>
     si_dependencies_metadata stream = stream_metadata (he_shuffle henv) (MetricsDepsQueue_reflect_contained (su_abi (he_su henv)))
     \<and> si_objects_metadata stream = stream_metadata (he_shuffle henv) (MetricsMsgQueue_reflect_contained (su_abi (he_su henv)))"

lemma metrics_block_parses:
  assumes "metrics_metadata_ok henv" and "metrics_msg.represents (su_abi (he_su henv)) (eb_events b) es" and "metrics_events_ok henv es"
    and "metrics_stream_read henv stream" and "block_of_event henv info (ProcessMetricsBlock b) blk"
  shows "parse_block (Suc (Suc stack)) (he_wire henv) stream (bl_payload blk) f s
    = feed f s (map (metric_meaning (su_memory (he_su henv)) (cs_metrics (he_sites henv))) es)"
proof -
  let ?abi = "su_abi (he_su henv)" let ?mem = "su_memory (he_su henv)" let ?descs = "cs_metrics (he_sites henv)"
  let ?udts = "stream_metadata (he_shuffle henv) (MetricsMsgQueue_reflect_contained ?abi)"
  let ?deps = "stream_metadata (he_shuffle henv) (MetricsDepsQueue_reflect_contained ?abi)"
  obtain dq where dq: "MetricsMsgQueue_extract (su_alloc (he_su henv)) ?abi ?mem ?descs (eb_events b) = Inr dq"
    "carries (he_wire henv) info b dq blk" using assms(5) by (auto simp: block_of_event_def)
  have "list_all (MetricsMsgQueue_ready ?abi ?mem ?descs ?udts ?deps) es"
    using assms(1,3) metric_ready unfolding list_all_iff metrics_metadata_ok_def metrics_events_ok_def by blast
  then have "metrics_block.objects.represents ?abi ?mem ?descs ?udts ?deps (eb_events b) es"
    using assms(2) by (simp add: metrics_msg.represents_def metrics_block.objects.represents_def)
  moreover have "consistent_actions MetricsDepsQueue_dep_id MetricsDepsQueue_refs (concat (map (metric_actions ?descs) es))"
    using assms(3) by (simp add: metrics_events_ok_def)
  ultimately obtain h where "read_dependencies (Suc (Suc stack)) ?deps (q_buffer dq) = Inr h"
    "parse_object_buffer (Suc (Suc stack)) h ?udts (q_buffer (eb_events b)) f s = feed f s (map (metric_meaning ?mem ?descs) es)"
    using metrics_block.block_roundtrip [of ?abi ?mem ?descs ?udts ?deps "eb_events b" es "su_alloc (he_su henv)" stack f s] dq(1) by auto
  then show ?thesis
    using dq(2) assms(4) by (simp add: parse_block_def carries_def metrics_stream_read_def)
qed

section \<open>The stream\<close>

definition sent_metrics_stream :: "http_env \<Rightarrow> EventStream \<Rightarrow> StreamInfo" where
  "sent_metrics_stream henv ms = sent_stream_info (metrics_stream_info (he_shuffle henv) (su_abi (he_su henv)) ms)"

lemma sent_metrics_stream_ids:
  "si_stream_id (sent_metrics_stream henv ms) = stream_id ms" "si_process_id (sent_metrics_stream henv ms) = sde_process_id (es_stream_desc ms)"
  "metrics_stream_read henv (sent_metrics_stream henv ms)"
  by (simp_all add: sent_metrics_stream_def metrics_stream_info_def metrics_stream_read_def sent_metadata)
    (simp_all add: sent_stream_info_def make_stream_info_def Let_def)

lemma metrics_sent:
  assumes "stopped_calls info ls ms calls" and "stream_id ls \<noteq> stream_id ms"
    and "\<forall>b \<in> set (thread_blocks calls). eb_stream_id b \<noteq> stream_id ms"
  shows "stream_sent henv info ProcessMetricsBlock (sent_metrics_stream henv ms) (metrics_blocks calls) (sent_events henv calls)"
proof -
  obtain rest where calls: "calls = OnStartup info # OnInitLogStream ls # OnInitMetricsStream ms # rest"
    and own: "list_all (belongs (pi_process_id info) (stream_id ls) (stream_id ms)) rest" using assms(1) by (auto simp: stopped_calls_def)
  have ids: "\<forall>b \<in> set (metrics_blocks calls). eb_stream_id b = stream_id ms \<and> eb_process_id b = pi_process_id info"
    "\<forall>b \<in> set (log_blocks calls). eb_stream_id b = stream_id ls"
    using own unfolding calls list_all_iff belongs_def metrics_blocks_def log_blocks_def by (auto split: sink_call.splits)
  have "filter (of_stream (stream_id ms)) (sent_events henv [c]) = map ProcessMetricsBlock (case c of OnProcessMetricsBlock b \<Rightarrow> [b] | _ \<Rightarrow> [])"
    if "c \<in> set calls" for c
    using that block_calls [of _ calls] ids assms(2,3)
    by (cases c rule: sink_call.exhaust) (simp_all add: sent_events_def of_stream_def)
  from stream_messages [OF this] have "filter (of_stream (stream_id ms)) (sent_events henv calls) = map ProcessMetricsBlock (metrics_blocks calls)"
    by (simp add: metrics_blocks_def)
  moreover have "sent_events henv calls = Startup info # InitStream (log_stream_info (he_shuffle henv) (su_abi (he_su henv)) ls)
      # InitStream (metrics_stream_info (he_shuffle henv) (su_abi (he_su henv)) ms) # sent_events henv rest" by (simp add: calls sent_events_def)
  moreover have "si_stream_id (sent_stream_info (log_stream_info (he_shuffle henv) (su_abi (he_su henv)) ls)) = stream_id ls"
    by (simp add: sent_stream_info_def log_stream_info_def make_stream_info_def Let_def)
  ultimately show ?thesis
    using ids assms(1,2) by (simp add: stream_sent_def sent_metrics_stream_ids stopped_calls_def flip: sent_metrics_stream_def)
qed

section \<open>The query\<close>

lemma query_metrics_finds:
  assumes "server_ok env henv" and "metrics_metadata_ok henv"
    and "stream_sent henv info ProcessMetricsBlock (sent_metrics_stream henv ms) bs es"
    and "list_all2 (answered henv info) es rqs" and "lake_holds env henv es rqs l"
    and "list_all2 (\<lambda>b. metrics_msg.represents (su_abi (he_su henv)) (eb_events b)) bs ess" and "metrics_events_ok henv (concat ess)"
    and "ticks_cover info (query_tick env info t1) (query_tick env info t2) bs"
    and "row = measure_of (su_memory (he_su henv)) (cs_metrics (he_sites henv)) (query_ticks env info)"
    and "metrics_rows_fit ar (map row (concat ess))"
  shows "\<exists>l'. query_metrics (Suc (Suc stack)) env ar limit (stream_id ms) t1 t2 l
    = (Inr (metrics_batch_of (take (nat (sint limit))
        (rows_in_range me_time (timestamp_nanos t1) (timestamp_nanos t2) (map row (concat ess))))), l')"
proof -
  let ?stream = "sent_metrics_stream henv ms"
  let ?f = "each_measure (query_ticks env info) (metrics_row ar (timestamp_nanos t1) (timestamp_nanos t2) limit)"
  have rel: "reliable env" using assms(1) by (simp add: server_ok_def)
  have parses: "parse_block (Suc (Suc stack)) (he_wire henv) ?stream (bl_payload blk) ?f s
      = feed ?f s (map (metric_meaning (su_memory (he_su henv)) (cs_metrics (he_sites henv))) es)"
    if "metrics_msg.represents (su_abi (he_su henv)) (eb_events b) es" "\<exists>pre post. concat ess = pre @ es @ post"
      "block_of_event henv info (ProcessMetricsBlock b) blk" for b es blk s
  proof -
    from that(2) have "metrics_events_ok henv es" using assms(7) metrics_events_ok_append by metis
    from metrics_block_parses [OF assms(2) that(1) this sent_metrics_stream_ids(3) that(3)] show ?thesis .
  qed
  have "\<exists>blocks l1 l2. (\<forall>k :: StreamInfo \<Rightarrow> ProcessInfo \<Rightarrow> (lake, RecordBatch) io. query_start env (si_stream_id ?stream) k l
        = k ?stream (info\<lparr>pi_start_time := le_timestamptz env (pi_start_time info)\<rparr>) l1)
    \<and> find_stream_blocks_in_range env (si_stream_id ?stream) (query_tick env info t1) (query_tick env info t2) l1 = (Inr blocks, l2)
    \<and> list_all2 (\<lambda>r es. block_reads (Suc (Suc stack)) env l2 ?stream ?f r (map (metric_meaning (su_memory (he_su henv)) (cs_metrics (he_sites henv))) es)) blocks ess"
    by (rule stream_query [OF assms(1,4,5,3) _ assms(8,6)]) (simp, blast intro: parses)
  then obtain blocks l1 l2 where found: "\<And>k :: StreamInfo \<Rightarrow> ProcessInfo \<Rightarrow> (lake, RecordBatch) io. query_start env (stream_id ms) k l
        = k ?stream (info\<lparr>pi_start_time := le_timestamptz env (pi_start_time info)\<rparr>) l1"
    "find_stream_blocks_in_range env (stream_id ms) (query_tick env info t1) (query_tick env info t2) l1 = (Inr blocks, l2)"
    "list_all2 (\<lambda>r es. block_reads (Suc (Suc stack)) env l2 ?stream ?f r (map (metric_meaning (su_memory (he_su henv)) (cs_metrics (he_sites henv))) es)) blocks ess"
    unfolding sent_metrics_stream_ids(1) by blast
  have "\<exists>l'. make_metrics_record_batch (Suc (Suc stack)) env ar blocks limit t1 t2 (query_ticks env info) ?stream l2
      = (Inr (metrics_batch_of (take (nat (sint limit))
        (rows_in_range me_time (timestamp_nanos t1) (timestamp_nanos t2) (map row (concat ess))))), l')"
    using make_metrics_rows [OF rel rows_read_blocks [OF found(3), of row, unfolded assms(9), folded metrics_rows_read_def]] assms(9,10)
    by (simp add: map_concat)
  then show ?thesis
    by (simp add: query_metrics_def found(1) [unfolded query_start_def] Let_def flip: query_ticks_def [of env info] query_tick_def [of env info])
      (simp add: bind_io_def found(2))
qed

section \<open>All of it\<close>

text \<open>
  C29. Metrics, end to end. A process that recorded any number of metrics, from any threads, stops its
  telemetry; the requests that its sink made are served; then a query for the metrics stream returns, in
  order and up to the limit, one row for every metric whose time is in the range, with its name, unit and
  target, and its value as a double. (Blocks and times are in order and covered by the range of ticks, and
  identifiers are not reused.)
\<close>

theorem metrics_end_to_end:
  assumes "reach (he_su henv) w logs metrics spans" and "G_DISPATCH w = Some d" and "live d"
    and "shutdown_telemetry (he_su henv) ck1 ck2 w = Inr w'" and "hd (sink_calls w') = OnStartup info"
    and "server_ok env henv" and "metrics_metadata_ok henv" and "metrics_events_ok henv metrics"
    and "list_all2 (answered henv info) (sent_events henv (sink_calls w')) rqs"
    and "list_all2 request_ok (sent_events henv (sink_calls w')) rqs"
    and "distinct (map block_key (concat (map (request_block (le_wire env) (he_addr henv)) rqs)))"
    and "stream_id (log_stream d) \<noteq> stream_id (metrics_stream d)"
    and "\<forall>b \<in> set (thread_blocks (sink_calls w')). eb_stream_id b \<noteq> stream_id (metrics_stream d)"
    and "ticks_cover info (query_tick env info t1) (query_tick env info t2) (metrics_blocks (sink_calls w'))"
    and "rows = map (measure_of (su_memory (he_su henv)) (cs_metrics (he_sites henv)) (query_ticks env info)) metrics"
    and "sorted (map (\<lambda>x. sint (me_time x)) rows)" and "metrics_rows_fit ar rows"
  shows "\<exists>l'. query_metrics (Suc (Suc stack)) env ar limit (stream_id (metrics_stream d)) t1 t2
      (serve_all env (he_addr henv) rqs lake_init)
    = (Inr (metrics_batch_of (take (nat (sint limit)) (filter (\<lambda>x. sint (timestamp_nanos t1) \<le> sint (me_time x)
        \<and> sint (me_time x) \<le> sint (timestamp_nanos t2)) rows))), l')"
proof -
  obtain ls ms ess where ms: "stopped_calls info ls ms (sink_calls w')" "stream_id ls = stream_id (log_stream d)"
    "stream_id ms = stream_id (metrics_stream d)"
    "list_all2 (\<lambda>b. metrics_msg.represents (su_abi (he_su henv)) (eb_events b)) (metrics_blocks (sink_calls w')) ess" "concat ess = metrics"
    using shutdown_calls [OF assms(1-5)] by blast
  have sent: "stream_sent henv info ProcessMetricsBlock (sent_metrics_stream henv ms) (metrics_blocks (sink_calls w')) (sent_events henv (sink_calls w'))"
    using metrics_sent [OF ms(1)] assms(12,13) ms(2,3) by simp
  have lake: "lake_holds env henv (sent_events henv (sink_calls w')) rqs (serve_all env (he_addr henv) rqs lake_init)"
    by (rule serve_all_holds [OF assms(6,9-11)])
  let ?row = "measure_of (su_memory (he_su henv)) (cs_metrics (he_sites henv)) (query_ticks env info)"
  have rows: "map ?row (concat ess) = rows" unfolding assms(15) ms(5) ..
  have "metrics_rows_fit ar (map ?row (concat ess))" "metrics_events_ok henv (concat ess)"
    using assms(8,17) rows ms(5) by simp_all
  from query_metrics_finds [OF assms(6,7) sent assms(9) lake ms(4) this(2) assms(14) refl this(1), where limit = limit and stack = stack]
  show ?thesis unfolding ms(3) rows rows_in_range_sorted [OF assms(16)] .
qed

end
