(* ===== verification/Sample_Services.thy ===== *)
theory Sample_Services
  imports Sample Composite_Sink Log_Pipeline Metrics_Pipeline "HOL-Library.Countable" "HOL-Library.Countable_Set"
begin

text \<open>
  Concrete surroundings for the sink and the lake: formats that number the values of a countable set
  and write the number in unary (the values that the witnesses use come first, so that their codes
  are short), a network on which everything works, and a database and an object store that answer.
\<close>

section \<open>Formats\<close>

definition sample_encode :: "'a set \<Rightarrow> 'a list \<Rightarrow> 'a \<Rightarrow> bytes" where
  "sample_encode A favs x = replicate (Suc (case position (\<lambda>y. y = x) favs of Some i \<Rightarrow> i | None \<Rightarrow> length favs + to_nat_on A x)) 0"

definition sample_decode :: "'a set \<Rightarrow> 'a list \<Rightarrow> bytes \<Rightarrow> 'a" where
  "sample_decode A favs c = (let n = length c - 1 in if n < length favs then favs ! n else from_nat_into A (n - length favs))"

lemma position_Some: "position (\<lambda>y. y = x) ys = Some i \<Longrightarrow> i < length ys \<and> ys ! i = x"
  by (induction ys arbitrary: i) (auto split: if_splits)

lemma position_member: "x \<in> set ys \<Longrightarrow> \<exists>i < length ys. position (\<lambda>y. y = x) ys = Some i"
  by (induction ys) auto

lemma sample_codec: "countable A \<Longrightarrow> x \<in> A \<Longrightarrow> sample_decode A favs (sample_encode A favs x) = x"
  using position_Some [of x favs]
  by (auto simp: sample_decode_def sample_encode_def Let_def split: option.splits)

lemma sample_encode_short: "x \<in> set favs \<Longrightarrow> length (sample_encode A favs x) \<le> length favs"
  using position_member [of x favs] by (auto simp: sample_encode_def)

instance Member_ext :: (countable) countable
proof
  let ?f = "\<lambda>m :: 'a Member_scheme. to_nat (mem_name m, mem_type_name m, mem_offset m, mem_size m, mem_is_reference m, Member.more m)"
  have "inj ?f" by (rule injI) simp
  then show "\<exists>f :: 'a Member_scheme \<Rightarrow> nat. inj f" by blast
qed

instance UserDefinedType :: countable
  by countable_datatype

definition finite_processes :: "ProcessInfo set" where
  "finite_processes = {p. finite (dom (pi_properties p))}"

definition finite_streams :: "StreamInfo set" where
  "finite_streams = {s. finite (dom (si_properties s))}"

definition sample_iter :: "(string \<rightharpoonup> string) \<Rightarrow> (string \<times> string) list" where
  "sample_iter m = map (\<lambda>n. (from_nat n, the (m (from_nat n)))) (sorted_list_of_set (to_nat ` dom m))"

lemma sample_iter_ok:
  assumes "finite (dom m)"
  shows "map_of (sample_iter m) = m" "distinct (map fst (sample_iter m))"
proof -
  have keys: "set (map fst (sample_iter m)) = dom m" using assms by (auto simp: sample_iter_def image_image)
  have "inj_on (from_nat :: nat \<Rightarrow> string) (to_nat ` dom m)" by (rule inj_onI) auto
  then show d: "distinct (map fst (sample_iter m))" using assms by (simp add: sample_iter_def comp_def distinct_map)
  show "map_of (sample_iter m) = m"
  proof
    fix k
    show "map_of (sample_iter m) k = m k"
    proof (cases "m k")
      case None
      then have "k \<notin> fst ` set (sample_iter m)" using keys by auto
      then show ?thesis using None by (simp add: map_of_eq_None_iff)
    next
      case (Some v)
      then have "to_nat k \<in> to_nat ` dom m" by blast
      then have "(k, v) \<in> set (sample_iter m)" using assms Some by (force simp: sample_iter_def)
      then show ?thesis using Some d by simp
    qed
  qed
qed

lemma finite_map_of: "finite (dom m) \<Longrightarrow> \<exists>kvs. m = map_of (kvs :: (string \<times> string) list)"
  using sample_iter_ok(1) by metis

lemma countable_subset_range: "(\<And>x. x \<in> A \<Longrightarrow> \<exists>c :: 'c :: countable. x = f c) \<Longrightarrow> countable A"
  by (rule countable_subset [of _ "range f"]) auto

lemma countable_processes: "countable finite_processes"
proof (rule countable_subset_range)
  fix p assume "p \<in> finite_processes"
  then obtain kvs where "pi_properties p = map_of kvs" using finite_map_of unfolding finite_processes_def by blast
  then show "\<exists>c. p = (\<lambda>(pid, exe, user, real, computer, distro, brand, freq, time, ticks, parent, kvs).
      \<lparr>pi_process_id = pid, pi_exe = exe, pi_username = user, pi_realname = real, pi_computer = computer, pi_distro = distro,
       pi_cpu_brand = brand, pi_tsc_frequency = freq, pi_start_time = time, pi_start_ticks = ticks, pi_parent_process_id = parent,
       pi_properties = map_of kvs\<rparr>) c" by (cases p) auto
qed

lemma countable_streams: "countable finite_streams"
proof (rule countable_subset_range)
  fix s assume "s \<in> finite_streams"
  then obtain kvs where "si_properties s = map_of kvs" using finite_map_of unfolding finite_streams_def by blast
  then show "\<exists>c. s = (\<lambda>(pid, sid, deps, objs, tags, kvs).
      \<lparr>si_process_id = pid, si_stream_id = sid, si_dependencies_metadata = deps, si_objects_metadata = objs, si_tags = tags,
       si_properties = map_of kvs\<rparr>) c" by (cases s) auto
qed

lemma countable_payloads: "countable (UNIV :: BlockPayload set)"
proof (rule countable_subset_range)
  fix p :: BlockPayload
  show "\<exists>c. p = (\<lambda>(deps, objs). \<lparr>bp_dependencies = deps, bp_objects = objs\<rparr>) c" by (cases p) auto
qed

lemma countable_blocks: "countable (UNIV :: Block set)"
proof (rule countable_subset_range)
  fix b :: Block
  show "\<exists>c. b = (\<lambda>(bid, sid, pid, t1, k1, t2, k2, deps, objs, off, n).
      \<lparr>bl_block_id = bid, bl_stream_id = sid, bl_process_id = pid, bl_begin_time = t1, bl_begin_ticks = k1, bl_end_time = t2,
       bl_end_ticks = k2, bl_payload = \<lparr>bp_dependencies = deps, bp_objects = objs\<rparr>, bl_object_offset = off, bl_nb_objects = n\<rparr>) c"
    by (cases b; cases "bl_payload b") auto
qed

text \<open>Compression that compresses nothing, and dates in unary.\<close>

definition sample_wire :: "ProcessInfo list \<Rightarrow> StreamInfo list \<Rightarrow> Block list \<Rightarrow> wire" where
  "sample_wire ps ss bs =
     \<lparr>wi_lz4_encode = Inr, wi_lz4_decode = Inr,
      wi_cbor_process = (\<lambda>p. Inr (sample_encode finite_processes ps p)),
      wi_cbor_stream = (\<lambda>s. Inr (sample_encode finite_streams ss s)),
      wi_cbor_block = (\<lambda>b. Inr (sample_encode UNIV bs b)),
      wi_cbor_payload = (\<lambda>q. Inr (sample_encode UNIV [] q)),
      wi_cbor_udts = (\<lambda>us. Inr (sample_encode UNIV [] us)),
      wi_read_udts = (\<lambda>c. Inr (map strip_secondary (sample_decode UNIV [] c))),
      wi_read_process = (\<lambda>c. Inr (sample_decode finite_processes ps c)),
      wi_read_stream = (\<lambda>c. Inr (sent_stream_info (sample_decode finite_streams ss c))),
      wi_read_block = (\<lambda>c. Inr (sample_decode UNIV bs c)),
      wi_read_payload = (\<lambda>c. Inr (sample_decode UNIV [] c)),
      wi_to_rfc3339 = (\<lambda>t. replicate (to_nat t) CHR ''0''),
      wi_from_rfc3339 = (\<lambda>c. Inr (from_nat (length c)))\<rparr>"

lemma sample_wire_ok: "wire_ok (sample_wire ps ss bs)" "wire_process_ok (sample_wire ps ss bs)" "wire_stream_ok (sample_wire ps ss bs)"
proof -
  have "p \<in> finite_processes" if "finite (dom (pi_properties p))" for p using that by (simp add: finite_processes_def)
  moreover have "s \<in> finite_streams" if "finite (dom (si_properties s))" for s using that by (simp add: finite_streams_def)
  ultimately show "wire_ok (sample_wire ps ss bs)" "wire_process_ok (sample_wire ps ss bs)" "wire_stream_ok (sample_wire ps ss bs)"
    by (simp_all add: wire_ok_def wire_process_ok_def wire_stream_ok_def sample_wire_def sample_codec countable_payloads
        countable_blocks countable_processes countable_streams)
qed

section \<open>The network and the lake\<close>

definition sample_sites :: call_sites where
  "sample_sites = \<lparr>cs_logs = sample_logs, cs_metrics = sample_metrics, cs_spans = sample_spans, cs_locations = sample_locations\<rparr>"

definition sample_http :: "wire \<Rightarrow> http_env" where
  "sample_http wi =
     \<lparr>he_wire = wi, he_su = sample_surroundings, he_sites = sample_sites, he_shuffle = id, he_addr = ''http://host'',
      he_max_queue_size = 16, he_client = Inr (), he_build = (\<lambda>url body. Inr \<lparr>rq_url = url, rq_body = body\<rparr>),
      he_decorate = (\<lambda>_. Inr), he_execute = (\<lambda>_ _. Inr ()), he_attempts = (\<lambda>f. if f 0 then 1 else 2), he_new_v4 = word_of_nat\<rparr>"

lemma sample_http_works: "http_works (sample_http wi)"
  by (simp add: http_works_def sample_http_def)

definition sample_uuid_to_string :: "uuid \<Rightarrow> string" where
  "sample_uuid_to_string u = map (\<lambda>i. if bit u i then CHR ''1'' else CHR ''0'') [0..<128]"

definition sample_lake :: "wire \<Rightarrow> (nat \<Rightarrow> bool) \<Rightarrow> lake_env" where
  "sample_lake wi fails =
     \<lparr>le_wire = wi, le_uuid_to_string = sample_uuid_to_string, le_full_path = (\<lambda>p. ''root/'' @ p), le_fails = fails,
      le_timestamptz = id, le_now = int, le_iter = sample_iter\<rparr>"

lemma sample_uuid_inj: "sample_uuid_to_string u = sample_uuid_to_string v \<longleftrightarrow> u = v"
  by (auto simp: sample_uuid_to_string_def bit_word_eqI split: if_splits intro!: bit_word_eqI)

lemma sample_lake_ok:
  "paths_ok (sample_lake wi fails)" "iter_ok (sample_lake wi fails)" "reliable (sample_lake wi (\<lambda>_. False))"
proof -
  have "length (sample_uuid_to_string u) = 128" for u by (simp add: sample_uuid_to_string_def)
  then show "paths_ok (sample_lake wi fails)"
    by (auto simp: paths_ok_def inj_def sample_lake_def payload_path_def sample_uuid_inj append_eq_append_conv)
  show "iter_ok (sample_lake wi fails)" using sample_iter_ok by (simp add: iter_ok_def sample_lake_def)
  show "reliable (sample_lake wi (\<lambda>_. False))" by (simp add: reliable_def sample_lake_def)
qed

lemma sample_names_ok: "names_ok (sample_lake wi fails)"
  by (auto simp: names_ok_def inj_def inj_on_def sample_lake_def sample_uuid_inj) (auto simp: sample_uuid_to_string_def split: if_splits)

section \<open>Sinks\<close>

definition sample_targets :: "(string \<times> LevelFilter) list" where
  "sample_targets = [(''B'', FilterWarn), (''A'', FilterInfo)]"

definition sample_subsink :: subsink where
  "sample_subsink = \<lparr>ss_log_enabled = (\<lambda>_ _. True), ss_is_busy = (\<lambda>_. False), ss_calls = []\<rparr>"

lemma sample_composite:
  "CompositeSink_new [(FilterError, sample_subsink)] sample_targets None m
     = (\<lparr>cs_sinks = [(FilterError, sample_subsink)], cs_target_level_filters = sample_targets\<rparr>,
        set_max_level FilterInfo m)"
  by (simp add: CompositeSink_new_def sample_targets_def name_key_def insort_key_def Let_def max_def less_eq_LevelFilter_def
      LevelFilter_PartialOrd_def)

lemma sample_target_text: "str_text sample_memory (lm_target sample_log) = ''A''"
  by (simp add: sample_log_def sample_str_def str_text_def static_text_def) (simp add: sample_memory_def string_of_bytes_def, code_simp)

lemma sample_cache: "cache_ok sample_memory cs sample_log"
  by (simp add: cache_ok_def sample_log_def generation_of_def)

text \<open>A sink that was sent messages while its worker waited, then dropped.\<close>

definition sample_sink :: "http_env \<Rightarrow> SinkEvent list \<Rightarrow> HttpEventSink" where
  "sample_sink henv es = fold send es (worker_start henv None HttpEventSink_new)"

lemma sample_sink_reach:
  assumes "he_client henv = Inr ()"
  shows "http_reach henv (sample_sink henv es) es [] 0 0 \<and> hs_sender (sample_sink henv es) \<and> hs_receiver (sample_sink henv es)
    \<and> hs_sending (sample_sink henv es) = None \<and> hs_worker (sample_sink henv es) = Waiting \<and> hs_queue (sample_sink henv es) = es"
proof (induction es rule: rev_induct)
  case Nil
  have "http_reach henv (worker_start henv None HttpEventSink_new) [] [] 0 0"
    by (rule http_start [OF http_new]) (simp add: HttpEventSink_new_def)
  then show ?case using assms by (simp add: sample_sink_def worker_start_def HttpEventSink_new_def)
next
  case (snoc e es)
  let ?h = "sample_sink henv es"
  have "http_reach henv (send_begin e ?h) es [] 0 0" using snoc by (intro http_send_begin) simp_all
  moreover have "hs_sending (send_begin e ?h) = Some e" "hs_receiver (send_begin e ?h)" using snoc by (simp_all add: send_begin_def)
  ultimately have "http_reach henv (send e ?h) (es @ [e]) [] 0 0" using http_send_end [of henv "send_begin e ?h" es "[]" 0 0 e] by (simp add: send_def)
  then show ?case using snoc by (simp add: sample_sink_def send_def send_begin_def send_end_def)
qed

section \<open>A process that records a log and a metric and stops\<close>

definition sample_info :: ProcessInfo where
  "sample_info = make_process_info (su_host sample_surroundings) sample_clock 1 None"

definition sample_recorded :: world where
  "sample_recorded = sample_next (PushMetric sample_metric_event) (sample_next (PushLog sample_log_event) sample_started)"

definition sample_stopped :: world where
  "sample_stopped = (case shutdown_telemetry sample_surroundings sample_clock sample_clock sample_recorded of Inr w \<Rightarrow> w | Inl _ \<Rightarrow> sample_recorded)"

definition sample_log_stream :: EventStream where
  "sample_log_stream = EventStream_new sample_alloc 2 (sample_time 5) 1024 1 [''log''] Map.empty"

definition sample_metrics_stream :: EventStream where
  "sample_metrics_stream = EventStream_new sample_alloc 3 (sample_time 5) 1024 1 [''metrics''] Map.empty"

definition sample_dispatch :: Dispatch where
  "sample_dispatch = \<lparr>process_id = 1, logs_buffer_size = 1024, metrics_buffer_size = 1024, threads_buffer_size = 1024,
     log_stream = sample_log_stream, metrics_stream = sample_metrics_stream, thread_streams = [], sink = AppSink\<rparr>"

lemma sample_started_state:
  "G_DISPATCH sample_started = Some sample_dispatch"
  "sink_calls sample_started = [OnStartup sample_info, OnInitLogStream sample_log_stream, OnInitMetricsStream sample_metrics_stream]"
  by (simp_all add: sample_started_def sample_next_def world_init_def init_event_dispatch_def Dispatch_new_def Let_def
        Dispatch_startup_def Dispatch_init_log_stream_def Dispatch_init_metrics_stream_def notify_eq sample_dispatch_def
        sample_log_stream_def sample_metrics_stream_def sample_info_def sample_clock_def sample_surroundings_def)

lemma sample_recorded_state:
  "\<exists>s m. G_DISPATCH sample_recorded = Some (sample_dispatch\<lparr>log_stream := s, metrics_stream := m\<rparr>) \<and> sink_calls sample_recorded = sink_calls sample_started
    \<and> log_msg.stream_holds sample_abi 0 [sample_log_event] s \<and> stream_id s = 2 \<and> eb_begin (get_block_ref s) = sample_time 5
    \<and> metrics_msg.stream_holds sample_abi 0 [sample_metric_event] m \<and> stream_id m = 3 \<and> eb_begin (get_block_ref m) = sample_time 5"
proof -
  have "log_msg.stream_holds sample_abi 0 [] sample_log_stream" unfolding sample_log_stream_def by (rule log_msg.stream_holds_new)
  from log_msg.stream_push_holds [OF this sample_events_valid(1), of sample_alloc] obtain s where
    s: "stream_push sample_alloc (LogMsgQueue_items sample_abi) LogMsgQueue_type_index sample_log_event sample_log_stream = Inr s"
    "log_msg.stream_holds sample_abi 0 [sample_log_event] s" "es_stream_desc s = es_stream_desc sample_log_stream" by auto
  have "metrics_msg.stream_holds sample_abi 0 [] sample_metrics_stream" unfolding sample_metrics_stream_def by (rule metrics_msg.stream_holds_new)
  from metrics_msg.stream_push_holds [OF this sample_events_valid(2), of sample_alloc] obtain m where
    m: "stream_push sample_alloc (MetricsMsgQueue_items sample_abi) MetricsMsgQueue_type_index sample_metric_event sample_metrics_stream = Inr m"
    "metrics_msg.stream_holds sample_abi 0 [sample_metric_event] m" "es_stream_desc m = es_stream_desc sample_metrics_stream" by auto
  have "stream_id s = 2" "stream_id m = 3" using s(3) m(3)
    by (simp_all add: stream_id_def sample_log_stream_def sample_metrics_stream_def EventStream_new_def Let_def StreamDesc_new_def)
  moreover have "eb_begin (get_block_ref s) = sample_time 5" "eb_begin (get_block_ref m) = sample_time 5"
    using s(1) m(1) by (auto simp: stream_push_def and_then_eq_Inr put_events_def get_block_ref_def sample_log_stream_def sample_metrics_stream_def
      EventStream_new_def Let_def arc_new_def EventBlock_new_def)
  ultimately show ?thesis
    using s m sample_started_state
    by (simp add: sample_recorded_def sample_next_def with_dispatch_def push_log_def push_metric_def sample_dispatch_def sample_surroundings_def)
qed

lemma sample_recorded_reach: "reach sample_surroundings sample_recorded [sample_log_event] [sample_metric_event] (\<lambda>_. [])"
proof -
  have su: "su_abi sample_surroundings = sample_abi" "su_alloc sample_surroundings = sample_alloc" by (simp_all add: sample_surroundings_def)
  have start: "reach sample_surroundings sample_started [] [] (\<lambda>_. [])"
    using reach_next [OF reach_init [of sample_surroundings None], of "Start sample_clock 1 2 3 1024 1024 1024"] sample_buffers
    by (simp add: sample_started_def su pushed_defs)
  have ok: "section_ok sample_surroundings w (PushLog sample_log_event)" "section_ok sample_surroundings w (PushMetric sample_metric_event)" for w
    using sample_events_valid by (simp_all add: su)
  have "reach sample_surroundings (sample_next (PushLog sample_log_event) sample_started) [sample_log_event] [] (\<lambda>_. [])"
    using reach_next [OF start ok(1)] sample_started_state(1) by (simp add: pushed_defs)
  moreover have "get_sink (sample_next (PushLog sample_log_event) sample_started) = Some AppSink"
    by (rule next_keeps(1) [OF start ok(1)]) (simp_all add: get_sink_def sample_started_state(1) sample_dispatch_def)
  ultimately show ?thesis
    using reach_next [OF _ ok(2), of "sample_next (PushLog sample_log_event) sample_started" "[sample_log_event]" "[]" "\<lambda>_. []"]
    by (auto simp: sample_recorded_def pushed_defs get_sink_def split: option.splits if_splits)
qed

lemma sample_stopped_state:
  "\<exists>d b c. G_DISPATCH sample_recorded = Some d \<and> live d \<and> stream_id (log_stream d) = 2 \<and> stream_id (metrics_stream d) = 3
    \<and> shutdown_telemetry sample_surroundings sample_clock sample_clock sample_recorded = Inr sample_stopped
    \<and> sink_calls sample_stopped = [OnStartup sample_info, OnInitLogStream sample_log_stream, OnInitMetricsStream sample_metrics_stream,
        OnProcessLogBlock b, OnProcessMetricsBlock c, OnShutdown]
    \<and> log_msg.represents sample_abi (eb_events b) [sample_log_event] \<and> eb_begin b = sample_time 5 \<and> eb_end b = Some (sample_time 6)
    \<and> metrics_msg.represents sample_abi (eb_events c) [sample_metric_event] \<and> eb_begin c = sample_time 5 \<and> eb_end c = Some (sample_time 6)"
proof -
  obtain s m where s: "G_DISPATCH sample_recorded = Some (sample_dispatch\<lparr>log_stream := s, metrics_stream := m\<rparr>)" "sink_calls sample_recorded = sink_calls sample_started"
    "log_msg.stream_holds sample_abi 0 [sample_log_event] s" "stream_id s = 2" "eb_begin (get_block_ref s) = sample_time 5"
    "metrics_msg.stream_holds sample_abi 0 [sample_metric_event] m" "stream_id m = 3" "eb_begin (get_block_ref m) = sample_time 5"
    using sample_recorded_state by blast
  from log_msg.flush_stream_block [OF s(3) _ sample_buffers, of "sample_time 5" "sample_time 6" 1] obtain s' b where
    b: "flush_stream sample_alloc (sample_time 5) (sample_time 6) 1024 1 s = Inr (s', Some b)"
    "log_msg.represents sample_abi (eb_events b) [sample_log_event]" "eb_end b = Some (sample_time 6)" "eb_begin b = sample_time 5"
    using s(5) by auto
  from metrics_msg.flush_stream_block [OF s(6) _ sample_buffers, of "sample_time 5" "sample_time 6" 1] obtain m' c where
    c: "flush_stream sample_alloc (sample_time 5) (sample_time 6) 1024 1 m = Inr (m', Some c)"
    "metrics_msg.represents sample_abi (eb_events c) [sample_metric_event]" "eb_end c = Some (sample_time 6)" "eb_begin c = sample_time 5"
    using s(8) by auto
  have "\<exists>w. shutdown_telemetry sample_surroundings sample_clock sample_clock sample_recorded = Inr w
      \<and> sink_calls w = sink_calls sample_recorded @ [OnProcessLogBlock b, OnProcessMetricsBlock c, OnShutdown]"
    using s(1) b(1) c(1)
    by (simp add: shutdown_telemetry_def run_defs Dispatch_flush_log_buffer_def Dispatch_flush_metrics_buffer_def Dispatch_shutdown_def
        notify_eq sample_dispatch_def sample_surroundings_def sample_clock_def)
  then show ?thesis using s b c sample_started_state(2) by (auto simp: sample_stopped_def sample_dispatch_def)
qed

definition sample_block :: EventBlock where
  "sample_block = hd (log_blocks (sink_calls sample_stopped))"

definition sample_metrics_block :: EventBlock where
  "sample_metrics_block = hd (metrics_blocks (sink_calls sample_stopped))"

lemma sample_stopped_block:
  "\<exists>d. G_DISPATCH sample_recorded = Some d \<and> live d \<and> stream_id (log_stream d) = 2 \<and> stream_id (metrics_stream d) = 3"
  "shutdown_telemetry sample_surroundings sample_clock sample_clock sample_recorded = Inr sample_stopped"
  "sink_calls sample_stopped = [OnStartup sample_info, OnInitLogStream sample_log_stream, OnInitMetricsStream sample_metrics_stream,
        OnProcessLogBlock sample_block, OnProcessMetricsBlock sample_metrics_block, OnShutdown]"
  "log_msg.represents sample_abi (eb_events sample_block) [sample_log_event]" "eb_begin sample_block = sample_time 5"
  "eb_end sample_block = Some (sample_time 6)"
  "metrics_msg.represents sample_abi (eb_events sample_metrics_block) [sample_metric_event]" "eb_begin sample_metrics_block = sample_time 5"
  "eb_end sample_metrics_block = Some (sample_time 6)"
  using sample_stopped_state by (auto simp: sample_block_def sample_metrics_block_def log_blocks_def metrics_blocks_def)

lemma sample_stopped_ids: "eb_stream_id sample_block = 2" "eb_stream_id sample_metrics_block = 3"
proof -
  obtain d where d: "G_DISPATCH sample_recorded = Some d" "live d" "stream_id (log_stream d) = 2" "stream_id (metrics_stream d) = 3"
    using sample_stopped_block(1) by blast
  obtain ls ms where "stopped_calls sample_info ls ms (sink_calls sample_stopped)" "stream_id ls = 2" "stream_id ms = 3"
    using shutdown_calls [OF sample_recorded_reach d(1,2) sample_stopped_block(2), of sample_info] d(3,4) sample_stopped_block(3) by auto
  then show "eb_stream_id sample_block = 2" "eb_stream_id sample_metrics_block = 3"
    by (auto simp: stopped_calls_def sample_stopped_block(3) belongs_def)
qed

section \<open>Its requests\<close>

definition sample_deps :: hqueue where
  "sample_deps = (case LogMsgQueue_extract sample_alloc sample_abi sample_memory sample_logs (eb_events sample_block) of
     Inr q \<Rightarrow> q | Inl _ \<Rightarrow> queue_new sample_alloc 0)"

definition sample_metrics_deps :: hqueue where
  "sample_metrics_deps = (case MetricsMsgQueue_extract sample_alloc sample_abi sample_memory sample_metrics (eb_events sample_metrics_block) of
     Inr q \<Rightarrow> q | Inl _ \<Rightarrow> queue_new sample_alloc 0)"

definition sample_sent_block :: "uuid \<Rightarrow> EventBlock \<Rightarrow> hqueue \<Rightarrow> Block" where
  "sample_sent_block bid b dq = \<lparr>bl_block_id = bid, bl_stream_id = eb_stream_id b, bl_process_id = eb_process_id b,
     bl_begin_time = wi_to_rfc3339 (sample_wire [] [] []) 0, bl_begin_ticks = 0,
     bl_end_time = wi_to_rfc3339 (sample_wire [] [] []) 0, bl_end_ticks = 1,
     bl_payload = \<lparr>bp_dependencies = q_buffer dq, bp_objects = q_buffer (eb_events b)\<rparr>,
     bl_object_offset = word_of_nat (object_offset b), bl_nb_objects = word_of_nat (block_nb_objects b)\<rparr>"

definition sample_blocks :: "Block list" where
  "sample_blocks = [sample_sent_block 9 sample_block sample_deps, sample_sent_block 10 sample_metrics_block sample_metrics_deps]"

definition sample_streams :: "StreamInfo list" where
  "sample_streams = [log_stream_info id sample_abi sample_log_stream, metrics_stream_info id sample_abi sample_metrics_stream]"

definition sample_formats :: wire where
  "sample_formats = sample_wire [sample_info] sample_streams sample_blocks"

definition sample_requests :: "request list" where
  "sample_requests =
     [\<lparr>rq_url = ''http://host/ingestion/insert_process'', rq_body = sample_encode finite_processes [sample_info] sample_info\<rparr>,
      \<lparr>rq_url = ''http://host/ingestion/insert_stream'', rq_body = sample_encode finite_streams sample_streams (sample_streams ! 0)\<rparr>,
      \<lparr>rq_url = ''http://host/ingestion/insert_stream'', rq_body = sample_encode finite_streams sample_streams (sample_streams ! 1)\<rparr>,
      \<lparr>rq_url = ''http://host/ingestion/insert_block'', rq_body = sample_encode UNIV sample_blocks (sample_blocks ! 0)\<rparr>,
      \<lparr>rq_url = ''http://host/ingestion/insert_block'', rq_body = sample_encode UNIV sample_blocks (sample_blocks ! 1)\<rparr>]"

lemma sample_log_ok:
  "log_metadata_ok (sample_http wi)" "log_events_ok (sample_http wi) [sample_log_event]"
proof -
  show "log_metadata_ok (sample_http wi)"
    by (simp add: log_metadata_ok_def sample_http_def sample_surroundings_def sample_layouts is_shuffle_def)
  have "consistent_actions LogDepsQueue_dep_id LogDepsQueue_refs (concat (map (log_actions sample_logs) [sample_log_event]))"
    by (auto simp: sample_log_event_def consistent_actions_def log_desc_actions_def sample_logs_def sample_log_def log_strings_def
        log_record_def sample_str_def StaticString_from_StringId_def inj_on_def)
  then show "log_events_ok (sample_http wi) [sample_log_event]"
    by (simp add: log_events_ok_def sample_http_def sample_surroundings_def sample_sites_def)
      (simp add: sample_log_event_def log_desc_ok_def sample_logs_def sample_log_def log_strings_def sample_str_ok)
qed

lemma sample_extracts: "LogMsgQueue_extract sample_alloc sample_abi sample_memory sample_logs (eb_events sample_block) = Inr sample_deps"
proof -
  let ?udts = "stream_metadata id (LogMsgQueue_reflect_contained sample_abi)"
  let ?deps = "stream_metadata id (LogDepsQueue_reflect_contained sample_abi)"
  have "LogMsgQueue_ready sample_abi sample_memory sample_logs ?udts ?deps sample_log_event"
    using sample_log_ok(2) by (intro log_ready sample_layouts sample_events_valid)
      (simp_all add: log_events_ok_def sample_http_def sample_surroundings_def sample_sites_def is_shuffle_def)
  then have "log_block.objects.represents sample_abi sample_memory sample_logs ?udts ?deps (eb_events sample_block) [sample_log_event]"
    using sample_stopped_block(4) by (simp add: log_msg.represents_def log_block.objects.represents_def)
  from log_block.extract_represents [OF this, of sample_alloc] show ?thesis by (auto simp: sample_deps_def)
qed

lemma sample_metrics_ok:
  "metrics_metadata_ok (sample_http wi)" "metrics_events_ok (sample_http wi) [sample_metric_event]"
proof -
  show "metrics_metadata_ok (sample_http wi)"
    by (simp add: metrics_metadata_ok_def sample_http_def sample_surroundings_def sample_layouts)
  have "consistent_actions MetricsDepsQueue_dep_id MetricsDepsQueue_refs (concat (map (metric_actions sample_metrics) [sample_metric_event]))"
    by (auto simp: sample_metric_event_def consistent_actions_def metric_actions_def sample_metrics_def sample_metric_def metric_strings_def
        metric_record_def sample_str_def StaticString_from_str_def inj_on_def)
  then show "metrics_events_ok (sample_http wi) [sample_metric_event]"
    by (simp add: metrics_events_ok_def sample_http_def sample_surroundings_def sample_sites_def)
      (simp add: sample_metric_event_def sample_metrics_def sample_metric_def metric_strings_def sample_str_ok)
qed

lemma sample_metrics_extracts:
  "MetricsMsgQueue_extract sample_alloc sample_abi sample_memory sample_metrics (eb_events sample_metrics_block) = Inr sample_metrics_deps"
proof -
  let ?udts = "stream_metadata id (MetricsMsgQueue_reflect_contained sample_abi)"
  let ?deps = "stream_metadata id (MetricsDepsQueue_reflect_contained sample_abi)"
  have "MetricsMsgQueue_ready sample_abi sample_memory sample_metrics ?udts ?deps sample_metric_event"
    using sample_metrics_ok(2) by (intro metric_ready [where m = sample_metric] sample_layouts)
      (simp_all add: metrics_events_ok_def sample_http_def sample_surroundings_def sample_sites_def sample_metric_event_def sample_metrics_def)
  then have "metrics_block.objects.represents sample_abi sample_memory sample_metrics ?udts ?deps (eb_events sample_metrics_block) [sample_metric_event]"
    using sample_stopped_block(7) by (simp add: metrics_msg.represents_def metrics_block.objects.represents_def)
  from metrics_block.extract_represents [OF this, of sample_alloc] show ?thesis by (auto simp: sample_metrics_deps_def)
qed

lemma sample_answered:
  "list_all2 (answered (sample_http sample_formats) sample_info) (sent_events (sample_http sample_formats) (sink_calls sample_stopped)) sample_requests"
proof -
  let ?h = "sample_http sample_formats"
  have "LogBlock_encode_bin (he_wire ?h) (he_su ?h) (he_sites ?h) 9 sample_info sample_block = Inr (sample_encode UNIV sample_blocks (sample_blocks ! 0))"
    using sample_extracts sample_stopped_block(5,6)
    by (simp add: LogBlock_encode_bin_def encode_block_def compress_def sample_http_def sample_surroundings_def sample_sites_def sample_formats_def
        sample_wire_def sample_blocks_def sample_sent_block_def sample_time_def sample_info_def make_process_info_def sample_clock_def)
  moreover have "MetricsBlock_encode_bin (he_wire ?h) (he_su ?h) (he_sites ?h) 10 sample_info sample_metrics_block
      = Inr (sample_encode UNIV sample_blocks (sample_blocks ! 1))"
    using sample_metrics_extracts sample_stopped_block(8,9)
    by (simp add: MetricsBlock_encode_bin_def encode_block_def compress_def sample_http_def sample_surroundings_def sample_sites_def sample_formats_def
        sample_wire_def sample_blocks_def sample_sent_block_def sample_time_def sample_info_def make_process_info_def sample_clock_def)
  ultimately show ?thesis
    by (auto simp: sample_stopped_block(3) sent_events_def sample_requests_def answered_def insert_url_def sample_streams_def)
      (auto simp: sample_http_def sample_formats_def sample_wire_def sample_streams_def sample_surroundings_def)
qed

lemma sample_encode_body:
  assumes "x \<in> set favs" and "length favs \<le> 3"
  shows "length (sample_encode A favs x) \<le> body_limit" "sample_encode A favs x \<noteq> []"
proof -
  show "length (sample_encode A favs x) \<le> body_limit" using sample_encode_short [OF assms(1), of A] assms(2) by (simp add: body_limit_def)
  show "sample_encode A favs x \<noteq> []" by (simp add: sample_encode_def)
qed

lemma sample_info_fits: "process_fits sample_info"
  by (simp add: process_fits_def sample_info_def make_process_info_def sample_surroundings_def char_count_def get_cpu_brand_def)

lemma sample_requests_ok:
  "list_all2 request_ok (sent_events (sample_http sample_formats) (sink_calls sample_stopped)) sample_requests"
proof -
  have "finite (dom (pi_properties sample_info))" by (simp add: sample_info_def make_process_info_def)
  moreover have "finite (dom (si_properties (log_stream_info f abi sample_log_stream)))"
    "finite (dom (si_properties (metrics_stream_info f abi sample_metrics_stream)))" for f abi
    by (simp_all add: log_stream_info_def metrics_stream_info_def make_stream_info_def Let_def sample_log_stream_def sample_metrics_stream_def desc_new)
  moreover have "length sample_streams \<le> 3" "sample_streams ! 0 \<in> set sample_streams" "sample_streams ! 1 \<in> set sample_streams"
    "length sample_blocks \<le> 3" "sample_blocks ! 0 \<in> set sample_blocks" "sample_blocks ! 1 \<in> set sample_blocks"
    by (simp_all add: sample_streams_def sample_blocks_def)
  ultimately show ?thesis
    by (simp add: sample_stopped_block(3) sent_events_def sample_requests_def request_ok_def sample_encode_body sample_info_fits)
qed

lemma sample_request_blocks:
  "concat (map (request_block sample_formats ''http://host'') sample_requests) = sample_blocks"
  by (simp add: sample_requests_def request_block_def sample_formats_def sample_wire_def sample_codec countable_blocks)
    (simp add: sample_blocks_def)

lemma sample_query_tick:
  "query_tick (sample_lake wi fails) sample_info 0 = 0" "query_tick (sample_lake wi fails) sample_info 1000000000 = 1000"
proof -
  have "\<lfloor>1 / 2 :: rat\<rfloor> = 0" "\<lfloor>2001 / 2 :: rat\<rfloor> = 1000" by (simp_all add: floor_eq_iff)
  then show "query_tick (sample_lake wi fails) sample_info 0 = 0" "query_tick (sample_lake wi fails) sample_info 1000000000 = 1000"
    using fround_int [of 1000] fround_int [of 1]
    by (simp_all add: query_tick_def query_ticks_def sample_lake_def sample_info_def make_process_info_def sample_surroundings_def sample_clock_def
        to_ticks_def num_seconds_def subsec_nanos_def f64_of_int_def f64_of_i64_def NANOS_PER_SEC_def ConvertTicks_new_def from_meta_data_def
        timestamp_nanos_def round_away_def clamp_i64_def Let_def)
qed

definition sample_row :: LogEntry where
  "sample_row = \<lparr>le_time = 2000000, le_level = 3, le_target = ''A'', le_msg = ''A''\<rparr>"

lemma sample_tick_time:
  "ticks_to_nanoseconds (query_ticks (sample_lake wi fails) sample_info) 7 = 2000000"
  "ticks_to_nanoseconds (query_ticks (sample_lake wi fails) sample_info) 8 = 3000000"
proof -
  have "\<lfloor>4000001 / 2 :: rat\<rfloor> = 2000000" "\<lfloor>6000001 / 2 :: rat\<rfloor> = 3000000" by (simp_all add: floor_eq_iff)
  then show "ticks_to_nanoseconds (query_ticks (sample_lake wi fails) sample_info) 7 = 2000000"
    "ticks_to_nanoseconds (query_ticks (sample_lake wi fails) sample_info) 8 = 3000000"
    using fround_int [of 1000] fround_int [of 2] fround_int [of 3] fround_int [of 1000000] fround_int [of 2000000] fround_int [of 3000000]
    by (simp_all add: ticks_to_nanoseconds_def query_ticks_def sample_lake_def sample_info_def make_process_info_def sample_surroundings_def sample_clock_def
        f64_of_int_def f64_of_i64_def NANOS_PER_SEC_def ConvertTicks_new_def from_meta_data_def get_tsc_frequency_inverse_ns_def
        timestamp_nanos_def round_away_def clamp_i64_def Let_def)
qed

lemma sample_texts:
  "str_text sample_memory (sample_str 1) = ''A''" "str_text sample_memory (sample_str 2) = ''A''" "str_text sample_memory (sample_str 3) = ''A''" "str_text sample_memory (sample_str 5) = ''A''"
proof -
  have "char_of_byte 65 = CHR ''A''" by code_simp
  then show "str_text sample_memory (sample_str 1) = ''A''" "str_text sample_memory (sample_str 2) = ''A''" "str_text sample_memory (sample_str 3) = ''A''" "str_text sample_memory (sample_str 5) = ''A''"
    by (simp_all add: sample_str_def str_text_def static_text_def) (simp_all add: sample_memory_def string_of_bytes_def)
qed

lemma sample_entry: "log_entry_of sample_memory sample_logs (query_ticks (sample_lake wi fails) sample_info) sample_log_event = sample_row"
  using sample_tick_time(1) sample_texts
  by (simp add: log_entry_of_def sample_log_event_def sample_logs_def sample_log_def sample_row_def)

text \<open>The bits of the double 3.\<close>

definition sample_measure :: Measure where
  "sample_measure = \<lparr>me_time = 3000000, me_target = ''A'', me_name = ''A'', me_unit = ''A'', me_value = 0x4008000000000000\<rparr>"

lemma sample_measured: "measure_of sample_memory sample_metrics (query_ticks (sample_lake wi fails) sample_info) sample_metric_event = sample_measure"
proof -
  have "u64_as_f64 3 = 0x4008000000000000" by code_simp
  then show ?thesis
    using sample_tick_time(2) sample_texts
    by (simp add: measure_of_def sample_metric_event_def sample_metrics_def sample_metric_def sample_measure_def)
qed

section \<open>What the end-to-end properties ask of it\<close>

lemma sample_environment:
  "he_su (sample_http wi) = sample_surroundings" "he_sites (sample_http wi) = sample_sites" "he_wire (sample_http wi) = wi"
  "he_addr (sample_http wi) = ''http://host''" "le_wire (sample_lake wi fails) = wi"
  by (simp_all add: sample_http_def sample_lake_def)

lemma sample_stopped_blocks:
  "log_blocks (sink_calls sample_stopped) = [sample_block]" "metrics_blocks (sink_calls sample_stopped) = [sample_metrics_block]"
  "thread_blocks (sink_calls sample_stopped) = []" "other_blocks (sink_calls sample_stopped) = [sample_metrics_block]"
  by (simp_all add: sample_stopped_block(3) log_blocks_def other_blocks_def metrics_blocks_def thread_blocks_def)

lemma sample_served:
  "hd (sink_calls sample_stopped) = OnStartup sample_info"
  "server_ok (sample_lake sample_formats (\<lambda>_. False)) (sample_http sample_formats)"
  "distinct (map block_key (concat (map (request_block sample_formats ''http://host'') sample_requests)))"
proof -
  show "hd (sink_calls sample_stopped) = OnStartup sample_info" by (simp add: sample_stopped_block(3))
  show "server_ok (sample_lake sample_formats (\<lambda>_. False)) (sample_http sample_formats)"
    unfolding server_ok_def sample_environment using sample_lake_ok sample_wire_ok by (simp add: sample_formats_def)
  show "distinct (map block_key (concat (map (request_block sample_formats ''http://host'') sample_requests)))"
    unfolding sample_request_blocks by (simp add: sample_blocks_def sample_sent_block_def block_key_def)
qed

lemma sample_covered:
  fixes wi fails
  defines "env \<equiv> sample_lake wi fails"
  shows "ticks_cover sample_info (query_tick env sample_info 0) (query_tick env sample_info 1000000000) (log_blocks (sink_calls sample_stopped))"
    "ticks_cover sample_info (query_tick env sample_info 0) (query_tick env sample_info 1000000000) (metrics_blocks (sink_calls sample_stopped))"
  unfolding sample_stopped_blocks sample_query_tick env_def
  by (simp_all add: ticks_cover_def sample_stopped_block sample_time_def sample_info_def make_process_info_def sample_clock_def)

end
