(* ===== verification/Sql_Arrow.thy ===== *)
theory Sql_Arrow
  imports Arrow
begin

text \<open>
  Rows of the database as record batches (\<open>analytics/src/sql_arrow_bridge.rs\<close>, \<open>arrow_utils.rs\<close>): a reader
  per column, chosen by the name of the type of the column, appends the value of each row to the
  builder of the column. The driver gives a value only when it has the type that is asked for.
\<close>

section \<open>Rows of the driver\<close>

datatype pg_value =
    PgNull
  | PgVarchar string
  | PgUuid uuid
  | PgTimestamptz int
  | PgInt8 i64
  | PgInt4 u32
  | PgTextArray "string list"
  | PgPropertyArray "Property list"

record PgColumn =
  pc_name :: string
  pc_type :: string
  pc_ordinal :: nat

record PgRow =
  pg_columns :: "PgColumn list"
  pg_values :: "pg_value list"

definition try_get :: "(pg_value \<Rightarrow> 'a option) \<Rightarrow> PgRow \<Rightarrow> nat \<Rightarrow> 'a res" where
  "try_get decode row i =
     (if i < length (pg_values row) then ok_or_err ''try_get failed on row'' (decode (pg_values row ! i)) else Inl (Err ''try_get failed on row''))"

fun as_varchar :: "pg_value \<Rightarrow> string option" where
  "as_varchar (PgVarchar s) = Some s" | "as_varchar _ = None"

fun as_opt_uuid :: "pg_value \<Rightarrow> uuid option option" where
  "as_opt_uuid (PgUuid u) = Some (Some u)" | "as_opt_uuid PgNull = Some None" | "as_opt_uuid _ = None"

fun as_timestamptz :: "pg_value \<Rightarrow> int option" where
  "as_timestamptz (PgTimestamptz t) = Some t" | "as_timestamptz _ = None"

fun as_int8 :: "pg_value \<Rightarrow> i64 option" where
  "as_int8 (PgInt8 n) = Some n" | "as_int8 _ = None"

fun as_int4 :: "pg_value \<Rightarrow> u32 option" where
  "as_int4 (PgInt4 n) = Some n" | "as_int4 _ = None"

fun as_text_array :: "pg_value \<Rightarrow> string list option" where
  "as_text_array (PgTextArray ss) = Some ss" | "as_text_array _ = None"

fun as_properties :: "pg_value \<Rightarrow> Property list option" where
  "as_properties (PgPropertyArray ps) = Some ps" | "as_properties _ = None"

section \<open>Readers\<close>

text \<open>A reader has the name of its field and the ordinal of its column.\<close>

datatype ColumnReader =
    StringColumnReader string nat
  | UuidColumnReader string nat
  | Int64ColumnReader string nat
  | Int32ColumnReader string nat
  | TimestampColumnReader string nat
  | StringArrayColumnReader string nat
  | PropertiesColumnReader string nat

text \<open>The field of a reader: its name, and the column that its builder starts with.\<close>

fun reader_field :: "ColumnReader \<Rightarrow> string \<times> Column" where
  "reader_field (StringColumnReader f i) = (f, NullableUtf8Column [])"
| "reader_field (UuidColumnReader f i) = (f, NullableUtf8Column [])"
| "reader_field (Int64ColumnReader f i) = (f, Int64Column [])"
| "reader_field (Int32ColumnReader f i) = (f, Int32Column [])"
| "reader_field (TimestampColumnReader f i) = (f, TimestampColumn [])"
| "reader_field (StringArrayColumnReader f i) = (f, Utf8ListColumn [])"
| "reader_field (PropertiesColumnReader f i) = (f, PropertyListColumn [])"

text \<open>The builder of the field with a given index, which must be of the given kind, gets a value.\<close>

type_synonym StructBuilder = "Column list"

definition field_append :: "nat \<Rightarrow> (Column \<Rightarrow> Column option) \<Rightarrow> string \<Rightarrow> StructBuilder \<Rightarrow> StructBuilder res" where
  "field_append i app context b =
     (if i < length b then and_then (ok_or_err context (app (b ! i))) (\<lambda>c. Inr (b[i := c])) else Inl (Panic ''index out of bounds''))"

fun append_utf8 :: "string option \<Rightarrow> Column \<Rightarrow> Column option" where
  "append_utf8 v (NullableUtf8Column c) = Some (NullableUtf8Column (c @ [v]))" | "append_utf8 v _ = None"

fun append_int64 :: "i64 \<Rightarrow> Column \<Rightarrow> Column option" where
  "append_int64 v (Int64Column c) = Some (Int64Column (c @ [v]))" | "append_int64 v _ = None"

fun append_int32 :: "u32 \<Rightarrow> Column \<Rightarrow> Column option" where
  "append_int32 v (Int32Column c) = Some (Int32Column (c @ [v]))" | "append_int32 v _ = None"

fun append_timestamp :: "i64 \<Rightarrow> Column \<Rightarrow> Column option" where
  "append_timestamp v (TimestampColumn c) = Some (TimestampColumn (c @ [v]))" | "append_timestamp v _ = None"

fun append_utf8_list :: "string list \<Rightarrow> Column \<Rightarrow> Column option" where
  "append_utf8_list v (Utf8ListColumn c) = Some (Utf8ListColumn (c @ [v]))" | "append_utf8_list v _ = None"

fun append_property_list :: "Property list \<Rightarrow> Column \<Rightarrow> Column option" where
  "append_property_list v (PropertyListColumn c) = Some (PropertyListColumn (c @ [v]))" | "append_property_list v _ = None"

fun extract_column_from_row :: "(uuid \<Rightarrow> string) \<Rightarrow> ColumnReader \<Rightarrow> PgRow \<Rightarrow> StructBuilder \<Rightarrow> StructBuilder res" where
  "extract_column_from_row u2s (StringColumnReader f i) row b =
     and_then (try_get as_varchar row i) (\<lambda>v. field_append i (append_utf8 (Some v)) ''getting field builder for string column'' b)"
| "extract_column_from_row u2s (UuidColumnReader f i) row b =
     and_then (try_get as_opt_uuid row i) (\<lambda>v. field_append i (append_utf8 (map_option u2s v)) ''getting field builder for string column'' b)"
| "extract_column_from_row u2s (Int64ColumnReader f i) row b =
     and_then (try_get as_int8 row i) (\<lambda>v. field_append i (append_int64 v) ''getting field builder for int64 column'' b)"
| "extract_column_from_row u2s (Int32ColumnReader f i) row b =
     and_then (try_get as_int4 row i) (\<lambda>v. field_append i (append_int32 v) ''getting field builder for int32 column'' b)"
| "extract_column_from_row u2s (TimestampColumnReader f i) row b =
     and_then (try_get as_timestamptz row i) (\<lambda>v. field_append i (append_timestamp (timestamp_nanos v)) ''getting field builder for timestamp column'' b)"
| "extract_column_from_row u2s (StringArrayColumnReader f i) row b =
     and_then (try_get as_text_array row i) (\<lambda>v. field_append i (append_utf8_list v) ''getting field builder for string array column'' b)"
| "extract_column_from_row u2s (PropertiesColumnReader f i) row b =
     and_then (try_get as_properties row i) (\<lambda>v. field_append i (append_property_list v) ''getting list field builder for property'' b)"

definition make_column_reader :: "PgColumn \<Rightarrow> ColumnReader res" where
  "make_column_reader column = (let f = pc_name column; i = pc_ordinal column; t = pc_type column in
     if t = ''VARCHAR'' then Inr (StringColumnReader f i)
     else if t = ''UUID'' then Inr (UuidColumnReader f i)
     else if t = ''TIMESTAMPTZ'' then Inr (TimestampColumnReader f i)
     else if t = ''INT8'' then Inr (Int64ColumnReader f i)
     else if t = ''INT4'' then Inr (Int32ColumnReader f i)
     else if t = ''TEXT[]'' then Inr (StringArrayColumnReader f i)
     else if t = ''_micromegas_property'' then Inr (PropertiesColumnReader f i)
     else Inl (Err ''unknown type''))"

definition make_empty_record_batch :: RecordBatch where
  "make_empty_record_batch = []"

text \<open>Finishing the builder of the rows panics when a column does not have one value per row.\<close>

definition struct_finish :: "string list \<Rightarrow> nat \<Rightarrow> StructBuilder \<Rightarrow> RecordBatch res" where
  "struct_finish names n b = (if \<forall>c \<in> set b. column_len c = n then Inr (zip names b)
     else Inl (Panic ''StructBuilder and field_builders are of unequal lengths.''))"

definition rows_to_record_batch :: "(uuid \<Rightarrow> string) \<Rightarrow> PgRow list \<Rightarrow> RecordBatch res" where
  "rows_to_record_batch u2s rows = (case rows of
     [] \<Rightarrow> Inr make_empty_record_batch
   | r # _ \<Rightarrow>
       and_then (traverse make_column_reader (pg_columns r)) (\<lambda>field_readers.
       let fields = map reader_field field_readers in
       and_then (fold_res (\<lambda>row. fold_res (\<lambda>reader. extract_column_from_row u2s reader row) field_readers) rows (map snd fields)) (\<lambda>b.
       struct_finish (map fst fields) (length rows) b)))"

section \<open>Selected columns\<close>

text \<open>
  The columns of a query: their names, and where a row of the table has their values, with the type that
  the schema gives to the column.
\<close>

datatype 'r field =
    VarcharField "'r \<Rightarrow> string"
  | UuidField "'r \<Rightarrow> uuid option"
  | TimestamptzField "'r \<Rightarrow> int"
  | Int8Field "'r \<Rightarrow> i64"
  | Int4Field "'r \<Rightarrow> u32"
  | TextArrayField "'r \<Rightarrow> string list"
  | PropertyArrayField "'r \<Rightarrow> Property list"

type_synonym 'r columns = "(string \<times> 'r field) list"

fun field_type :: "'r field \<Rightarrow> string" where
  "field_type (VarcharField g) = ''VARCHAR''"
| "field_type (UuidField g) = ''UUID''"
| "field_type (TimestamptzField g) = ''TIMESTAMPTZ''"
| "field_type (Int8Field g) = ''INT8''"
| "field_type (Int4Field g) = ''INT4''"
| "field_type (TextArrayField g) = ''TEXT[]''"
| "field_type (PropertyArrayField g) = ''_micromegas_property''"

fun field_value :: "'r field \<Rightarrow> 'r \<Rightarrow> pg_value" where
  "field_value (VarcharField g) r = PgVarchar (g r)"
| "field_value (UuidField g) r = (case g r of None \<Rightarrow> PgNull | Some u \<Rightarrow> PgUuid u)"
| "field_value (TimestamptzField g) r = PgTimestamptz (g r)"
| "field_value (Int8Field g) r = PgInt8 (g r)"
| "field_value (Int4Field g) r = PgInt4 (g r)"
| "field_value (TextArrayField g) r = PgTextArray (g r)"
| "field_value (PropertyArrayField g) r = PgPropertyArray (g r)"

definition pg_row :: "'r columns \<Rightarrow> 'r \<Rightarrow> PgRow" where
  "pg_row cols r =
     \<lparr>pg_columns = map (\<lambda>i. \<lparr>pc_name = fst (cols ! i), pc_type = field_type (snd (cols ! i)), pc_ordinal = i\<rparr>) [0..<length cols],
      pg_values = map (\<lambda>(name, f). field_value f r) cols\<rparr>"

definition processes_columns :: "ProcessRow columns" where
  "processes_columns =
     [(''process_id'', UuidField (Some \<circ> pw_process_id)), (''exe'', VarcharField pw_exe), (''username'', VarcharField pw_username),
      (''realname'', VarcharField pw_realname), (''computer'', VarcharField pw_computer), (''distro'', VarcharField pw_distro),
      (''cpu_brand'', VarcharField pw_cpu_brand), (''tsc_frequency'', Int8Field pw_tsc_frequency),
      (''start_time'', TimestamptzField pw_start_time), (''start_ticks'', Int8Field pw_start_ticks),
      (''insert_time'', TimestamptzField pw_insert_time), (''parent_process_id'', UuidField pw_parent_process_id),
      (''properties'', PropertyArrayField pw_properties)]"

definition streams_columns :: "StreamRow columns" where
  "streams_columns =
     [(''stream_id'', UuidField (Some \<circ> sw_stream_id)), (''process_id'', UuidField (Some \<circ> sw_process_id)),
      (''tags'', TextArrayField sw_tags), (''properties'', PropertyArrayField sw_properties)]"

definition blocks_columns :: "BlockRow columns" where
  "blocks_columns =
     [(''block_id'', UuidField (Some \<circ> bw_block_id)), (''stream_id'', UuidField (Some \<circ> bw_stream_id)),
      (''process_id'', UuidField (Some \<circ> bw_process_id)), (''begin_time'', TimestamptzField bw_begin_time),
      (''begin_ticks'', Int8Field bw_begin_ticks), (''end_time'', TimestamptzField bw_end_time), (''end_ticks'', Int8Field bw_end_ticks),
      (''nb_objects'', Int4Field bw_nb_objects), (''object_offset'', Int8Field bw_object_offset), (''payload_size'', Int8Field bw_payload_size)]"

section \<open>What the conversion gives\<close>

text \<open>A time is shown as nanoseconds of 64 bits; the years that do not fit are shown as zero, the first of January 1970.\<close>

definition shown_time :: "int \<Rightarrow> i64" where
  "shown_time t = (if t \<in> {- 9223372036854775808 .. 9223372036854775807} then word_of_int t else 0)"

fun field_column :: "(uuid \<Rightarrow> string) \<Rightarrow> 'r field \<Rightarrow> 'r list \<Rightarrow> Column" where
  "field_column u2s (VarcharField g) rs = NullableUtf8Column (map (Some \<circ> g) rs)"
| "field_column u2s (UuidField g) rs = NullableUtf8Column (map (map_option u2s \<circ> g) rs)"
| "field_column u2s (TimestamptzField g) rs = TimestampColumn (map (shown_time \<circ> g) rs)"
| "field_column u2s (Int8Field g) rs = Int64Column (map g rs)"
| "field_column u2s (Int4Field g) rs = Int32Column (map g rs)"
| "field_column u2s (TextArrayField g) rs = Utf8ListColumn (map g rs)"
| "field_column u2s (PropertyArrayField g) rs = PropertyListColumn (map g rs)"

fun field_reader :: "nat \<Rightarrow> string \<times> 'r field \<Rightarrow> ColumnReader" where
  "field_reader i (name, VarcharField g) = StringColumnReader name i"
| "field_reader i (name, UuidField g) = UuidColumnReader name i"
| "field_reader i (name, TimestamptzField g) = TimestampColumnReader name i"
| "field_reader i (name, Int8Field g) = Int64ColumnReader name i"
| "field_reader i (name, Int4Field g) = Int32ColumnReader name i"
| "field_reader i (name, TextArrayField g) = StringArrayColumnReader name i"
| "field_reader i (name, PropertyArrayField g) = PropertiesColumnReader name i"

lemma make_field_reader: "make_column_reader \<lparr>pc_name = name, pc_type = field_type f, pc_ordinal = i\<rparr> = Inr (field_reader i (name, f))"
  by (cases f) (simp_all add: make_column_reader_def)

lemma reader_field_of: "reader_field (field_reader i (name, f)) = (name, field_column u2s f [])"
  by (cases f) simp_all

lemma column_len_field: "column_len (field_column u2s f rs) = length rs"
  by (cases f) simp_all

lemma try_get_row:
  "i < length cols \<Longrightarrow> cols ! i = (name, f) \<Longrightarrow> try_get d (pg_row cols r) i = ok_or_err ''try_get failed on row'' (d (field_value f r))"
  by (simp add: try_get_def pg_row_def)

lemma nanos_shown: "timestamp_nanos t = shown_time t"
  by (auto simp: timestamp_nanos_def shown_time_def)

lemma extract_field:
  assumes "i < length cols" and "cols ! i = (name, f)" and "i < length b" and "b ! i = field_column u2s f rs"
  shows "extract_column_from_row u2s (field_reader i (name, f)) (pg_row cols r) b = Inr (b[i := field_column u2s f (rs @ [r])])"
  using assms(3,4) by (cases f) (auto simp: try_get_row [OF assms(1,2)] nanos_shown field_append_def ok_or_err_def split: option.splits)

lemma extract_fields:
  assumes "k \<le> length cols"
  shows "fold_res (\<lambda>reader. extract_column_from_row u2s reader (pg_row cols r)) (map (\<lambda>i. field_reader i (cols ! i)) [0..<k])
      (map (\<lambda>(name, f). field_column u2s f rs) cols)
    = Inr (map (\<lambda>i. field_column u2s (snd (cols ! i)) (if i < k then rs @ [r] else rs)) [0..<length cols])"
  using assms
proof (induction k)
  case 0
  then show ?case by (auto intro: nth_equalityI split: prod.splits)
next
  case (Suc k)
  let ?b = "map (\<lambda>i. field_column u2s (snd (cols ! i)) (if i < k then rs @ [r] else rs)) [0..<length cols]"
  have "extract_column_from_row u2s (field_reader k (cols ! k)) (pg_row cols r) ?b
      = Inr (?b[k := field_column u2s (snd (cols ! k)) (rs @ [r])])"
    using extract_field [of k cols "fst (cols ! k)" "snd (cols ! k)" ?b u2s rs r] Suc.prems by simp
  moreover have "?b[k := field_column u2s (snd (cols ! k)) (rs @ [r])]
      = map (\<lambda>i. field_column u2s (snd (cols ! i)) (if i < Suc k then rs @ [r] else rs)) [0..<length cols]"
    by (rule nth_equalityI) (auto simp: nth_list_update less_Suc_eq)
  ultimately show ?case using Suc by (simp add: fold_res_append)
qed

lemma extract_rows:
  "fold_res (\<lambda>row. fold_res (\<lambda>reader. extract_column_from_row u2s reader row) (map (\<lambda>i. field_reader i (cols ! i)) [0..<length cols]))
      (map (pg_row cols) rs) (map (\<lambda>(name, f). field_column u2s f rs') cols)
    = Inr (map (\<lambda>(name, f). field_column u2s f (rs' @ rs)) cols)"
proof (induction rs arbitrary: rs')
  case (Cons r rs)
  have "map (\<lambda>i. field_column u2s (snd (cols ! i)) (if i < length cols then rs' @ [r] else rs')) [0..<length cols]
      = map (\<lambda>(name, f). field_column u2s f (rs' @ [r])) cols"
    by (rule nth_equalityI) (auto split: prod.splits)
  then show ?case using extract_fields [of "length cols" cols u2s r rs'] Cons [of "rs' @ [r]"] by simp
qed simp

lemma rows_to_record_batch_of:
  "rows_to_record_batch u2s (map (pg_row cols) rs) = Inr (if rs = [] then [] else map (\<lambda>(name, f). (name, field_column u2s f rs)) cols)"
proof (cases rs)
  case Nil
  then show ?thesis by (simp add: rows_to_record_batch_def make_empty_record_batch_def)
next
  case (Cons r rest)
  let ?readers = "map (\<lambda>i. field_reader i (cols ! i)) [0..<length cols]"
  have readers: "traverse make_column_reader (pg_columns (pg_row cols r)) = Inr ?readers"
  proof (rule traverse_nth)
    show "make_column_reader (pg_columns (pg_row cols r) ! i) = Inr (?readers ! i)" if "i < length (pg_columns (pg_row cols r))" for i
      using that make_field_reader [of "fst (cols ! i)" "snd (cols ! i)" i] by (simp add: pg_row_def)
  qed (simp add: pg_row_def)
  have fields: "map reader_field ?readers = map (\<lambda>(name, f). (name, field_column u2s f [])) cols"
  proof (rule nth_equalityI)
    show "map reader_field ?readers ! i = map (\<lambda>(name, f). (name, field_column u2s f [])) cols ! i" if "i < length (map reader_field ?readers)" for i
      using that reader_field_of [of i "fst (cols ! i)" "snd (cols ! i)" u2s] by (simp split: prod.splits)
  qed simp
  have start: "map snd (map reader_field ?readers) = map (\<lambda>(name, f). field_column u2s f []) cols"
    "map fst (map reader_field ?readers) = map fst cols"
    unfolding fields by (auto split: prod.splits)
  have "struct_finish (map fst cols) (length rs) (map (\<lambda>(name, f). field_column u2s f rs) cols)
      = Inr (map (\<lambda>(name, f). (name, field_column u2s f rs)) cols)"
    by (auto simp: struct_finish_def column_len_field zip_map_map zip_same_conv_map split: prod.splits)
  then show ?thesis
    using extract_rows [of u2s cols rs "[]"] readers
    unfolding rows_to_record_batch_def Cons by (simp only: list.simps list.case and_then.simps Let_def start append_Nil) simp
qed

text \<open>
  C36. Rows of the three tables always become a record batch: no column has a type that the conversion does
  not know, no value is of another type than its reader asks for, and the batch has the selected columns
  with one value per row, in the order of the rows. A time that a 64-bit number of nanoseconds cannot hold
  becomes zero.
\<close>

theorem table_rows_convert:
  "rows_to_record_batch u2s (map (pg_row processes_columns) ps)
      = Inr (if ps = [] then [] else map (\<lambda>(name, f). (name, field_column u2s f ps)) processes_columns)
   \<and> rows_to_record_batch u2s (map (pg_row streams_columns) ss)
      = Inr (if ss = [] then [] else map (\<lambda>(name, f). (name, field_column u2s f ss)) streams_columns)
   \<and> rows_to_record_batch u2s (map (pg_row blocks_columns) bs)
      = Inr (if bs = [] then [] else map (\<lambda>(name, f). (name, field_column u2s f bs)) blocks_columns)"
  by (simp add: rows_to_record_batch_of)

end
