(* ===== verification/Thread_Blocks.thy ===== *)
theory Thread_Blocks
  imports Row_Scan
begin

text \<open>
  Reading the blocks of a thread (\<open>analytics/src/scope.rs\<close>, \<open>thread_block_processor.rs\<close>): every begin
  and end event of a span is given to a processor, with the identity of its scope and the index of the
  event in its stream. The hash function of the library xxhash is a parameter.
\<close>

section \<open>Scopes\<close>

record ScopeDesc =
  sd_name :: string
  sd_filename :: string
  sd_target :: string
  sd_line :: u32
  sd_hash :: u32

type_synonym ScopeHashMap = "u32 \<rightharpoonup> ScopeDesc"

type_synonym xxhash = "bytes \<Rightarrow> u32 \<Rightarrow> u32"

definition compute_scope_hash :: "xxhash \<Rightarrow> string \<Rightarrow> string \<Rightarrow> string \<Rightarrow> u32 \<Rightarrow> u32" where
  "compute_scope_hash xxh32 name filename target line =
     (let hash_name = xxh32 (bytes_of_string name) 0;
          hash_with_filename = xxh32 (bytes_of_string filename) hash_name;
          hash_with_target = xxh32 (bytes_of_string target) hash_with_filename in
      xxh32 (write_u32 line) hash_with_target)"

definition ScopeDesc_new :: "xxhash \<Rightarrow> string \<Rightarrow> string \<Rightarrow> string \<Rightarrow> u32 \<Rightarrow> ScopeDesc" where
  "ScopeDesc_new xxh32 name filename target line =
     \<lparr>sd_name = name, sd_filename = filename, sd_target = target, sd_line = line,
      sd_hash = compute_scope_hash xxh32 name filename target line\<rparr>"

section \<open>Processors\<close>

text \<open>The trait: what an implementation does with its state; the second result is whether to go on.\<close>

record 'p ThreadBlockProcessor =
  tp_on_begin_thread_scope :: "string \<Rightarrow> i64 \<Rightarrow> ScopeDesc \<Rightarrow> i64 \<Rightarrow> 'p \<Rightarrow> ('p \<times> bool) res"
  tp_on_end_thread_scope :: "string \<Rightarrow> i64 \<Rightarrow> ScopeDesc \<Rightarrow> i64 \<Rightarrow> 'p \<Rightarrow> ('p \<times> bool) res"

definition tbp_on_thread_event :: "Object \<Rightarrow> (Object \<Rightarrow> i64 \<Rightarrow> 'a res) \<Rightarrow> 'a res" where
  "tbp_on_thread_event obj f =
     and_then (obj_get get_i64 obj ''time'') (\<lambda>tick.
     and_then (obj_get get_object obj ''thread_span_desc'') (\<lambda>scope. f scope tick))"

definition tbp_on_thread_named_event :: "Object \<Rightarrow> (Object \<Rightarrow> string \<Rightarrow> i64 \<Rightarrow> 'a res) \<Rightarrow> 'a res" where
  "tbp_on_thread_named_event obj f =
     and_then (obj_get get_i64 obj ''time'') (\<lambda>tick.
     and_then (obj_get get_object obj ''thread_span_location'') (\<lambda>scope.
     and_then (obj_get get_string obj ''name'') (\<lambda>name. f scope name tick)))"

definition scope_of_desc :: "xxhash \<Rightarrow> Object \<Rightarrow> ScopeDesc res" where
  "scope_of_desc xxh32 scope =
     and_then (obj_get get_string scope ''name'') (\<lambda>name.
     and_then (obj_get get_string scope ''file'') (\<lambda>filename.
     and_then (obj_get get_string scope ''target'') (\<lambda>target.
     and_then (obj_get get_u32 scope ''line'') (\<lambda>line.
     Inr (ScopeDesc_new xxh32 name filename target line)))))"

definition scope_of_location :: "xxhash \<Rightarrow> Object \<Rightarrow> string \<Rightarrow> ScopeDesc res" where
  "scope_of_location xxh32 scope name =
     and_then (obj_get get_string scope ''file'') (\<lambda>filename.
     and_then (obj_get get_string scope ''target'') (\<lambda>target.
     and_then (obj_get get_u32 scope ''line'') (\<lambda>line.
     Inr (ScopeDesc_new xxh32 name filename target line))))"

definition process_object :: "xxhash \<Rightarrow> 'p ThreadBlockProcessor \<Rightarrow> string \<Rightarrow> i64 \<Rightarrow> Object \<Rightarrow> 'p \<Rightarrow> ('p \<times> bool) res" where
  "process_object xxh32 processor block_id event_id obj p =
     (if obj_type_name obj = ''BeginThreadSpanEvent'' then
        tbp_on_thread_event obj (\<lambda>scope ts. and_then (scope_of_desc xxh32 scope) (\<lambda>scope_desc.
          tp_on_begin_thread_scope processor block_id event_id scope_desc ts p))
      else if obj_type_name obj = ''EndThreadSpanEvent'' then
        tbp_on_thread_event obj (\<lambda>scope ts. and_then (scope_of_desc xxh32 scope) (\<lambda>scope_desc.
          tp_on_end_thread_scope processor block_id event_id scope_desc ts p))
      else if obj_type_name obj = ''BeginThreadNamedSpanEvent'' then
        tbp_on_thread_named_event obj (\<lambda>scope name ts. and_then (scope_of_location xxh32 scope name) (\<lambda>scope_desc.
          tp_on_begin_thread_scope processor block_id event_id scope_desc ts p))
      else if obj_type_name obj = ''EndThreadNamedSpanEvent'' then
        tbp_on_thread_named_event obj (\<lambda>scope name ts. and_then (scope_of_location xxh32 scope name) (\<lambda>scope_desc.
          tp_on_end_thread_scope processor block_id event_id scope_desc ts p))
      else Inr (p, True))"

text \<open>The closure of \<open>parse_thread_block_payload\<close>, with the processor and the counter as its state.\<close>

definition process_value :: "xxhash \<Rightarrow> 'p ThreadBlockProcessor \<Rightarrow> string \<Rightarrow> 'p \<times> i64 \<Rightarrow> Value \<Rightarrow> (('p \<times> i64) \<times> bool) res" where
  "process_value xxh32 processor block_id s val = (case s of (p, event_id) \<Rightarrow>
     and_then (case val of VObject obj \<Rightarrow> process_object xxh32 processor block_id event_id obj p | _ \<Rightarrow> Inr (p, True)) (\<lambda>(p', continue).
     Inr ((p', event_id + 1), continue)))"

definition parse_thread_block_payload ::
  "nat \<Rightarrow> wire \<Rightarrow> xxhash \<Rightarrow> 'p ThreadBlockProcessor \<Rightarrow> string \<Rightarrow> i64 \<Rightarrow> BlockPayload \<Rightarrow> StreamInfo \<Rightarrow> 'p \<Rightarrow> ('p \<times> bool) res" where
  "parse_thread_block_payload stack wi xxh32 processor block_id offset payload stream p =
     and_then (parse_block stack wi stream payload (process_value xxh32 processor block_id) (p, offset)) (\<lambda>((p', _), continue).
     Inr (p', continue))"

definition parse_thread_block ::
  "nat \<Rightarrow> lake_env \<Rightarrow> xxhash \<Rightarrow> 'p ThreadBlockProcessor \<Rightarrow> StreamInfo \<Rightarrow> BlockMetadata \<Rightarrow> 'p \<Rightarrow> (lake, 'p \<times> bool) io" where
  "parse_thread_block stack env xxh32 processor stream block p =
     bind_io (fetch_block_payload env (si_process_id stream) (si_stream_id stream) (bm_block_id block)) (\<lambda>payload.
     pure_io (parse_thread_block_payload stack (le_wire env) xxh32 processor (le_uuid_to_string env (bm_block_id block))
       (bm_object_offset block) payload stream p))"

section \<open>What the processor sees\<close>

datatype thread_call = ScopeBegin ScopeDesc i64 | ScopeEnd ScopeDesc i64 | NoScope

definition span_scope :: "xxhash \<Rightarrow> memory \<Rightarrow> (u64 \<rightharpoonup> SpanMetadata) \<Rightarrow> ThreadSpanEvent \<Rightarrow> ScopeDesc" where
  "span_scope xxh32 mem spans e = (let m = the (spans (ts_thread_span_desc e)); l = sm_location m in
     ScopeDesc_new xxh32 (str_text mem (sm_name m)) (str_text mem (sl_file l)) (str_text mem (sl_target l)) (sl_line l))"

definition named_span_scope :: "xxhash \<Rightarrow> memory \<Rightarrow> (u64 \<rightharpoonup> SpanLocation) \<Rightarrow> ThreadNamedSpanEvent \<Rightarrow> ScopeDesc" where
  "named_span_scope xxh32 mem locations e = (let l = the (locations (tn_thread_span_location e)) in
     ScopeDesc_new xxh32 (static_text mem (sid_ptr (tn_name e)) (unat (sid_len (tn_name e)))) (str_text mem (sl_file l))
       (str_text mem (sl_target l)) (sl_line l))"

fun thread_call_of :: "xxhash \<Rightarrow> memory \<Rightarrow> (u64 \<rightharpoonup> SpanMetadata) \<Rightarrow> (u64 \<rightharpoonup> SpanLocation) \<Rightarrow> ThreadEventQueueAny \<Rightarrow> thread_call" where
  "thread_call_of xxh32 mem spans locations (BeginThreadSpanEvent e) = ScopeBegin (span_scope xxh32 mem spans e) (ts_time e)"
| "thread_call_of xxh32 mem spans locations (EndThreadSpanEvent e) = ScopeEnd (span_scope xxh32 mem spans e) (ts_time e)"
| "thread_call_of xxh32 mem spans locations (BeginThreadNamedSpanEvent e) = ScopeBegin (named_span_scope xxh32 mem locations e) (tn_time e)"
| "thread_call_of xxh32 mem spans locations (EndThreadNamedSpanEvent e) = ScopeEnd (named_span_scope xxh32 mem locations e) (tn_time e)"
| "thread_call_of xxh32 mem spans locations _ = NoScope"

definition run_call :: "'p ThreadBlockProcessor \<Rightarrow> 'p \<Rightarrow> string \<times> i64 \<times> thread_call \<Rightarrow> ('p \<times> bool) res" where
  "run_call processor p c = (case c of (block_id, event_id, call) \<Rightarrow> (case call of
     ScopeBegin scope ts \<Rightarrow> tp_on_begin_thread_scope processor block_id event_id scope ts p
   | ScopeEnd scope ts \<Rightarrow> tp_on_end_thread_scope processor block_id event_id scope ts p
   | NoScope \<Rightarrow> Inr (p, True)))"

text \<open>The calls of one block: its identifier, the index of each event, and the event.\<close>

fun numbered :: "string \<Rightarrow> i64 \<Rightarrow> thread_call list \<Rightarrow> (string \<times> i64 \<times> thread_call) list" where
  "numbered block_id n [] = []"
| "numbered block_id n (c # cs) = (block_id, n, c) # numbered block_id (n + 1) cs"

lemma process_meaning:
  "process_value xxh32 processor block_id (p, n) (span_meaning mem spans locations e)
    = and_then (run_call processor p (block_id, n, thread_call_of xxh32 mem spans locations e)) (\<lambda>(p', continue). Inr ((p', n + 1), continue))"
  by (cases e) (simp_all add: process_value_def process_object_def run_call_def tbp_on_thread_event_def tbp_on_thread_named_event_def
      scope_of_desc_def scope_of_location_def thread_span_members_def thread_named_span_members_def span_desc_meaning_def
      span_location_meaning_def span_name_meaning_def span_scope_def named_span_scope_def Let_def obj_get_def)

lemma feed_numbered:
  "and_then (feed (process_value xxh32 processor block_id) (p, n) (map (span_meaning mem spans locations) es)) (\<lambda>((p', _), continue). Inr (p', continue))
    = feed (run_call processor) p (numbered block_id n (map (thread_call_of xxh32 mem spans locations) es))"
proof (induction es arbitrary: p n)
  case (Cons e es)
  then show ?case
    by (cases "run_call processor p (block_id, n, thread_call_of xxh32 mem spans locations e)") (auto simp: process_meaning)
qed simp

text \<open>A block that is in the lake and reads as the given events.\<close>

definition thread_reads ::
  "nat \<Rightarrow> lake_env \<Rightarrow> xxhash \<Rightarrow> 'p ThreadBlockProcessor \<Rightarrow> StreamInfo \<Rightarrow> memory \<Rightarrow> (u64 \<rightharpoonup> SpanMetadata) \<Rightarrow> (u64 \<rightharpoonup> SpanLocation)
    \<Rightarrow> lake \<Rightarrow> BlockMetadata \<Rightarrow> (string \<times> i64 \<times> thread_call) list \<Rightarrow> bool" where
  "thread_reads stack env xxh32 processor stream mem spans locations l block cs \<longleftrightarrow>
     (\<exists>es. block_reads stack env l stream (process_value xxh32 processor (le_uuid_to_string env (bm_block_id block))) block
         (map (span_meaning mem spans locations) es)
       \<and> cs = numbered (le_uuid_to_string env (bm_block_id block)) (bm_object_offset block) (map (thread_call_of xxh32 mem spans locations) es))"

lemma thread_reads_counted [simp]:
  "thread_reads stack env xxh32 processor stream mem spans locations (counted l) = thread_reads stack env xxh32 processor stream mem spans locations l"
  by (simp add: thread_reads_def fun_eq_iff)

lemma parse_thread_block_eq:
  assumes "reliable env" and "thread_reads stack env xxh32 processor stream mem spans locations l block cs"
  shows "parse_thread_block stack env xxh32 processor stream block p l = (feed (run_call processor) p cs, counted l)"
proof -
  obtain es q where es: "cs = numbered (le_uuid_to_string env (bm_block_id block)) (bm_object_offset block) (map (thread_call_of xxh32 mem spans locations) es)"
    "stored env l (si_process_id stream, si_stream_id stream, bm_block_id block) = Some q"
    "\<And>s. parse_block stack (le_wire env) stream q (process_value xxh32 processor (le_uuid_to_string env (bm_block_id block))) s
      = feed (process_value xxh32 processor (le_uuid_to_string env (bm_block_id block))) s (map (span_meaning mem spans locations) es)"
    using assms(2) unfolding thread_reads_def block_reads_def by blast
  show ?thesis
    using fetch_stored [OF assms(1) es(2)]
    by (simp add: parse_thread_block_def bind_io_def parse_thread_block_payload_def es(1,3) feed_numbered counted_def)
qed

section \<open>What a processor keeps\<close>

text \<open>A property of the state of a callback holds after parsing, whatever the buffers are, when each call keeps it.\<close>

lemma parse_object_loop_keeps:
  assumes "\<And>s v s' c. I s \<Longrightarrow> f s v = Inr (s', c) \<Longrightarrow> I s'" and "I s"
    and "parse_object_loop stack deps udts buffer f offset s = Inr (s', c)"
  shows "I s'"
  using assms(2,3)
proof (induction "length buffer - offset" arbitrary: offset s rule: less_induct)
  case less
  show ?case
  proof (cases "length buffer \<le> offset")
    case True
    then show ?thesis using less.prems by (simp add: parse_object_loop.simps)
  next
    case False
    then obtain udt sz off v s1 c1 where
      run: "read_object_size udt buffer (offset + 1) = Inr (sz, off)" "f s v = Inr (s1, c1)"
      "if \<not> c1 then (s1, False) = (s', c) else parse_object_loop stack deps udts buffer f (off + sz) s1 = Inr (s', c)"
      using less.prems(2) by (subst (asm) parse_object_loop.simps) (auto simp: Let_def and_then_eq_Inr split: if_splits)
    have "I s1" by (rule assms(1) [OF less.prems(1) run(2)])
    moreover have "length buffer - (off + sz) < length buffer - offset"
      using read_object_size_advances [OF run(1)] False by linarith
    ultimately show ?thesis using run(3) less.hyps by (auto split: if_splits)
  qed
qed

lemma parse_block_keeps:
  assumes "\<And>s v s' c. I s \<Longrightarrow> f s v = Inr (s', c) \<Longrightarrow> I s'" and "I s" and "parse_block stack wi stream payload f s = Inr (s', c)"
  shows "I s'"
  using assms(3) parse_object_loop_keeps [of I f, OF assms(1,2)] by (auto simp: parse_block_def parse_object_buffer_def and_then_eq_Inr)

lemma for_io_keeps:
  assumes "\<And>s b l s' c l'. I s \<Longrightarrow> body s b l = (Inr (s', c), l') \<Longrightarrow> I s'" and "I s" and "for_io body s bs l = (Inr s', l')"
  shows "I s'"
  using assms(2,3)
proof (induction bs arbitrary: s l)
  case (Cons b bs)
  then obtain s1 c l1 where run: "body s b l = (Inr (s1, c), l1)" "(if c then for_io body s1 bs else pure_io (Inr s1)) l1 = (Inr s', l')"
    by (auto simp: bind_io_eq)
  have "I s1" by (rule assms(1) [OF Cons.prems(1) run(1)])
  then show ?case using Cons.IH run(2) by (auto split: if_splits)
qed simp

lemma thread_block_keeps:
  assumes "\<And>block_id event_id scope ts p p' c. I p \<Longrightarrow> tp_on_begin_thread_scope processor block_id event_id scope ts p = Inr (p', c) \<Longrightarrow> I p'"
    and "\<And>block_id event_id scope ts p p' c. I p \<Longrightarrow> tp_on_end_thread_scope processor block_id event_id scope ts p = Inr (p', c) \<Longrightarrow> I p'"
    and "I p" and "parse_thread_block stack env xxh32 processor stream block p l = (Inr (p', c), l')"
  shows "I p'"
proof -
  have object: "I q'" if "I q" "process_object xxh32 processor block_id n obj q = Inr (q', c)" for q n obj q' c block_id
    using that by (auto simp: process_object_def tbp_on_thread_event_def tbp_on_thread_named_event_def and_then_eq_Inr
        split: if_splits intro: assms(1) [OF that(1)] assms(2) [OF that(1)])
  have call: "I (fst s')" if "I (fst s)" "process_value xxh32 processor block_id s v = Inr (s', c)" for s v s' c block_id
    using that by (auto simp: process_value_def and_then_eq_Inr split: prod.splits Value.splits dest: object)
  obtain payload n c where "parse_block stack (le_wire env) stream payload (process_value xxh32 processor (le_uuid_to_string env (bm_block_id block)))
      (p, bm_object_offset block) = Inr ((p', n), c)"
    using assms(4) by (auto simp: parse_thread_block_def bind_io_eq parse_thread_block_payload_def and_then_eq_Inr)
  from parse_block_keeps [where I = "\<lambda>s. I (fst s)", OF call _ this] show ?thesis using assms(3) by simp
qed

end
