(* ===== verification/Call_Tree.thy ===== *)
theory Call_Tree
  imports Thread_Blocks
begin

text \<open>
  The call tree of a thread (\<open>analytics/src/call_tree.rs\<close>): begin and end events of spans are matched with
  a stack of open nodes. A span that was already open before the range is known only by its end event,
  and becomes a node around everything that was recorded before; a span that is still open at the end
  extends to the end of the range. The stack is a list whose first element is the top.
\<close>

section \<open>Nodes\<close>

datatype CallTreeNode =
  CallTreeNode (cn_id: "i64 option") (cn_hash: u32) (cn_begin: i64) (cn_end: i64) (cn_children: "CallTreeNode list")

record CallTree =
  tr_scopes :: ScopeHashMap
  tr_call_tree_root :: "CallTreeNode option"

record CallTreeBuilder =
  cb_begin_range_ns :: i64
  cb_end_range_ns :: i64
  cb_limit :: i64
  cb_nb_spans :: i64
  cb_stack :: "CallTreeNode list"
  cb_scopes :: ScopeHashMap
  cb_convert_ticks :: ConvertTicks
  cb_root_hash :: u32

definition push_child :: "CallTreeNode \<Rightarrow> CallTreeNode \<Rightarrow> CallTreeNode" where
  "push_child parent node = (case parent of CallTreeNode i h b e cs \<Rightarrow> CallTreeNode i h b e (cs @ [node]))"

section \<open>The builder\<close>

definition CallTreeBuilder_new :: "xxhash \<Rightarrow> i64 \<Rightarrow> i64 \<Rightarrow> i64 \<Rightarrow> ConvertTicks \<Rightarrow> string \<Rightarrow> CallTreeBuilder" where
  "CallTreeBuilder_new xxh32 begin_range_ns end_range_ns limit convert_ticks thread_name =
     (let thread_scope_desc = ScopeDesc_new xxh32 thread_name '''' '''' 0; root_hash = sd_hash thread_scope_desc in
      \<lparr>cb_begin_range_ns = begin_range_ns, cb_end_range_ns = end_range_ns, cb_limit = limit, cb_nb_spans = 0, cb_stack = [],
       cb_scopes = [root_hash \<mapsto> thread_scope_desc], cb_convert_ticks = convert_ticks, cb_root_hash = root_hash\<rparr>)"

text \<open>The loop of \<open>finish\<close>: the top becomes the last child of the node below it.\<close>

fun collapse_stack :: "CallTreeNode list \<Rightarrow> CallTreeNode option" where
  "collapse_stack [] = None"
| "collapse_stack [n] = Some n"
| "collapse_stack (tp # parent # rest) = collapse_stack (push_child parent tp # rest)"

definition builder_finish :: "CallTreeBuilder \<Rightarrow> CallTree" where
  "builder_finish b = \<lparr>tr_scopes = cb_scopes b, tr_call_tree_root = collapse_stack (cb_stack b)\<rparr>"

definition add_child_to_top :: "CallTreeNode \<Rightarrow> CallTreeBuilder \<Rightarrow> CallTreeBuilder" where
  "add_child_to_top node b = (case cb_stack b of
     tp # rest \<Rightarrow> b\<lparr>cb_stack := push_child tp node # rest\<rparr>
   | [] \<Rightarrow> b\<lparr>cb_stack := [CallTreeNode None (cb_root_hash b) (cb_begin_range_ns b) (cb_end_range_ns b) [node]],
           cb_nb_spans := cb_nb_spans b + 1\<rparr>)"

definition record_scope_desc :: "ScopeDesc \<Rightarrow> CallTreeBuilder \<Rightarrow> CallTreeBuilder" where
  "record_scope_desc scope_desc b = (case cb_scopes b (sd_hash scope_desc) of
     Some _ \<Rightarrow> b | None \<Rightarrow> b\<lparr>cb_scopes := (cb_scopes b)(sd_hash scope_desc \<mapsto> scope_desc)\<rparr>)"

definition tree_on_begin_thread_scope :: "string \<Rightarrow> i64 \<Rightarrow> ScopeDesc \<Rightarrow> i64 \<Rightarrow> CallTreeBuilder \<Rightarrow> (CallTreeBuilder \<times> bool) res" where
  "tree_on_begin_thread_scope block_id event_id scope ts b =
     (if sint (cb_nb_spans b) \<ge> sint (cb_limit b) then Inr (b, False)
      else let time = ticks_to_nanoseconds (cb_convert_ticks b) ts in
        if sint time < sint (cb_begin_range_ns b) then Inr (b, True)
        else if sint time > sint (cb_end_range_ns b) then Inr (b, False)
        else let b' = record_scope_desc scope b;
            node = CallTreeNode (Some event_id) (sd_hash scope) time (cb_end_range_ns b') [] in
          Inr (b'\<lparr>cb_stack := node # cb_stack b', cb_nb_spans := cb_nb_spans b' + 1\<rparr>, True))"

definition tree_on_end_thread_scope :: "string \<Rightarrow> i64 \<Rightarrow> ScopeDesc \<Rightarrow> i64 \<Rightarrow> CallTreeBuilder \<Rightarrow> (CallTreeBuilder \<times> bool) res" where
  "tree_on_end_thread_scope block_id event_id scope ts b =
     (let time = ticks_to_nanoseconds (cb_convert_ticks b) ts in
      if sint time < sint (cb_begin_range_ns b) then Inr (b, True)
      else if sint time > sint (cb_end_range_ns b) then Inr (b, False)
      else let hash = sd_hash scope; b' = record_scope_desc scope b in
        case cb_stack b' of
          old_top # rest \<Rightarrow> (case old_top of CallTreeNode i h t0 t1 cs \<Rightarrow>
            if h = hash then Inr (add_child_to_top (CallTreeNode i h t0 time cs) (b'\<lparr>cb_stack := rest\<rparr>), True)
            else if h = cb_root_hash b' then
              Inr (add_child_to_top (CallTreeNode (Some event_id) hash t0 time cs) (b'\<lparr>cb_stack := rest\<rparr>), True)
            else Inl (Err ''top scope mismatch parsing thread block''))
        | [] \<Rightarrow>
            if sint (cb_nb_spans b') \<ge> sint (cb_limit b') then Inr (b', False)
            else Inr (add_child_to_top (CallTreeNode (Some event_id) hash (cb_begin_range_ns b') time []) b', True))"

definition call_tree_processor :: "CallTreeBuilder ThreadBlockProcessor" where
  "call_tree_processor = \<lparr>tp_on_begin_thread_scope = tree_on_begin_thread_scope, tp_on_end_thread_scope = tree_on_end_thread_scope\<rparr>"

section \<open>Making the tree\<close>

definition call_tree_block ::
  "nat \<Rightarrow> lake_env \<Rightarrow> xxhash \<Rightarrow> StreamInfo \<Rightarrow> CallTreeBuilder \<Rightarrow> BlockMetadata \<Rightarrow> (lake, CallTreeBuilder \<times> bool) io" where
  "call_tree_block stack env xxh32 stream b block =
     bind_io (parse_thread_block stack env xxh32 call_tree_processor stream block b) (\<lambda>(b', _). pure_io (Inr (b', True)))"

definition make_call_tree ::
  "nat \<Rightarrow> lake_env \<Rightarrow> xxhash \<Rightarrow> BlockMetadata list \<Rightarrow> i64 \<Rightarrow> i64 \<Rightarrow> i64 \<Rightarrow> ConvertTicks \<Rightarrow> StreamInfo \<Rightarrow> (lake, CallTree) io" where
  "make_call_tree stack env xxh32 blocks begin_range_ns end_range_ns limit convert_ticks stream =
     bind_io (for_io (call_tree_block stack env xxh32 stream)
       (CallTreeBuilder_new xxh32 begin_range_ns end_range_ns limit convert_ticks (get_thread_name (le_uuid_to_string env) stream)) blocks)
     (\<lambda>b. pure_io (Inr (builder_finish b)))"

section \<open>Whatever the events are\<close>

text \<open>
  A predicate on every node of a tree. The builder keeps: every hash of a node has a description, and
  every node lies within the range.
\<close>

fun every_node :: "(CallTreeNode \<Rightarrow> bool) \<Rightarrow> CallTreeNode \<Rightarrow> bool" where
  "every_node P (CallTreeNode i h b e cs) \<longleftrightarrow> P (CallTreeNode i h b e cs) \<and> list_all (every_node P) cs"

definition node_within :: "ScopeHashMap \<Rightarrow> i64 \<Rightarrow> i64 \<Rightarrow> CallTreeNode \<Rightarrow> bool" where
  "node_within scopes t1 t2 n \<longleftrightarrow> scopes (cn_hash n) \<noteq> None \<and> sint t1 \<le> sint (cn_begin n) \<and> sint (cn_begin n) \<le> sint t2
     \<and> sint t1 \<le> sint (cn_end n) \<and> sint (cn_end n) \<le> sint t2"

definition builder_ok :: "CallTreeBuilder \<Rightarrow> bool" where
  "builder_ok b \<longleftrightarrow> sint (cb_begin_range_ns b) \<le> sint (cb_end_range_ns b) \<and> cb_scopes b (cb_root_hash b) \<noteq> None
     \<and> list_all (every_node (node_within (cb_scopes b) (cb_begin_range_ns b) (cb_end_range_ns b))) (cb_stack b)"

lemma every_node_mono: "every_node P n \<Longrightarrow> (\<And>m. P m \<Longrightarrow> Q m) \<Longrightarrow> every_node Q n"
  by (induction P n rule: every_node.induct) (auto simp: list_all_iff)

lemma node_within_cong [simp]:
  "node_within s t1 t2 (CallTreeNode i h b e cs) \<longleftrightarrow> s h \<noteq> None \<and> sint t1 \<le> sint b \<and> sint b \<le> sint t2 \<and> sint t1 \<le> sint e \<and> sint e \<le> sint t2"
  by (simp add: node_within_def)

lemma every_push_child:
  "every_node (node_within s t1 t2) (push_child p n) \<longleftrightarrow> every_node (node_within s t1 t2) p \<and> every_node (node_within s t1 t2) n"
  by (cases p) (auto simp: push_child_def)

lemma record_scope_simps [simp]:
  "cb_stack (record_scope_desc s b) = cb_stack b" "cb_begin_range_ns (record_scope_desc s b) = cb_begin_range_ns b"
  "cb_end_range_ns (record_scope_desc s b) = cb_end_range_ns b" "cb_nb_spans (record_scope_desc s b) = cb_nb_spans b"
  "cb_limit (record_scope_desc s b) = cb_limit b" "cb_root_hash (record_scope_desc s b) = cb_root_hash b"
  "cb_convert_ticks (record_scope_desc s b) = cb_convert_ticks b"
  by (simp_all add: record_scope_desc_def split: option.splits)

lemma record_scope_known:
  "cb_scopes (record_scope_desc s b) (sd_hash s) \<noteq> None"
  "cb_scopes b h \<noteq> None \<Longrightarrow> cb_scopes (record_scope_desc s b) h \<noteq> None"
  by (auto simp: record_scope_desc_def split: option.splits)

lemma record_scope_ok:
  assumes "builder_ok b"
  shows "builder_ok (record_scope_desc s b)"
proof -
  have "every_node (node_within (cb_scopes (record_scope_desc s b)) (cb_begin_range_ns b) (cb_end_range_ns b)) n" if "n \<in> set (cb_stack b)" for n
    by (rule every_node_mono [of "node_within (cb_scopes b) (cb_begin_range_ns b) (cb_end_range_ns b)"])
      (use assms that record_scope_known(2) [of b _ s] in \<open>auto simp: builder_ok_def list_all_iff node_within_def\<close>)
  then show ?thesis using assms record_scope_known(2) [of b _ s] by (simp add: builder_ok_def list_all_iff)
qed

lemma add_child_ok:
  assumes "builder_ok b" and "every_node (node_within (cb_scopes b) (cb_begin_range_ns b) (cb_end_range_ns b)) n"
  shows "builder_ok (add_child_to_top n b)"
  using assms by (cases "cb_stack b") (simp_all add: builder_ok_def add_child_to_top_def every_push_child)

lemma on_begin_ok:
  assumes "builder_ok b" and "tree_on_begin_thread_scope bid i s ts b = Inr (b', c)"
  shows "builder_ok b'"
  using assms(2) record_scope_ok [OF assms(1), of s] assms(1)
  by (auto simp: tree_on_begin_thread_scope_def Let_def builder_ok_def record_scope_known split: if_splits)

lemma on_end_ok:
  assumes "builder_ok b" and "tree_on_end_thread_scope bid i s ts b = Inr (b', c)"
  shows "builder_ok b'"
proof -
  let ?t = "ticks_to_nanoseconds (cb_convert_ticks b) ts"
  let ?b = "record_scope_desc s b"
  have ok: "builder_ok ?b" by (rule record_scope_ok [OF assms(1)])
  have known: "cb_scopes ?b (sd_hash s) \<noteq> None" by (rule record_scope_known)
  show ?thesis
  proof (cases "sint ?t < sint (cb_begin_range_ns b) \<or> sint ?t > sint (cb_end_range_ns b)")
    case True
    then show ?thesis using assms by (auto simp: tree_on_end_thread_scope_def Let_def split: if_splits)
  next
    case t: False
    show ?thesis
    proof (cases "cb_stack b")
      case Nil
      have "builder_ok (add_child_to_top (CallTreeNode (Some i) (sd_hash s) (cb_begin_range_ns b) ?t []) ?b)"
        by (rule add_child_ok [OF ok]) (use assms(1) t known in \<open>auto simp: builder_ok_def\<close>)
      then show ?thesis using assms(2) t ok Nil by (auto simp: tree_on_end_thread_scope_def Let_def split: if_splits)
    next
      case (Cons tp rest)
      obtain j h t0 t1 cs where tp: "tp = CallTreeNode j h t0 t1 cs" by (cases tp)
      have rest: "builder_ok (?b\<lparr>cb_stack := rest\<rparr>)" using ok Cons by (simp add: builder_ok_def)
      have node: "every_node (node_within (cb_scopes ?b) (cb_begin_range_ns b) (cb_end_range_ns b)) (CallTreeNode k h' t0 ?t cs)"
        if "cb_scopes ?b h' \<noteq> None" for k h'
        using ok Cons that t by (auto simp: builder_ok_def tp)
      have add: "builder_ok (add_child_to_top (CallTreeNode k h' t0 ?t cs) (?b\<lparr>cb_stack := rest\<rparr>))" if "cb_scopes ?b h' \<noteq> None" for k h'
        by (rule add_child_ok [OF rest]) (use node [OF that] in simp)
      have "cb_scopes ?b h \<noteq> None" using ok Cons by (simp add: builder_ok_def tp)
      then show ?thesis
        using assms(2) t Cons add known by (auto simp: tree_on_end_thread_scope_def Let_def tp split: if_splits)
    qed
  qed
qed

lemma collapse_stack_every:
  "list_all (every_node (node_within s t1 t2)) ns \<Longrightarrow> collapse_stack ns = Some n \<Longrightarrow> every_node (node_within s t1 t2) n"
  by (induction ns rule: collapse_stack.induct) (auto simp: every_push_child)

lemma on_begin_config:
  "tree_on_begin_thread_scope bid i s ts b = Inr (b', c) \<Longrightarrow> cb_begin_range_ns b' = cb_begin_range_ns b \<and> cb_end_range_ns b' = cb_end_range_ns b"
  by (auto simp: tree_on_begin_thread_scope_def Let_def split: if_splits)

lemma add_child_config [simp]:
  "cb_begin_range_ns (add_child_to_top n b) = cb_begin_range_ns b" "cb_end_range_ns (add_child_to_top n b) = cb_end_range_ns b"
  "cb_limit (add_child_to_top n b) = cb_limit b" "cb_convert_ticks (add_child_to_top n b) = cb_convert_ticks b"
  "cb_root_hash (add_child_to_top n b) = cb_root_hash b"
  by (simp_all add: add_child_to_top_def split: list.splits)

lemma on_end_config:
  "tree_on_end_thread_scope bid i s ts b = Inr (b', c) \<Longrightarrow> cb_begin_range_ns b' = cb_begin_range_ns b \<and> cb_end_range_ns b' = cb_end_range_ns b"
  by (auto simp: tree_on_end_thread_scope_def Let_def split: if_splits list.splits CallTreeNode.splits)

lemma call_tree_within:
  assumes "make_call_tree stack env xxh32 blocks t1 t2 limit ct stream l = (Inr tree, l')" and "sint t1 \<le> sint t2"
    and "tr_call_tree_root tree = Some n"
  shows "every_node (node_within (tr_scopes tree) t1 t2) n"
proof -
  let ?I = "\<lambda>b. builder_ok b \<and> cb_begin_range_ns b = t1 \<and> cb_end_range_ns b = t2"
  let ?new = "CallTreeBuilder_new xxh32 t1 t2 limit ct (get_thread_name (le_uuid_to_string env) stream)"
  obtain b where b: "for_io (call_tree_block stack env xxh32 stream) ?new blocks l = (Inr b, l')" "tree = builder_finish b"
    using assms(1) by (auto simp: make_call_tree_def bind_io_eq)
  have "?I b'" if inv: "?I b" and step: "call_tree_block stack env xxh32 stream b block l = (Inr (b', c), l')" for b block l b' c l'
  proof -
    obtain c' l1 where run: "parse_thread_block stack env xxh32 call_tree_processor stream block b l = (Inr (b', c'), l1)"
      using step by (auto simp: call_tree_block_def bind_io_eq)
    have "?I q'" if "?I q" "tp_on_begin_thread_scope call_tree_processor bid i s ts q = Inr (q', c)" for bid i s ts q q' c
      using that on_begin_ok [of q bid i s ts q' c] on_begin_config [of bid i s ts q q' c] by (simp add: call_tree_processor_def)
    moreover have "?I q'" if "?I q" "tp_on_end_thread_scope call_tree_processor bid i s ts q = Inr (q', c)" for bid i s ts q q' c
      using that on_end_ok [of q bid i s ts q' c] on_end_config [of bid i s ts q q' c] by (simp add: call_tree_processor_def)
    ultimately show ?thesis by (rule thread_block_keeps [where I = ?I, OF _ _ inv run])
  qed
  moreover have "?I ?new" using assms(2) by (simp add: CallTreeBuilder_new_def Let_def builder_ok_def)
  ultimately have "?I b" using for_io_keeps [where I = ?I, OF _ _ b(1)] by blast
  then show ?thesis using assms(3) b(2) collapse_stack_every by (auto simp: builder_finish_def builder_ok_def)
qed

text \<open>
  C30. Whatever the blocks hold, when a call tree is made for a range, every node of the tree begins
  and ends within the range, and the description of its scope is known.
\<close>

theorem call_tree_nodes_ok:
  assumes "make_call_tree stack env xxh32 blocks t1 t2 limit ct stream l = (Inr tree, l')" and "sint t1 \<le> sint t2"
    and "tr_call_tree_root tree = Some n"
  shows "every_node (node_within (tr_scopes tree) t1 t2) n"
  by (rule call_tree_within [OF assms])

end
