(* ===== verification/Call_Tree_Window.thy ===== *)
theory Call_Tree_Window
  imports Call_Tree
begin

text \<open>
  What the call tree of a thread should be. The events of a thread are well nested; a query sees a window
  of them: some spans were open before it and are only known by their end, some are not closed when it
  ends. The relations below describe such a window and the nodes that it stands for; the theorem says
  that the builder, which reads the events one by one over any number of blocks, makes exactly these.
\<close>

section \<open>Windows of a well nested trace\<close>

type_synonym calls = "(string \<times> i64 \<times> thread_call) list"

text \<open>A balanced stretch: every span that begins in it ends in it.\<close>

inductive balanced :: "(i64 \<Rightarrow> i64) \<Rightarrow> calls \<Rightarrow> CallTreeNode list \<Rightarrow> bool" for time where
  balanced_nil: "balanced time [] []"
| balanced_other: "balanced time es ns \<Longrightarrow> balanced time ((bid, i, NoScope) # es) ns"
| balanced_span: "balanced time es cs \<Longrightarrow> balanced time es' ns \<Longrightarrow>
    balanced time ((bid, i, ScopeBegin s t0) # es @ (bid', j, ScopeEnd s t1) # es')
      (CallTreeNode (Some i) (sd_hash s) (time t0) (time t1) cs # ns)"

text \<open>Spans that were open before the window: each end closes a node around all that came before.\<close>

inductive cut_before :: "(i64 \<Rightarrow> i64) \<Rightarrow> i64 \<Rightarrow> calls \<Rightarrow> CallTreeNode list \<Rightarrow> bool" for time start where
  cut_before_none: "balanced time es ns \<Longrightarrow> cut_before time start es ns"
| cut_before_end: "cut_before time start es cs \<Longrightarrow> balanced time es' ns \<Longrightarrow>
    cut_before time start (es @ (bid, i, ScopeEnd s t) # es') (CallTreeNode (Some i) (sd_hash s) start (time t) cs # ns)"

text \<open>Spans that are still open after the window, each inside of the one before.\<close>

definition opt_list :: "'a option \<Rightarrow> 'a list" where
  "opt_list x = (case x of None \<Rightarrow> [] | Some a \<Rightarrow> [a])"

inductive cut_after :: "(i64 \<Rightarrow> i64) \<Rightarrow> i64 \<Rightarrow> calls \<Rightarrow> CallTreeNode option \<Rightarrow> bool" for time finish where
  cut_after_none: "cut_after time finish [] None"
| cut_after_begin: "balanced time es cs \<Longrightarrow> cut_after time finish es' n \<Longrightarrow>
    cut_after time finish ((bid, i, ScopeBegin s t) # es @ es')
      (Some (CallTreeNode (Some i) (sd_hash s) (time t) finish (cs @ opt_list n)))"

text \<open>
  The root stands for the thread, unless nothing was closed before the first span that stays open: then
  the root is that span.
\<close>

definition window_root :: "u32 \<Rightarrow> i64 \<Rightarrow> i64 \<Rightarrow> CallTreeNode list \<Rightarrow> CallTreeNode option \<Rightarrow> CallTreeNode option" where
  "window_root root_hash start finish ns n = (if ns = [] then n else Some (CallTreeNode None root_hash start finish (ns @ opt_list n)))"

text \<open>The scopes of the calls, and what a hash stands for: the first scope that has it.\<close>

fun call_scope :: "thread_call \<Rightarrow> ScopeDesc list" where
  "call_scope (ScopeBegin s t) = [s]"
| "call_scope (ScopeEnd s t) = [s]"
| "call_scope NoScope = []"

definition call_scopes :: "calls \<Rightarrow> ScopeDesc list" where
  "call_scopes es = concat (map (\<lambda>(bid, i, call). call_scope call) es)"

definition scope_table :: "ScopeDesc list \<Rightarrow> ScopeHashMap" where
  "scope_table ss = map_of (map (\<lambda>s. (sd_hash s, s)) ss)"

section \<open>Steps of the builder\<close>

record tree_config =
  tc_begin :: i64
  tc_end :: i64
  tc_limit :: i64
  tc_ticks :: ConvertTicks
  tc_root :: u32

definition config_of :: "CallTreeBuilder \<Rightarrow> tree_config" where
  "config_of b = \<lparr>tc_begin = cb_begin_range_ns b, tc_end = cb_end_range_ns b, tc_limit = cb_limit b, tc_ticks = cb_convert_ticks b, tc_root = cb_root_hash b\<rparr>"

definition call_in_range :: "tree_config \<Rightarrow> thread_call \<Rightarrow> bool" where
  "call_in_range c call = (let ok = (\<lambda>t. sint (tc_begin c) \<le> sint (ticks_to_nanoseconds (tc_ticks c) t)
       \<and> sint (ticks_to_nanoseconds (tc_ticks c) t) \<le> sint (tc_end c)) in
     case call of ScopeBegin s t \<Rightarrow> ok t | ScopeEnd s t \<Rightarrow> ok t \<and> sd_hash s \<noteq> tc_root c | NoScope \<Rightarrow> True)"

definition calls_in_range :: "tree_config \<Rightarrow> calls \<Rightarrow> bool" where
  "calls_in_range c es \<longleftrightarrow> list_all (\<lambda>(bid, i, call). call_in_range c call) es"

text \<open>The builder has the configuration \<open>c\<close>, the stack \<open>st\<close>, and counted at most \<open>n\<close> spans.\<close>

definition builder_at :: "tree_config \<Rightarrow> CallTreeNode list \<Rightarrow> nat \<Rightarrow> CallTreeBuilder \<Rightarrow> bool" where
  "builder_at c st n b \<longleftrightarrow> config_of b = c \<and> cb_stack b = st \<and> 0 \<le> sint (cb_nb_spans b) \<and> sint (cb_nb_spans b) \<le> int n"

abbreviation run :: "CallTreeBuilder \<Rightarrow> string \<times> i64 \<times> thread_call \<Rightarrow> (CallTreeBuilder \<times> bool) res" where
  "run \<equiv> run_call call_tree_processor"

definition thread_node :: "tree_config \<Rightarrow> CallTreeNode list \<Rightarrow> CallTreeNode" where
  "thread_node c ns = CallTreeNode None (tc_root c) (tc_begin c) (tc_end c) ns"

fun add_nodes :: "tree_config \<Rightarrow> CallTreeNode list \<Rightarrow> CallTreeNode list \<Rightarrow> CallTreeNode list" where
  "add_nodes c [] ns = (if ns = [] then [] else [thread_node c ns])"
| "add_nodes c (CallTreeNode i h b e cs # rest) ns = CallTreeNode i h b e (cs @ ns) # rest"

lemma opt_list_simps [simp]: "opt_list None = []" "opt_list (Some a) = [a]"
  by (simp_all add: opt_list_def)

lemma add_nodes_append: "add_nodes c (add_nodes c st ns) ns' = add_nodes c st (ns @ ns')"
  by (cases "(c, st, ns)" rule: add_nodes.cases) (auto simp: thread_node_def)

lemma add_nodes_Nil [simp]: "add_nodes c st [] = st"
  by (cases "(c, st, [] :: CallTreeNode list)" rule: add_nodes.cases) auto

lemma sint_succ: "0 \<le> sint x \<Longrightarrow> sint x < sint y \<Longrightarrow> sint (x + 1) = sint x + 1" for x y :: i64
  using sint_i64 [of "sint x + 1"] sint_lt [of y] by simp

lemma add_child_at:
  assumes "builder_at c st n b" and "int n < sint (tc_limit c)"
  shows "builder_at c (add_nodes c st [node]) (Suc n) (add_child_to_top node b)"
proof (cases st)
  case Nil
  have "sint (cb_nb_spans b + 1) = sint (cb_nb_spans b) + 1"
    using assms by (intro sint_succ [of _ "tc_limit c"]) (auto simp: builder_at_def)
  then show ?thesis using assms Nil by (auto simp: builder_at_def add_child_to_top_def config_of_def thread_node_def)
next
  case (Cons tp rest)
  then show ?thesis using assms by (cases tp) (auto simp: builder_at_def add_child_to_top_def config_of_def push_child_def)
qed

lemma record_scope_at: "builder_at c st n b \<Longrightarrow> builder_at c st n (record_scope_desc s b)"
  by (simp add: builder_at_def config_of_def)

lemma begin_step:
  assumes "builder_at c st n b" and "call_in_range c (ScopeBegin s t)" and "int n < sint (tc_limit c)"
  shows "\<exists>b'. run b (bid, i, ScopeBegin s t) = Inr (b', True)
    \<and> builder_at c (CallTreeNode (Some i) (sd_hash s) (ticks_to_nanoseconds (tc_ticks c) t) (tc_end c) [] # st) (Suc n) b'"
proof -
  have conf: "cb_convert_ticks b = tc_ticks c" "cb_begin_range_ns b = tc_begin c" "cb_end_range_ns b = tc_end c" "cb_limit b = tc_limit c"
    using assms(1) by (auto simp: builder_at_def config_of_def)
  have lt: "sint (cb_nb_spans b) < sint (tc_limit c)" "0 \<le> sint (cb_nb_spans b)" using assms by (auto simp: builder_at_def)
  from sint_succ [OF lt(2,1)] show ?thesis
    using assms conf lt by (auto simp: run_call_def call_tree_processor_def tree_on_begin_thread_scope_def call_in_range_def Let_def builder_at_def config_of_def)
qed

lemma end_step:
  assumes "builder_at c (CallTreeNode j h t0 t1 cs # st) n b" and "call_in_range c (ScopeEnd s t)" and "int n < sint (tc_limit c)"
    and "h = sd_hash s \<and> k = j \<or> h \<noteq> sd_hash s \<and> h = tc_root c \<and> k = Some i"
  shows "\<exists>b'. run b (bid, i, ScopeEnd s t) = Inr (b', True)
    \<and> builder_at c (add_nodes c st [CallTreeNode k (sd_hash s) t0 (ticks_to_nanoseconds (tc_ticks c) t) cs]) (Suc n) b'"
proof -
  have conf: "cb_convert_ticks b = tc_ticks c" "cb_begin_range_ns b = tc_begin c" "cb_end_range_ns b = tc_end c" "cb_root_hash b = tc_root c"
    "cb_stack b = CallTreeNode j h t0 t1 cs # st"
    using assms(1) by (auto simp: builder_at_def config_of_def)
  have "builder_at c st n ((record_scope_desc s b)\<lparr>cb_stack := st\<rparr>)" using assms(1) by (simp add: builder_at_def config_of_def)
  note add_child_at [OF this assms(3)]
  moreover have "run b (bid, i, ScopeEnd s t) = Inr (add_child_to_top (CallTreeNode k (sd_hash s) t0 (ticks_to_nanoseconds (tc_ticks c) t) cs)
      ((record_scope_desc s b)\<lparr>cb_stack := st\<rparr>), True)"
    using assms(2,4) conf by (auto simp: run_call_def call_tree_processor_def tree_on_end_thread_scope_def call_in_range_def Let_def)
  ultimately show ?thesis by blast
qed

lemma end_step_empty:
  assumes "builder_at c [] n b" and "call_in_range c (ScopeEnd s t)" and "int n < sint (tc_limit c)"
  shows "\<exists>b'. run b (bid, i, ScopeEnd s t) = Inr (b', True)
    \<and> builder_at c [thread_node c [CallTreeNode (Some i) (sd_hash s) (tc_begin c) (ticks_to_nanoseconds (tc_ticks c) t) []]] (Suc n) b'"
proof -
  have conf: "cb_convert_ticks b = tc_ticks c" "cb_begin_range_ns b = tc_begin c" "cb_end_range_ns b = tc_end c" "cb_limit b = tc_limit c"
    "cb_stack b = []" "sint (cb_nb_spans b) < sint (tc_limit c)"
    using assms(1,3) by (auto simp: builder_at_def config_of_def)
  note add_child_at [OF record_scope_at [OF assms(1), of s] assms(3)]
  moreover have "run b (bid, i, ScopeEnd s t) = Inr (add_child_to_top (CallTreeNode (Some i) (sd_hash s) (tc_begin c)
      (ticks_to_nanoseconds (tc_ticks c) t) []) (record_scope_desc s b), True)"
    using assms(2) conf by (auto simp: run_call_def call_tree_processor_def tree_on_end_thread_scope_def call_in_range_def Let_def)
  ultimately show ?thesis by auto
qed

section \<open>Stretches of events\<close>

definition runs :: "CallTreeBuilder \<Rightarrow> calls \<Rightarrow> CallTreeBuilder \<Rightarrow> bool" where
  "runs b es b' \<longleftrightarrow> feed run b es = Inr (b', True)"

lemma runs_Nil: "runs b [] b' \<longleftrightarrow> b' = b"
  by (auto simp: runs_def)

lemma runs_Cons: "run b e = Inr (b1, True) \<Longrightarrow> runs b1 es b' \<Longrightarrow> runs b (e # es) b'"
  by (simp add: runs_def)

lemma feed_append:
  "feed f s (xs @ ys) = and_then (feed f s xs) (\<lambda>(s', continue). if continue then feed f s' ys else Inr (s', False))"
proof (induction xs arbitrary: s)
  case (Cons x xs)
  then show ?case by (cases "f s x") auto
qed simp

lemma runs_append: "runs b es b1 \<Longrightarrow> runs b1 es' b' \<Longrightarrow> runs b (es @ es') b'"
  by (simp add: runs_def feed_append)

lemma calls_in_range_simps [simp]:
  "calls_in_range c []" "calls_in_range c (e # es) \<longleftrightarrow> call_in_range c (snd (snd e)) \<and> calls_in_range c es"
  "calls_in_range c (es @ es') \<longleftrightarrow> calls_in_range c es \<and> calls_in_range c es'"
  by (auto simp: calls_in_range_def split: prod.splits)

lemma balanced_run:
  assumes "balanced (ticks_to_nanoseconds (tc_ticks c)) es ns" and "calls_in_range c es"
    and "builder_at c st n b" and "int (n + length es) \<le> sint (tc_limit c)"
  shows "\<exists>b'. runs b es b' \<and> builder_at c (add_nodes c st ns) (n + length es) b'"
  using assms
proof (induction es ns arbitrary: b st n rule: balanced.induct)
  case balanced_nil
  then show ?case by (auto simp: runs_Nil)
next
  case (balanced_other es ns bid i)
  have "builder_at c st (Suc n) b" using balanced_other.prems(2) by (auto simp: builder_at_def)
  then obtain b' where "runs b es b'" "builder_at c (add_nodes c st ns) (Suc n + length es) b'"
    using balanced_other.IH [of st "Suc n" b] balanced_other.prems by auto
  then show ?case using runs_Cons [of b "(bid, i, NoScope)" b] by (auto simp: run_call_def)
next
  case (balanced_span es cs es' ns bid i s t0 bid' j t1)
  let ?node = "\<lambda>e cs. CallTreeNode (Some i) (sd_hash s) (ticks_to_nanoseconds (tc_ticks c) t0) e cs"
  have room: "int n < sint (tc_limit c)" using balanced_span.prems(3) by simp
  obtain b1 where b1: "run b (bid, i, ScopeBegin s t0) = Inr (b1, True)" "builder_at c (?node (tc_end c) [] # st) (Suc n) b1"
    using begin_step [OF balanced_span.prems(2) _ room, of s t0 bid i] balanced_span.prems(1) by auto
  obtain b2 where b2: "runs b1 es b2" "builder_at c (?node (tc_end c) cs # st) (Suc n + length es) b2"
    using balanced_span.IH(1) [OF _ b1(2)] balanced_span.prems by auto
  obtain b3 where b3: "run b2 (bid', j, ScopeEnd s t1) = Inr (b3, True)"
    "builder_at c (add_nodes c st [?node (ticks_to_nanoseconds (tc_ticks c) t1) cs]) (Suc (Suc n + length es)) b3"
    using end_step [OF b2(2), of s t1 "Some i" j bid'] balanced_span.prems by auto
  obtain b4 where b4: "runs b3 es' b4"
    "builder_at c (add_nodes c st (?node (ticks_to_nanoseconds (tc_ticks c) t1) cs # ns)) (Suc (Suc n + length es) + length es') b4"
    using balanced_span.IH(2) [OF _ b3(2)] balanced_span.prems by (auto simp: add_nodes_append)
  have "runs b ((bid, i, ScopeBegin s t0) # es @ (bid', j, ScopeEnd s t1) # es') b4"
    by (rule runs_Cons [OF b1(1) runs_append [OF b2(1) runs_Cons [OF b3(1) b4(1)]]])
  then show ?case using b4(2) by (auto simp: add.assoc)
qed

lemma cut_before_run:
  assumes "cut_before (ticks_to_nanoseconds (tc_ticks c)) (tc_begin c) es ns" and "calls_in_range c es"
    and "builder_at c [] n b" and "int (n + length es) \<le> sint (tc_limit c)"
  shows "\<exists>b'. runs b es b' \<and> builder_at c (add_nodes c [] ns) (n + length es) b'"
  using assms
proof (induction es ns arbitrary: b n rule: cut_before.induct)
  case (cut_before_none es ns)
  then show ?case using balanced_run by blast
next
  case (cut_before_end es cs es' ns bid i s t)
  let ?node = "CallTreeNode (Some i) (sd_hash s) (tc_begin c) (ticks_to_nanoseconds (tc_ticks c) t) cs"
  obtain b1 where b1: "runs b es b1" "builder_at c (add_nodes c [] cs) (n + length es) b1"
    using cut_before_end.IH [OF _ cut_before_end.prems(2)] cut_before_end.prems by auto
  have room: "int (n + length es) < sint (tc_limit c)" and ok: "call_in_range c (ScopeEnd s t)" using cut_before_end.prems by auto
  have "\<exists>b2. run b1 (bid, i, ScopeEnd s t) = Inr (b2, True) \<and> builder_at c (add_nodes c [] [?node]) (Suc (n + length es)) b2"
  proof (cases "cs = []")
    case True
    then show ?thesis using end_step_empty [OF _ ok room, of b1 bid i] b1(2) by auto
  next
    case False
    have "sd_hash s \<noteq> tc_root c" using ok by (simp add: call_in_range_def Let_def)
    then show ?thesis using end_step [OF _ ok room, of None "tc_root c" "tc_begin c" "tc_end c" cs "[]" b1 "Some i" i bid] b1(2) False
      by (auto simp: thread_node_def)
  qed
  then obtain b2 where b2: "run b1 (bid, i, ScopeEnd s t) = Inr (b2, True)" "builder_at c (add_nodes c [] [?node]) (Suc (n + length es)) b2" by blast
  obtain b3 where b3: "runs b2 es' b3" "builder_at c (add_nodes c (add_nodes c [] [?node]) ns) (Suc (n + length es) + length es') b3"
    using balanced_run [OF cut_before_end.hyps(2) _ b2(2)] cut_before_end.prems by auto
  have "runs b (es @ (bid, i, ScopeEnd s t) # es') b3"
    by (rule runs_append [OF b1(1) runs_Cons [OF b2(1) b3(1)]])
  then show ?case using b3(2) by (auto simp: add_nodes_append add.assoc simp del: add_nodes.simps)
qed

lemma collapse_add:
  "collapse_stack (tp # st) = (case st of [] \<Rightarrow> Some tp | _ \<Rightarrow> collapse_stack (add_nodes c st [tp]))"
proof (cases st)
  case (Cons n rest)
  then show ?thesis by (cases n) (simp add: push_child_def)
qed simp

lemma cut_after_run:
  assumes "cut_after (ticks_to_nanoseconds (tc_ticks c)) (tc_end c) es n" and "calls_in_range c es"
    and "builder_at c st k b" and "int (k + length es) \<le> sint (tc_limit c)"
  shows "\<exists>b' st'. runs b es b' \<and> builder_at c st' (k + length es) b'
    \<and> collapse_stack st' = (if st = [] then n else collapse_stack (add_nodes c st (opt_list n)))"
  using assms
proof (induction es n arbitrary: b st k rule: cut_after.induct)
  case cut_after_none
  then show ?case by (auto simp: runs_Nil)
next
  case (cut_after_begin es cs es' n bid i s t)
  let ?node = "CallTreeNode (Some i) (sd_hash s) (ticks_to_nanoseconds (tc_ticks c) t) (tc_end c)"
  have room: "int k < sint (tc_limit c)" using cut_after_begin.prems(3) by simp
  obtain b1 where b1: "run b (bid, i, ScopeBegin s t) = Inr (b1, True)" "builder_at c (?node [] # st) (Suc k) b1"
    using begin_step [OF cut_after_begin.prems(2) _ room, of s t bid i] cut_after_begin.prems(1) by auto
  obtain b2 where b2: "runs b1 es b2" "builder_at c (?node cs # st) (Suc k + length es) b2"
    using balanced_run [OF cut_after_begin.hyps(1) _ b1(2)] cut_after_begin.prems by auto
  obtain b3 st' where b3: "runs b2 es' b3" "builder_at c st' (Suc k + length es + length es') b3"
    "collapse_stack st' = collapse_stack (?node (cs @ opt_list n) # st)"
    using cut_after_begin.IH [OF _ b2(2)] cut_after_begin.prems by auto
  have "runs b ((bid, i, ScopeBegin s t) # es @ es') b3" by (rule runs_Cons [OF b1(1) runs_append [OF b2(1) b3(1)]])
  moreover have "collapse_stack (?node (cs @ opt_list n) # st)
      = (if st = [] then Some (?node (cs @ opt_list n)) else collapse_stack (add_nodes c st [?node (cs @ opt_list n)]))"
    using collapse_add [of "?node (cs @ opt_list n)" st c] by (cases st) simp_all
  ultimately show ?case using b3(2,3) by (intro exI [of _ b3] exI [of _ st']) (simp add: add.assoc)
qed

lemma window_run:
  assumes "cut_before (ticks_to_nanoseconds (tc_ticks c)) (tc_begin c) es1 ns" and "cut_after (ticks_to_nanoseconds (tc_ticks c)) (tc_end c) es2 n"
    and "calls_in_range c (es1 @ es2)" and "int (length (es1 @ es2)) \<le> sint (tc_limit c)" and "builder_at c [] 0 b"
  shows "\<exists>b'. feed run b (es1 @ es2) = Inr (b', True)
    \<and> tr_call_tree_root (builder_finish b') = window_root (tc_root c) (tc_begin c) (tc_end c) ns n"
proof -
  obtain b1 where b1: "runs b es1 b1" "builder_at c (add_nodes c [] ns) (0 + length es1) b1"
    using cut_before_run [OF assms(1) _ assms(5)] assms(3,4) by auto
  obtain b2 st where b2: "runs b1 es2 b2" "builder_at c st (0 + length es1 + length es2) b2"
    "collapse_stack st = (if add_nodes c [] ns = [] then n else collapse_stack (add_nodes c (add_nodes c [] ns) (opt_list n)))"
    using cut_after_run [OF assms(2) _ b1(2)] assms(3,4) by auto
  have "collapse_stack st = window_root (tc_root c) (tc_begin c) (tc_end c) ns n"
    unfolding b2(3) by (simp add: window_root_def thread_node_def)
  moreover have "runs b (es1 @ es2) b2" by (rule runs_append [OF b1(1) b2(1)])
  ultimately show ?thesis using b2(2) by (auto simp: runs_def builder_finish_def builder_at_def)
qed

section \<open>The scopes of a window\<close>

lemma record_scope_table:
  "cb_scopes b = scope_table ss \<Longrightarrow> cb_scopes (record_scope_desc s b) = scope_table (ss @ [s])"
  by (auto simp: record_scope_desc_def scope_table_def fun_eq_iff map_add_def split: option.splits)

lemma add_child_scopes: "config_of (add_child_to_top node b) = config_of b" "cb_scopes (add_child_to_top node b) = cb_scopes b"
  by (simp_all add: add_child_to_top_def config_of_def split: list.splits)

lemma record_scope_config: "config_of (record_scope_desc s b) = config_of b" "config_of (b\<lparr>cb_stack := st\<rparr>) = config_of b"
  by (simp_all add: config_of_def)

lemma run_scopes:
  assumes "run b (bid, i, call) = Inr (b', True)" and "call_in_range (config_of b) call" and "cb_scopes b = scope_table ss"
  shows "config_of b' = config_of b \<and> cb_scopes b' = scope_table (ss @ call_scope call)"
proof (cases call)
  case (ScopeBegin s t)
  then show ?thesis
    using assms record_scope_table [OF assms(3), of s]
    by (auto simp: run_call_def call_tree_processor_def tree_on_begin_thread_scope_def call_in_range_def config_of_def Let_def split: if_splits)
next
  case (ScopeEnd s t)
  have range: "\<not> sint (ticks_to_nanoseconds (cb_convert_ticks b) t) < sint (cb_begin_range_ns b)"
    "\<not> sint (cb_end_range_ns b) < sint (ticks_to_nanoseconds (cb_convert_ticks b) t)"
    using assms(2) ScopeEnd by (auto simp: call_in_range_def config_of_def Let_def)
  from assms(1) ScopeEnd range obtain node b1 where "b' = add_child_to_top node b1"
    "b1 = record_scope_desc s b \<or> (\<exists>st. b1 = (record_scope_desc s b)\<lparr>cb_stack := st\<rparr>)"
    by (auto simp: run_call_def call_tree_processor_def tree_on_end_thread_scope_def Let_def split: list.splits CallTreeNode.splits if_splits)
  then show ?thesis using record_scope_table [OF assms(3), of s] ScopeEnd by (auto simp: add_child_scopes record_scope_config)
next
  case NoScope
  then show ?thesis using assms by (simp add: run_call_def)
qed

lemma feed_scopes:
  assumes "feed run b es = Inr (b', True)" and "calls_in_range (config_of b) es" and "cb_scopes b = scope_table ss"
  shows "cb_scopes b' = scope_table (ss @ call_scopes es)"
  using assms
proof (induction es arbitrary: b ss)
  case (Cons e es)
  obtain bid i call where e: "e = (bid, i, call)" by (cases e)
  obtain b1 where b1: "run b (bid, i, call) = Inr (b1, True)" "feed run b1 es = Inr (b', True)"
    using Cons.prems(1) by (auto simp: e and_then_eq_Inr split: if_splits)
  have step: "config_of b1 = config_of b" "cb_scopes b1 = scope_table (ss @ call_scope call)"
    using run_scopes [OF b1(1) _ Cons.prems(3)] Cons.prems(2) by (simp_all add: e)
  then show ?case using Cons.IH [OF b1(2) _ step(2)] Cons.prems(2) by (simp add: call_scopes_def e)
qed (simp add: call_scopes_def)

section \<open>The tree of a window\<close>

lemma call_tree_blocks:
  assumes "reliable env" and "list_all2 (thread_reads stack env xxh32 call_tree_processor stream mem spans locations l) blocks ess"
    and "feed run b (concat ess) = Inr (b', True)"
  shows "\<exists>l'. for_io (call_tree_block stack env xxh32 stream) b blocks l = (Inr b', l')"
  using assms(2,3)
proof (induction blocks arbitrary: ess b l)
  case Nil
  then show ?case by auto
next
  case (Cons block blocks)
  obtain es ess' where ess: "ess = es # ess'" "thread_reads stack env xxh32 call_tree_processor stream mem spans locations l block es"
    "list_all2 (thread_reads stack env xxh32 call_tree_processor stream mem spans locations l) blocks ess'"
    using Cons.prems(1) by (auto simp: list_all2_Cons1)
  obtain b1 where b1: "feed run b es = Inr (b1, True)" "feed run b1 (concat ess') = Inr (b', True)"
    using Cons.prems(2) by (auto simp: ess(1) feed_append and_then_eq_Inr split: if_splits)
  have "call_tree_block stack env xxh32 stream b block l = (Inr (b1, True), counted l)"
    by (simp add: call_tree_block_def bind_io_def parse_thread_block_eq [OF assms(1) ess(2)] b1(1))
  then show ?case using Cons.IH [of "counted l" ess' b1] ess(3) b1(2) by (auto simp: bind_io_def)
qed

lemma window_call_tree:
  assumes "reliable env" and "list_all2 (thread_reads stack env xxh32 call_tree_processor stream mem spans locations l) blocks ess"
    and "concat ess = es1 @ es2" and "cut_before (ticks_to_nanoseconds ct) t1 es1 ns" and "cut_after (ticks_to_nanoseconds ct) t2 es2 n"
    and "th = ScopeDesc_new xxh32 (get_thread_name (le_uuid_to_string env) stream) [] [] 0"
    and "calls_in_range \<lparr>tc_begin = t1, tc_end = t2, tc_limit = limit, tc_ticks = ct, tc_root = sd_hash th\<rparr> (es1 @ es2)"
    and "int (length (es1 @ es2)) \<le> sint limit"
  shows "\<exists>l'. make_call_tree stack env xxh32 blocks t1 t2 limit ct stream l
    = (Inr \<lparr>tr_scopes = scope_table (th # call_scopes (es1 @ es2)), tr_call_tree_root = window_root (sd_hash th) t1 t2 ns n\<rparr>, l')"
proof -
  let ?c = "\<lparr>tc_begin = t1, tc_end = t2, tc_limit = limit, tc_ticks = ct, tc_root = sd_hash th\<rparr>"
  let ?new = "CallTreeBuilder_new xxh32 t1 t2 limit ct (get_thread_name (le_uuid_to_string env) stream)"
  have new: "builder_at ?c [] 0 ?new" "config_of ?new = ?c" "cb_scopes ?new = scope_table [th]"
    by (simp_all add: builder_at_def CallTreeBuilder_new_def Let_def config_of_def scope_table_def assms(6))
  then obtain b' where b': "feed run ?new (concat ess) = Inr (b', True)" "tr_call_tree_root (builder_finish b') = window_root (sd_hash th) t1 t2 ns n"
    using window_run [of ?c es1 ns es2 n ?new] assms(3-5,7,8) by auto
  have "cb_scopes b' = scope_table (th # call_scopes (es1 @ es2))"
    using feed_scopes [OF b'(1) _ new(3)] new(2) assms(3,7) by simp
  with call_tree_blocks [OF assms(1,2) b'(1)] show ?thesis using b'(2) by (auto simp: make_call_tree_def bind_io_def builder_finish_def)
qed

text \<open>
  C31. The call tree of a window. Let the blocks of a thread hold the events of a window of a well nested
  trace, all within the range and no more than the limit, and let no scope have the hash of the thread
  itself. Then the call tree that is made from the blocks is the tree of the window: every span with its
  begin and its end, its children in order, spans that were open before starting with the range, spans
  that stay open ending with it. The root stands for the thread and has the range of the query, as the
  comment on \<open>call_tree_root\<close> says, only when some span was closed in the window before the first
  one that stays open; when there is none, the root is, against that comment, the first span that stays
  open (and there is no root for a window without spans). A hash stands for the thread, or for the first scope
  of an event that has it.
\<close>

theorem call_tree_of_window:
  assumes "reliable env" and "list_all2 (thread_reads stack env xxh32 call_tree_processor stream mem spans locations l) blocks ess"
    and "concat ess = es1 @ es2" and "cut_before (ticks_to_nanoseconds ct) t1 es1 ns" and "cut_after (ticks_to_nanoseconds ct) t2 es2 n"
    and "th = ScopeDesc_new xxh32 (get_thread_name (le_uuid_to_string env) stream) [] [] 0"
    and "calls_in_range \<lparr>tc_begin = t1, tc_end = t2, tc_limit = limit, tc_ticks = ct, tc_root = sd_hash th\<rparr> (es1 @ es2)"
    and "int (length (es1 @ es2)) \<le> sint limit"
  shows "\<exists>tree l'. make_call_tree stack env xxh32 blocks t1 t2 limit ct stream l = (Inr tree, l')
    \<and> (ns \<noteq> [] \<longrightarrow> tr_call_tree_root tree = Some (CallTreeNode None (sd_hash th) t1 t2 (ns @ opt_list n)))
    \<and> (ns = [] \<longrightarrow> tr_call_tree_root tree = n)
    \<and> tr_scopes tree = map_of (map (\<lambda>s. (sd_hash s, s)) (th # call_scopes (es1 @ es2)))"
  using window_call_tree [OF assms] by (auto simp: window_root_def scope_table_def)

end
