(* ===== verification/Span_Table.thy ===== *)
theory Span_Table
  imports Call_Tree_Window
begin

text \<open>
  The table of spans (\<open>analytics/src/span_table.rs\<close>): the nodes of a call tree become rows, a parent
  before its children, with the identifier of the parent and the depth.
\<close>

section \<open>Rows and columns\<close>

record SpanRow =
  sp_id :: i64
  sp_parent :: i64
  sp_depth :: u32
  sp_begin :: i64
  sp_end :: i64
  sp_hash :: u32
  sp_name :: string
  sp_target :: string
  sp_filename :: string
  sp_line :: u32

record SpanRecordBuilder =
  sb_ids :: "i64 list"
  sb_parents :: "i64 list"
  sb_depths :: "u32 list"
  sb_hashes :: "u32 list"
  sb_begins :: "i64 list"
  sb_ends :: "i64 list"
  sb_durations :: "i64 list"
  sb_names :: "string list"
  sb_targets :: "string list"
  sb_filenames :: "string list"
  sb_lines :: "u32 list"

definition span_builder_empty :: SpanRecordBuilder where
  "span_builder_empty = \<lparr>sb_ids = [], sb_parents = [], sb_depths = [], sb_hashes = [], sb_begins = [], sb_ends = [], sb_durations = [],
     sb_names = [], sb_targets = [], sb_filenames = [], sb_lines = []\<rparr>"

definition span_builder_len :: "SpanRecordBuilder \<Rightarrow> i64" where
  "span_builder_len b = word_of_nat (length (sb_ids b))"

definition span_builder_is_empty :: "SpanRecordBuilder \<Rightarrow> bool" where
  "span_builder_is_empty b \<longleftrightarrow> length (sb_ids b) = 0"

definition span_builder_append :: "arrow \<Rightarrow> SpanRow \<Rightarrow> SpanRecordBuilder \<Rightarrow> SpanRecordBuilder res" where
  "span_builder_append ar row b =
     and_then (dict_append (ar_keys16 ar) (sp_name row) (sb_names b)) (\<lambda>names.
     and_then (dict_append (ar_keys16 ar) (sp_target row) (sb_targets b)) (\<lambda>targets.
     and_then (dict_append (ar_keys16 ar) (sp_filename row) (sb_filenames b)) (\<lambda>filenames.
     Inr \<lparr>sb_ids = sb_ids b @ [sp_id row], sb_parents = sb_parents b @ [sp_parent row], sb_depths = sb_depths b @ [sp_depth row],
       sb_hashes = sb_hashes b @ [sp_hash row], sb_begins = sb_begins b @ [sp_begin row], sb_ends = sb_ends b @ [sp_end row],
       sb_durations = sb_durations b @ [sp_end row - sp_begin row], sb_names = names, sb_targets = targets, sb_filenames = filenames,
       sb_lines = sb_lines b @ [sp_line row]\<rparr>)))"

fun node_id :: "CallTreeNode \<Rightarrow> i64" where
  "node_id (CallTreeNode i h b e cs) = (case i of Some n \<Rightarrow> n | None \<Rightarrow> - 1)"

fun for_each_node_in_tree :: "(CallTreeNode \<Rightarrow> i64 \<Rightarrow> u32 \<Rightarrow> 's \<Rightarrow> 's res) \<Rightarrow> CallTreeNode \<Rightarrow> i64 \<Rightarrow> u32 \<Rightarrow> 's \<Rightarrow> 's res"
  and for_each_child :: "(CallTreeNode \<Rightarrow> i64 \<Rightarrow> u32 \<Rightarrow> 's \<Rightarrow> 's res) \<Rightarrow> CallTreeNode list \<Rightarrow> i64 \<Rightarrow> u32 \<Rightarrow> 's \<Rightarrow> 's res" where
  "for_each_node_in_tree process_node (CallTreeNode i h b e cs) parent depth s =
     and_then (process_node (CallTreeNode i h b e cs) parent depth s) (\<lambda>s'.
     for_each_child process_node cs (node_id (CallTreeNode i h b e cs)) (depth + 1) s')"
| "for_each_child process_node [] parent depth s = Inr s"
| "for_each_child process_node (n # ns) parent depth s =
     and_then (for_each_node_in_tree process_node n parent depth s) (\<lambda>s'. for_each_child process_node ns parent depth s')"

definition span_row_of :: "ScopeDesc \<Rightarrow> CallTreeNode \<Rightarrow> i64 \<Rightarrow> u32 \<Rightarrow> SpanRow" where
  "span_row_of scope_desc node parent depth =
     \<lparr>sp_id = node_id node, sp_parent = parent, sp_depth = depth, sp_begin = cn_begin node, sp_end = cn_end node, sp_hash = cn_hash node,
      sp_name = sd_name scope_desc, sp_target = sd_target scope_desc, sp_filename = sd_filename scope_desc, sp_line = sd_line scope_desc\<rparr>"

definition append_node :: "arrow \<Rightarrow> ScopeHashMap \<Rightarrow> CallTreeNode \<Rightarrow> i64 \<Rightarrow> u32 \<Rightarrow> SpanRecordBuilder \<Rightarrow> SpanRecordBuilder res" where
  "append_node ar scopes node parent depth b = (case scopes (cn_hash node) of
     None \<Rightarrow> Inl (Err ''fetching scope_desc from hash'')
   | Some scope_desc \<Rightarrow> span_builder_append ar (span_row_of scope_desc node parent depth) b)"

definition builder_append_call_tree :: "arrow \<Rightarrow> CallTree \<Rightarrow> SpanRecordBuilder \<Rightarrow> SpanRecordBuilder res" where
  "builder_append_call_tree ar tree b = (case tr_call_tree_root tree of
     Some rt \<Rightarrow> for_each_node_in_tree (append_node ar (tr_scopes tree)) rt 0 0 b
   | None \<Rightarrow> Inr b)"

definition span_builder_finish :: "SpanRecordBuilder \<Rightarrow> RecordBatch res" where
  "span_builder_finish b = batch_try_new
     [(''id'', Int64Column (sb_ids b)), (''parent'', Int64Column (sb_parents b)), (''depth'', UInt32Column (sb_depths b)),
      (''hash'', UInt32Column (sb_hashes b)), (''begin'', TimestampColumn (sb_begins b)), (''end'', TimestampColumn (sb_ends b)),
      (''duration'', Int64Column (sb_durations b)), (''name'', DictionaryColumn 16 (sb_names b)),
      (''target'', DictionaryColumn 16 (sb_targets b)), (''filename'', DictionaryColumn 16 (sb_filenames b)),
      (''line'', UInt32Column (sb_lines b))]"

section \<open>The rows of a tree\<close>

definition scope_named :: "ScopeHashMap \<Rightarrow> u32 \<Rightarrow> ScopeDesc" where
  "scope_named scopes h = the (scopes h)"

text \<open>
  The nodes of a tree in the order of the table, a node before its children, each with the node above it
  and its distance from the root.
\<close>

fun visits :: "CallTreeNode option \<Rightarrow> nat \<Rightarrow> CallTreeNode \<Rightarrow> (CallTreeNode option \<times> nat \<times> CallTreeNode) list" where
  "visits over depth (CallTreeNode i h b e cs) =
     (over, depth, CallTreeNode i h b e cs) # concat (map (visits (Some (CallTreeNode i h b e cs)) (Suc depth)) cs)"

text \<open>
  The row that a node should have. A node without an identifier, which stands for the thread, is shown as -1; the
  root has the parent 0.
\<close>

definition shown_id :: "CallTreeNode \<Rightarrow> i64" where
  "shown_id n = (if cn_id n = None then - 1 else the (cn_id n))"

definition shown_parent :: "CallTreeNode option \<Rightarrow> i64" where
  "shown_parent over = (if over = None then 0 else shown_id (the over))"

definition visited_row :: "ScopeHashMap \<Rightarrow> CallTreeNode option \<times> nat \<times> CallTreeNode \<Rightarrow> SpanRow" where
  "visited_row scopes v = (case v of (over, depth, n) \<Rightarrow>
     \<lparr>sp_id = shown_id n, sp_parent = shown_parent over, sp_depth = word_of_nat depth,
      sp_begin = cn_begin n, sp_end = cn_end n, sp_hash = cn_hash n,
      sp_name = sd_name (scope_named scopes (cn_hash n)), sp_target = sd_target (scope_named scopes (cn_hash n)),
      sp_filename = sd_filename (scope_named scopes (cn_hash n)), sp_line = sd_line (scope_named scopes (cn_hash n))\<rparr>)"

definition span_rows :: "ScopeHashMap \<Rightarrow> CallTreeNode option \<Rightarrow> nat \<Rightarrow> CallTreeNode \<Rightarrow> SpanRow list" where
  "span_rows scopes over depth n = map (visited_row scopes) (visits over depth n)"

definition tree_rows :: "CallTree \<Rightarrow> SpanRow list" where
  "tree_rows tree = (case tr_call_tree_root tree of None \<Rightarrow> [] | Some rt \<Rightarrow> span_rows (tr_scopes tree) None 0 rt)"

definition span_builder_of :: "SpanRow list \<Rightarrow> SpanRecordBuilder" where
  "span_builder_of rows = \<lparr>sb_ids = map sp_id rows, sb_parents = map sp_parent rows, sb_depths = map sp_depth rows,
     sb_hashes = map sp_hash rows, sb_begins = map sp_begin rows, sb_ends = map sp_end rows,
     sb_durations = map (\<lambda>r. sp_end r - sp_begin r) rows, sb_names = map sp_name rows, sb_targets = map sp_target rows,
     sb_filenames = map sp_filename rows, sb_lines = map sp_line rows\<rparr>"

definition span_batch_of :: "SpanRow list \<Rightarrow> RecordBatch" where
  "span_batch_of rows =
     [(''id'', Int64Column (map sp_id rows)), (''parent'', Int64Column (map sp_parent rows)), (''depth'', UInt32Column (map sp_depth rows)),
      (''hash'', UInt32Column (map sp_hash rows)), (''begin'', TimestampColumn (map sp_begin rows)), (''end'', TimestampColumn (map sp_end rows)),
      (''duration'', Int64Column (map (\<lambda>r. sp_end r - sp_begin r) rows)), (''name'', DictionaryColumn 16 (map sp_name rows)),
      (''target'', DictionaryColumn 16 (map sp_target rows)), (''filename'', DictionaryColumn 16 (map sp_filename rows)),
      (''line'', UInt32Column (map sp_line rows))]"

lemma span_builder_finish_of: "span_builder_finish (span_builder_of rows) = Inr (span_batch_of rows)"
  by (simp add: span_builder_finish_def span_builder_of_def span_batch_of_def batch_try_new_def)

definition span_rows_fit :: "arrow \<Rightarrow> SpanRow list \<Rightarrow> bool" where
  "span_rows_fit ar rows \<longleftrightarrow> card (set (map sp_name rows)) \<le> ar_keys16 ar \<and> card (set (map sp_target rows)) \<le> ar_keys16 ar
     \<and> card (set (map sp_filename rows)) \<le> ar_keys16 ar"

lemma span_rows_fit_subset: "span_rows_fit ar ys \<Longrightarrow> set xs \<subseteq> set ys \<Longrightarrow> span_rows_fit ar xs"
  using card_mono [OF _ image_mono [of "set xs" "set ys" sp_name]] card_mono [OF _ image_mono [of "set xs" "set ys" sp_target]]
    card_mono [OF _ image_mono [of "set xs" "set ys" sp_filename]] by (simp add: span_rows_fit_def)

lemma span_builder_append_of:
  "span_rows_fit ar (rows @ [r]) \<Longrightarrow> span_builder_append ar r (span_builder_of rows) = Inr (span_builder_of (rows @ [r]))"
  using dict_append_ok [of "map sp_name rows" "sp_name r" "ar_keys16 ar"] dict_append_ok [of "map sp_target rows" "sp_target r" "ar_keys16 ar"]
    dict_append_ok [of "map sp_filename rows" "sp_filename r" "ar_keys16 ar"]
  by (simp add: span_builder_append_def span_builder_of_def span_rows_fit_def)

lemma span_rows_node:
  "span_rows scopes over k (CallTreeNode i h b e cs) = visited_row scopes (over, k, CallTreeNode i h b e cs)
    # concat (map (span_rows scopes (Some (CallTreeNode i h b e cs)) (Suc k)) cs)"
  by (simp add: span_rows_def [abs_def] map_concat comp_def)

lemma shown_node_id: "node_id n = shown_id n"
  by (cases n) (auto simp: shown_id_def split: option.splits)

lemma append_visited:
  assumes "scopes (cn_hash n) \<noteq> None" and "span_rows_fit ar (rows @ [visited_row scopes (over, k, n)])"
  shows "append_node ar scopes n (shown_parent over) (word_of_nat k) (span_builder_of rows) = Inr (span_builder_of (rows @ [visited_row scopes (over, k, n)]))"
proof -
  obtain d where "scopes (cn_hash n) = Some d" using assms(1) by blast
  moreover from this have "span_row_of d n (shown_parent over) (word_of_nat k) = visited_row scopes (over, k, n)"
    by (simp add: span_row_of_def visited_row_def scope_named_def shown_node_id)
  ultimately show ?thesis using span_builder_append_of [OF assms(2)] by (simp add: append_node_def)
qed

lemma append_nodes:
  "every_node (\<lambda>n. scopes (cn_hash n) \<noteq> None) n \<Longrightarrow> span_rows_fit ar (rows @ span_rows scopes over k n) \<Longrightarrow>
    parent = shown_parent over \<Longrightarrow> depth = word_of_nat k \<Longrightarrow>
    for_each_node_in_tree (append_node ar scopes) n parent depth (span_builder_of rows) = Inr (span_builder_of (rows @ span_rows scopes over k n))"
  "list_all (every_node (\<lambda>n. scopes (cn_hash n) \<noteq> None)) ns \<Longrightarrow>
    span_rows_fit ar (rows @ concat (map (span_rows scopes over k) ns)) \<Longrightarrow>
    parent = shown_parent over \<Longrightarrow> depth = word_of_nat k \<Longrightarrow>
    for_each_child (append_node ar scopes) ns parent depth (span_builder_of rows)
      = Inr (span_builder_of (rows @ concat (map (span_rows scopes over k) ns)))"
proof (induction "append_node ar scopes" n parent depth "span_builder_of rows" and "append_node ar scopes" ns parent depth "span_builder_of rows"
    arbitrary: rows over k and rows over k rule: for_each_node_in_tree_for_each_child.induct)
  case (1 i h b e cs parent depth)
  let ?n = "CallTreeNode i h b e cs"
  let ?r = "visited_row scopes (over, k, ?n)"
  have "span_rows_fit ar (rows @ [?r])" by (rule span_rows_fit_subset [OF 1(3)]) (auto simp: span_rows_node)
  then have step: "append_node ar scopes ?n parent depth (span_builder_of rows) = Inr (span_builder_of (rows @ [?r]))"
    using append_visited [of scopes ?n ar rows over k] 1(2,4,5) by simp
  have "for_each_child (append_node ar scopes) cs (node_id ?n) (depth + 1) (span_builder_of (rows @ [?r]))
      = Inr (span_builder_of ((rows @ [?r]) @ concat (map (span_rows scopes (Some ?n) (Suc k)) cs)))"
    using 1(1) [of "rows @ [?r]", OF step, where over = "Some ?n" and k = "Suc k"] 1(2,3,5)
    by (simp add: span_rows_node shown_node_id shown_parent_def add.commute)
  with step show ?case by (simp add: span_rows_node)
next
  case (2 parent depth)
  then show ?case by simp
next
  case (3 n ns parent depth)
  have "span_rows_fit ar (rows @ span_rows scopes over k n)" by (rule span_rows_fit_subset [OF 3(4)]) auto
  then have step: "for_each_node_in_tree (append_node ar scopes) n parent depth (span_builder_of rows) = Inr (span_builder_of (rows @ span_rows scopes over k n))"
    using 3(1,3,5,6) by simp
  have "for_each_child (append_node ar scopes) ns parent depth (span_builder_of (rows @ span_rows scopes over k n))
      = Inr (span_builder_of ((rows @ span_rows scopes over k n) @ concat (map (span_rows scopes over k) ns)))"
    using 3(2) [of "rows @ span_rows scopes over k n", OF step] 3(3-6) by simp
  with step show ?case by simp
qed

lemma append_tree_rows:
  assumes "\<And>n. tr_call_tree_root tree = Some n \<Longrightarrow> every_node (\<lambda>m. tr_scopes tree (cn_hash m) \<noteq> None) n"
    and "span_rows_fit ar (rows @ tree_rows tree)"
  shows "builder_append_call_tree ar tree (span_builder_of rows) = Inr (span_builder_of (rows @ tree_rows tree))"
  using assms append_nodes(1) [where over = None and k = 0] by (auto simp: builder_append_call_tree_def tree_rows_def shown_parent_def split: option.splits)

text \<open>
  C32. Whatever the blocks hold, the call tree made from them can be put into the table: its scopes are all
  known, and the table gets one row per node, a node before its children, each row with the identifier of
  the node and of its parent, its distance from the root, its begin, end and hash, and the name, target,
  file and line of its scope. (The dictionaries of the three text columns have room.)
\<close>

theorem call_tree_table:
  assumes "make_call_tree stack env xxh32 blocks t1 t2 limit ct stream l = (Inr tree, l')" and "sint t1 \<le> sint t2"
    and "span_rows_fit ar (rows @ tree_rows tree)"
  shows "builder_append_call_tree ar tree (span_builder_of rows) = Inr (span_builder_of (rows @ tree_rows tree))"
  by (rule append_tree_rows [OF _ assms(3)])
    (rule every_node_mono [OF call_tree_within [OF assms(1,2)]], simp_all add: node_within_def)

end
