(* ===== verification/Query_Spans.thy ===== *)
theory Query_Spans
  imports Span_Table
begin

text \<open>
  The query for spans (\<open>analytics/src/query_spans.rs\<close>): blocks that follow each other without a gap in
  their ticks are put into one call tree.
\<close>

section \<open>The query\<close>

definition max_i64 :: "i64 \<Rightarrow> i64 \<Rightarrow> i64" where
  "max_i64 a b = (if sint a \<le> sint b then b else a)"

definition min_i64 :: "i64 \<Rightarrow> i64 \<Rightarrow> i64" where
  "min_i64 a b = (if sint a \<le> sint b then a else b)"

definition tree_begin_ns :: "ProcessInfo \<Rightarrow> i64 \<Rightarrow> BlockMetadata list \<Rightarrow> i64" where
  "tree_begin_ns process_info relative_begin_ticks blocks =
     ticks_to_nanoseconds (ConvertTicks_new process_info) (max_i64 relative_begin_ticks (bm_begin_ticks (hd blocks)) + pi_start_ticks process_info)"

definition tree_end_ns :: "ProcessInfo \<Rightarrow> i64 \<Rightarrow> BlockMetadata list \<Rightarrow> i64" where
  "tree_end_ns process_info relative_end_ticks blocks =
     ticks_to_nanoseconds (ConvertTicks_new process_info) (min_i64 relative_end_ticks (bm_end_ticks (last blocks)) + pi_start_ticks process_info)"

definition append_call_tree ::
  "nat \<Rightarrow> lake_env \<Rightarrow> arrow \<Rightarrow> xxhash \<Rightarrow> ProcessInfo \<Rightarrow> i64 \<Rightarrow> i64 \<Rightarrow> i64 \<Rightarrow> StreamInfo \<Rightarrow> SpanRecordBuilder \<Rightarrow> BlockMetadata list
    \<Rightarrow> (lake, SpanRecordBuilder \<times> bool) io" where
  "append_call_tree stack env ar xxh32 process_info relative_begin_ticks relative_end_ticks limit stream record_builder blocks =
     (if blocks = [] then pure_io (Inl (Panic ''index out of bounds''))
      else bind_io (make_call_tree stack env xxh32 blocks (tree_begin_ns process_info relative_begin_ticks blocks)
          (tree_end_ns process_info relative_end_ticks blocks) (limit - span_builder_len record_builder) (ConvertTicks_new process_info) stream) (\<lambda>call_tree.
        bind_io (pure_io (builder_append_call_tree ar call_tree record_builder)) (\<lambda>b.
        pure_io (Inr (b, sint (span_builder_len b) < sint limit)))))"

text \<open>The state of the loop: the table, \<open>blocks_to_process\<close>, \<open>last_end\<close>.\<close>

type_synonym spans_state = "SpanRecordBuilder \<times> BlockMetadata list \<times> i64 option"

definition spans_step ::
  "nat \<Rightarrow> lake_env \<Rightarrow> arrow \<Rightarrow> xxhash \<Rightarrow> ProcessInfo \<Rightarrow> i64 \<Rightarrow> i64 \<Rightarrow> i64 \<Rightarrow> StreamInfo \<Rightarrow> spans_state \<Rightarrow> BlockMetadata
    \<Rightarrow> (lake, spans_state \<times> bool) io" where
  "spans_step stack env ar xxh32 process_info relative_begin_ticks relative_end_ticks limit stream s block =
     (case s of (record_builder, blocks_to_process, last_end) \<Rightarrow>
      if bm_begin_ticks block = (case last_end of Some e \<Rightarrow> e | None \<Rightarrow> bm_begin_ticks block)
      then pure_io (Inr ((record_builder, blocks_to_process @ [block], Some (bm_end_ticks block)), True))
      else bind_io (append_call_tree stack env ar xxh32 process_info relative_begin_ticks relative_end_ticks limit stream record_builder blocks_to_process)
        (\<lambda>(b, cont). pure_io (Inr ((b, [], None), cont))))"

text \<open>The function returns early exactly when \<open>blocks_to_process\<close> was just emptied, so that nothing is left to append.\<close>

definition spans_record_batch ::
  "nat \<Rightarrow> lake_env \<Rightarrow> arrow \<Rightarrow> xxhash \<Rightarrow> ProcessInfo \<Rightarrow> i64 \<Rightarrow> i64 \<Rightarrow> i64 \<Rightarrow> StreamInfo \<Rightarrow> BlockMetadata list \<Rightarrow> (lake, RecordBatch) io" where
  "spans_record_batch stack env ar xxh32 process_info relative_begin_ticks relative_end_ticks limit stream blocks =
     bind_io (for_io (spans_step stack env ar xxh32 process_info relative_begin_ticks relative_end_ticks limit stream) (span_builder_empty, [], None) blocks)
       (\<lambda>(record_builder, blocks_to_process, last_end).
        if blocks_to_process \<noteq> [] then
          bind_io (append_call_tree stack env ar xxh32 process_info relative_begin_ticks relative_end_ticks limit stream record_builder blocks_to_process)
            (\<lambda>(b, _). pure_io (span_builder_finish b))
        else pure_io (span_builder_finish record_builder))"

definition query_spans :: "nat \<Rightarrow> lake_env \<Rightarrow> arrow \<Rightarrow> xxhash \<Rightarrow> i64 \<Rightarrow> uuid \<Rightarrow> int \<Rightarrow> int \<Rightarrow> (lake, RecordBatch) io" where
  "query_spans stack env ar xxh32 limit sid begin_time end_time =
     bind_io (external env ''acquire'') (\<lambda>_.
     bind_io (find_stream env sid) (\<lambda>stream_info.
     bind_io (find_process env (si_process_id stream_info)) (\<lambda>process_info.
     let convert_ticks = ConvertTicks_new process_info;
         begin_time' = max begin_time (pi_start_time process_info);
         relative_begin_ticks = to_ticks convert_ticks (begin_time' - pi_start_time process_info);
         relative_end_ticks = to_ticks convert_ticks (end_time - pi_start_time process_info) in
     bind_io (find_stream_blocks_in_range env sid relative_begin_ticks relative_end_ticks) (\<lambda>blocks.
     spans_record_batch stack env ar xxh32 process_info relative_begin_ticks relative_end_ticks limit stream_info blocks))))"

section \<open>Blocks without a gap\<close>

definition contiguous :: "BlockMetadata list \<Rightarrow> bool" where
  "contiguous blocks \<longleftrightarrow> successively (\<lambda>a b. bm_end_ticks a = bm_begin_ticks b) blocks"

lemma contiguous_group:
  assumes "contiguous blocks" and "blocks \<noteq> [] \<longrightarrow> last_end = None \<or> last_end = Some (bm_begin_ticks (hd blocks))"
  shows "for_io (spans_step stack env ar xxh32 info rb re limit stream) (b, todo, last_end) (blocks @ rest) l
    = for_io (spans_step stack env ar xxh32 info rb re limit stream)
        (b, todo @ blocks, if blocks = [] then last_end else Some (bm_end_ticks (last blocks))) rest l"
  using assms
proof (induction blocks arbitrary: todo last_end)
  case (Cons block blocks)
  have "spans_step stack env ar xxh32 info rb re limit stream (b, todo, last_end) block l
      = (Inr ((b, todo @ [block], Some (bm_end_ticks block)), True), l)"
    using Cons.prems(2) by (auto simp: spans_step_def)
  moreover have "contiguous blocks" "blocks \<noteq> [] \<longrightarrow> bm_end_ticks block = bm_begin_ticks (hd blocks)"
    using Cons.prems(1) by (auto simp: contiguous_def successively_Cons)
  ultimately show ?case using Cons.IH [of "Some (bm_end_ticks block)" "todo @ [block]"] by (auto simp: bind_io_def)
qed simp

lemma contiguous_batch:
  assumes "contiguous blocks" and "blocks \<noteq> []"
  shows "spans_record_batch stack env ar xxh32 info rb re limit stream blocks l
    = bind_io (append_call_tree stack env ar xxh32 info rb re limit stream span_builder_empty blocks) (\<lambda>(b, _). pure_io (span_builder_finish b)) l"
  using contiguous_group [OF assms(1), of None stack env ar xxh32 info rb re limit stream span_builder_empty "[]" "[]" l] assms(2)
  by (simp add: spans_record_batch_def bind_io_def [of "for_io f s bs" for f s bs])

fun node_count :: "CallTreeNode \<Rightarrow> nat" where
  "node_count (CallTreeNode i h b e cs) = Suc (sum_list (map node_count cs))"

lemma length_span_rows: "length (span_rows scopes over k n) = node_count n"
proof -
  have "length (visits over k n) = node_count n"
    by (induction over k n rule: visits.induct) (simp add: length_concat comp_def cong: map_cong)
  then show ?thesis by (simp add: span_rows_def)
qed

lemma tree_rows_fit:
  assumes "case tr_call_tree_root tree of None \<Rightarrow> True | Some n \<Rightarrow> node_count n \<le> ar_keys16 ar"
  shows "span_rows_fit ar (tree_rows tree)"
proof -
  have "length (tree_rows tree) \<le> ar_keys16 ar" using assms by (auto simp: tree_rows_def length_span_rows split: option.splits)
  then have "card (set (map f (tree_rows tree))) \<le> ar_keys16 ar" for f :: "SpanRow \<Rightarrow> string"
    using card_length [of "map f (tree_rows tree)"] by simp
  then show ?thesis by (simp add: span_rows_fit_def)
qed

lemma span_builder_empty_of: "span_builder_empty = span_builder_of []"
  by (simp add: span_builder_empty_def span_builder_of_def)

lemma span_builder_len_Nil [simp]: "span_builder_len (span_builder_of []) = 0"
  by (simp add: span_builder_len_def span_builder_of_def)

text \<open>
  C33. The query for spans of blocks that follow each other without a gap, and hold the events of a window
  of a well nested trace: the table has the rows of the tree of that window, a node before its children, with
  identifiers, parents, depths and times, and the name, target, file and line of the scope of each span. The
  first row is that of the thread, over the range of the query, when some span was closed in the window
  before the first one that stays open; otherwise, against the comment on \<open>call_tree_root\<close>, it is the
  first span that stays open. (No scope has the hash of the thread, and a hash that two scopes share stands
  for the first of them.)
\<close>

theorem span_query_of_window:
  assumes "reliable env" and "list_all2 (thread_reads stack env xxh32 call_tree_processor stream mem spans locations l) blocks ess"
    and "blocks \<noteq> []" and "contiguous blocks"
    and "ct = ConvertTicks_new info" and "t1 = tree_begin_ns info rb blocks" and "t2 = tree_end_ns info re blocks" and "sint t1 \<le> sint t2"
    and "concat ess = es1 @ es2" and "cut_before (ticks_to_nanoseconds ct) t1 es1 ns" and "cut_after (ticks_to_nanoseconds ct) t2 es2 n"
    and "th = ScopeDesc_new xxh32 (get_thread_name (le_uuid_to_string env) stream) [] [] 0"
    and "calls_in_range \<lparr>tc_begin = t1, tc_end = t2, tc_limit = limit, tc_ticks = ct, tc_root = sd_hash th\<rparr> (es1 @ es2)"
    and "int (length (es1 @ es2)) \<le> sint limit"
    and "top_node = (if ns = [] then n else Some (CallTreeNode None (sd_hash th) t1 t2 (ns @ opt_list n)))"
    and "case top_node of None \<Rightarrow> True | Some m \<Rightarrow> node_count m \<le> ar_keys16 ar"
    and "scopes = map_of (map (\<lambda>s. (sd_hash s, s)) (th # call_scopes (es1 @ es2)))"
  shows "\<exists>l'. spans_record_batch stack env ar xxh32 info rb re limit stream blocks l
    = (Inr (span_batch_of (case top_node of None \<Rightarrow> [] | Some m \<Rightarrow> map (visited_row scopes) (visits None 0 m))), l')"
proof -
  let ?tree = "\<lparr>tr_scopes = scopes, tr_call_tree_root = top_node\<rparr>"
  obtain l' where tree: "make_call_tree stack env xxh32 blocks t1 t2 limit ct stream l = (Inr ?tree, l')"
    using window_call_tree [OF assms(1,2,9-14)] assms(15,17) by (auto simp: window_root_def scope_table_def)
  have "builder_append_call_tree ar ?tree (span_builder_of []) = Inr (span_builder_of ([] @ tree_rows ?tree))"
  proof (rule append_tree_rows)
    show "every_node (\<lambda>m. tr_scopes ?tree (cn_hash m) \<noteq> None) m" if "tr_call_tree_root ?tree = Some m" for m
      by (rule every_node_mono [OF call_tree_within [OF tree assms(8) that]]) (simp add: node_within_def)
    show "span_rows_fit ar ([] @ tree_rows ?tree)" using tree_rows_fit [where tree = ?tree and ar = ar] assms(16) by simp
  qed
  then have "spans_record_batch stack env ar xxh32 info rb re limit stream blocks l = (Inr (span_batch_of (tree_rows ?tree)), l')"
    using tree assms(3,5-7)
    by (simp add: contiguous_batch [OF assms(4,3)] append_call_tree_def span_builder_empty_of bind_io_def span_builder_finish_of)
  then show ?thesis by (cases top_node) (simp_all add: tree_rows_def span_rows_def)
qed

section \<open>Blocks with a gap\<close>


end
