(* ===== verification/Thread_Events.thy ===== *)
theory Thread_Events
  imports Query_Spans
begin

text \<open>
  The query for the events of a thread (\<open>analytics/src/thread_events_table.rs\<close>,
  \<open>query_thread_events.rs\<close>): one row per begin or end event of a span, in the order of the stream, with
  the index of the event; the rows of a time range, up to a limit.
\<close>

section \<open>The table\<close>

record ThreadEventsRecordBuilder =
  eb_begin_query_ns :: i64
  eb_end_query_ns :: i64
  eb_limit :: i64
  eb_nb_rows :: i64
  eb_convert_ticks :: ConvertTicks
  eb_ids :: "i64 list"
  eb_event_types :: "string list"
  eb_timestamps :: "i64 list"
  eb_hashes :: "u32 list"
  eb_names :: "string list"
  eb_targets :: "string list"
  eb_filenames :: "string list"
  eb_lines :: "u32 list"
  eb_block_ids :: "string list"

definition ThreadEventsRecordBuilder_new :: "i64 \<Rightarrow> i64 \<Rightarrow> i64 \<Rightarrow> ConvertTicks \<Rightarrow> ThreadEventsRecordBuilder" where
  "ThreadEventsRecordBuilder_new begin_query_ns end_query_ns limit convert_ticks =
     \<lparr>eb_begin_query_ns = begin_query_ns, eb_end_query_ns = end_query_ns, eb_limit = limit, eb_nb_rows = 0,
      eb_convert_ticks = convert_ticks, eb_ids = [], eb_event_types = [], eb_timestamps = [], eb_hashes = [], eb_names = [],
      eb_targets = [], eb_filenames = [], eb_lines = [], eb_block_ids = []\<rparr>"

definition thread_events_finish :: "ThreadEventsRecordBuilder \<Rightarrow> RecordBatch res" where
  "thread_events_finish b = batch_try_new
     [(''id'', Int64Column (eb_ids b)), (''event_type'', DictionaryColumn 8 (eb_event_types b)),
      (''timestamp'', TimestampColumn (eb_timestamps b)), (''hash'', UInt32Column (eb_hashes b)),
      (''name'', DictionaryColumn 16 (eb_names b)), (''target'', DictionaryColumn 16 (eb_targets b)),
      (''filename'', DictionaryColumn 16 (eb_filenames b)), (''line'', UInt32Column (eb_lines b)),
      (''block_id'', DictionaryColumn 16 (eb_block_ids b))]"

definition process_event ::
  "arrow \<Rightarrow> string \<Rightarrow> string \<Rightarrow> i64 \<Rightarrow> ScopeDesc \<Rightarrow> i64 \<Rightarrow> ThreadEventsRecordBuilder \<Rightarrow> (ThreadEventsRecordBuilder \<times> bool) res" where
  "process_event ar event_type block_id event_id scope ts b =
     (if sint (eb_nb_rows b) \<ge> sint (eb_limit b) then Inr (b, False)
      else let time = ticks_to_nanoseconds (eb_convert_ticks b) ts in
        if sint time < sint (eb_begin_query_ns b) then Inr (b, True)
        else if sint time > sint (eb_end_query_ns b) then Inr (b, False)
        else
          and_then (dict_append (ar_keys8 ar) event_type (eb_event_types b)) (\<lambda>event_types.
          and_then (dict_append (ar_keys16 ar) (sd_name scope) (eb_names b)) (\<lambda>names.
          and_then (dict_append (ar_keys16 ar) (sd_target scope) (eb_targets b)) (\<lambda>targets.
          and_then (dict_append (ar_keys16 ar) (sd_filename scope) (eb_filenames b)) (\<lambda>filenames.
          and_then (dict_append (ar_keys16 ar) block_id (eb_block_ids b)) (\<lambda>block_ids.
          Inr (b\<lparr>eb_nb_rows := eb_nb_rows b + 1, eb_ids := eb_ids b @ [event_id], eb_event_types := event_types,
              eb_timestamps := eb_timestamps b @ [time], eb_hashes := eb_hashes b @ [sd_hash scope], eb_names := names,
              eb_targets := targets, eb_filenames := filenames, eb_lines := eb_lines b @ [sd_line scope], eb_block_ids := block_ids\<rparr>,
            sint (eb_nb_rows b + 1) < sint (eb_limit b))))))))"

definition thread_events_processor :: "arrow \<Rightarrow> ThreadEventsRecordBuilder ThreadBlockProcessor" where
  "thread_events_processor ar =
     \<lparr>tp_on_begin_thread_scope = process_event ar ''begin'', tp_on_end_thread_scope = process_event ar ''end''\<rparr>"

section \<open>The query\<close>

definition make_thread_events_record_batch ::
  "nat \<Rightarrow> lake_env \<Rightarrow> arrow \<Rightarrow> xxhash \<Rightarrow> BlockMetadata list \<Rightarrow> i64 \<Rightarrow> i64 \<Rightarrow> i64 \<Rightarrow> ConvertTicks \<Rightarrow> StreamInfo \<Rightarrow> (lake, RecordBatch) io" where
  "make_thread_events_record_batch stack env ar xxh32 blocks limit begin_query_ns end_query_ns convert_ticks stream =
     bind_io (for_io (\<lambda>b block. parse_thread_block stack env xxh32 (thread_events_processor ar) stream block b)
       (ThreadEventsRecordBuilder_new begin_query_ns end_query_ns limit convert_ticks) blocks)
     (\<lambda>b. pure_io (thread_events_finish b))"

definition query_thread_events :: "nat \<Rightarrow> lake_env \<Rightarrow> arrow \<Rightarrow> xxhash \<Rightarrow> i64 \<Rightarrow> uuid \<Rightarrow> int \<Rightarrow> int \<Rightarrow> (lake, RecordBatch) io" where
  "query_thread_events stack env ar xxh32 limit sid begin_time end_time =
     bind_io (external env ''acquire'') (\<lambda>_.
     bind_io (find_stream env sid) (\<lambda>stream_info.
     bind_io (find_process env (si_process_id stream_info)) (\<lambda>process_info.
     let convert_ticks = ConvertTicks_new process_info;
         begin_time' = max begin_time (pi_start_time process_info);
         relative_begin_ticks = to_ticks convert_ticks (begin_time' - pi_start_time process_info);
         relative_end_ticks = to_ticks convert_ticks (end_time - pi_start_time process_info) in
     bind_io (find_stream_blocks_in_range env sid relative_begin_ticks relative_end_ticks) (\<lambda>blocks.
     let relative_end_ticks' = (if blocks = [] then relative_end_ticks else min_i64 relative_end_ticks (bm_end_ticks (last blocks))) in
     make_thread_events_record_batch stack env ar xxh32 blocks limit
       (ticks_to_nanoseconds convert_ticks (relative_begin_ticks + pi_start_ticks process_info))
       (ticks_to_nanoseconds convert_ticks (relative_end_ticks' + pi_start_ticks process_info)) convert_ticks stream_info))))"

section \<open>Rows\<close>

text \<open>What a begin or end event contributes to the table; other events contribute nothing.\<close>

record ThreadEventRow =
  te_id :: i64
  te_event_type :: string
  te_ts :: i64
  te_scope :: ScopeDesc
  te_block_id :: string

fun thread_event_row :: "string \<times> i64 \<times> thread_call \<Rightarrow> ThreadEventRow option" where
  "thread_event_row (block_id, event_id, ScopeBegin scope ts) = Some
     \<lparr>te_id = event_id, te_event_type = ''begin'', te_ts = ts, te_scope = scope, te_block_id = block_id\<rparr>"
| "thread_event_row (block_id, event_id, ScopeEnd scope ts) = Some
     \<lparr>te_id = event_id, te_event_type = ''end'', te_ts = ts, te_scope = scope, te_block_id = block_id\<rparr>"
| "thread_event_row (block_id, event_id, NoScope) = None"

abbreviation thread_event_rows :: "(string \<times> i64 \<times> thread_call) list \<Rightarrow> ThreadEventRow list" where
  "thread_event_rows \<equiv> List.map_filter thread_event_row"

definition event_time :: "ConvertTicks \<Rightarrow> ThreadEventRow \<Rightarrow> i64" where
  "event_time ct r = ticks_to_nanoseconds ct (te_ts r)"

definition thread_events_batch_of :: "ConvertTicks \<Rightarrow> ThreadEventRow list \<Rightarrow> RecordBatch" where
  "thread_events_batch_of ct rows =
     [(''id'', Int64Column (map te_id rows)), (''event_type'', DictionaryColumn 8 (map te_event_type rows)),
      (''timestamp'', TimestampColumn (map (event_time ct) rows)), (''hash'', UInt32Column (map (sd_hash \<circ> te_scope) rows)),
      (''name'', DictionaryColumn 16 (map (sd_name \<circ> te_scope) rows)), (''target'', DictionaryColumn 16 (map (sd_target \<circ> te_scope) rows)),
      (''filename'', DictionaryColumn 16 (map (sd_filename \<circ> te_scope) rows)), (''line'', UInt32Column (map (sd_line \<circ> te_scope) rows)),
      (''block_id'', DictionaryColumn 16 (map te_block_id rows))]"

definition thread_events_of :: "i64 \<Rightarrow> i64 \<Rightarrow> i64 \<Rightarrow> ConvertTicks \<Rightarrow> ThreadEventRow list \<Rightarrow> ThreadEventsRecordBuilder" where
  "thread_events_of t1 t2 limit ct rows =
     \<lparr>eb_begin_query_ns = t1, eb_end_query_ns = t2, eb_limit = limit, eb_nb_rows = word_of_nat (length rows), eb_convert_ticks = ct,
      eb_ids = map te_id rows, eb_event_types = map te_event_type rows, eb_timestamps = map (event_time ct) rows,
      eb_hashes = map (sd_hash \<circ> te_scope) rows, eb_names = map (sd_name \<circ> te_scope) rows, eb_targets = map (sd_target \<circ> te_scope) rows,
      eb_filenames = map (sd_filename \<circ> te_scope) rows, eb_lines = map (sd_line \<circ> te_scope) rows, eb_block_ids = map te_block_id rows\<rparr>"

definition event_rows_fit :: "arrow \<Rightarrow> ThreadEventRow list \<Rightarrow> bool" where
  "event_rows_fit ar rows \<longleftrightarrow> card (set (map te_event_type rows)) \<le> ar_keys8 ar
     \<and> card (set (map (sd_name \<circ> te_scope) rows)) \<le> ar_keys16 ar \<and> card (set (map (sd_target \<circ> te_scope) rows)) \<le> ar_keys16 ar
     \<and> card (set (map (sd_filename \<circ> te_scope) rows)) \<le> ar_keys16 ar \<and> card (set (map te_block_id rows)) \<le> ar_keys16 ar"

definition event_row :: "arrow \<Rightarrow> ThreadEventsRecordBuilder \<Rightarrow> ThreadEventRow \<Rightarrow> (ThreadEventsRecordBuilder \<times> bool) res" where
  "event_row ar b r = process_event ar (te_event_type r) (te_block_id r) (te_id r) (te_scope r) (te_ts r) b"

lemma run_event_call:
  "run_call (thread_events_processor ar) b c = (case thread_event_row c of None \<Rightarrow> Inr (b, True) | Some r \<Rightarrow> event_row ar b r)"
  by (cases c rule: thread_event_row.cases) (simp_all add: run_call_def thread_events_processor_def event_row_def)

lemma feed_event_calls: "feed (run_call (thread_events_processor ar)) b cs = feed (event_row ar) b (thread_event_rows cs)"
proof (induction cs arbitrary: b)
  case (Cons c cs)
  show ?case
  proof (cases "thread_event_row c")
    case None
    then show ?thesis using Cons by (simp add: run_event_call [of ar b c] map_filter_simps)
  next
    case (Some r)
    then show ?thesis using Cons by (cases "event_row ar b r") (auto simp: run_event_call [of ar b c] map_filter_simps)
  qed
qed (simp add: map_filter_simps)

lemma event_row_of:
  assumes "length rows \<le> nat (sint limit)" and "event_rows_fit ar (rows @ [r])"
  shows "event_row ar (thread_events_of t1 t2 limit ct rows) r =
    (if nat (sint limit) \<le> length rows then Inr (thread_events_of t1 t2 limit ct rows, False)
     else if sint (event_time ct r) < sint t1 then Inr (thread_events_of t1 t2 limit ct rows, True)
     else if sint t2 < sint (event_time ct r) then Inr (thread_events_of t1 t2 limit ct rows, False)
     else Inr (thread_events_of t1 t2 limit ct (rows @ [r]), Suc (length rows) < nat (sint limit)))"
proof -
  note dict_append_ok [of "map te_event_type rows" "te_event_type r" "ar_keys8 ar"]
    dict_append_ok [of "map (sd_name \<circ> te_scope) rows" "sd_name (te_scope r)" "ar_keys16 ar"]
    dict_append_ok [of "map (sd_target \<circ> te_scope) rows" "sd_target (te_scope r)" "ar_keys16 ar"]
    dict_append_ok [of "map (sd_filename \<circ> te_scope) rows" "sd_filename (te_scope r)" "ar_keys16 ar"]
    dict_append_ok [of "map te_block_id rows" "te_block_id r" "ar_keys16 ar"]
  note appended = this [simplified]
  have full: "sint (word_of_nat (length rows) :: i64) \<ge> sint limit \<longleftrightarrow> nat (sint limit) \<le> length rows"
    using sint_count [OF assms(1)] by linarith
  have room: "sint ((word_of_nat (length rows) :: i64) + 1) < sint limit \<longleftrightarrow> Suc (length rows) < nat (sint limit)"
    if "length rows < nat (sint limit)"
    using sint_count [of "Suc (length rows)" limit] that by (simp add: add.commute) linarith
  show ?thesis
  proof (cases "nat (sint limit) \<le> length rows")
    case True
    then show ?thesis using full by (simp add: event_row_def process_event_def thread_events_of_def)
  next
    case False
    then show ?thesis
      using full room appended assms(2)
      by (simp add: event_row_def process_event_def thread_events_of_def event_time_def event_rows_fit_def add.commute)
  qed
qed

interpretation thread_event_scan: row_scan "thread_events_of t1 t2 limit ct" "event_row ar" "event_time ct" t1 t2 "nat (sint limit)" "event_rows_fit ar"
  for t1 t2 limit ct ar
proof
  show "event_rows_fit ar xs" if "event_rows_fit ar ys" "set xs \<subseteq> set ys" for xs ys
  proof -
    have le: "card (set (map f xs)) \<le> n" if "card (set (map f ys)) \<le> n" for f :: "ThreadEventRow \<Rightarrow> string" and n
      using card_mono [OF _ image_mono [OF \<open>set xs \<subseteq> set ys\<close>, of f]] that by simp
    show ?thesis using that(1) unfolding event_rows_fit_def by (blast intro: le)
  qed
  show "\<exists>c. event_row ar (thread_events_of t1 t2 limit ct rows) r = Inr (thread_events_of t1 t2 limit ct rows', c)
      \<and> (c \<longrightarrow> sint (event_time ct r) \<le> sint t2 \<or> sint t2 < sint t1)
      \<and> (\<not> c \<longrightarrow> sint t2 < sint (event_time ct r) \<or> nat (sint limit) \<le> length rows')"
    if "length rows \<le> nat (sint limit)" "event_rows_fit ar (rows @ [r])"
      "rows' = (if sint t1 \<le> sint (event_time ct r) \<and> sint (event_time ct r) \<le> sint t2 \<and> length rows < nat (sint limit) then rows @ [r] else rows)"
    for rows r rows'
  proof (cases "nat (sint limit) \<le> length rows")
    case True
    then show ?thesis unfolding event_row_of [OF that(1,2)] that(3) by (intro exI [of _ False]) simp
  next
    case False
    then show ?thesis unfolding event_row_of [OF that(1,2)] that(3) by auto
  qed
qed

definition event_rows_read ::
  "nat \<Rightarrow> lake_env \<Rightarrow> arrow \<Rightarrow> xxhash \<Rightarrow> StreamInfo \<Rightarrow> memory \<Rightarrow> (u64 \<rightharpoonup> SpanMetadata) \<Rightarrow> (u64 \<rightharpoonup> SpanLocation)
    \<Rightarrow> lake \<Rightarrow> BlockMetadata \<Rightarrow> ThreadEventRow list \<Rightarrow> bool" where
  "event_rows_read stack env ar xxh32 stream mem spans locations l block rs \<longleftrightarrow>
     (\<exists>cs. thread_reads stack env xxh32 (thread_events_processor ar) stream mem spans locations l block cs \<and> rs = thread_event_rows cs)"

lemma make_thread_events_rows:
  assumes "reliable env"
    and "list_all2 (thread_reads stack env xxh32 (thread_events_processor ar) stream mem spans locations l) blocks css"
    and "event_rows_fit ar (thread_event_rows (concat css))"
  shows "\<exists>l'. make_thread_events_record_batch stack env ar xxh32 blocks limit t1 t2 ct stream l
    = (Inr (thread_events_batch_of ct (take (nat (sint limit)) (rows_in_range (event_time ct) t1 t2 (thread_event_rows (concat css))))), l')"
proof -
  have rows: "concat (map thread_event_rows css) = thread_event_rows (concat css)"
    by (induction css) (simp_all add: map_filter_simps List.map_filter_def)
  have empty: "thread_events_of t1 t2 limit ct [] = ThreadEventsRecordBuilder_new t1 t2 limit ct"
    by (simp add: thread_events_of_def ThreadEventsRecordBuilder_new_def)
  let ?body = "\<lambda>b block. parse_thread_block stack env xxh32 (thread_events_processor ar) stream block b"
  have "\<exists>l'. for_io ?body (thread_events_of t1 t2 limit ct []) blocks l
      = (Inr (thread_events_of t1 t2 limit ct (take (nat (sint limit)) ([] @ rows_in_range (event_time ct) t1 t2 (concat (map thread_event_rows css))))), l')"
  proof (rule thread_event_scan.scan_blocks [where reads = "event_rows_read stack env ar xxh32 stream mem spans locations" and called = counted])
    show "?body b block l = (feed (event_row ar) b rs, counted l)"
      if "event_rows_read stack env ar xxh32 stream mem spans locations l block rs" for b block rs l
      using that by (auto simp: event_rows_read_def parse_thread_block_eq [OF assms(1)] feed_event_calls)
    show "list_all2 (event_rows_read stack env ar xxh32 stream mem spans locations l) blocks (map thread_event_rows css)"
      unfolding list_all2_map2 by (rule list_all2_mono [OF assms(2)]) (auto simp: event_rows_read_def)
  qed (use assms(3) in \<open>simp_all add: rows event_rows_read_def fun_eq_iff\<close>)
  then show ?thesis
    by (auto simp: empty rows make_thread_events_record_batch_def bind_io_def [of "for_io f b bs" for f b bs])
      (auto simp: thread_events_of_def thread_events_finish_def thread_events_batch_of_def batch_try_new_def)
qed

text \<open>
  C35. The events of a thread in a time range: when the blocks read as the events of spans whose times do not
  decrease, the query returns exactly the first \<open>limit\<close> of the begin and end events in the range, with the index that
  each has in its stream and the block that it is in. Reading may stop early; nothing is lost by that.
\<close>

theorem thread_events_in_range:
  assumes "reliable env"
    and "list_all2 (thread_reads stack env xxh32 (thread_events_processor ar) stream mem spans locations l) blocks css"
    and "event_rows_fit ar (thread_event_rows (concat css))"
    and "sorted (map (\<lambda>r. sint (event_time ct r)) (thread_event_rows (concat css)))"
  shows "\<exists>l'. make_thread_events_record_batch stack env ar xxh32 blocks limit t1 t2 ct stream l
    = (Inr (thread_events_batch_of ct (take (nat (sint limit))
        (filter (\<lambda>r. sint t1 \<le> sint (event_time ct r) \<and> sint (event_time ct r) \<le> sint t2) (thread_event_rows (concat css))))), l')"
  using make_thread_events_rows [OF assms(1-3), of limit t1 t2 ct] unfolding rows_in_range_sorted [OF assms(4)] .

end
