(* ===== verification/Analytics_Service.thy ===== *)
theory Analytics_Service
  imports Ingestion Sql_Arrow Log_Query Metrics_Query Thread_Events
begin

text \<open>
  The service of the analytics library (\<open>analytics/src/analytics_service.rs\<close>) and the routes of its server
  (\<open>analytics-srv/src/main.rs\<close>): a request is decoded, its times are parsed, a query is run, and the record
  batch is written as Parquet. The decoding of requests, the Parquet writer, the printing of errors and the
  limit of the web framework on the size of a body are parameters.
\<close>

section \<open>Requests\<close>

record FindProcessRequest =
  fp_process_id :: uuid

record QueryProcessesRequest =
  qp_limit :: i64
  qp_begin :: string
  qp_end :: string

record QueryStreamsRequest =
  qs_limit :: i64
  qs_begin :: "string option"
  qs_end :: "string option"
  qs_tag_filter :: "string option"
  qs_process_id :: "uuid option"

record QueryBlocksRequest =
  qb_stream_id :: uuid

text \<open>The four requests for the events of a stream have the same fields.\<close>

record QueryEventsRequest =
  qe_limit :: i64
  qe_begin :: string
  qe_end :: string
  qe_stream_id :: uuid

type_synonym QuerySpansRequest = QueryEventsRequest
type_synonym QueryThreadEventsRequest = QueryEventsRequest
type_synonym QueryLogEntriesRequest = QueryEventsRequest
type_synonym QueryMetricsRequest = QueryEventsRequest

record AnalyticsService =
  as_lake :: lake_env
  as_arrow :: arrow
  as_xxh32 :: xxhash
  as_stack :: nat
  as_read_find_process :: "bytes \<Rightarrow> FindProcessRequest res"
  as_read_query_processes :: "bytes \<Rightarrow> QueryProcessesRequest res"
  as_read_query_streams :: "bytes \<Rightarrow> QueryStreamsRequest res"
  as_read_query_blocks :: "bytes \<Rightarrow> QueryBlocksRequest res"
  as_read_query_events :: "bytes \<Rightarrow> QueryEventsRequest res"
  as_parquet :: "RecordBatch \<Rightarrow> bytes res"
  as_debug :: "fault \<Rightarrow> bytes"
  as_body_limit :: nat

definition serialize_record_batch :: "AnalyticsService \<Rightarrow> RecordBatch \<Rightarrow> bytes res" where
  "serialize_record_batch sv record_batch = as_parquet sv record_batch"

definition parse_time :: "AnalyticsService \<Rightarrow> string \<Rightarrow> int res" where
  "parse_time sv s = wi_from_rfc3339 (le_wire (as_lake sv)) s"

definition parse_opt_time :: "AnalyticsService \<Rightarrow> string option \<Rightarrow> int option res" where
  "parse_opt_time sv s = (case s of None \<Rightarrow> Inr None | Some t \<Rightarrow> and_then (parse_time sv t) (\<lambda>time. Inr (Some time)))"

section \<open>Queries for rows\<close>

definition select_io :: "lake_env \<Rightarrow> string \<Rightarrow> (lake \<Rightarrow> 'r list res) \<Rightarrow> (lake, 'r list) io" where
  "select_io env context select = bind_io (external env context) (\<lambda>_ l. (select l, l))"

definition sql_limit :: "i64 \<Rightarrow> 'r list \<Rightarrow> 'r list res" where
  "sql_limit n rows = (if sint n < 0 then Inl (Err ''LIMIT must not be negative'') else Inr (take (nat (sint n)) rows))"

definition rows_response :: "AnalyticsService \<Rightarrow> 'r columns \<Rightarrow> 'r list \<Rightarrow> (lake, bytes) io" where
  "rows_response sv cols rows =
     bind_io (pure_io (rows_to_record_batch (le_uuid_to_string (as_lake sv)) (map (pg_row cols) rows))) (\<lambda>batch.
     pure_io (serialize_record_batch sv batch))"

definition AnalyticsService_find_process :: "AnalyticsService \<Rightarrow> bytes \<Rightarrow> (lake, bytes) io" where
  "AnalyticsService_find_process sv body =
     bind_io (pure_io (as_read_find_process sv body)) (\<lambda>request.
     bind_io (external (as_lake sv) ''acquire'') (\<lambda>_.
     bind_io (select_io (as_lake sv) ''fetch_all'' (\<lambda>l. Inr (filter (\<lambda>r. pw_process_id r = fp_process_id request) (la_processes l)))) (\<lambda>rows.
     rows_response sv processes_columns rows)))"

definition AnalyticsService_query_processes :: "AnalyticsService \<Rightarrow> bytes \<Rightarrow> (lake, bytes) io" where
  "AnalyticsService_query_processes sv body =
     bind_io (pure_io (as_read_query_processes sv body)) (\<lambda>request.
     bind_io (pure_io (parse_time sv (qp_begin request))) (\<lambda>begin_time.
     bind_io (pure_io (parse_time sv (qp_end request))) (\<lambda>end_time.
     bind_io (external (as_lake sv) ''acquire'') (\<lambda>_.
     bind_io (select_io (as_lake sv) ''fetch_all'' (\<lambda>l. sql_limit (qp_limit request) (sort_key pw_start_time
       (filter (\<lambda>r. pw_start_time r \<ge> le_timestamptz (as_lake sv) begin_time \<and> pw_start_time r < le_timestamptz (as_lake sv) end_time) (la_processes l))))) (\<lambda>rows.
     rows_response sv processes_columns rows)))))"

definition AnalyticsService_query_blocks :: "AnalyticsService \<Rightarrow> bytes \<Rightarrow> (lake, bytes) io" where
  "AnalyticsService_query_blocks sv body =
     bind_io (pure_io (as_read_query_blocks sv body)) (\<lambda>request.
     bind_io (external (as_lake sv) ''acquire'') (\<lambda>_.
     bind_io (select_io (as_lake sv) ''fetch_all'' (\<lambda>l. Inr (sort_key bw_begin_time
       (filter (\<lambda>r. bw_stream_id r = qb_stream_id request) (la_blocks l))))) (\<lambda>rows.
     rows_response sv blocks_columns rows)))"

section \<open>The query for streams\<close>

text \<open>
  Its conditions depend on the request, and each has the text of the placeholder whose value it is compared
  with. The database gives the first placeholder the value that was bound first, and so on.
\<close>

fun decimal :: "nat \<Rightarrow> string" where
  "decimal n = (if n < 10 then [char_of (48 + n)] else decimal (n div 10) @ [char_of (48 + n mod 10)])"

definition format_postgres_placeholder :: "nat \<Rightarrow> string" where
  "format_postgres_placeholder i = ''$'' @ decimal (i + 1)"

datatype stream_condition =
    InsertTimeFrom string
  | InsertTimeBefore string
  | ProcessIdIs string
  | TagPresent string

datatype bind_value = BindTime int | BindUuid uuid | BindText string | BindInt i64

definition bound_value :: "bind_value list \<Rightarrow> string \<Rightarrow> bind_value option" where
  "bound_value binds p = map_of (zip (map format_postgres_placeholder [0..<length binds]) binds) p"

fun condition_pred :: "bind_value list \<Rightarrow> stream_condition \<Rightarrow> (StreamRow \<Rightarrow> bool) res" where
  "condition_pred binds (InsertTimeFrom p) = (case bound_value binds p of
     Some (BindTime t) \<Rightarrow> Inr (\<lambda>r. sw_insert_time r \<ge> t) | _ \<Rightarrow> Inl (Err ''fetch_all''))"
| "condition_pred binds (InsertTimeBefore p) = (case bound_value binds p of
     Some (BindTime t) \<Rightarrow> Inr (\<lambda>r. sw_insert_time r < t) | _ \<Rightarrow> Inl (Err ''fetch_all''))"
| "condition_pred binds (ProcessIdIs p) = (case bound_value binds p of
     Some (BindUuid u) \<Rightarrow> Inr (\<lambda>r. sw_process_id r = u) | _ \<Rightarrow> Inl (Err ''fetch_all''))"
| "condition_pred binds (TagPresent p) = (case bound_value binds p of
     Some (BindText s) \<Rightarrow> Inr (\<lambda>r. s \<in> set (sw_tags r)) | _ \<Rightarrow> Inl (Err ''fetch_all''))"

definition select_streams :: "stream_condition list \<Rightarrow> string \<Rightarrow> bind_value list \<Rightarrow> lake \<Rightarrow> StreamRow list res" where
  "select_streams conditions limit_placeholder binds l =
     (if conditions = [] then Inl (Err ''syntax error'')
      else and_then (traverse (condition_pred binds) conditions) (\<lambda>preds.
        case bound_value binds limit_placeholder of
          Some (BindInt n) \<Rightarrow> sql_limit n (sort_key sw_insert_time (filter (\<lambda>r. list_all (\<lambda>p. p r) preds) (la_streams l)))
        | _ \<Rightarrow> Inl (Err ''fetch_all'')))"

definition push_condition :: "(string \<Rightarrow> stream_condition) \<Rightarrow> 'a option \<Rightarrow> stream_condition list \<Rightarrow> stream_condition list" where
  "push_condition condition v conditions =
     (if v = None then conditions else conditions @ [condition (format_postgres_placeholder (length conditions))])"

definition push_bind :: "('a \<Rightarrow> bind_value) \<Rightarrow> 'a option \<Rightarrow> bind_value list \<Rightarrow> bind_value list" where
  "push_bind wrap v binds = (case v of None \<Rightarrow> binds | Some a \<Rightarrow> binds @ [wrap a])"

definition stream_conditions :: "int option \<Rightarrow> int option \<Rightarrow> QueryStreamsRequest \<Rightarrow> stream_condition list" where
  "stream_conditions begin_time end_time request =
     push_condition TagPresent (qs_tag_filter request)
       (push_condition ProcessIdIs (qs_process_id request)
         (push_condition InsertTimeBefore end_time (push_condition InsertTimeFrom begin_time [])))"

text \<open>A bound time has the precision of a stored one.\<close>

definition stream_binds :: "(int \<Rightarrow> int) \<Rightarrow> int option \<Rightarrow> int option \<Rightarrow> QueryStreamsRequest \<Rightarrow> bind_value list" where
  "stream_binds timestamptz begin_time end_time request =
     push_bind BindText (qs_tag_filter request)
       (push_bind BindUuid (qs_process_id request)
         (push_bind (BindTime \<circ> timestamptz) end_time (push_bind (BindTime \<circ> timestamptz) begin_time []))) @ [BindInt (qs_limit request)]"

definition AnalyticsService_query_streams :: "AnalyticsService \<Rightarrow> bytes \<Rightarrow> (lake, bytes) io" where
  "AnalyticsService_query_streams sv body =
     bind_io (pure_io (as_read_query_streams sv body)) (\<lambda>request.
     if (qs_begin request = None \<or> qs_end request = None) \<and> qs_process_id request = None
     then pure_io (Inl (Err ''Time range or process_id have to be provided''))
     else bind_io (pure_io (parse_opt_time sv (qs_begin request))) (\<lambda>begin_time.
       bind_io (pure_io (parse_opt_time sv (qs_end request))) (\<lambda>end_time.
       let conditions = stream_conditions begin_time end_time request;
           limit_placeholder = format_postgres_placeholder (length conditions) in
       bind_io (external (as_lake sv) ''acquire'') (\<lambda>_.
       bind_io (select_io (as_lake sv) ''fetch_all''
         (select_streams conditions limit_placeholder (stream_binds (le_timestamptz (as_lake sv)) begin_time end_time request))) (\<lambda>rows.
       rows_response sv streams_columns rows)))))"

section \<open>Queries for events\<close>

definition events_request ::
  "AnalyticsService \<Rightarrow> bytes \<Rightarrow> (QueryEventsRequest \<Rightarrow> int \<Rightarrow> int \<Rightarrow> (lake, RecordBatch) io) \<Rightarrow> (lake, bytes) io" where
  "events_request sv body query =
     bind_io (pure_io (as_read_query_events sv body)) (\<lambda>request.
     bind_io (pure_io (parse_time sv (qe_begin request))) (\<lambda>begin_time.
     bind_io (pure_io (parse_time sv (qe_end request))) (\<lambda>end_time.
     bind_io (query request begin_time end_time) (\<lambda>batch.
     pure_io (serialize_record_batch sv batch)))))"

definition AnalyticsService_query_spans :: "AnalyticsService \<Rightarrow> bytes \<Rightarrow> (lake, bytes) io" where
  "AnalyticsService_query_spans sv body = events_request sv body (\<lambda>request begin_time end_time.
     query_spans (as_stack sv) (as_lake sv) (as_arrow sv) (as_xxh32 sv) (qe_limit request) (qe_stream_id request) begin_time end_time)"

definition AnalyticsService_query_thread_events :: "AnalyticsService \<Rightarrow> bytes \<Rightarrow> (lake, bytes) io" where
  "AnalyticsService_query_thread_events sv body = events_request sv body (\<lambda>request begin_time end_time.
     query_thread_events (as_stack sv) (as_lake sv) (as_arrow sv) (as_xxh32 sv) (qe_limit request) (qe_stream_id request) begin_time end_time)"

definition AnalyticsService_query_log_entries :: "AnalyticsService \<Rightarrow> bytes \<Rightarrow> (lake, bytes) io" where
  "AnalyticsService_query_log_entries sv body = events_request sv body (\<lambda>request begin_time end_time.
     query_log_entries (as_stack sv) (as_lake sv) (as_arrow sv) (qe_stream_id request) begin_time end_time (qe_limit request))"

definition AnalyticsService_query_metrics :: "AnalyticsService \<Rightarrow> bytes \<Rightarrow> (lake, bytes) io" where
  "AnalyticsService_query_metrics sv body = events_request sv body (\<lambda>request begin_time end_time.
     query_metrics (as_stack sv) (as_lake sv) (as_arrow sv) (qe_limit request) (qe_stream_id request) begin_time end_time)"

section \<open>Routes\<close>

text \<open>A handler that panics leaves its client without a response.\<close>

datatype response = Response nat bytes | NoResponse

definition bytes_response :: "AnalyticsService \<Rightarrow> bytes res \<Rightarrow> response" where
  "bytes_response sv result = (case result of
     Inl (Err e) \<Rightarrow> Response 500 (as_debug sv (Err e)) | Inl _ \<Rightarrow> NoResponse | Inr bs \<Rightarrow> Response 200 bs)"

definition respond :: "AnalyticsService \<Rightarrow> (lake, bytes) io \<Rightarrow> lake \<Rightarrow> response \<times> lake" where
  "respond sv call l = (case call l of (result, l') \<Rightarrow> (bytes_response sv result, l'))"

definition find_process_request :: "AnalyticsService \<Rightarrow> bytes \<Rightarrow> lake \<Rightarrow> response \<times> lake" where
  "find_process_request sv body = respond sv (AnalyticsService_find_process sv body)"

definition query_processes_request :: "AnalyticsService \<Rightarrow> bytes \<Rightarrow> lake \<Rightarrow> response \<times> lake" where
  "query_processes_request sv body = respond sv (AnalyticsService_query_processes sv body)"

definition query_streams_request :: "AnalyticsService \<Rightarrow> bytes \<Rightarrow> lake \<Rightarrow> response \<times> lake" where
  "query_streams_request sv body = respond sv (AnalyticsService_query_streams sv body)"

definition query_blocks_request :: "AnalyticsService \<Rightarrow> bytes \<Rightarrow> lake \<Rightarrow> response \<times> lake" where
  "query_blocks_request sv body = respond sv (AnalyticsService_query_blocks sv body)"

definition query_spans_request :: "AnalyticsService \<Rightarrow> bytes \<Rightarrow> lake \<Rightarrow> response \<times> lake" where
  "query_spans_request sv body = respond sv (AnalyticsService_query_spans sv body)"

definition query_thread_events_request :: "AnalyticsService \<Rightarrow> bytes \<Rightarrow> lake \<Rightarrow> response \<times> lake" where
  "query_thread_events_request sv body = respond sv (AnalyticsService_query_thread_events sv body)"

definition query_log_entries_request :: "AnalyticsService \<Rightarrow> bytes \<Rightarrow> lake \<Rightarrow> response \<times> lake" where
  "query_log_entries_request sv body = respond sv (AnalyticsService_query_log_entries sv body)"

definition query_metrics_request :: "AnalyticsService \<Rightarrow> bytes \<Rightarrow> lake \<Rightarrow> response \<times> lake" where
  "query_metrics_request sv body = respond sv (AnalyticsService_query_metrics sv body)"

definition analytics_routes :: "AnalyticsService \<Rightarrow> (string \<times> (bytes \<Rightarrow> lake \<Rightarrow> response \<times> lake)) list" where
  "analytics_routes sv =
     [(''/analytics/find_process'', find_process_request sv),
      (''/analytics/query_processes'', query_processes_request sv),
      (''/analytics/query_streams'', query_streams_request sv),
      (''/analytics/query_blocks'', query_blocks_request sv),
      (''/analytics/query_spans'', query_spans_request sv),
      (''/analytics/query_log_entries'', query_log_entries_request sv),
      (''/analytics/query_metrics'', query_metrics_request sv),
      (''/analytics/query_thread_events'', query_thread_events_request sv)]"

text \<open>The web framework: it finds the route of a path, and refuses a body that is larger than its limit.\<close>

definition analytics_serve :: "AnalyticsService \<Rightarrow> string \<Rightarrow> bytes \<Rightarrow> lake \<Rightarrow> response \<times> lake" where
  "analytics_serve sv path body l = (case map_of (analytics_routes sv) path of
     None \<Rightarrow> (Response 404 [], l)
   | Some handler \<Rightarrow> if length body > as_body_limit sv then (Response 413 [], l) else handler body l)"

section \<open>The streams that a request asks for\<close>

definition stream_wanted :: "(int \<Rightarrow> int) \<Rightarrow> int option \<Rightarrow> int option \<Rightarrow> QueryStreamsRequest \<Rightarrow> StreamRow \<Rightarrow> bool" where
  "stream_wanted ts begin_time end_time request r \<longleftrightarrow>
     (case begin_time of None \<Rightarrow> True | Some t \<Rightarrow> sw_insert_time r \<ge> ts t)
     \<and> (case end_time of None \<Rightarrow> True | Some t \<Rightarrow> sw_insert_time r < ts t)
     \<and> (case qs_process_id request of None \<Rightarrow> True | Some u \<Rightarrow> sw_process_id r = u)
     \<and> (case qs_tag_filter request of None \<Rightarrow> True | Some s \<Rightarrow> s \<in> set (sw_tags r))"

lemma placeholders:
  "format_postgres_placeholder 0 = ''$1''" "format_postgres_placeholder (Suc 0) = ''$2''" "format_postgres_placeholder (Suc (Suc 0)) = ''$3''"
  "format_postgres_placeholder (Suc (Suc (Suc 0))) = ''$4''" "format_postgres_placeholder (Suc (Suc (Suc (Suc 0)))) = ''$5''"
  by code_simp+

lemma select_wanted:
  fixes begin_time end_time request
  defines "conditions \<equiv> stream_conditions begin_time end_time request"
  assumes "begin_time \<noteq> None \<and> end_time \<noteq> None \<or> qs_process_id request \<noteq> None"
  shows "select_streams conditions (format_postgres_placeholder (length conditions)) (stream_binds ts begin_time end_time request) l
    = sql_limit (qs_limit request) (sort_key sw_insert_time (filter (stream_wanted ts begin_time end_time request) (la_streams l)))"
  using assms(2)
  by (cases begin_time; cases end_time; cases "qs_process_id request"; cases "qs_tag_filter request")
    (simp_all add: conditions_def stream_conditions_def stream_binds_def push_condition_def push_bind_def select_streams_def bound_value_def
      placeholders stream_wanted_def [abs_def] upt_rec)

lemma parse_opt_time_None: "parse_opt_time sv s = Inr t \<Longrightarrow> t = None \<longleftrightarrow> s = None"
  by (auto simp: parse_opt_time_def and_then_eq_Inr split: option.splits)

lemma select_io_bind:
  "reliable env \<Longrightarrow> select (l\<lparr>la_calls := la_calls l + 1\<rparr>) = Inr rows \<Longrightarrow> bind_io (select_io env c select) f l = f rows (l\<lparr>la_calls := la_calls l + 1\<rparr>)"
  by (simp add: select_io_def) (simp add: bind_io_def)

lemma rows_response_of:
  "rows_response sv cols rows l
    = (serialize_record_batch sv (if rows = [] then [] else map (\<lambda>(name, f). (name, field_column (le_uuid_to_string (as_lake sv)) f rows)) cols), l)"
  by (simp add: rows_response_def rows_to_record_batch_of)

text \<open>
  C37. The query for streams returns, ordered by the time of their insertion and up to the limit, exactly the
  streams that satisfy every condition of the request, whichever of the four conditions are given: each
  placeholder is bound to the value of its own condition. The times of the request are compared with the
  precision of the database.
\<close>

theorem query_streams_wanted:
  assumes "reliable (as_lake sv)" and "as_read_query_streams sv body = Inr request"
    and "parse_opt_time sv (qs_begin request) = Inr begin_time" and "parse_opt_time sv (qs_end request) = Inr end_time"
    and "qs_begin request \<noteq> None \<and> qs_end request \<noteq> None \<or> qs_process_id request \<noteq> None" and "0 \<le> sint (qs_limit request)"
    and "rows = take (nat (sint (qs_limit request))) (sort_key sw_insert_time
      (filter (stream_wanted (le_timestamptz (as_lake sv)) begin_time end_time request) (la_streams l)))"
  shows "AnalyticsService_query_streams sv body l
    = (serialize_record_batch sv (if rows = [] then []
         else map (\<lambda>(name, f). (name, field_column (le_uuid_to_string (as_lake sv)) f rows)) streams_columns), l\<lparr>la_calls := la_calls l + 2\<rparr>)"
proof -
  have "begin_time \<noteq> None \<and> end_time \<noteq> None \<or> qs_process_id request \<noteq> None"
    using assms(5) parse_opt_time_None [OF assms(3)] parse_opt_time_None [OF assms(4)] by simp
  note wanted = select_wanted [OF this]
  let ?rows = "select_streams (stream_conditions begin_time end_time request)
      (format_postgres_placeholder (length (stream_conditions begin_time end_time request))) (stream_binds (le_timestamptz (as_lake sv)) begin_time end_time request)"
  have "?rows (l\<lparr>la_calls := n\<rparr>) = Inr rows" for n using wanted [of _ "l\<lparr>la_calls := n\<rparr>"] assms(6,7) by (simp add: sql_limit_def)
  then have "bind_io (select_io (as_lake sv) ''fetch_all'' ?rows) (rows_response sv streams_columns) (l\<lparr>la_calls := la_calls l + 1\<rparr>)
      = rows_response sv streams_columns rows (l\<lparr>la_calls := la_calls l + 2\<rparr>)"
    by (simp add: select_io_bind [OF assms(1)] del: bind_io_assoc)
  then show ?thesis
    using assms(1-5) by (auto simp: AnalyticsService_query_streams_def Let_def rows_response_of simp del: bind_io_assoc)
qed

section \<open>Announced processes\<close>

lemma find_process_selects:
  assumes "reliable (as_lake sv)" and "as_read_find_process sv body = Inr request" and "length body \<le> as_body_limit sv"
    and "rows = filter (\<lambda>r. pw_process_id r = fp_process_id request) (la_processes l)"
  shows "fst (analytics_serve sv ''/analytics/find_process'' body l)
    = bytes_response sv (as_parquet sv (if rows = [] then []
        else map (\<lambda>(name, f). (name, field_column (le_uuid_to_string (as_lake sv)) f rows)) processes_columns))"
proof -
  have "bind_io (select_io (as_lake sv) ''fetch_all'' (\<lambda>l. Inr (filter (\<lambda>r. pw_process_id r = fp_process_id request) (la_processes l))))
      (rows_response sv processes_columns) (l\<lparr>la_calls := la_calls l + 1\<rparr>)
      = rows_response sv processes_columns rows (l\<lparr>la_calls := la_calls l + 2\<rparr>)"
    using assms(4) by (simp add: select_io_bind [OF assms(1)] del: bind_io_assoc)
  then show ?thesis
    using assms(1-3) by (auto simp: analytics_serve_def analytics_routes_def find_process_request_def respond_def AnalyticsService_find_process_def
        rows_response_of serialize_record_batch_def simp del: bind_io_assoc)
qed

lemma make_properties_lists:
  assumes "iter_ok env" and "finite (dom m)"
  shows "distinct (map pr_key (make_properties env m))" "map_of (map (\<lambda>p. (pr_key p, pr_value p)) (make_properties env m)) = m"
  using assms by (auto simp: make_properties_def iter_ok_def comp_def case_prod_unfold)

lemma serve_process:
  assumes "reliable env" and "wi_read_process (le_wire env) (rq_body rq) = Inr info" and "process_fits info"
    and "rq_url rq = addr @ ''/ingestion/insert_process''" and "length (rq_body rq) \<le> body_limit"
  shows "la_processes (serve_http env addr rq l) = la_processes l @
    [\<lparr>pw_process_id = pi_process_id info, pw_exe = pi_exe info, pw_username = pi_username info, pw_realname = pi_realname info,
      pw_computer = pi_computer info, pw_distro = pi_distro info, pw_cpu_brand = pi_cpu_brand info, pw_tsc_frequency = pi_tsc_frequency info,
      pw_start_time = le_timestamptz env (pi_start_time info), pw_start_ticks = pi_start_ticks info,
      pw_insert_time = le_timestamptz env (le_now env (la_calls l + 1)), pw_parent_process_id = pi_parent_process_id info,
      pw_properties = make_properties env (pi_properties info)\<rparr>]"
  using assms by (simp add: serve_http_def insert_process_request_def insert_process_def)

text \<open>
  C38. A process that a client announced to the ingestion server is what the analytics server finds under its
  identifier: the answer is a batch of one row, whose thirteen columns have the values of the announcement, the
  times with the precision of the database, and the properties as a list with one entry per key. What the
  server answers for the other identifiers does not change.
\<close>

theorem announced_process_found:
  assumes "reliable (as_lake sv)" and "iter_ok (as_lake sv)"
    and "wi_read_process (le_wire (as_lake sv)) (rq_body rq) = Inr info" and "finite (dom (pi_properties info))" and "process_fits info"
    and "rq_url rq = addr @ ''/ingestion/insert_process''" and "length (rq_body rq) \<le> body_limit"
    and "as_read_find_process sv body = Inr request" and "length body \<le> as_body_limit sv"
    and "pi_process_id info \<notin> pw_process_id ` set (la_processes l)"
    and "shown = shown_time \<circ> le_timestamptz (as_lake sv)" and "u2s = le_uuid_to_string (as_lake sv)"
  shows "if fp_process_id request = pi_process_id info
    then \<exists>ps. distinct (map pr_key ps) \<and> map_of (map (\<lambda>p. (pr_key p, pr_value p)) ps) = pi_properties info
      \<and> fst (analytics_serve sv ''/analytics/find_process'' body (serve_http (as_lake sv) addr rq l))
        = bytes_response sv (as_parquet sv
            [(''process_id'', NullableUtf8Column [Some (u2s (pi_process_id info))]), (''exe'', NullableUtf8Column [Some (pi_exe info)]),
             (''username'', NullableUtf8Column [Some (pi_username info)]), (''realname'', NullableUtf8Column [Some (pi_realname info)]),
             (''computer'', NullableUtf8Column [Some (pi_computer info)]), (''distro'', NullableUtf8Column [Some (pi_distro info)]),
             (''cpu_brand'', NullableUtf8Column [Some (pi_cpu_brand info)]), (''tsc_frequency'', Int64Column [pi_tsc_frequency info]),
             (''start_time'', TimestampColumn [shown (pi_start_time info)]), (''start_ticks'', Int64Column [pi_start_ticks info]),
             (''insert_time'', TimestampColumn [shown (le_now (as_lake sv) (la_calls l + 1))]),
             (''parent_process_id'', NullableUtf8Column [map_option u2s (pi_parent_process_id info)]),
             (''properties'', PropertyListColumn [ps])])
    else fst (analytics_serve sv ''/analytics/find_process'' body (serve_http (as_lake sv) addr rq l))
        = fst (analytics_serve sv ''/analytics/find_process'' body l)"
proof -
  note stored = serve_process [OF assms(1,3,5,6,7), of l]
  note finds = find_process_selects [OF assms(1,8,9) refl]
  have none: "filter (\<lambda>r. pw_process_id r = pi_process_id info) (la_processes l) = []" using assms(10) by (force simp: filter_empty_conv)
  show ?thesis
  proof (cases "fp_process_id request = pi_process_id info")
    case True
    then show ?thesis
      using make_properties_lists [OF assms(2,4)] assms(11,12)
      by (simp add: finds stored none processes_columns_def) blast
  next
    case False
    then show ?thesis by (simp add: finds stored eq_commute [of "pi_process_id info"])
  qed
qed

end
