(* ===== verification/Interop.thy ===== *)
theory Interop
  imports Guards
begin

text \<open>
  What other logging libraries record (\<open>telemetry-sink/src/log_interop.rs\<close>, \<open>tracing_interop.rs\<close>), and the sink
  that prints (\<open>local_event_sink.rs\<close>). The two libraries are known by the values they hand over. Installing
  a logger, or a subscriber, works once in a process; whether it does is an argument.
\<close>

section \<open>The log crate\<close>

datatype log_Level = LogError | LogWarn | LogInfo | LogDebug | LogTrace

datatype log_LevelFilter = LogFilterOff | LogFilterError | LogFilterWarn | LogFilterInfo | LogFilterDebug | LogFilterTrace

fun log_level_to_mm_tracing_level :: "log_Level \<Rightarrow> Level" where
  "log_level_to_mm_tracing_level LogError = Error"
| "log_level_to_mm_tracing_level LogWarn = Warn"
| "log_level_to_mm_tracing_level LogInfo = Info"
| "log_level_to_mm_tracing_level LogDebug = Debug"
| "log_level_to_mm_tracing_level LogTrace = Trace"

fun mm_tracing_level_filter_to_log_level_filter :: "LevelFilter \<Rightarrow> log_LevelFilter" where
  "mm_tracing_level_filter_to_log_level_filter FilterOff = LogFilterOff"
| "mm_tracing_level_filter_to_log_level_filter FilterFatal = LogFilterOff"
| "mm_tracing_level_filter_to_log_level_filter FilterError = LogFilterError"
| "mm_tracing_level_filter_to_log_level_filter FilterWarn = LogFilterWarn"
| "mm_tracing_level_filter_to_log_level_filter FilterInfo = LogFilterInfo"
| "mm_tracing_level_filter_to_log_level_filter FilterDebug = LogFilterDebug"
| "mm_tracing_level_filter_to_log_level_filter FilterTrace = LogFilterTrace"

record log_Record =
  lr_level :: log_Level
  lr_args :: Arguments
  lr_target :: static_str
  lr_module_path :: "static_str option"
  lr_file :: "static_str option"
  lr_line :: "u32 option"

definition args_as_str :: "Arguments \<Rightarrow> static_str option" where
  "args_as_str args = (case args of Literal s \<Rightarrow> Some s | Formatted _ \<Rightarrow> None)"

definition unwrap_or :: "'a \<Rightarrow> 'a option \<Rightarrow> 'a" where
  "unwrap_or d x = (case x of None \<Rightarrow> d | Some a \<Rightarrow> a)"

definition LogDispatch_enabled :: "surroundings \<Rightarrow> log_Level \<Rightarrow> world \<Rightarrow> bool \<times> world" where
  "LogDispatch_enabled su lvl w =
     (let unknown = su_literal su ''unknown'' in
      log_enabled su \<lparr>lm_level = log_level_to_mm_tracing_level lvl, lm_level_filter = 0, lm_fmt_str = su_literal su [], lm_target = unknown,
        lm_module_path = unknown, lm_file = unknown, lm_line = 0\<rparr> w)"

definition LogDispatch_log :: "surroundings \<Rightarrow> clock \<Rightarrow> log_Record \<Rightarrow> world \<Rightarrow> world res" where
  "LogDispatch_log su ck record w =
     (let unknown = su_literal su ''unknown'' in
      log_interop su ck \<lparr>lm_level = log_level_to_mm_tracing_level (lr_level record), lm_level_filter = FILTER_LEVEL_UNSET_VALUE,
        lm_fmt_str = unwrap_or (su_literal su []) (args_as_str (lr_args record)), lm_target = lr_target record,
        lm_module_path = unwrap_or unknown (lr_module_path record), lm_file = unwrap_or unknown (lr_file record),
        lm_line = unwrap_or 0 (lr_line record)\<rparr> (lr_args record) w)"

definition LogDispatch_flush :: "surroundings \<Rightarrow> clock \<Rightarrow> world \<Rightarrow> world res" where
  "LogDispatch_flush su ck = flush_log_buffer su ck"

text \<open>The state of the crate: its maximum, and whether its logger is the dispatcher.\<close>

record log_crate =
  lc_max_level :: log_LevelFilter
  lc_logger :: bool

definition interop_level :: "LevelFilter option \<Rightarrow> world \<Rightarrow> LevelFilter res" where
  "interop_level interop_max_level_override w = and_then (max_level (MAXIMA w)) (\<lambda>f. Inr (unwrap_or f interop_max_level_override))"

definition install_log_interop ::
  "surroundings \<Rightarrow> clock \<Rightarrow> bool \<Rightarrow> LevelFilter option \<Rightarrow> log_crate \<Rightarrow> world \<Rightarrow> (log_crate \<times> world) res" where
  "install_log_interop su ck set_logger_works interop_max_level_override lc w =
     and_then (interop_level interop_max_level_override w) (\<lambda>f.
     let lc1 = lc\<lparr>lc_max_level := mm_tracing_level_filter_to_log_level_filter f\<rparr> in
     if set_logger_works then Inr (lc1\<lparr>lc_logger := True\<rparr>, w)
     else let here = su_literal su ''micromegas_telemetry_sink::log_interop'' in
       and_then (log_macro su ck (su_call_site su ''log_interop.rs'' 53)
         (log_desc Error (su_literal su ''Could not set log crate dispatcher {e:?}'') here here (su_literal su ''telemetry-sink/src/log_interop.rs'') 53)
         (Formatted ''Could not set log crate dispatcher SetLoggerError(())'') w) (\<lambda>w'.
       Inr (lc1\<lparr>lc_max_level := LogFilterOff\<rparr>, w')))"

section \<open>The tracing crate\<close>

datatype tracing_Level = TracingERROR | TracingWARN | TracingINFO | TracingDEBUG | TracingTRACE

fun tracing_level_to_mm_level :: "tracing_Level \<Rightarrow> Level" where
  "tracing_level_to_mm_level TracingERROR = Error"
| "tracing_level_to_mm_level TracingWARN = Warn"
| "tracing_level_to_mm_level TracingINFO = Info"
| "tracing_level_to_mm_level TracingDEBUG = Debug"
| "tracing_level_to_mm_level TracingTRACE = Trace"

text \<open>The fields of an event come with the text of their values, as printed for debugging.\<close>

record tracing_Event =
  tv_level :: tracing_Level
  tv_target :: static_str
  tv_module_path :: "static_str option"
  tv_fields :: "(string \<times> string) list"

definition record_debug :: "string \<times> string \<Rightarrow> string \<Rightarrow> string" where
  "record_debug field buffer = (case field of (name, val) \<Rightarrow>
     buffer @ (if name = ''message'' then val @ '' '' else name @ ''='' @ val @ '' ''))"

record TracingCaptureLayer =
  tcl_max_level :: LevelFilter

definition layer_enabled :: "TracingCaptureLayer \<Rightarrow> tracing_Level \<Rightarrow> bool" where
  "layer_enabled layer lvl = po_le Level_PartialOrd_LevelFilter (tracing_level_to_mm_level lvl) (tcl_max_level layer)"

definition layer_on_event :: "surroundings \<Rightarrow> clock \<Rightarrow> TracingCaptureLayer \<Rightarrow> tracing_Event \<Rightarrow> world \<Rightarrow> world res" where
  "layer_on_event su ck layer event w =
     (let lvl = tracing_level_to_mm_level (tv_level event) in
      if po_gt Level_PartialOrd_LevelFilter lvl (tcl_max_level layer) then Inr w
      else let log_desc = \<lparr>lm_level = lvl, lm_level_filter = FILTER_LEVEL_UNSET_VALUE, lm_fmt_str = su_literal su ''{}'',
             lm_target = tv_target event, lm_module_path = unwrap_or (su_literal su []) (tv_module_path event),
             lm_file = su_literal su [], lm_line = 0\<rparr>;
           buffer = fold record_debug (tv_fields event) [] in
        log_interop su ck log_desc (Formatted buffer) w)"

text \<open>The subscriber gets its own first event.\<close>

definition install_tracing_interop ::
  "surroundings \<Rightarrow> clock \<Rightarrow> bool \<Rightarrow> LevelFilter option \<Rightarrow> world \<Rightarrow> (TracingCaptureLayer \<times> world) res" where
  "install_tracing_interop su ck init_works interop_max_level_override w =
     and_then (interop_level interop_max_level_override w) (\<lambda>f.
     if \<not> init_works then Inl (Panic ''failed to set global default subscriber'')
     else let layer = \<lparr>tcl_max_level = f\<rparr>; here = su_literal su ''micromegas_telemetry_sink::tracing_interop'';
         event = \<lparr>tv_level = TracingDEBUG, tv_target = here, tv_module_path = Some here,
           tv_fields = [(''message'', ''installed tracing interop'')]\<rparr> in
       and_then (if layer_enabled layer (tv_level event) then layer_on_event su ck layer event w else Inr w) (\<lambda>w'. Inr (layer, w')))"

section \<open>The local sink\<close>

record LocalEventSink =
  ls_timestamps :: bool
  ls_colors :: bool

definition LocalEventSink_new :: LocalEventSink where
  "LocalEventSink_new = \<lparr>ls_timestamps = True, ls_colors = True\<rparr>"

datatype color = Red | Yellow | Cyan | Purple | Normal

fun level_color :: "Level \<Rightarrow> color" where
  "level_color Fatal = Red" | "level_color Error = Red" | "level_color Warn = Yellow" | "level_color Info = Cyan"
| "level_color Debug = Purple" | "level_color Trace = Normal"

definition pad5 :: "string \<Rightarrow> string" where
  "pad5 s = s @ replicate (5 - length s) (CHR '' '')"

text \<open>The line that a log prints; how a text is coloured and the current time are arguments.\<close>

definition local_on_log :: "(color \<Rightarrow> string \<Rightarrow> string) \<Rightarrow> string \<Rightarrow> memory \<Rightarrow> LocalEventSink \<Rightarrow> LogMetadata \<Rightarrow> Arguments \<Rightarrow> string res" where
  "local_on_log colorize now mem sk m args =
     and_then (Level_as_str (lm_level m)) (\<lambda>name.
     let level_string = (if ls_colors sk then colorize (level_color (lm_level m)) name else name);
         target = (if str_text mem (lm_target m) \<noteq> [] then str_text mem (lm_target m) else str_text mem (lm_module_path m));
         timestamp = (if ls_timestamps sk then now @ '' '' else []);
         text = (case args of Literal s \<Rightarrow> str_text mem s | Formatted s \<Rightarrow> s) in
     Inr (timestamp @ pad5 level_string @ '' ['' @ target @ ''] '' @ text))"

definition local_on_log_enabled :: "LogMetadata \<Rightarrow> bool" where
  "local_on_log_enabled m = True"

definition local_is_busy :: bool where
  "local_is_busy = False"

text \<open>What the sink prints at each call: the other calls are ignored.\<close>

definition local_sink_call ::
  "(color \<Rightarrow> string \<Rightarrow> string) \<Rightarrow> string \<Rightarrow> memory \<Rightarrow> LocalEventSink \<Rightarrow> sink_call \<Rightarrow> string list res" where
  "local_sink_call colorize now mem sk c = (case c of
     OnLog m time args \<Rightarrow> and_then (local_on_log colorize now mem sk m args) (\<lambda>message. Inr [message])
   | _ \<Rightarrow> Inr [])"

end
