(* ===== verification/Telemetry_Guard.thy ===== *)
theory Telemetry_Guard
  imports Interop Composite_Sink Http_Sink Stream_Identity
begin

text \<open>
  The guard that an application holds while it records telemetry (\<open>telemetry-sink/src/lib.rs\<close>). The builder
  puts the sinks together and starts the dispatcher; a second guard, built while one is alive, shares
  it; the last guard to be dropped stops it. Environment variables, the order in which a hash map is
  visited, and whether the other libraries accept a logger and a subscriber are arguments.
\<close>

section \<open>The builder\<close>

text \<open>The retry strategy is the list of its delays; a decorator changes a request, or fails, as in \<open>Http_Sink\<close>.\<close>

type_synonym RequestDecorator = "nat \<Rightarrow> request \<Rightarrow> request res"

definition TrivialRequestDecorator :: RequestDecorator where
  "TrivialRequestDecorator _ request = Inr request"

record TelemetryGuardBuilder =
  tb_logs_buffer_size :: nat
  tb_metrics_buffer_size :: nat
  tb_threads_buffer_size :: nat
  tb_target_max_levels :: "string \<rightharpoonup> string"
  tb_max_queue_size :: i64
  tb_max_level_override :: "LevelFilter option"
  tb_interop_max_level_override :: "LevelFilter option"
  tb_install_log_capture :: bool
  tb_install_tracing_capture :: bool
  tb_local_sink_enabled :: bool
  tb_local_sink_max_level :: LevelFilter
  tb_telemetry_sink_max_level :: LevelFilter
  tb_telemetry_metadata_retry :: "nat list option"
  tb_telemetry_make_request_decorator :: RequestDecorator
  tb_extra_sinks :: "nat \<rightharpoonup> LevelFilter \<times> subsink"

definition TelemetryGuardBuilder_default :: TelemetryGuardBuilder where
  "TelemetryGuardBuilder_default =
     \<lparr>tb_logs_buffer_size = 10 * 1024 * 1024, tb_metrics_buffer_size = 1024 * 1024, tb_threads_buffer_size = 10 * 1024 * 1024,
      tb_target_max_levels = Map.empty, tb_max_queue_size = 16, tb_max_level_override = None, tb_interop_max_level_override = None,
      tb_install_log_capture = False, tb_install_tracing_capture = True, tb_local_sink_enabled = True,
      tb_local_sink_max_level = FilterInfo, tb_telemetry_sink_max_level = FilterDebug, tb_telemetry_metadata_retry = None,
      tb_telemetry_make_request_decorator = TrivialRequestDecorator,
      tb_extra_sinks = Map.empty\<rparr>"

text \<open>A sink of a type that is already there is dropped.\<close>

definition add_sink :: "nat \<Rightarrow> LevelFilter \<Rightarrow> subsink \<Rightarrow> TelemetryGuardBuilder \<Rightarrow> TelemetryGuardBuilder" where
  "add_sink type_id f sk b = (case tb_extra_sinks b type_id of
     Some _ \<Rightarrow> b | None \<Rightarrow> b\<lparr>tb_extra_sinks := (tb_extra_sinks b)(type_id \<mapsto> (f, sk))\<rparr>)"

definition with_max_level_override :: "LevelFilter \<Rightarrow> TelemetryGuardBuilder \<Rightarrow> TelemetryGuardBuilder" where
  "with_max_level_override f b = b\<lparr>tb_max_level_override := Some f\<rparr>"

definition with_local_sink_enabled :: "bool \<Rightarrow> TelemetryGuardBuilder \<Rightarrow> TelemetryGuardBuilder" where
  "with_local_sink_enabled enabled b = b\<lparr>tb_local_sink_enabled := enabled\<rparr>"

definition with_interop_max_level_override :: "LevelFilter \<Rightarrow> TelemetryGuardBuilder \<Rightarrow> TelemetryGuardBuilder" where
  "with_interop_max_level_override f b = b\<lparr>tb_interop_max_level_override := Some f\<rparr>"

definition with_install_log_capture :: "bool \<Rightarrow> TelemetryGuardBuilder \<Rightarrow> TelemetryGuardBuilder" where
  "with_install_log_capture enabled b = b\<lparr>tb_install_log_capture := enabled\<rparr>"

definition with_install_tracing_capture :: "bool \<Rightarrow> TelemetryGuardBuilder \<Rightarrow> TelemetryGuardBuilder" where
  "with_install_tracing_capture enabled b = b\<lparr>tb_install_tracing_capture := enabled\<rparr>"

definition with_local_sink_max_level :: "LevelFilter \<Rightarrow> TelemetryGuardBuilder \<Rightarrow> TelemetryGuardBuilder" where
  "with_local_sink_max_level f b = b\<lparr>tb_local_sink_max_level := f\<rparr>"

definition with_telemetry_metadata_retry :: "nat list \<Rightarrow> TelemetryGuardBuilder \<Rightarrow> TelemetryGuardBuilder" where
  "with_telemetry_metadata_retry retry_strategy b = b\<lparr>tb_telemetry_metadata_retry := Some retry_strategy\<rparr>"

definition with_request_decorator :: "RequestDecorator \<Rightarrow> TelemetryGuardBuilder \<Rightarrow> TelemetryGuardBuilder" where
  "with_request_decorator make_decorator b = b\<lparr>tb_telemetry_make_request_decorator := make_decorator\<rparr>"

text \<open>The handler that \<open>with_ctrlc_handling\<close> installs, up to the exit of the process.\<close>

definition ctrlc_handler :: "surroundings \<Rightarrow> clock \<Rightarrow> clock \<Rightarrow> clock \<Rightarrow> world \<Rightarrow> world res" where
  "ctrlc_handler su ck ck1 ck2 w =
     (let here = su_literal su ''micromegas_telemetry_sink''; msg = su_literal su ''Ctrl+C was hit!'' in
      and_then (log_macro su ck (su_call_site su ''lib.rs'' 144)
        (log_desc Info msg here here (su_literal su ''telemetry-sink/src/lib.rs'') 144) (Literal msg) w) (shutdown_telemetry su ck1 ck2))"

section \<open>Building\<close>

record start_env =
  se_url :: "string option"
  se_iter :: "(string \<rightharpoonup> string) \<Rightarrow> (string \<times> string) list"
  se_values :: "(nat \<rightharpoonup> LevelFilter \<times> subsink) \<Rightarrow> (LevelFilter \<times> subsink) list"
  se_default_retry :: "nat list"
  se_http_busy :: "string \<Rightarrow> i64 \<Rightarrow> nat list \<Rightarrow> RequestDecorator \<Rightarrow> sink_call list \<Rightarrow> bool"
  se_set_logger_works :: bool
  se_subscriber_works :: bool

text \<open>The sink of \<open>Http_Sink\<close> accepts every log; when it is busy depends on how far its worker is.\<close>

definition http_subsink :: "start_env \<Rightarrow> string \<Rightarrow> i64 \<Rightarrow> nat list \<Rightarrow> RequestDecorator \<Rightarrow> subsink" where
  "http_subsink env url max_queue_size retry_strategy make_decorator =
     \<lparr>ss_log_enabled = (\<lambda>_ _. True), ss_is_busy = se_http_busy env url max_queue_size retry_strategy make_decorator, ss_calls = []\<rparr>"

definition local_subsink :: subsink where
  "local_subsink = \<lparr>ss_log_enabled = (\<lambda>_ m. local_on_log_enabled m), ss_is_busy = (\<lambda>_. local_is_busy), ss_calls = []\<rparr>"

definition target_filters :: "start_env \<Rightarrow> TelemetryGuardBuilder \<Rightarrow> (string \<times> LevelFilter) list" where
  "target_filters env b = map (\<lambda>(key, val). (key, case LevelFilter_from_str val of Inr f \<Rightarrow> f | Inl _ \<Rightarrow> FilterOff))
     (filter (\<lambda>(key, val). key \<noteq> ''MAX_LEVEL'') (se_iter env (tb_target_max_levels b)))"

definition builder_sinks :: "start_env \<Rightarrow> TelemetryGuardBuilder \<Rightarrow> (LevelFilter \<times> subsink) list" where
  "builder_sinks env b =
     (case se_url env of None \<Rightarrow> []
      | Some url \<Rightarrow> [(tb_telemetry_sink_max_level b, http_subsink env url (tb_max_queue_size b)
          (unwrap_or (se_default_retry env) (tb_telemetry_metadata_retry b)) (tb_telemetry_make_request_decorator b))])
     @ (if tb_local_sink_enabled b then [(tb_local_sink_max_level b, local_subsink)] else [])
     @ se_values env (tb_extra_sinks b)"

text \<open>
  The state behind the guards: the dispatcher and its surroundings, how many guards share the
  \<open>TracingSystemGuard\<close> that the weak reference points to, and what the other libraries were given.
\<close>

record telemetry =
  tg_world :: world
  tg_strong :: nat
  tg_sink :: "CompositeSink option"
  tg_log :: log_crate
  tg_capture :: "TracingCaptureLayer option"

record new_ids =
  id_process :: uuid
  id_log :: uuid
  id_metrics :: uuid
  id_thread :: uuid

record thread_ref =
  tr_id :: nat
  tr_text :: string
  tr_name :: "string option"

definition install_log_capture :: "start_env \<Rightarrow> surroundings \<Rightarrow> clock \<Rightarrow> TelemetryGuardBuilder \<Rightarrow> log_crate \<Rightarrow> world \<Rightarrow> (log_crate \<times> world) res" where
  "install_log_capture env su ck b lc w = (if tb_install_log_capture b
     then install_log_interop su ck (se_set_logger_works env) (tb_interop_max_level_override b) lc w else Inr (lc, w))"

definition install_tracing_capture ::
  "start_env \<Rightarrow> surroundings \<Rightarrow> clock \<Rightarrow> TelemetryGuardBuilder \<Rightarrow> TracingCaptureLayer option \<Rightarrow> world \<Rightarrow> (TracingCaptureLayer option \<times> world) res" where
  "install_tracing_capture env su ck b layer w = (if tb_install_tracing_capture b
     then and_then (install_tracing_interop su ck (se_subscriber_works env) (tb_interop_max_level_override b) w) (\<lambda>(layer', w'). Inr (Some layer', w'))
     else Inr (layer, w))"

definition start_system ::
  "start_env \<Rightarrow> surroundings \<Rightarrow> clock \<Rightarrow> new_ids \<Rightarrow> TelemetryGuardBuilder \<Rightarrow> telemetry \<Rightarrow> ((dispatch_error + unit) \<times> telemetry) res" where
  "start_system env su ck u b t =
     (let (cs, maxima) = CompositeSink_new (builder_sinks env b) (target_filters env b) (tb_max_level_override b) (MAXIMA (tg_world t)) in
      and_then (install_log_capture env su ck b (tg_log t) ((tg_world t)\<lparr>MAXIMA := maxima\<rparr>)) (\<lambda>(lc, w1).
      and_then (install_tracing_capture env su ck b (tg_capture t) w1) (\<lambda>(layer, w2).
      and_then (TracingSystemGuard_new su ck (id_process u) (id_log u) (id_metrics u) (tb_logs_buffer_size b)
        (tb_metrics_buffer_size b) (tb_threads_buffer_size b) w2) (\<lambda>(r, w3).
      let t' = t\<lparr>tg_world := w3, tg_log := lc, tg_capture := layer\<rparr> in
      Inr (case r of Inl e \<Rightarrow> (Inl e, t') | Inr _ \<Rightarrow> (Inr (), t'\<lparr>tg_strong := 1, tg_sink := Some cs\<rparr>))))))"

definition TelemetryGuardBuilder_build ::
  "start_env \<Rightarrow> surroundings \<Rightarrow> clock \<Rightarrow> new_ids \<Rightarrow> thread_ref \<Rightarrow> TelemetryGuardBuilder \<Rightarrow> telemetry \<Rightarrow> ((dispatch_error + unit) \<times> telemetry) res" where
  "TelemetryGuardBuilder_build env su ck u th b t =
     and_then (if 0 < tg_strong t then Inr (Inr (), t\<lparr>tg_strong := tg_strong t + 1\<rparr>) else start_system env su ck u b t) (\<lambda>(r, t1).
     case r of
       Inl e \<Rightarrow> Inr (Inl e, t1)
     | Inr _ \<Rightarrow> and_then (TracingThreadGuard_new su ck (id_thread u) (tr_id th) (tr_text th) (tr_name th) (tg_world t1)) (\<lambda>w.
         Inr (Inr (), t1\<lparr>tg_world := w\<rparr>)))"

definition TelemetryGuard_new ::
  "start_env \<Rightarrow> surroundings \<Rightarrow> clock \<Rightarrow> new_ids \<Rightarrow> thread_ref \<Rightarrow> telemetry \<Rightarrow> ((dispatch_error + unit) \<times> telemetry) res" where
  "TelemetryGuard_new env su ck u th = TelemetryGuardBuilder_build env su ck u th TelemetryGuardBuilder_default"

text \<open>The fields are dropped in the order of their declaration: the guard of the thread, then the shared one.\<close>

definition TelemetryGuard_drop :: "surroundings \<Rightarrow> clock \<Rightarrow> clock \<Rightarrow> clock \<Rightarrow> nat \<Rightarrow> telemetry \<Rightarrow> telemetry res" where
  "TelemetryGuard_drop su ck ck1 ck2 tid t =
     and_then (TracingThreadGuard_drop su ck tid (tg_world t)) (\<lambda>w.
     if tg_strong t = 1 then and_then (TracingSystemGuard_drop su ck1 ck2 w) (\<lambda>w'. Inr (t\<lparr>tg_world := w', tg_strong := 0\<rparr>))
     else Inr (t\<lparr>tg_world := w, tg_strong := tg_strong t - 1\<rparr>))"

section \<open>The life of the guards\<close>

text \<open>
  What the threads of a process do with guards: they build and drop them, and in between record whatever
  they like. Starting the dispatcher is left to the guards; stopping it to the guards, to the hook that runs when a
  thread panics (once it is installed) and to the handler of Ctrl+C, after which other threads may still run
  until the process exits. The flag of \<open>guard_reach\<close> tells whether one of the latter two found a dispatcher.
  The hook that was there before this one does not use telemetry.
\<close>

definition telemetry_init :: "string option \<Rightarrow> telemetry" where
  "telemetry_init parent = \<lparr>tg_world = world_init parent, tg_strong = 0, tg_sink = None,
     tg_log = \<lparr>lc_max_level = LogFilterOff, lc_logger = False\<rparr>, tg_capture = None\<rparr>"

definition build_ok :: "surroundings \<Rightarrow> new_ids \<Rightarrow> TelemetryGuardBuilder \<Rightarrow> telemetry \<Rightarrow> bool" where
  "build_ok su u b t \<longleftrightarrow> buffer_size_ok (su_alloc su) (tb_logs_buffer_size b) \<and> buffer_size_ok (su_alloc su) (tb_metrics_buffer_size b)
     \<and> buffer_size_ok (su_alloc su) (tb_threads_buffer_size b)
     \<and> (\<forall>tid s. LOCAL_THREAD_STREAM (tg_world t) tid = Some s \<longrightarrow> stream_id s \<noteq> id_thread u)"

definition recording :: "dsection \<Rightarrow> bool" where
  "recording sec \<longleftrightarrow> (case sec of Start ck p l m a b c \<Rightarrow> False | Stop \<Rightarrow> False | InstallHook \<Rightarrow> False | _ \<Rightarrow> True)"

definition short_text :: "Arguments \<Rightarrow> bool" where
  "short_text args = (case args of Literal _ \<Rightarrow> True | Formatted s \<Rightarrow> is_utf8 (bytes_of_string s) \<and> length s < 2 ^ 16)"

inductive guard_reach :: "surroundings \<Rightarrow> telemetry \<Rightarrow> bool \<Rightarrow> bool" for su where
  guard_init: "guard_reach su (telemetry_init parent) False"
| guard_build: "guard_reach su t early \<Longrightarrow> build_ok su u b t \<Longrightarrow> TelemetryGuardBuilder_build env su ck u th b t = Inr (r, t') \<Longrightarrow> guard_reach su t' early"
| guard_drop: "guard_reach su t early \<Longrightarrow> 0 < tg_strong t \<Longrightarrow> TelemetryGuard_drop su ck ck1 ck2 tid t = Inr t' \<Longrightarrow> guard_reach su t' early"
| guard_section: "guard_reach su t early \<Longrightarrow> recording sec \<Longrightarrow> section_ok su (tg_world t) sec \<Longrightarrow> run_section su sec (tg_world t) = Inr w'
    \<Longrightarrow> guard_reach su (t\<lparr>tg_world := w'\<rparr>) early"
| guard_panic: "guard_reach su t early \<Longrightarrow> PREVIOUS_HOOK (tg_world t) \<Longrightarrow> short_text (Formatted (''panic: '' @ panic_info))
    \<Longrightarrow> run_panic_hook su ck ck1 ck2 panic_info (\<lambda>w. w) (tg_world t) = Inr w' \<Longrightarrow> guard_reach su (t\<lparr>tg_world := w'\<rparr>) True"
| guard_interrupt: "guard_reach su t early \<Longrightarrow> ctrlc_handler su ck ck1 ck2 (tg_world t) = Inr w'
    \<Longrightarrow> guard_reach su (t\<lparr>tg_world := w'\<rparr>) (early \<or> get_sink (tg_world t) \<noteq> None)"

definition reachable :: "surroundings \<Rightarrow> world \<Rightarrow> bool" where
  "reachable su w \<longleftrightarrow> (\<exists>logs metrics spans. reach su w logs metrics spans)"

lemma reachable_section: "reachable su w \<Longrightarrow> section_ok su w sec \<Longrightarrow> run_section su sec w = Inr w' \<Longrightarrow> reachable su w'"
  unfolding reachable_def by (blast intro: reach_section)

lemma log_macro_keeps: "log_macro su ck desc m args w = Inr w' \<Longrightarrow> get_sink w' = get_sink w \<and> LOCAL_THREAD_STREAM w' = LOCAL_THREAD_STREAM w
    \<and> PREVIOUS_HOOK w' = PREVIOUS_HOOK w"
  by (auto simp: log_macro_def log_dispatch_def with_dispatch_def Dispatch_log_def push_log_def Dispatch_flush_log_buffer_def
      sink_on_log_enabled_def notify_eq get_sink_def and_then_eq_Inr split: if_splits sink_ref.splits option.splits prod.splits)

lemma log_interop_keeps: "log_interop su ck m args w = Inr w' \<Longrightarrow> get_sink w' = get_sink w \<and> LOCAL_THREAD_STREAM w' = LOCAL_THREAD_STREAM w
    \<and> PREVIOUS_HOOK w' = PREVIOUS_HOOK w"
  by (auto simp: log_interop_def Dispatch_log_interop_def push_log_def Dispatch_flush_log_buffer_def
      notify_eq get_sink_def and_then_eq_Inr Let_def split: if_splits option.splits prod.splits)

definition log_layouts :: "surroundings \<Rightarrow> bool" where
  "log_layouts su \<longleftrightarrow> layout_ok (su_abi su) LogStaticStrEvent_decl \<and> layout_ok (su_abi su) LogStaticStrInteropEvent_decl
     \<and> layout_ok (su_abi su) StringId_decl \<and> abi_size (su_abi su) ''StringId'' < 2 ^ 16"

lemma texts_valid:
  assumes "log_layouts su" and "short_text args"
  shows "LogMsgQueue_valid (su_abi su) (log_event ck desc args)" and "LogMsgQueue_valid (su_abi su) (interop_event ck m target args)"
  using assms by (auto simp: log_event_def interop_event_def log_layouts_def short_text_def LogStringEvent_valid_def
      LogStringInteropEvent_valid_def split: Arguments.splits)

lemma log_macro_reachable:
  assumes "log_layouts su" and "reachable su w" and "short_text args"
  shows "\<exists>w'. log_macro su ck desc m args w = Inr w' \<and> reachable su w'"
  using assms(2) log_macro_reach [OF _ texts_valid(1) [OF assms(1,3)]] unfolding reachable_def by blast

lemma log_interop_reachable:
  assumes "log_layouts su" and "reachable su w" and "short_text args"
  shows "\<exists>w'. log_interop su ck m args w = Inr w' \<and> reachable su w'"
proof (cases "G_DISPATCH w = None")
  case True
  then show ?thesis using assms(2) by (simp add: log_interop_def)
next
  case False
  then show ?thesis using assms(2) interop_reach [OF _ texts_valid(2) [OF assms(1,3)] False] unfolding reachable_def by blast
qed

lemma get_sink_None: "get_sink w = None \<longleftrightarrow> G_DISPATCH w = None"
  by (simp add: get_sink_def split: option.splits)

text \<open>What the installation of the two captures does not change.\<close>

definition same_start :: "world \<Rightarrow> world \<Rightarrow> bool" where
  "same_start w w' \<longleftrightarrow> get_sink w' = get_sink w \<and> LOCAL_THREAD_STREAM w' = LOCAL_THREAD_STREAM w
     \<and> PREVIOUS_HOOK w' = PREVIOUS_HOOK w"

lemma short_texts:
  "short_text (Literal s)"
  "short_text (Formatted ''Could not set log crate dispatcher SetLoggerError(())'')"
  "short_text (Formatted (fold record_debug [(''message'', ''installed tracing interop'')] []))"
  by (simp_all add: short_text_def record_debug_def) code_simp+

lemma log_macro_starts:
  "log_layouts su \<Longrightarrow> reachable su w \<Longrightarrow> short_text args \<Longrightarrow> log_macro su ck desc m args w = Inr w' \<Longrightarrow> reachable su w' \<and> same_start w w'"
  using log_macro_reachable [of su w args ck desc m] log_macro_keeps [of su ck desc m args w w'] unfolding same_start_def by auto

lemma log_interop_starts:
  "log_layouts su \<Longrightarrow> reachable su w \<Longrightarrow> short_text args \<Longrightarrow> log_interop su ck m args w = Inr w' \<Longrightarrow> reachable su w' \<and> same_start w w'"
  using log_interop_reachable [of su w args ck m] log_interop_keeps [of su ck m args w w'] unfolding same_start_def by auto

lemma install_log_cases:
  assumes "install_log_interop su ck works override lc w = Inr (lc', w')"
  obtains "w' = w"
  | desc m where "log_macro su ck desc m (Formatted ''Could not set log crate dispatcher SetLoggerError(())'') w = Inr w'"
proof (cases works)
  case True
  with assms that(1) show ?thesis by (auto simp: install_log_interop_def and_then_eq_Inr Let_def)
next
  case False
  then obtain desc m where "log_macro su ck desc m (Formatted ''Could not set log crate dispatcher SetLoggerError(())'') w = Inr w'"
    using assms unfolding install_log_interop_def by (simp only: and_then_eq_Inr Let_def if_False prod.inject sum.inject) blast
  then show ?thesis by (rule that(2))
qed

lemma install_log_keeps:
  assumes "log_layouts su" and "reachable su w" and "install_log_interop su ck works override lc w = Inr (lc', w')"
  shows "reachable su w' \<and> same_start w w'"
  using assms(3)
proof (cases rule: install_log_cases)
  case 1
  with assms(2) show ?thesis by (simp add: same_start_def)
next
  case 2
  then show ?thesis by (rule log_macro_starts [OF assms(1,2) short_texts(2)])
qed

lemma install_tracing_cases:
  assumes "install_tracing_interop su ck works override w = Inr (layer, w')"
  obtains "w' = w"
  | m where "log_interop su ck m (Formatted (fold record_debug [(''message'', ''installed tracing interop'')] [])) w = Inr w'"
proof -
  have "w' = w \<or> (\<exists>m. log_interop su ck m (Formatted (fold record_debug [(''message'', ''installed tracing interop'')] [])) w = Inr w')"
    using assms unfolding install_tracing_interop_def layer_on_event_def
    by (simp only: and_then_eq_Inr Let_def prod.inject sum.inject sum.distinct tracing_Event.simps simp_thms split: if_splits) blast+
  then show ?thesis using that by blast
qed

lemma install_tracing_keeps:
  assumes "log_layouts su" and "reachable su w" and "install_tracing_interop su ck works override w = Inr (layer, w')"
  shows "reachable su w' \<and> same_start w w'"
  using assms(3)
proof (cases rule: install_tracing_cases)
  case 1
  with assms(2) show ?thesis by (simp add: same_start_def)
next
  case 2
  then show ?thesis by (rule log_interop_starts [OF assms(1,2) short_texts(3)])
qed

lemma maxima_keeps: "reachable su w \<Longrightarrow> reachable su (w\<lparr>MAXIMA := set_max_level f (MAXIMA w)\<rparr>)"
  using reachable_section [of su w "SetMaxLevel f"] by simp

lemma system_guard_new:
  assumes "log_layouts su" and "reachable su w" and "get_sink w \<noteq> Some AppSink"
    and "buffer_size_ok (su_alloc su) l" and "buffer_size_ok (su_alloc su) m" and "buffer_size_ok (su_alloc su) n"
    and "TracingSystemGuard_new su ck pid lid mid l m n w = Inr (r, w')"
  shows "reachable su w' \<and> (r = Inr () \<longleftrightarrow> get_sink w' = Some AppSink) \<and> LOCAL_THREAD_STREAM w' = LOCAL_THREAD_STREAM w
    \<and> (get_sink w \<noteq> None \<longrightarrow> r = Inl AlreadyInitialized) \<and> get_sink w' \<noteq> None"
proof (cases "G_DISPATCH w")
  case None
  obtain w1 where w1: "init_event_dispatch su ck pid lid mid l m n w = Inr (Inr (), w1)" "init_panic_hook w1 = Inr w'" "r = Inr ()"
    using assms(7) None by (auto simp: TracingSystemGuard_new_def init_telemetry_def and_then_eq_Inr init_event_dispatch_def split: prod.splits)
  have "run_section su (Start ck pid lid mid l m n) w = Inr w1" using None w1(1) by simp
  from reachable_section [OF assms(2) _ this] have "reachable su w1" using assms(4-6) by simp
  moreover have "run_section su InstallHook w1 = Inr w'" "section_ok su w1 InstallHook"
    using w1(2) by (auto simp: init_panic_hook_def split: if_splits)
  ultimately have "reachable su w'" using reachable_section by blast
  moreover have "get_sink w1 = Some AppSink \<and> LOCAL_THREAD_STREAM w1 = LOCAL_THREAD_STREAM w"
    using w1(1) None by (auto simp: init_event_dispatch_def Dispatch_new_def Let_def Dispatch_startup_def Dispatch_init_log_stream_def
        Dispatch_init_metrics_stream_def notify_eq get_sink_def split: prod.splits)
  ultimately show ?thesis using w1(2,3) None by (auto simp: init_panic_hook_def get_sink_def split: if_splits)
next
  case (Some d)
  then have "log_here su ck Info ''event dispatch already initialized'' 49 w = Inr w'" "r = Inl AlreadyInitialized"
    using assms(7) by (auto simp: TracingSystemGuard_new_def init_telemetry_def and_then_eq_Inr init_event_dispatch_def)
  then show ?thesis
    using assms(3) log_macro_starts [OF assms(1,2) short_texts(1)] Some by (auto simp: log_here_def Let_def same_start_def get_sink_None)
qed


lemma init_thread_stream_section:
  "get_sink w \<noteq> None \<Longrightarrow> init_thread_stream su ck u tid text name w = run_section su (RegisterThread ck u tid text name) w"
  by (auto simp: get_sink_None)

lemma section_hook:
  assumes "run_section su sec w = Inr w'" and "recording sec"
  shows "PREVIOUS_HOOK w' = PREVIOUS_HOOK w \<and> (get_sink w' = get_sink w)"
proof -
  have "PREVIOUS_HOOK w' = PREVIOUS_HOOK w \<and> (G_DISPATCH w = None \<longrightarrow> G_DISPATCH w' = None)"
  proof (cases sec)
    case MarkFull
    have "fold_res (at_thread_stream set_full) ts v = Inr v' \<Longrightarrow> PREVIOUS_HOOK v' = PREVIOUS_HOOK v \<and> G_DISPATCH v' = G_DISPATCH v" for ts v v'
      by (induction ts arbitrary: v) (auto simp: and_then_eq_Inr at_thread_stream_def split: option.splits)
    then show ?thesis using assms MarkFull by (auto simp: run_defs split: option.splits)
  qed (use assms in \<open>auto simp: recording_def run_defs and_then_eq_Inr init_thread_stream_def flush_thread_buffer_def push_thread_event_def
      split: if_splits option.splits prod.splits\<close>)
  moreover have "sec \<noteq> Stop" using assms(2) by (auto simp: recording_def)
  ultimately show ?thesis using section_keeps(1) [OF assms(1)] by (cases "get_sink w") (auto simp: get_sink_def split: option.splits)
qed

lemma composite_keeps:
  assumes "CompositeSink_new sinks targets override (MAXIMA w) = (cs, mx)" and "reachable su w"
  shows "reachable su (w\<lparr>MAXIMA := mx\<rparr>) \<and> same_start w (w\<lparr>MAXIMA := mx\<rparr>)"
proof -
  obtain f where "mx = set_max_level f (MAXIMA w)" using assms(1) unfolding CompositeSink_new_def Let_def by auto
  then show ?thesis using maxima_keeps [OF assms(2)] by (simp add: same_start_def get_sink_def)
qed

lemma captures_keep:
  assumes "log_layouts su" and "reachable su w"
  shows "install_log_capture env su ck b lc w = Inr (lc', w') \<Longrightarrow> reachable su w' \<and> same_start w w'"
    and "install_tracing_capture env su ck b layer w = Inr (layer', w') \<Longrightarrow> reachable su w' \<and> same_start w w'"
  using assms install_log_keeps [OF assms] install_tracing_keeps [OF assms]
  by (auto simp: install_log_capture_def install_tracing_capture_def and_then_eq_Inr same_start_def split: if_splits)

lemma start_system_keeps:
  assumes "log_layouts su" and "reachable su (tg_world t)" and "get_sink (tg_world t) \<noteq> Some AppSink"
    and "build_ok su u b t" and "start_system env su ck u b t = Inr (r, t')"
  shows "reachable su (tg_world t') \<and> (r = Inr () \<longleftrightarrow> get_sink (tg_world t') = Some AppSink)
    \<and> LOCAL_THREAD_STREAM (tg_world t') = LOCAL_THREAD_STREAM (tg_world t) \<and> tg_strong t' = (if r = Inr () then 1 else tg_strong t)
    \<and> (get_sink (tg_world t) \<noteq> None \<longrightarrow> r = Inl AlreadyInitialized) \<and> get_sink (tg_world t') \<noteq> None"
proof -
  obtain cs mx where cs: "CompositeSink_new (builder_sinks env b) (target_filters env b) (tb_max_level_override b) (MAXIMA (tg_world t)) = (cs, mx)"
    by (cases "CompositeSink_new (builder_sinks env b) (target_filters env b) (tb_max_level_override b) (MAXIMA (tg_world t))")
  define w0 where "w0 = (tg_world t)\<lparr>MAXIMA := mx\<rparr>"
  have r0: "reachable su w0" "same_start (tg_world t) w0" using composite_keeps [OF cs assms(2)] by (simp_all add: w0_def)
  from assms(5)[unfolded start_system_def cs Let_def prod.case, folded w0_def] obtain lc w1 layer w2 r3 w3 where
    w1: "install_log_capture env su ck b (tg_log t) w0 = Inr (lc, w1)" and
    w2: "install_tracing_capture env su ck b (tg_capture t) w1 = Inr (layer, w2)" and
    w3: "TracingSystemGuard_new su ck (id_process u) (id_log u) (id_metrics u) (tb_logs_buffer_size b)
        (tb_metrics_buffer_size b) (tb_threads_buffer_size b) w2 = Inr (r3, w3)" and
    t3: "(case r3 of Inl e \<Rightarrow> (Inl e, t\<lparr>tg_world := w3, tg_log := lc, tg_capture := layer\<rparr>)
      | Inr _ \<Rightarrow> (Inr (), t\<lparr>tg_world := w3, tg_log := lc, tg_capture := layer, tg_strong := 1, tg_sink := Some cs\<rparr>)) = (r, t')"
    by (auto simp: and_then_eq_Inr)
  have t': "r3 = r" "tg_world t' = w3" "tg_strong t' = (if r = Inr () then 1 else tg_strong t)" using t3 by (cases r3; auto)+
  have r1: "reachable su w1" "same_start w0 w1" using captures_keep(1) [OF assms(1) r0(1) w1] by blast+
  have r2: "reachable su w2" "same_start w1 w2" using captures_keep(2) [OF assms(1) r1(1) w2] by blast+
  have "get_sink w2 \<noteq> Some AppSink" using r0 r1 r2 assms(3) by (simp add: same_start_def)
  from system_guard_new [OF assms(1) r2(1) this _ _ _ w3 [unfolded t'(1)]] show ?thesis
    using assms(4) t'(2,3) r0 r1 r2 by (simp add: build_ok_def same_start_def)
qed


definition guard_ok :: "surroundings \<Rightarrow> telemetry \<Rightarrow> bool \<Rightarrow> bool" where
  "guard_ok su t early \<longleftrightarrow> reachable su (tg_world t) \<and> (get_sink (tg_world t) = Some AppSink \<longleftrightarrow> 0 < tg_strong t \<and> \<not> early)
     \<and> (get_sink (tg_world t) = None \<longrightarrow> \<not> PREVIOUS_HOOK (tg_world t) \<and> tg_strong t = 0 \<and> \<not> early)"

lemma guard_ok_build:
  assumes "log_layouts su" and "guard_ok su t early" and "build_ok su u b t" and "TelemetryGuardBuilder_build env su ck u th b t = Inr (r, t')"
  shows "guard_ok su t' early"
proof -
  obtain r1 t1 where t1: "(if 0 < tg_strong t then Inr (Inr (), t\<lparr>tg_strong := tg_strong t + 1\<rparr>) else start_system env su ck u b t) = Inr (r1, t1)"
    and t': "(case r1 of Inl e \<Rightarrow> Inr (Inl e, t1) | Inr _ \<Rightarrow> and_then (TracingThreadGuard_new su ck (id_thread u) (tr_id th) (tr_text th) (tr_name th) (tg_world t1))
      (\<lambda>w. Inr (Inr (), t1\<lparr>tg_world := w\<rparr>))) = Inr (r, t')"
    using assms(4) by (auto simp: TelemetryGuardBuilder_build_def and_then_eq_Inr)
  have ok: "guard_ok su t1 early \<and> get_sink (tg_world t1) \<noteq> None \<and> LOCAL_THREAD_STREAM (tg_world t1) = LOCAL_THREAD_STREAM (tg_world t)"
  proof (cases "0 < tg_strong t")
    case True
    then show ?thesis using t1 assms(2) by (auto simp: guard_ok_def)
  next
    case False
    then have none: "get_sink (tg_world t) \<noteq> Some AppSink" "reachable su (tg_world t)" using assms(2) by (auto simp: guard_ok_def)
    have "start_system env su ck u b t = Inr (r1, t1)" using t1 False by simp
    from start_system_keeps [OF assms(1) none(2,1) assms(3) this] show ?thesis using assms(2) False by (auto simp: guard_ok_def split: if_splits)
  qed
  show ?thesis
  proof (cases r1)
    case (Inl e)
    then show ?thesis using t' ok by simp
  next
    case (Inr x)
    then obtain w where w: "init_thread_stream su ck (id_thread u) (tr_id th) (tr_text th) (tr_name th) (tg_world t1) = Inr w"
      and t1': "t' = t1\<lparr>tg_world := w\<rparr>" using t' by (auto simp: and_then_eq_Inr TracingThreadGuard_new_def)
    obtain s where s: "get_sink (tg_world t1) = Some s" using ok by auto
    have sec: "run_section su (RegisterThread ck (id_thread u) (tr_id th) (tr_text th) (tr_name th)) (tg_world t1) = Inr w"
      using w init_thread_stream_section ok by metis
    have "section_ok su (tg_world t1) (RegisterThread ck (id_thread u) (tr_id th) (tr_text th) (tr_name th))"
      using assms(3) ok by (simp add: build_ok_def)
    then have "reachable su w" using reachable_section [OF _ _ sec] ok by (simp add: guard_ok_def)
    moreover have "get_sink w = Some s" using section_keeps(1) [OF sec _ s] by simp
    ultimately show ?thesis using ok s t1' by (simp add: guard_ok_def)
  qed
qed

text \<open>Dropping a guard always works; the last one leaves the sink with the notice of the shutdown.\<close>

lemma guard_drop_effect:
  assumes "guard_ok su t early" and "0 < tg_strong t"
  shows "\<exists>t'. TelemetryGuard_drop su ck ck1 ck2 tid t = Inr t' \<and> guard_ok su t' early \<and> tg_strong t' = tg_strong t - 1
    \<and> (tg_strong t = 1 \<longrightarrow> get_sink (tg_world t') = Some NullEventSink)"
proof -
  obtain logs metrics spans where "reach su (tg_world t) logs metrics spans" using assms(1) by (auto simp: guard_ok_def reachable_def)
  then obtain w where w: "run_section su (FlushThread tid ck) (tg_world t) = Inr w" "reach su w logs metrics spans"
    using reach_quiet [of su "tg_world t" logs metrics spans "FlushThread tid ck"] by (auto simp: quiet_def)
  obtain s where s: "get_sink (tg_world t) = Some s" using assms by (auto simp: guard_ok_def)
  then have sink: "get_sink w = Some s" using section_keeps(1) [OF w(1)] by simp
  then obtain d where d: "G_DISPATCH w = Some d" by (auto simp: get_sink_def)
  show ?thesis
  proof (cases "tg_strong t = 1")
    case True
    obtain w' where "shutdown_telemetry su ck1 ck2 w = Inr w'" "reach su w' logs metrics spans" "get_sink w' = Some NullEventSink"
      using shutdown_reach [OF w(2) d] by blast
    then show ?thesis using True w(1)
      by (auto simp: TelemetryGuard_drop_def TracingThreadGuard_drop_def TracingSystemGuard_drop_def guard_ok_def reachable_def)
  next
    case False
    then show ?thesis using w assms s sink
      by (auto simp: TelemetryGuard_drop_def TracingThreadGuard_drop_def guard_ok_def reachable_def)
  qed
qed

text \<open>A panic and Ctrl+C log a message and stop the dispatcher, if there is one.\<close>

lemma with_dispatch_hook: "with_dispatch f w = Inr w' \<Longrightarrow> PREVIOUS_HOOK w' = PREVIOUS_HOOK w"
  by (auto simp: with_dispatch_def and_then_eq_Inr split: option.splits prod.splits)

lemma stop_after_log:
  assumes "log_layouts su" and "reachable su w" and "short_text args"
    and "and_then (log_macro su ck desc m args w) (shutdown_telemetry su ck1 ck2) = Inr w'"
  shows "reachable su w' \<and> PREVIOUS_HOOK w' = PREVIOUS_HOOK w \<and> get_sink w' = (if get_sink w = None then None else Some NullEventSink)"
proof -
  obtain w1 where w1: "log_macro su ck desc m args w = Inr w1" "shutdown_telemetry su ck1 ck2 w1 = Inr w'" using assms(4) by (auto simp: and_then_eq_Inr)
  have r1: "reachable su w1" "same_start w w1" using log_macro_starts [OF assms(1-3) w1(1)] by blast+
  have hook: "PREVIOUS_HOOK w' = PREVIOUS_HOOK w1"
    using w1(2) by (auto simp: shutdown_telemetry_def flush_log_buffer_def flush_metrics_buffer_def shutdown_dispatch_def
        and_then_eq_Inr dest!: with_dispatch_hook)
  show ?thesis
  proof (cases "G_DISPATCH w1")
    case None
    then have "w' = w1" using w1(2) by (simp add: shutdown_telemetry_def flush_log_buffer_def flush_metrics_buffer_def shutdown_dispatch_def with_dispatch_def)
    moreover have "get_sink w1 = None" using None by (simp add: get_sink_def)
    ultimately show ?thesis using r1 by (simp add: same_start_def)
  next
    case (Some d)
    obtain logs metrics spans where "reach su w1 logs metrics spans" using r1(1) by (auto simp: reachable_def)
    then have "reach su w' logs metrics spans" "get_sink w' = Some NullEventSink"
      using shutdown_reach [OF _ Some, of su logs metrics spans ck1 ck2] w1(2) by (auto simp: get_sink_def)
    moreover have "get_sink w \<noteq> None" using r1(2) Some by (metis same_start_def get_sink_None option.distinct(1))
    ultimately show ?thesis using r1(2) hook by (auto simp: same_start_def reachable_def)
  qed
qed

lemma guard_reach_ok: "guard_reach su t early \<Longrightarrow> log_layouts su \<Longrightarrow> guard_ok su t early"
proof (induction rule: guard_reach.induct)
  case (guard_init parent)
  show ?case using reach_init [of su parent] by (auto simp: guard_ok_def telemetry_init_def reachable_def world_init_def get_sink_def)
next
  case (guard_build t early u b env ck th r t')
  then show ?case using guard_ok_build by blast
next
  case (guard_drop t early ck ck1 ck2 tid t')
  then show ?case using guard_drop_effect [of su t early ck ck1 ck2 tid] by force
next
  case (guard_section t early sec w')
  then show ?case using section_hook [OF guard_section.hyps(4,2)] reachable_section by (auto simp: guard_ok_def)
next
  case (guard_panic t early panic_info ck ck1 ck2 w')
  have ok: "guard_ok su t early" using guard_panic by blast
  obtain desc m where "and_then (log_macro su ck desc m (Formatted (''panic: '' @ panic_info)) (tg_world t)) (shutdown_telemetry su ck1 ck2) = Inr w'"
    using guard_panic.hyps(4) by (auto simp: run_panic_hook_def Let_def and_then_eq_Inr split: if_splits)
  from stop_after_log [OF guard_panic.prems _ guard_panic.hyps(3) this] show ?case using ok guard_panic.hyps(2) by (auto simp: guard_ok_def)
next
  case (guard_interrupt t early ck ck1 ck2 w')
  have ok: "guard_ok su t early" using guard_interrupt by blast
  obtain desc m lit where "and_then (log_macro su ck desc m (Literal lit) (tg_world t)) (shutdown_telemetry su ck1 ck2) = Inr w'"
    using guard_interrupt.hyps(2) by (auto simp: ctrlc_handler_def Let_def)
  from stop_after_log [OF guard_interrupt.prems _ short_texts(1) this] show ?case using ok by (auto simp: guard_ok_def)
qed


text \<open>The notices of a start among the calls of the sink.\<close>

definition is_startup :: "sink_call \<Rightarrow> bool" where
  "is_startup c \<longleftrightarrow> (case c of OnStartup _ \<Rightarrow> True | _ \<Rightarrow> False)"

lemma started_once:
  assumes "reachable su w"
  shows "length (filter is_startup (sink_calls w)) = (if G_DISPATCH w = None then 0 else 1)"
proof -
  obtain logs metrics spans where r: "reach su w logs metrics spans" using assms by (auto simp: reachable_def)
  show ?thesis
  proof (cases "G_DISPATCH w")
    case None
    then show ?thesis using reach_inv [OF r] by (simp add: world_inv_def)
  next
    case (Some d)
    have "list_all (belongs pid lid mid) cs \<Longrightarrow> filter is_startup cs = []" for pid lid mid cs
      by (induction cs) (auto simp: belongs_def is_startup_def split: sink_call.splits)
    then show ?thesis using reach_identified [OF r Some] Some by (auto simp: identified_def is_startup_def)
  qed
qed

lemma build_shares:
  assumes "guard_ok su t early" and "0 < tg_strong t" and "build_ok su u b t"
  shows "\<exists>t'. TelemetryGuardBuilder_build env su ck u th b t = Inr (Inr (), t') \<and> tg_strong t' = tg_strong t + 1
    \<and> get_sink (tg_world t') = get_sink (tg_world t)"
proof -
  let ?sec = "RegisterThread ck (id_thread u) (tr_id th) (tr_text th) (tr_name th)"
  obtain logs metrics spans where "reach su (tg_world t) logs metrics spans" using assms(1) by (auto simp: guard_ok_def reachable_def)
  then obtain w where "run_section su ?sec (tg_world t) = Inr w"
    using reach_quiet [of su "tg_world t" logs metrics spans ?sec] assms(3) by (auto simp: quiet_def build_ok_def)
  moreover obtain s where "get_sink (tg_world t) = Some s" using assms(1,2) by (auto simp: guard_ok_def)
  moreover from calculation have "get_sink w = Some s" using section_keeps(1) [of su ?sec "tg_world t" w s] by simp
  ultimately show ?thesis using assms(2)
    by (auto simp: TelemetryGuardBuilder_build_def TracingThreadGuard_new_def init_thread_stream_section simp del: run_section.simps)
qed

lemma build_refused:
  assumes "log_layouts su" and "guard_ok su t early" and "tg_strong t = 0" and "get_sink (tg_world t) \<noteq> None" and "build_ok su u b t"
    and "TelemetryGuardBuilder_build env su ck u th b t = Inr (r, t')"
  shows "r = Inl AlreadyInitialized \<and> tg_strong t' = 0"
proof -
  obtain r1 t1 where t1: "start_system env su ck u b t = Inr (r1, t1)"
    using assms(3,6) by (auto simp: TelemetryGuardBuilder_build_def and_then_eq_Inr)
  from start_system_keeps [OF assms(1) _ _ assms(5) this] have "r1 = Inl AlreadyInitialized" "tg_strong t1 = 0"
    using assms(2,3,4) by (auto simp: guard_ok_def)
  then show ?thesis using assms(3,6) t1 by (simp add: TelemetryGuardBuilder_build_def)
qed

lemma interop_level_returns: "reachable su w \<Longrightarrow> \<exists>f. interop_level override w = Inr f"
  unfolding reachable_def interop_level_def and_then_eq_Inr using reach_maxima by blast

lemma captures_return:
  assumes "log_layouts su" and "reachable su w"
  shows "\<exists>lc' w'. install_log_capture env su ck b lc w = Inr (lc', w')"
    and "(tb_install_tracing_capture b \<longrightarrow> se_subscriber_works env) \<Longrightarrow> \<exists>layer' w'. install_tracing_capture env su ck b layer w = Inr (layer', w')"
proof -
  obtain f where f: "interop_level (tb_interop_max_level_override b) w = Inr f" using interop_level_returns [OF assms(2)] by blast
  obtain lw where lw: "log_macro su ck desc m (Formatted ''Could not set log crate dispatcher SetLoggerError(())'') w = Inr (lw desc m)" for desc m
    using log_macro_reachable [OF assms short_texts(2)] by metis
  show "\<exists>lc' w'. install_log_capture env su ck b lc w = Inr (lc', w')"
    unfolding install_log_capture_def install_log_interop_def by (simp add: f lw Let_def)
  obtain iw where iw: "log_interop su ck m (Formatted (fold record_debug [(''message'', ''installed tracing interop'')] [])) w = Inr (iw m)" for m
    using log_interop_reachable [OF assms short_texts(3)] by metis
  show "(tb_install_tracing_capture b \<longrightarrow> se_subscriber_works env) \<Longrightarrow> \<exists>layer' w'. install_tracing_capture env su ck b layer w = Inr (layer', w')"
    unfolding install_tracing_capture_def install_tracing_interop_def layer_on_event_def Let_def tracing_Event.simps iw by (simp add: f)
qed

lemma system_guard_starts:
  assumes "get_sink w = None" and "\<not> PREVIOUS_HOOK w"
  shows "\<exists>w'. TracingSystemGuard_new su ck pid lid mid l m n w = Inr (Inr (), w')"
  using assms by (auto simp: get_sink_None TracingSystemGuard_new_def init_telemetry_def init_event_dispatch_def init_panic_hook_def split: prod.splits)

lemma start_system_starts:
  assumes "log_layouts su" and "guard_ok su t early" and "get_sink (tg_world t) = None"
    and "tb_install_tracing_capture b \<longrightarrow> se_subscriber_works env"
  shows "\<exists>t'. start_system env su ck u b t = Inr (Inr (), t')"
proof -
  obtain cs mx where cs: "CompositeSink_new (builder_sinks env b) (target_filters env b) (tb_max_level_override b) (MAXIMA (tg_world t)) = (cs, mx)"
    by (cases "CompositeSink_new (builder_sinks env b) (target_filters env b) (tb_max_level_override b) (MAXIMA (tg_world t))")
  define w0 where "w0 = (tg_world t)\<lparr>MAXIMA := mx\<rparr>"
  have r0: "reachable su w0" "same_start (tg_world t) w0" using composite_keeps [OF cs, of su] assms(2) by (simp_all add: w0_def guard_ok_def)
  obtain lc w1 where w1: "install_log_capture env su ck b (tg_log t) w0 = Inr (lc, w1)" using captures_return(1) [OF assms(1) r0(1)] by blast
  have r1: "reachable su w1" "same_start w0 w1" using captures_keep(1) [OF assms(1) r0(1) w1] by blast+
  obtain layer w2 where w2: "install_tracing_capture env su ck b (tg_capture t) w1 = Inr (layer, w2)"
    using captures_return(2) [OF assms(1) r1(1) assms(4)] by blast
  have r2: "same_start w1 w2" using captures_keep(2) [OF assms(1) r1(1) w2] by blast
  have "get_sink w2 = None" "\<not> PREVIOUS_HOOK w2" using assms(2,3) r0 r1 r2 by (simp_all add: same_start_def guard_ok_def)
  from system_guard_starts [OF this] obtain w3 where "TracingSystemGuard_new su ck (id_process u) (id_log u) (id_metrics u)
      (tb_logs_buffer_size b) (tb_metrics_buffer_size b) (tb_threads_buffer_size b) w2 = Inr (Inr (), w3)" by blast
  then show ?thesis using w1 w2 by (simp add: start_system_def cs Let_def w0_def)
qed

lemma build_starts:
  assumes "log_layouts su" and "guard_ok su t early" and "get_sink (tg_world t) = None" and "build_ok su u b t"
    and "tb_install_tracing_capture b \<longrightarrow> se_subscriber_works env"
  shows "\<exists>t'. TelemetryGuardBuilder_build env su ck u th b t = Inr (Inr (), t') \<and> tg_strong t' = 1"
proof -
  let ?sec = "RegisterThread ck (id_thread u) (tr_id th) (tr_text th) (tr_name th)"
  obtain t1 where t1: "start_system env su ck u b t = Inr (Inr (), t1)" using start_system_starts [OF assms(1-3,5)] by blast
  have t1': "reachable su (tg_world t1)" "get_sink (tg_world t1) \<noteq> None" "tg_strong t1 = 1"
    "LOCAL_THREAD_STREAM (tg_world t1) = LOCAL_THREAD_STREAM (tg_world t)"
    using start_system_keeps [OF assms(1) _ _ assms(4) t1] assms(2,3) by (auto simp: guard_ok_def)
  then obtain logs metrics spans where "reach su (tg_world t1) logs metrics spans" by (auto simp: reachable_def)
  then obtain w where "run_section su ?sec (tg_world t1) = Inr w"
    using reach_quiet [of su "tg_world t1" logs metrics spans ?sec] assms(4) t1'(4) by (auto simp: quiet_def build_ok_def)
  moreover have "tg_strong t = 0" using assms(2,3) by (auto simp: guard_ok_def)
  ultimately show ?thesis using t1 t1'
    by (auto simp: TelemetryGuardBuilder_build_def TracingThreadGuard_new_def init_thread_stream_section simp del: run_section.simps)
qed

text \<open>
  C39. Whatever the threads of a process do with guards and record in between, and whenever one of them panics or
  Ctrl+C is hit: the dispatcher runs exactly while a guard is alive and neither of the two has
  happened; a sink hears of at most one start, and once the dispatcher is stopped, by whatever way, the last
  thing it has heard is the shutdown; dropping a guard never fails, and dropping the last one leaves the dispatcher
  stopped; the first guard starts the dispatcher (a subscriber that cannot be installed excepted), one built
  while another is alive shares it, stopped or not, and one built after the last was dropped is refused.
\<close>

theorem guards_lifecycle:
  assumes "log_layouts su" and "guard_reach su t early"
  shows "(get_sink (tg_world t) = Some AppSink \<longleftrightarrow> 0 < tg_strong t \<and> \<not> early)
    \<and> length (filter is_startup (sink_calls (tg_world t))) = (if G_DISPATCH (tg_world t) = None then 0 else 1)
    \<and> (get_sink (tg_world t) = Some NullEventSink \<longrightarrow> last (sink_calls (tg_world t)) = OnShutdown)
    \<and> (0 < tg_strong t \<longrightarrow> (\<exists>t'. TelemetryGuard_drop su ck ck1 ck2 tid t = Inr t' \<and> tg_strong t' = tg_strong t - 1
        \<and> (tg_strong t = 1 \<longrightarrow> get_sink (tg_world t') = Some NullEventSink)))
    \<and> (get_sink (tg_world t) = None \<and> build_ok su u b t \<and> (tb_install_tracing_capture b \<longrightarrow> se_subscriber_works env)
        \<longrightarrow> (\<exists>t'. TelemetryGuardBuilder_build env su ck u th b t = Inr (Inr (), t') \<and> tg_strong t' = 1))
    \<and> (0 < tg_strong t \<and> build_ok su u b t
        \<longrightarrow> (\<exists>t'. TelemetryGuardBuilder_build env su ck u th b t = Inr (Inr (), t') \<and> tg_strong t' = tg_strong t + 1
          \<and> get_sink (tg_world t') = get_sink (tg_world t)))
    \<and> (tg_strong t = 0 \<and> get_sink (tg_world t) \<noteq> None \<and> build_ok su u b t \<and> TelemetryGuardBuilder_build env su ck u th b t = Inr (r, t')
        \<longrightarrow> r = Inl AlreadyInitialized \<and> tg_strong t' = 0)"
proof (intro conjI impI)
  have ok: "guard_ok su t early" by (rule guard_reach_ok [OF assms(2,1)])
  then show "get_sink (tg_world t) = Some AppSink \<longleftrightarrow> 0 < tg_strong t \<and> \<not> early" by (simp add: guard_ok_def)
  show "length (filter is_startup (sink_calls (tg_world t))) = (if G_DISPATCH (tg_world t) = None then 0 else 1)"
    using ok started_once [of su "tg_world t"] by (simp add: guard_ok_def)
  show "last (sink_calls (tg_world t)) = OnShutdown" if "get_sink (tg_world t) = Some NullEventSink"
    using ok reach_stopped_last [OF _ that] by (auto simp: guard_ok_def reachable_def)
  show "\<exists>t'. TelemetryGuard_drop su ck ck1 ck2 tid t = Inr t' \<and> tg_strong t' = tg_strong t - 1
      \<and> (tg_strong t = 1 \<longrightarrow> get_sink (tg_world t') = Some NullEventSink)" if "0 < tg_strong t"
    using guard_drop_effect [OF ok that] by blast
  show "\<exists>t'. TelemetryGuardBuilder_build env su ck u th b t = Inr (Inr (), t') \<and> tg_strong t' = 1"
    if "get_sink (tg_world t) = None \<and> build_ok su u b t \<and> (tb_install_tracing_capture b \<longrightarrow> se_subscriber_works env)"
    using build_starts [OF assms(1) ok] that by blast
  show "\<exists>t'. TelemetryGuardBuilder_build env su ck u th b t = Inr (Inr (), t') \<and> tg_strong t' = tg_strong t + 1
      \<and> get_sink (tg_world t') = get_sink (tg_world t)"
    if "0 < tg_strong t \<and> build_ok su u b t" using build_shares [OF ok] that by blast
  show "r = Inl AlreadyInitialized" "tg_strong t' = 0" if "tg_strong t = 0 \<and> get_sink (tg_world t) \<noteq> None \<and> build_ok su u b t
      \<and> TelemetryGuardBuilder_build env su ck u th b t = Inr (r, t')" using build_refused [OF assms(1) ok] that by blast+
qed

end
