(* ===== verification/Sample_Threads.thy ===== *)
theory Sample_Threads
  imports Sample_Services Analytics_Service Telemetry_Guard
begin

text \<open>
  A lake that holds one block of a thread: a span that was open before the block ends in it, and another one
  begins.
\<close>

definition sample_hash :: xxhash where
  "sample_hash bs seed = 31 * seed + word_of_nat (length bs)"

definition sample_span_events :: "ThreadEventQueueAny list" where
  "sample_span_events = [EndThreadSpanEvent \<lparr>ts_thread_span_desc = 100, ts_time = 7\<rparr>,
     BeginThreadSpanEvent \<lparr>ts_thread_span_desc = 100, ts_time = 8\<rparr>]"

definition sample_span_queue :: hqueue where
  "sample_span_queue = (case push_all sample_alloc (ThreadEventQueue_items sample_abi) ThreadEventQueue_type_index sample_span_events
       (queue_new sample_alloc 1024) of Inr q \<Rightarrow> q | Inl _ \<Rightarrow> queue_new sample_alloc 0)"

definition sample_span_deps :: hqueue where
  "sample_span_deps = (case ThreadEventQueue_extract sample_alloc sample_abi sample_memory sample_spans sample_locations sample_span_queue of
     Inr q \<Rightarrow> q | Inl _ \<Rightarrow> queue_new sample_alloc 0)"

definition sample_span_payload :: BlockPayload where
  "sample_span_payload = \<lparr>bp_dependencies = q_buffer sample_span_deps, bp_objects = q_buffer sample_span_queue\<rparr>"

definition sample_thread_stream :: StreamInfo where
  "sample_thread_stream = \<lparr>si_process_id = 1, si_stream_id = 4,
     si_dependencies_metadata = stream_metadata id (ThreadDepsQueue_reflect_contained sample_abi),
     si_objects_metadata = stream_metadata id (ThreadEventQueue_reflect_contained sample_abi),
     si_tags = [''cpu''], si_properties = [''thread-name'' \<mapsto> ''main'']\<rparr>"

definition sample_thread_block :: "uuid \<Rightarrow> i64 \<Rightarrow> i64 \<Rightarrow> BlockMetadata" where
  "sample_thread_block bid t1 t2 = \<lparr>bm_block_id = bid, bm_stream_id = 4, bm_process_id = 1, bm_begin_time = 0, bm_end_time = 0,
     bm_begin_ticks = t1, bm_end_ticks = t2, bm_nb_objects = 2, bm_payload_size = 0, bm_object_offset = 0\<rparr>"

abbreviation sample_env :: lake_env where
  "sample_env \<equiv> sample_lake sample_formats (\<lambda>_. False)"

definition sample_thread_lake :: lake where
  "sample_thread_lake = lake_init\<lparr>la_blobs :=
     [le_full_path sample_env (payload_path sample_env 1 4 11) \<mapsto> sample_encode UNIV [] sample_span_payload]\<rparr>"

definition sample_scope :: ScopeDesc where
  "sample_scope = ScopeDesc_new sample_hash ''A'' ''A'' ''A'' 7"

definition sample_calls :: "(string \<times> i64 \<times> thread_call) list" where
  "sample_calls = [(sample_uuid_to_string 11, 0, ScopeEnd sample_scope 7), (sample_uuid_to_string 11, 1, ScopeBegin sample_scope 8)]"

lemma sample_scope_hash:
  "sd_hash sample_scope = 30787" "compute_scope_hash sample_hash ''main'' [] [] 0 = 119168"
  by (simp_all add: sample_scope_def ScopeDesc_new_def compute_scope_hash_def sample_hash_def Let_def)

lemma sample_span_parses:
  "parse_block 2 sample_formats sample_thread_stream sample_span_payload f s
     = feed f s (map (span_meaning sample_memory sample_spans sample_locations) sample_span_events)"
proof -
  let ?udts = "stream_metadata id (ThreadEventQueue_reflect_contained sample_abi)"
  let ?deps = "stream_metadata id (ThreadDepsQueue_reflect_contained sample_abi)"
  have "list_all (ThreadEventQueue_ready sample_abi sample_memory sample_spans sample_locations ?udts ?deps) sample_span_events"
    unfolding sample_span_events_def
    by (auto intro!: span_ready sample_layouts simp: is_shuffle_def ThreadEventQueue_valid_def sample_layouts scope_ok_def sample_spans_def
        sample_span_def sample_location_def span_strings_def location_strings_def sample_str_ok)
  moreover have "consistent_actions ThreadDepsQueue_dep_id ThreadDepsQueue_refs (concat (map (span_actions sample_spans sample_locations) sample_span_events))"
    by (auto simp: sample_span_events_def consistent_actions_def scope_actions_def sample_spans_def sample_span_def sample_location_def
        span_strings_def location_strings_def span_record_def Let_def sample_str_def StaticString_from_StringId_def inj_on_def)
  ultimately obtain q dq h where
    "push_all sample_alloc (ThreadEventQueue_items sample_abi) ThreadEventQueue_type_index sample_span_events (queue_new sample_alloc 1024) = Inr q"
    "ThreadEventQueue_extract sample_alloc sample_abi sample_memory sample_spans sample_locations q = Inr dq"
    "read_dependencies 2 ?deps (q_buffer dq) = Inr h"
    "parse_object_buffer 2 h ?udts (q_buffer q) f s = feed f s (map (span_meaning sample_memory sample_spans sample_locations) sample_span_events)"
    unfolding numeral_2_eq_2 using span_block.full_roundtrip [where es = sample_span_events and f = f and s = s] by blast
  then show ?thesis
    by (simp add: parse_block_def sample_span_payload_def sample_span_queue_def sample_span_deps_def sample_thread_stream_def decompress_def
        sample_formats_def sample_wire_def)
qed

lemma sample_thread_reads:
  "thread_reads 2 sample_env sample_hash processor sample_thread_stream sample_memory sample_spans sample_locations sample_thread_lake
     (sample_thread_block 11 t1 t2) sample_calls"
proof -
  have "stored sample_env sample_thread_lake (1, 4, 11) = Some sample_span_payload"
    by (simp add: stored_def sample_thread_lake_def sample_lake_def sample_formats_def sample_wire_def sample_codec countable_payloads)
  moreover have "map (thread_call_of sample_hash sample_memory sample_spans sample_locations) sample_span_events = [ScopeEnd sample_scope 7, ScopeBegin sample_scope 8]"
    using sample_texts by (simp add: sample_span_events_def span_scope_def sample_spans_def sample_span_def sample_location_def Let_def sample_scope_def)
  ultimately show ?thesis
    unfolding thread_reads_def block_reads_def sample_environment
    by (intro exI [of _ sample_span_events] conjI exI [of _ sample_span_payload])
      (simp_all add: sample_thread_stream_def sample_thread_block_def sample_span_parses [unfolded sample_thread_stream_def] sample_calls_def sample_lake_def)
qed

lemma sample_thread_time:
  "ticks_to_nanoseconds (ConvertTicks_new sample_info) 5 = 0" "ticks_to_nanoseconds (ConvertTicks_new sample_info) 7 = 2000000"
  "ticks_to_nanoseconds (ConvertTicks_new sample_info) 8 = 3000000" "ticks_to_nanoseconds (ConvertTicks_new sample_info) 15 = 10000000"
proof -
  have info: "query_ticks sample_env sample_info = ConvertTicks_new sample_info"
    by (simp add: query_ticks_def sample_lake_def)
  from sample_tick_time [of sample_formats "\<lambda>_. False"] show
    "ticks_to_nanoseconds (ConvertTicks_new sample_info) 7 = 2000000" "ticks_to_nanoseconds (ConvertTicks_new sample_info) 8 = 3000000"
    unfolding info .
  have "\<lfloor>20000001 / 2 :: rat\<rfloor> = 10000000" "\<lfloor>1 / 2 :: rat\<rfloor> = 0" by (simp_all add: floor_eq_iff)
  then show "ticks_to_nanoseconds (ConvertTicks_new sample_info) 5 = 0" "ticks_to_nanoseconds (ConvertTicks_new sample_info) 15 = 10000000"
    using fround_int [of 1000] fround_int [of 0] fround_int [of 10] fround_int [of 1000000] fround_int [of 10000000]
    by (simp_all add: ticks_to_nanoseconds_def sample_info_def make_process_info_def sample_surroundings_def sample_clock_def
        f64_of_int_def f64_of_i64_def NANOS_PER_SEC_def ConvertTicks_new_def from_meta_data_def get_tsc_frequency_inverse_ns_def
        timestamp_nanos_def round_away_def clamp_i64_def Let_def)
qed

lemma sample_block_reads:
  "list_all2 (thread_reads 2 sample_env sample_hash processor sample_thread_stream sample_memory sample_spans sample_locations sample_thread_lake)
     [sample_thread_block 11 t1 t2] [sample_calls]"
  by (simp add: sample_thread_reads)

section \<open>The window of that block\<close>

definition sample_window_root :: CallTreeNode where
  "sample_window_root = CallTreeNode None 119168 0 10000000
     [CallTreeNode (Some 0) 30787 0 2000000 [], CallTreeNode (Some 1) 30787 3000000 10000000 []]"

definition sample_thread_scope :: ScopeDesc where
  "sample_thread_scope = ScopeDesc_new sample_hash (get_thread_name (le_uuid_to_string sample_env) sample_thread_stream) [] [] 0"

lemma sample_thread_hash: "sd_hash sample_thread_scope = 119168"
  by (simp add: sample_thread_scope_def ScopeDesc_new_def get_thread_name_def sample_thread_stream_def sample_scope_hash)

lemma sample_window:
  defines "time \<equiv> ticks_to_nanoseconds (ConvertTicks_new sample_info)"
  shows "concat [sample_calls] = [sample_calls ! 0] @ [sample_calls ! 1]"
    "cut_before time 0 [sample_calls ! 0] [CallTreeNode (Some 0) 30787 0 2000000 []]"
    "cut_after time 10000000 [sample_calls ! 1] (Some (CallTreeNode (Some 1) 30787 3000000 10000000 []))"
    "sample_thread_scope = ScopeDesc_new sample_hash (get_thread_name (le_uuid_to_string sample_env) sample_thread_stream) [] [] 0"
    "calls_in_range \<lparr>tc_begin = 0, tc_end = 10000000, tc_limit = 10, tc_ticks = ConvertTicks_new sample_info, tc_root = sd_hash sample_thread_scope\<rparr>
       ([sample_calls ! 0] @ [sample_calls ! 1])"
    "call_scopes ([sample_calls ! 0] @ [sample_calls ! 1]) = [sample_scope, sample_scope]"
proof -
  show "concat [sample_calls] = [sample_calls ! 0] @ [sample_calls ! 1]" by (simp add: sample_calls_def)
  show "cut_before time 0 [sample_calls ! 0] [CallTreeNode (Some 0) 30787 0 2000000 []]"
    using cut_before_end [OF cut_before_none [OF balanced_nil] balanced_nil, of time 0 "sample_uuid_to_string 11" 0 sample_scope 7]
    by (simp add: sample_calls_def sample_scope_hash sample_thread_time time_def)
  show "cut_after time 10000000 [sample_calls ! 1] (Some (CallTreeNode (Some 1) 30787 3000000 10000000 []))"
    using cut_after_begin [OF balanced_nil cut_after_none, of time 10000000 "sample_uuid_to_string 11" 1 sample_scope 8]
    by (simp add: sample_calls_def sample_scope_hash sample_thread_time time_def)
qed (simp_all add: sample_calls_def call_in_range_def sample_scope_hash sample_thread_time sample_thread_hash call_scopes_def
    sample_thread_scope_def [symmetric])

definition sample_tree :: CallTree where
  "sample_tree = \<lparr>tr_scopes = scope_table [sample_thread_scope, sample_scope, sample_scope], tr_call_tree_root = Some sample_window_root\<rparr>"

lemma sample_tree_made:
  "\<exists>l'. make_call_tree 2 sample_env sample_hash [sample_thread_block 11 0 10] 0 10000000 10 (ConvertTicks_new sample_info)
      sample_thread_stream sample_thread_lake = (Inr sample_tree, l')"
  using window_call_tree [OF sample_lake_ok(3) sample_block_reads sample_window(1-5)]
  by (simp add: sample_window(6) [simplified] window_root_def sample_thread_hash sample_window_root_def sample_tree_def)

lemma sample_tree_range:
  "tree_begin_ns sample_info 0 [sample_thread_block 11 0 10] = 0" "tree_end_ns sample_info 1000 [sample_thread_block 11 0 10] = 10000000"
proof -
  have "pi_start_ticks sample_info = 5" by (simp add: sample_info_def make_process_info_def sample_clock_def)
  then show "tree_begin_ns sample_info 0 [sample_thread_block 11 0 10] = 0" "tree_end_ns sample_info 1000 [sample_thread_block 11 0 10] = 10000000"
    using sample_thread_time by (simp_all add: tree_begin_ns_def tree_end_ns_def max_i64_def min_i64_def sample_thread_block_def)
qed

section \<open>A service\<close>

definition sample_stream_row :: StreamRow where
  "sample_stream_row = \<lparr>sw_stream_id = 4, sw_process_id = 1, sw_dependencies_metadata = [], sw_objects_metadata = [], sw_tags = [''cpu''],
     sw_properties = [], sw_insert_time = 0\<rparr>"

definition sample_streams_request :: QueryStreamsRequest where
  "sample_streams_request = \<lparr>qs_limit = 5, qs_begin = None, qs_end = None, qs_tag_filter = Some ''cpu'', qs_process_id = Some 1\<rparr>"

definition sample_service :: AnalyticsService where
  "sample_service = \<lparr>as_lake = sample_env, as_arrow = \<lparr>ar_keys8 = 256, ar_keys16 = 65536\<rparr>, as_xxh32 = sample_hash, as_stack = 2,
     as_read_find_process = (\<lambda>_. Inr \<lparr>fp_process_id = 1\<rparr>), as_read_query_processes = (\<lambda>_. Inl (Err [])),
     as_read_query_streams = (\<lambda>_. Inr sample_streams_request), as_read_query_blocks = (\<lambda>_. Inl (Err [])),
     as_read_query_events = (\<lambda>_. Inl (Err [])), as_parquet = (\<lambda>batch. Inr (replicate (length batch) 0)), as_debug = (\<lambda>_. []),
     as_body_limit = 2097152\<rparr>"

section \<open>A guard\<close>

definition sample_start_env :: start_env where
  "sample_start_env = \<lparr>se_url = None, se_iter = (\<lambda>_. []), se_values = (\<lambda>_. []), se_default_retry = [], se_http_busy = (\<lambda>_ _ _ _ _. False),
     se_set_logger_works = True, se_subscriber_works = True\<rparr>"

definition sample_builder :: TelemetryGuardBuilder where
  "sample_builder = TelemetryGuardBuilder_default\<lparr>tb_logs_buffer_size := 1024, tb_metrics_buffer_size := 1024, tb_threads_buffer_size := 1024\<rparr>"

definition sample_ids :: new_ids where
  "sample_ids = \<lparr>id_process = 1, id_log = 2, id_metrics = 3, id_thread = 4\<rparr>"

definition sample_thread_ref :: thread_ref where
  "sample_thread_ref = \<lparr>tr_id = 0, tr_text = ''1'', tr_name = Some ''main''\<rparr>"

end
