(* ===== verification/Thread_Pipeline.thy ===== *)
theory Thread_Pipeline
  imports Pipeline Thread_Events
begin

text \<open>
  Spans, from the thread that records them to the answer of the query for its events.
\<close>

section \<open>The sink knows the streams of the threads\<close>

definition threads_announced :: "world \<Rightarrow> bool" where
  "threads_announced w \<longleftrightarrow> (\<forall>t s. LOCAL_THREAD_STREAM w t = Some s \<longrightarrow>
     (\<exists>s0. OnInitThreadStream s0 \<in> set (sink_calls w) \<and> stream_id s0 = stream_id s))"

lemma mark_full_ids:
  "fold_res (at_thread_stream set_full) ts w = Inr w' \<Longrightarrow> LOCAL_THREAD_STREAM w' t = Some s'
    \<Longrightarrow> \<exists>s. LOCAL_THREAD_STREAM w t = Some s \<and> stream_id s = stream_id s'"
proof (induction ts arbitrary: w)
  case (Cons u ts)
  then obtain w1 where w1: "at_thread_stream set_full u w = Inr w1" "fold_res (at_thread_stream set_full) ts w1 = Inr w'"
    by (auto simp: and_then_eq_Inr)
  obtain s1 where s1: "LOCAL_THREAD_STREAM w1 t = Some s1" "stream_id s1 = stream_id s'" using Cons.IH [OF w1(2) Cons.prems(2)] by blast
  then show ?case using w1(1) by (auto simp: at_thread_stream_def split: option.splits if_splits)
qed simp

lemma section_ids:
  assumes "run_section su sec w = Inr w'" and "G_DISPATCH w = Some d" and "live d" and "named w d" and "LOCAL_THREAD_STREAM w' t = Some s'"
  shows "(\<exists>s. LOCAL_THREAD_STREAM w t = Some s \<and> stream_id s = stream_id s')
    \<or> (\<exists>s0. OnInitThreadStream s0 \<in> set (sink_calls w') \<and> stream_id s0 = stream_id s')"
proof (cases sec)
  case (PushThread tid e)
  then show ?thesis using assms
    by (auto simp: push_thread_event_def and_then_eq_Inr named_def dest!: owned_push split: option.splits if_splits)
next
  case (FlushThread tid ck)
  then show ?thesis using assms
    by (auto simp: flush_thread_buffer_def Dispatch_flush_thread_buffer_def and_then_eq_Inr named_def dest!: owned_flush split: option.splits if_splits)
next
  case (RegisterThread ck u tid thread_id name)
  then show ?thesis using assms
    by (auto simp: init_thread_stream_def Dispatch_init_thread_stream_def Let_def notify_eq split: option.splits if_splits)
next
  case MarkFull
  then show ?thesis using assms mark_full_ids by (fastforce simp: run_defs)
qed (use assms in \<open>auto simp: run_defs and_then_eq_Inr split: if_splits option.splits prod.splits\<close>)

lemma reach_announced:
  assumes "reach su w logs metrics spans" and "get_sink w = Some AppSink"
  shows "threads_announced w"
  using assms
proof (induction)
  case (reach_init parent)
  then show ?case by (simp add: world_init_def get_sink_def)
next
  case (reach_section w logs metrics spans sec w')
  show ?case
  proof (cases "G_DISPATCH w")
    case None
    then have "LOCAL_THREAD_STREAM w = (\<lambda>_. None)" using reach_inv [OF reach_section.hyps(1)] by (simp add: world_inv_def)
    then have "LOCAL_THREAD_STREAM w' = (\<lambda>_. None)"
      using reach_section.hyps(3) None
      by (cases sec) (auto simp: run_defs init_event_dispatch_def and_then_eq_Inr push_thread_event_def flush_thread_buffer_def
          split: if_splits prod.splits)
    then show ?thesis by (simp add: threads_announced_def)
  next
    case (Some d)
    have names: "named w d" using reach_identified [OF reach_section.hyps(1) Some] by blast
    have live: "live d"
    proof (rule ccontr)
      assume "\<not> live d"
      then have "get_sink w = Some NullEventSink" using Some by (cases "sink d") (simp_all add: get_sink_def)
      then show False using section_stopped [OF _ reach_section.hyps(3)] reach_section.prems by auto
    qed
    then have "threads_announced w" using reach_section.IH Some by (simp add: get_sink_def)
    moreover obtain cs where "sink_calls w' = sink_calls w @ cs" using section_names [OF reach_section.hyps(3) Some names] by blast
    ultimately show ?thesis
      using section_ids [OF reach_section.hyps(3) Some live names] unfolding threads_announced_def by (metis Un_iff set_append)
  qed
qed

section \<open>What is sent of a thread\<close>

definition sent_thread_stream :: "http_env \<Rightarrow> EventStream \<Rightarrow> StreamInfo" where
  "sent_thread_stream henv ts = sent_stream_info (thread_stream_info (he_shuffle henv) (su_abi (he_su henv)) ts)"

definition thread_stream_read :: "http_env \<Rightarrow> StreamInfo \<Rightarrow> bool" where
  "thread_stream_read henv stream \<longleftrightarrow>
     si_dependencies_metadata stream = stream_metadata (he_shuffle henv) (ThreadDepsQueue_reflect_contained (su_abi (he_su henv)))
     \<and> si_objects_metadata stream = stream_metadata (he_shuffle henv) (ThreadEventQueue_reflect_contained (su_abi (he_su henv)))"

lemma sent_thread_stream_ids:
  "si_stream_id (sent_thread_stream henv ts) = stream_id ts" "si_process_id (sent_thread_stream henv ts) = sde_process_id (es_stream_desc ts)"
  "thread_stream_read henv (sent_thread_stream henv ts)"
  by (simp_all add: sent_thread_stream_def thread_stream_info_def thread_stream_read_def sent_metadata)
    (simp_all add: sent_stream_info_def make_stream_info_def Let_def)

lemma opened_thread:
  assumes "stopped_calls info ls ms calls" and "x \<in> set (concat (map opened (sent_events henv calls)))"
    and "si_stream_id x \<noteq> stream_id ls" and "si_stream_id x \<noteq> stream_id ms"
  shows "\<exists>s1. x = sent_thread_stream henv s1 \<and> sde_process_id (es_stream_desc s1) = pi_process_id info"
proof -
  obtain rest where calls: "calls = OnStartup info # OnInitLogStream ls # OnInitMetricsStream ms # rest"
    and own: "list_all (belongs (pi_process_id info) (stream_id ls) (stream_id ms)) rest" using assms(1) by (auto simp: stopped_calls_def)
  obtain c e where c: "c \<in> set calls" "event_of_call henv c = Some e" "x \<in> set (opened e)"
    using assms(2) by (auto simp: sent_events_def split: option.splits) metis
  have other: "si_stream_id (sent_stream_info (log_stream_info (he_shuffle henv) (su_abi (he_su henv)) ls)) = stream_id ls"
    "si_stream_id (sent_stream_info (metrics_stream_info (he_shuffle henv) (su_abi (he_su henv)) ms)) = stream_id ms"
    by (simp_all add: sent_stream_info_def log_stream_info_def metrics_stream_info_def make_stream_info_def Let_def)
  have "c \<in> set rest" using c assms(3,4) other unfolding calls by auto
  then have "belongs (pi_process_id info) (stream_id ls) (stream_id ms) c" using own by (simp add: list_all_iff)
  then show ?thesis using c(2,3) by (cases c) (auto simp: belongs_def sent_thread_stream_def)
qed

lemma thread_sent:
  assumes "stopped_calls info ls ms calls" and "OnInitThreadStream s0 \<in> set calls" and "stream_id s0 = sid"
    and "stream_id ls \<noteq> sid" and "stream_id ms \<noteq> sid"
  shows "\<exists>s1. stream_id s1 = sid \<and> stream_sent henv info ProcessThreadBlock (sent_thread_stream henv s1)
    (blocks_of_stream sid (thread_blocks calls)) (sent_events henv calls)"
proof -
  let ?opened = "filter (\<lambda>s. si_stream_id s = sid) (concat (map opened (sent_events henv calls)))"
  obtain rest where calls: "calls = OnStartup info # OnInitLogStream ls # OnInitMetricsStream ms # rest"
    and own: "list_all (belongs (pi_process_id info) (stream_id ls) (stream_id ms)) rest" using assms(1) by (auto simp: stopped_calls_def)
  have "InitStream (thread_stream_info (he_shuffle henv) (su_abi (he_su henv)) s0) \<in> set (sent_events henv calls)"
    using assms(2) by (force simp: sent_events_def)
  then have "sent_thread_stream henv s0 \<in> set ?opened"
    using assms(3) sent_thread_stream_ids(1) [of henv s0] by (force simp: sent_thread_stream_def)
  then obtain x ss where x: "?opened = x # ss" by (cases ?opened) auto
  then have "x \<in> set ?opened" by simp
  then have "x \<in> set (concat (map opened (sent_events henv calls)))" "si_stream_id x = sid" by auto
  then obtain s1 where s1: "x = sent_thread_stream henv s1" "sde_process_id (es_stream_desc s1) = pi_process_id info"
    using opened_thread [OF assms(1)] assms(4,5) by metis
  have id: "stream_id s1 = sid" using \<open>si_stream_id x = sid\<close> s1(1) sent_thread_stream_ids(1) [of henv s1] by simp
  have ids: "\<forall>b \<in> set (thread_blocks calls). eb_process_id b = pi_process_id info" "\<forall>b \<in> set (metrics_blocks calls). eb_stream_id b = stream_id ms"
    "\<forall>b \<in> set (log_blocks calls). eb_stream_id b = stream_id ls"
    using own unfolding calls list_all_iff belongs_def thread_blocks_def metrics_blocks_def log_blocks_def by (auto split: sink_call.splits)
  have "filter (of_stream sid) (sent_events henv [c]) = map ProcessThreadBlock (case c of OnProcessThreadBlock b \<Rightarrow> blocks_of_stream sid [b] | _ \<Rightarrow> [])"
    if "c \<in> set calls" for c
    using that block_calls [of _ calls] ids assms(4,5)
    by (cases c rule: sink_call.exhaust) (simp_all add: sent_events_def of_stream_def blocks_of_stream_def)
  from stream_messages [OF this] have "filter (of_stream sid) (sent_events henv calls) = map ProcessThreadBlock (blocks_of_stream sid (thread_blocks calls))"
    by (simp add: thread_blocks_def blocks_of_stream_def filter_concat comp_def if_distrib sink_call.case_distrib [of "filter _"] cong: sink_call.case_cong)
  then show ?thesis
    using x s1 id ids(1) by (intro exI [of _ s1]) (auto simp: stream_sent_def sent_thread_stream_ids blocks_of_stream_def calls sent_events_def)
qed

section \<open>Reading a block of a thread back\<close>

definition span_events_ok :: "http_env \<Rightarrow> ThreadEventQueueAny list \<Rightarrow> bool" where
  "span_events_ok henv es \<longleftrightarrow> list_all (span_refs_ok (su_memory (he_su henv)) (cs_spans (he_sites henv)) (cs_locations (he_sites henv))) es
     \<and> consistent_actions ThreadDepsQueue_dep_id ThreadDepsQueue_refs
         (concat (map (span_actions (cs_spans (he_sites henv)) (cs_locations (he_sites henv))) es))"

lemma span_events_ok_append:
  assumes "span_events_ok henv (xs @ ys)"
  shows "span_events_ok henv xs" "span_events_ok henv ys"
  using assms by (auto simp: span_events_ok_def dest: consistent_append)

definition thread_metadata_ok :: "http_env \<Rightarrow> bool" where
  "thread_metadata_ok henv \<longleftrightarrow> layout_ok (su_abi (he_su henv)) SpanRecord_decl \<and> layout_ok (su_abi (he_su henv)) SpanLocationRecord_decl
     \<and> is_shuffle (he_shuffle henv)"

lemma thread_block_parses:
  assumes "thread_metadata_ok henv" and "thread_event.represents (su_abi (he_su henv)) (eb_events b) es" and "span_events_ok henv es"
    and "thread_stream_read henv stream" and "block_of_event henv info (ProcessThreadBlock b) blk"
  shows "parse_block (Suc (Suc stack)) (he_wire henv) stream (bl_payload blk) f s
    = feed f s (map (span_meaning (su_memory (he_su henv)) (cs_spans (he_sites henv)) (cs_locations (he_sites henv))) es)"
proof -
  let ?abi = "su_abi (he_su henv)" let ?mem = "su_memory (he_su henv)"
  let ?spans = "cs_spans (he_sites henv)" let ?locs = "cs_locations (he_sites henv)"
  let ?udts = "stream_metadata (he_shuffle henv) (ThreadEventQueue_reflect_contained ?abi)"
  let ?deps = "stream_metadata (he_shuffle henv) (ThreadDepsQueue_reflect_contained ?abi)"
  obtain dq where dq: "ThreadEventQueue_extract (su_alloc (he_su henv)) ?abi ?mem ?spans ?locs (eb_events b) = Inr dq"
    "carries (he_wire henv) info b dq blk" using assms(5) by (auto simp: block_of_event_def)
  have "list_all (ThreadEventQueue_valid ?abi) es" using assms(2) by (simp add: thread_event.represents_def)
  then have "list_all (ThreadEventQueue_ready ?abi ?mem ?spans ?locs ?udts ?deps) es"
    using assms(1,3) span_ready unfolding list_all_iff thread_metadata_ok_def span_events_ok_def by blast
  then have "span_block.objects.represents ?abi ?mem ?spans ?locs ?udts ?deps (eb_events b) es"
    using assms(2) by (simp add: thread_event.represents_def span_block.objects.represents_def)
  moreover have "consistent_actions ThreadDepsQueue_dep_id ThreadDepsQueue_refs (concat (map (span_actions ?spans ?locs) es))"
    using assms(3) by (simp add: span_events_ok_def)
  ultimately obtain h where "read_dependencies (Suc (Suc stack)) ?deps (q_buffer dq) = Inr h"
    "parse_object_buffer (Suc (Suc stack)) h ?udts (q_buffer (eb_events b)) f s = feed f s (map (span_meaning ?mem ?spans ?locs) es)"
    using span_block.block_roundtrip [of ?abi ?mem ?spans ?locs ?udts ?deps "eb_events b" es "su_alloc (he_su henv)" stack f s] dq(1) by auto
  then show ?thesis
    using dq(2) assms(4) by (simp add: parse_block_def carries_def thread_stream_read_def)
qed

section \<open>Indices\<close>

text \<open>The rows of a thread without the identifiers of their blocks: the index of an event is its place in the stream.\<close>

definition unplaced :: "ThreadEventRow \<Rightarrow> ThreadEventRow" where
  "unplaced r = r\<lparr>te_block_id := []\<rparr>"

definition thread_rows :: "xxhash \<Rightarrow> memory \<Rightarrow> (u64 \<rightharpoonup> SpanMetadata) \<Rightarrow> (u64 \<rightharpoonup> SpanLocation) \<Rightarrow> ThreadEventQueueAny list \<Rightarrow> ThreadEventRow list" where
  "thread_rows xxh32 mem spans locations es = thread_event_rows (numbered [] 0 (map (thread_call_of xxh32 mem spans locations) es))"

lemma numbered_append: "numbered bid n (xs @ ys) = numbered bid n xs @ numbered bid (n + word_of_nat (length xs)) ys"
  by (induction xs arbitrary: n) (simp_all add: add.assoc)

lemma unplaced_numbered: "map unplaced (thread_event_rows (numbered bid n cs)) = thread_event_rows (numbered [] n cs)"
proof (induction cs arbitrary: n)
  case (Cons c cs)
  then show ?case by (cases c) (simp_all add: map_filter_simps unplaced_def)
qed (simp add: map_filter_simps)

lemma map_filter_append: "List.map_filter f (xs @ ys) = List.map_filter f xs @ List.map_filter f ys"
  by (simp add: List.map_filter_def)

lemma unplaced_blocks:
  assumes "length bids = length css"
  shows "map unplaced (thread_event_rows (concat (map (\<lambda>i. numbered (bids ! i) (k + word_of_nat (length (concat (take i css)))) (css ! i)) [0..<length css])))
    = thread_event_rows (numbered [] k (concat css))"
  using assms
proof (induction css arbitrary: bids k)
  case (Cons c css)
  then obtain b bs where bids: "bids = b # bs" "length bs = length css" by (cases bids) auto
  let ?f = "\<lambda>i. numbered (bids ! i) (k + word_of_nat (length (concat (take i (c # css))))) ((c # css) ! i)"
  have "map ?f [0..<length (c # css)] = numbered b k c # map (\<lambda>i. numbered (bs ! i) ((k + word_of_nat (length c)) + word_of_nat (length (concat (take i css)))) (css ! i)) [0..<length css]"
    by (simp add: upt_conv_Cons map_Suc_upt [symmetric] bids(1) add.assoc comp_def del: upt_Suc)
  then show ?case
    using Cons.IH [OF bids(2), of "k + word_of_nat (length c)"] by (simp add: map_filter_append unplaced_numbered numbered_append del: upt_Suc)
qed (simp add: map_filter_simps)

section \<open>The query\<close>

text \<open>The calls that a processor gets of each block.\<close>

definition block_calls_of :: "lake_env \<Rightarrow> BlockRow list \<Rightarrow> thread_call list list \<Rightarrow> (string \<times> i64 \<times> thread_call) list list" where
  "block_calls_of env rows css = map (\<lambda>i. numbered (map (\<lambda>r. le_uuid_to_string env (bw_block_id r)) rows ! i)
     (0 + word_of_nat (length (concat (take i css)))) (css ! i)) [0..<length css]"

lemma thread_blocks_read:
  assumes "server_ok env henv" and "thread_metadata_ok henv" and "thread_stream_read henv stream"
    and "stream_sent henv info ProcessThreadBlock stream bs es" and "list_all2 (\<lambda>b. in_lake env henv info l (ProcessThreadBlock b)) bs rows"
    and "list_all2 (\<lambda>b. thread_event.represents (su_abi (he_su henv)) (eb_events b)) bs ess" and "span_events_ok henv (concat ess)"
    and "map eb_event_offset bs = map (\<lambda>i. length (concat (take i ess))) [0..<length bs]"
  shows "list_all2 (thread_reads (Suc (Suc stack)) env xxh32 processor stream (su_memory (he_su henv)) (cs_spans (he_sites henv)) (cs_locations (he_sites henv)) l)
    (map map_row_block rows)
    (block_calls_of env rows (map (map (thread_call_of xxh32 (su_memory (he_su henv)) (cs_spans (he_sites henv)) (cs_locations (he_sites henv)))) ess))"
proof -
  let ?meaning = "span_meaning (su_memory (he_su henv)) (cs_spans (he_sites henv)) (cs_locations (he_sites henv))"
  let ?call = "thread_call_of xxh32 (su_memory (he_su henv)) (cs_spans (he_sites henv)) (cs_locations (he_sites henv))"
  have len: "length bs = length rows" "length bs = length ess" using assms(5,6) by (blast dest: list_all2_lengthD)+
  have reads: "list_all2 (\<lambda>r es. block_reads (Suc (Suc stack)) env l stream (process_value xxh32 processor bid) r (map ?meaning es)) (map map_row_block rows) ess" for bid
  proof (rule blocks_read [OF assms(1,4) _ assms(5,6)])
    show "parse_block (Suc (Suc stack)) (he_wire henv) stream (bl_payload blk) (process_value xxh32 processor bid) s
        = feed (process_value xxh32 processor bid) s (map ?meaning es)"
      if "thread_event.represents (su_abi (he_su henv)) (eb_events b) es" "\<exists>pre post. concat ess = pre @ es @ post"
        "block_of_event henv info (ProcessThreadBlock b) blk" for b es blk s
    proof -
      from that(2) have "span_events_ok henv es" using assms(7) span_events_ok_append by metis
      from thread_block_parses [OF assms(2) that(1) this assms(3) that(3)] show ?thesis .
    qed
  qed simp
  have "thread_reads (Suc (Suc stack)) env xxh32 processor stream (su_memory (he_su henv)) (cs_spans (he_sites henv)) (cs_locations (he_sites henv)) l
      (map_row_block (rows ! i)) (block_calls_of env rows (map (map ?call) ess) ! i)" if i: "i < length bs" for i
  proof -
    let ?bid = "le_uuid_to_string env (bw_block_id (rows ! i))"
    obtain blk where blk: "block_of_event henv info (ProcessThreadBlock (bs ! i)) blk" "row_of env blk (rows ! i)"
      using list_all2_nthD [OF assms(5) i] by (auto simp: in_lake_def)
    have "eb_event_offset (bs ! i) = length (concat (take i ess))"
      using assms(8) i by (metis (no_types, lifting) add_0 diff_zero length_upt nth_map nth_upt)
    then have off: "bw_object_offset (rows ! i) = word_of_nat (length (concat (take i ess)))"
      using blk by (auto simp: block_of_event_def carries_def row_of_def)
    have "length (concat (take i (map (map ?call) ess))) = length (concat (take i ess))"
      by (simp add: take_map flip: map_concat)
    moreover have "block_reads (Suc (Suc stack)) env l stream (process_value xxh32 processor ?bid) (map_row_block (rows ! i)) (map ?meaning (ess ! i))"
      using list_all2_nthD [OF reads [of ?bid]] i len by simp
    ultimately show ?thesis
      unfolding thread_reads_def block_calls_of_def using i len off by (intro exI [of _ "ess ! i"]) (simp add: map_row_block_def)
  qed
  then show ?thesis using len by (simp add: list_all2_conv_all_nth block_calls_of_def)
qed

text \<open>The range that the query computes: from the start of the process at the earliest, to the end of the last block at the latest.\<close>

definition thread_begin :: "lake_env \<Rightarrow> ProcessInfo \<Rightarrow> int \<Rightarrow> i64" where
  "thread_begin env info t = query_tick env info (max t (le_timestamptz env (pi_start_time info)))"

definition thread_end :: "lake_env \<Rightarrow> ProcessInfo \<Rightarrow> int \<Rightarrow> EventBlock list \<Rightarrow> i64" where
  "thread_end env info t bs = (if bs = [] then query_tick env info t
     else min_i64 (query_tick env info t) (dt_ticks (the (eb_end (last bs))) - pi_start_ticks info))"

definition query_nanos :: "lake_env \<Rightarrow> ProcessInfo \<Rightarrow> i64 \<Rightarrow> i64" where
  "query_nanos env info ticks = ticks_to_nanoseconds (query_ticks env info) (ticks + pi_start_ticks info)"

lemma placed_rows_fit:
  assumes "event_rows_fit ar (map unplaced rows)" and "card (set (map te_block_id rows)) \<le> ar_keys16 ar"
  shows "event_rows_fit ar rows"
  using assms by (simp add: event_rows_fit_def comp_def unplaced_def image_image)

lemma block_ids_of_rows: "set (map te_block_id (thread_event_rows (concat (block_calls_of env rows css)))) \<subseteq> set (map (\<lambda>r. le_uuid_to_string env (bw_block_id r)) rows)"
  if "length rows = length css"
proof -
  have bid: "te_block_id r = b" if "Some r = thread_event_row (b, n, c)" for r b n c using that by (cases c) auto
  have num: "fst x = b" if "x \<in> set (numbered b n cs)" for x b n cs using that by (induction cs arbitrary: n) auto
  show ?thesis
  proof
    fix b assume "b \<in> set (map te_block_id (thread_event_rows (concat (block_calls_of env rows css))))"
    then obtain r x i where x: "b = te_block_id r" "Some r = thread_event_row x" "i < length css"
      "x \<in> set (numbered (map (\<lambda>r. le_uuid_to_string env (bw_block_id r)) rows ! i) (0 + word_of_nat (length (concat (take i css)))) (css ! i))"
      by (auto simp: block_calls_of_def List.map_filter_def) (metis option.sel)
    then have "b = map (\<lambda>r. le_uuid_to_string env (bw_block_id r)) rows ! i" using bid num by (metis prod.collapse)
    then show "b \<in> set (map (\<lambda>r. le_uuid_to_string env (bw_block_id r)) rows)" using x(3) that by (metis length_map nth_mem)
  qed
qed

lemma query_thread_events_finds:
  assumes "server_ok env henv" and "thread_metadata_ok henv"
    and "stream_sent henv info ProcessThreadBlock (sent_thread_stream henv ts) bs es"
    and "list_all2 (answered henv info) es rqs" and "lake_holds env henv es rqs l"
    and "list_all2 (\<lambda>b. thread_event.represents (su_abi (he_su henv)) (eb_events b)) bs ess" and "span_events_ok henv (concat ess)"
    and "map eb_event_offset bs = map (\<lambda>i. length (concat (take i ess))) [0..<length bs]"
    and "ticks_cover info (thread_begin env info t1) (query_tick env info t2) bs" and "length bs \<le> ar_keys16 ar"
    and "want = thread_rows xxh32 (su_memory (he_su henv)) (cs_spans (he_sites henv)) (cs_locations (he_sites henv)) (concat ess)"
    and "event_rows_fit ar want"
  shows "\<exists>rows l'. map unplaced rows = want \<and> query_thread_events (Suc (Suc stack)) env ar xxh32 limit (stream_id ts) t1 t2 l
    = (Inr (thread_events_batch_of (query_ticks env info) (take (nat (sint limit))
        (rows_in_range (event_time (query_ticks env info)) (query_nanos env info (thread_begin env info t1))
          (query_nanos env info (thread_end env info t2 bs)) rows))), l')"
proof -
  let ?stream = "sent_thread_stream henv ts" and ?ct = "query_ticks env info"
  let ?css = "map (map (thread_call_of xxh32 (su_memory (he_su henv)) (cs_spans (he_sites henv)) (cs_locations (he_sites henv)))) ess"
  have rel: "reliable env" using assms(1) by (simp add: server_ok_def)
  note start = query_start_found [OF assms(1,4,5,3) _ assms(9), unfolded sent_thread_stream_ids(1), unfolded query_start_def]
  from stream_found(3) [OF assms(1,4,5,3) _ assms(9)] obtain rows where
    rows: "list_all2 (\<lambda>b. in_lake env henv info l (ProcessThreadBlock b)) bs rows" and
    blocks: "\<And>n. find_stream_blocks_in_range env (stream_id ts) (thread_begin env info t1) (query_tick env info t2) (l\<lparr>la_calls := n\<rparr>)
      = (Inr (map map_row_block rows), l\<lparr>la_calls := n + 1\<rparr>)"
    unfolding sent_thread_stream_ids(1) by auto
  have len: "length bs = length rows" "length bs = length ess" using rows assms(6) by (blast dest: list_all2_lengthD)+
  define placed where "placed = thread_event_rows (concat (block_calls_of env rows ?css))"
  have want: "map unplaced placed = want"
    using unplaced_blocks [of "map (\<lambda>r. le_uuid_to_string env (bw_block_id r)) rows" ?css 0] len
    by (simp add: placed_def block_calls_of_def assms(11) thread_rows_def map_concat)
  have "card (set (map te_block_id placed)) \<le> ar_keys16 ar"
  proof -
    have "card (set (map te_block_id placed)) \<le> card (set (map (\<lambda>r. le_uuid_to_string env (bw_block_id r)) rows))"
      unfolding placed_def by (rule card_mono) (use block_ids_of_rows len in auto)
    also have "\<dots> \<le> length rows" by (metis card_length length_map)
    finally show ?thesis using assms(10) len by simp
  qed
  then have fit: "event_rows_fit ar placed" using placed_rows_fit want assms(12) by simp
  let ?l = "l\<lparr>la_calls := la_calls l + 3 + 1\<rparr>"
  have reads: "list_all2 (thread_reads (Suc (Suc stack)) env xxh32 (thread_events_processor ar) ?stream (su_memory (he_su henv)) (cs_spans (he_sites henv)) (cs_locations (he_sites henv)) l)
      (map map_row_block rows) (block_calls_of env rows ?css)"
    by (rule thread_blocks_read [OF assms(1,2) sent_thread_stream_ids(3) assms(3) rows assms(6,7,8)])
  have "stored env ?l = stored env l" by (simp add: fun_eq_iff stored_def)
  then have "list_all2 (thread_reads (Suc (Suc stack)) env xxh32 (thread_events_processor ar) ?stream (su_memory (he_su henv)) (cs_spans (he_sites henv)) (cs_locations (he_sites henv)) ?l)
      (map map_row_block rows) (block_calls_of env rows ?css)"
    using reads by (simp add: thread_reads_def [abs_def] block_reads_def)
  note batch = make_thread_events_rows [OF rel this fit [unfolded placed_def], of limit "query_nanos env info (thread_begin env info t1)"
      "query_nanos env info (thread_end env info t2 bs)" ?ct, folded placed_def]
  have last: "(if map map_row_block rows = [] then query_tick env info t2 else min_i64 (query_tick env info t2) (bm_end_ticks (last (map map_row_block rows))))
      = thread_end env info t2 bs"
  proof (cases "bs = []")
    case False
    then have "rows \<noteq> []" using len by auto
    then have "in_lake env henv info l (ProcessThreadBlock (last bs)) (last rows)"
      using list_all2_nthD [OF rows, of "length bs - 1"] len False by (simp add: last_conv_nth)
    then have "bw_end_ticks (last rows) = dt_ticks (the (eb_end (last bs))) - pi_start_ticks info"
      by (auto simp: in_lake_def block_of_event_def carries_def row_of_def)
    then show ?thesis using False \<open>rows \<noteq> []\<close> by (simp add: thread_end_def last_map map_row_block_def)
  qed (use len in \<open>simp add: thread_end_def\<close>)
  have "query_thread_events (Suc (Suc stack)) env ar xxh32 limit (stream_id ts) t1 t2 l
      = bind_io (find_stream_blocks_in_range env (stream_id ts) (thread_begin env info t1) (query_tick env info t2)) (\<lambda>blocks.
        make_thread_events_record_batch (Suc (Suc stack)) env ar xxh32 blocks limit (query_nanos env info (thread_begin env info t1))
          (query_nanos env info (if blocks = [] then query_tick env info t2 else min_i64 (query_tick env info t2) (bm_end_ticks (last blocks)))) ?ct ?stream)
        (l\<lparr>la_calls := la_calls l + 3\<rparr>)"
    unfolding query_thread_events_def by (simp add: start Let_def query_nanos_def thread_begin_def query_tick_def query_ticks_def cong: if_cong)
  also have "\<dots> = make_thread_events_record_batch (Suc (Suc stack)) env ar xxh32 (map map_row_block rows) limit (query_nanos env info (thread_begin env info t1))
      (query_nanos env info (thread_end env info t2 bs)) ?ct ?stream ?l"
    unfolding last [symmetric] by (simp add: bind_io_def blocks)
  finally show ?thesis using want batch by auto
qed

section \<open>A thread that finished before the process stopped\<close>

lemma flush_keeps_threads:
  "flush_log_buffer su ck w = Inr w' \<Longrightarrow> \<exists>cs. sink_calls w' = sink_calls w @ cs \<and> thread_blocks cs = []"
  "flush_metrics_buffer su ck w = Inr w' \<Longrightarrow> \<exists>cs. sink_calls w' = sink_calls w @ cs \<and> thread_blocks cs = []"
  "shutdown_dispatch w = Inr w' \<Longrightarrow> \<exists>cs. sink_calls w' = sink_calls w @ cs \<and> thread_blocks cs = []"
  by (auto simp: run_defs Dispatch_flush_log_buffer_def Dispatch_flush_metrics_buffer_def Dispatch_shutdown_def notify_eq and_then_eq_Inr
      thread_blocks_def split: option.splits if_splits prod.splits)

lemma shutdown_keeps_threads:
  assumes "shutdown_telemetry su ck1 ck2 w = Inr w'"
  shows "\<exists>cs. sink_calls w' = sink_calls w @ cs \<and> thread_blocks cs = []"
proof -
  obtain w1 w2 where w: "flush_log_buffer su ck1 w = Inr w1" "flush_metrics_buffer su ck2 w1 = Inr w2" "shutdown_dispatch w2 = Inr w'"
    using assms by (auto simp: shutdown_telemetry_def and_then_eq_Inr)
  obtain cs1 cs2 cs3 where "sink_calls w1 = sink_calls w @ cs1" "sink_calls w2 = sink_calls w1 @ cs2" "sink_calls w' = sink_calls w2 @ cs3"
    "thread_blocks cs1 = []" "thread_blocks cs2 = []" "thread_blocks cs3 = []"
    using flush_keeps_threads(1) [OF w(1)] flush_keeps_threads(2) [OF w(2)] flush_keeps_threads(3) [OF w(3)] by blast
  then show ?thesis by (intro exI [of _ "cs1 @ cs2 @ cs3"]) simp
qed

lemma flush_thread_effect:
  assumes "reach su w logs metrics spans" and "G_DISPATCH w = Some d" and "live d" and "LOCAL_THREAD_STREAM w tid = Some s"
    and "flush_thread_buffer su ck tid w = Inr w1"
  shows "reach su w1 logs metrics spans \<and> get_sink w1 = Some AppSink
    \<and> (\<exists>d1 s1. G_DISPATCH w1 = Some d1 \<and> same_names d d1 \<and> LOCAL_THREAD_STREAM w1 tid = Some s1 \<and> is_empty s1 \<and> stream_id s1 = stream_id s)"
proof -
  have sec: "run_section su (FlushThread tid ck) w = Inr w1" using assms(5) by simp
  have "reach su w1 logs metrics spans" using reach_quiet [OF assms(1), of "FlushThread tid ck"] sec by (auto simp: quiet_def)
  moreover have "get_sink w1 = Some AppSink" using section_keeps(1) [OF sec] assms(2,3) by (simp add: get_sink_def)
  moreover have names: "named w d" using reach_identified [OF assms(1,2)] by blast
  moreover obtain d1 where "G_DISPATCH w1 = Some d1" "same_names d d1" using section_names [OF sec assms(2) names] by blast
  moreover obtain s1 d' calls' where "Dispatch_flush_thread_buffer su ck s (d, sink_calls w) = Inr (s1, (d', calls'))" "is_empty s1"
    using dispatcher_flush_thread [of su d "sink_calls w" logs metrics spans "LOCAL_THREAD_STREAM w" tid s ck]
      reach_inv [OF assms(1)] assms(2,4) by (auto simp: world_inv_def)
  moreover have "LOCAL_THREAD_STREAM w1 tid = Some s1"
    using assms(2,4,5) calculation(6) by (auto simp: flush_thread_buffer_def)
  moreover have "stream_id s1 = stream_id s"
    using calculation(6) names assms(4) by (auto simp: Dispatch_flush_thread_buffer_def and_then_eq_Inr named_def dest!: owned_flush split: option.splits)
  ultimately show ?thesis by blast
qed

lemma stopped_thread_calls:
  assumes "reach su w logs metrics spans" and "G_DISPATCH w = Some d" and "live d" and "LOCAL_THREAD_STREAM w tid = Some s"
    and "flush_thread_buffer su ck tid w = Inr w1" and "shutdown_telemetry su ck1 ck2 w1 = Inr w'" and "hd (sink_calls w') = OnStartup info"
  shows "\<exists>ls ms s0. stopped_calls info ls ms (sink_calls w') \<and> stream_id ls = stream_id (log_stream d) \<and> stream_id ms = stream_id (metrics_stream d)
    \<and> OnInitThreadStream s0 \<in> set (sink_calls w') \<and> stream_id s0 = stream_id s
    \<and> (\<exists>ess. list_all2 (\<lambda>b. thread_event.represents (su_abi su) (eb_events b)) (blocks_of_stream (stream_id s) (thread_blocks (sink_calls w'))) ess
        \<and> concat ess = spans tid \<and> map eb_event_offset (blocks_of_stream (stream_id s) (thread_blocks (sink_calls w')))
          = map (\<lambda>i. length (concat (take i ess))) [0..<length (blocks_of_stream (stream_id s) (thread_blocks (sink_calls w')))])"
proof -
  obtain d1 s1 where w1: "reach su w1 logs metrics spans" "get_sink w1 = Some AppSink" "G_DISPATCH w1 = Some d1" "same_names d d1"
    "LOCAL_THREAD_STREAM w1 tid = Some s1" "is_empty s1" "stream_id s1 = stream_id s" using flush_thread_effect [OF assms(1-5)] by blast
  have live: "live d1" using w1(2,3) by (simp add: get_sink_def)
  obtain ls ms where stopped: "stopped_calls info ls ms (sink_calls w')" "stream_id ls = stream_id (log_stream d)" "stream_id ms = stream_id (metrics_stream d)"
    using shutdown_calls [OF w1(1,3) live assms(6,7)] w1(4) by (auto simp: same_names_def)
  obtain cs where cs: "sink_calls w' = sink_calls w1 @ cs" "thread_blocks cs = []" using shutdown_keeps_threads [OF assms(6)] by blast
  obtain s0 where s0: "OnInitThreadStream s0 \<in> set (sink_calls w1)" "stream_id s0 = stream_id s"
    using reach_announced [OF w1(1,2)] w1(5,7) unfolding threads_announced_def by metis
  have "dispatcher_inv su d1 (sink_calls w1) logs metrics spans (LOCAL_THREAD_STREAM w1)" using reach_inv [OF w1(1)] w1(3) by (simp add: world_inv_def)
  then have "threads_inv su True (thread_blocks (sink_calls w1)) spans (LOCAL_THREAD_STREAM w1)" using live by (simp add: dispatcher_inv_def)
  then have "thread_event.delivers (su_abi su) True (blocks_of_stream (stream_id s1) (thread_blocks (sink_calls w1))) (spans tid) s1"
    using w1(5) unfolding threads_inv_def by blast
  moreover have "thread_blocks (sink_calls w1) = thread_blocks (sink_calls w')" using cs by simp
  ultimately have "thread_event.delivers (su_abi su) True (blocks_of_stream (stream_id s) (thread_blocks (sink_calls w'))) (spans tid) s1"
    using w1(7) by simp
  from thread_event.delivers_offsets [OF this w1(6)] show ?thesis using stopped s0 cs(1) by auto
qed

section \<open>All of it\<close>

text \<open>
  C40. Spans, end to end. A thread recorded any number of spans, among other threads that record too; then its
  guard and that of the process are dropped, and the requests that the sink made are served. The query for the events of the thread returns, in order and up to the limit, one row for every
  begin or end event whose time is in the range, with the index that it has among all events of the thread,
  and the name, target, file and line of its span. (Blocks and times are in order and covered by the range of
  ticks, identifiers are not reused, and there are enough keys for the distinct texts and the blocks.)
\<close>

theorem spans_end_to_end:
  assumes "reach (he_su henv) w logs metrics spans" and "G_DISPATCH w = Some d" and "live d" and "LOCAL_THREAD_STREAM w tid = Some s"
    and "TracingThreadGuard_drop (he_su henv) ck tid w = Inr w1" and "TracingSystemGuard_drop (he_su henv) ck1 ck2 w1 = Inr w'"
    and "hd (sink_calls w') = OnStartup info" and "server_ok env henv" and "thread_metadata_ok henv" and "span_events_ok henv (spans tid)"
    and "list_all2 (answered henv info) (sent_events henv (sink_calls w')) rqs"
    and "list_all2 request_ok (sent_events henv (sink_calls w')) rqs"
    and "distinct (map block_key (concat (map (request_block (le_wire env) (he_addr henv)) rqs)))"
    and "stream_id (log_stream d) \<noteq> stream_id s" and "stream_id (metrics_stream d) \<noteq> stream_id s"
    and "bs = blocks_of_stream (stream_id s) (thread_blocks (sink_calls w'))" and "length bs \<le> ar_keys16 ar"
    and "ticks_cover info (thread_begin env info t1) (query_tick env info t2) bs"
    and "events = thread_rows xxh32 (su_memory (he_su henv)) (cs_spans (he_sites henv)) (cs_locations (he_sites henv)) (spans tid)"
    and "sorted (map (\<lambda>r. sint (event_time (query_ticks env info) r)) events)" and "event_rows_fit ar events"
  shows "\<exists>rows l'. map unplaced rows = events
    \<and> query_thread_events (Suc (Suc stack)) env ar xxh32 limit (stream_id s) t1 t2 (serve_all env (he_addr henv) rqs lake_init)
    = (Inr (thread_events_batch_of (query_ticks env info) (take (nat (sint limit))
        (filter (\<lambda>r. sint (query_nanos env info (thread_begin env info t1)) \<le> sint (event_time (query_ticks env info) r)
          \<and> sint (event_time (query_ticks env info) r) \<le> sint (query_nanos env info (thread_end env info t2 bs))) rows))), l')"
proof -
  obtain ls ms s0 ess where calls: "stopped_calls info ls ms (sink_calls w')" "stream_id ls = stream_id (log_stream d)"
    "stream_id ms = stream_id (metrics_stream d)" "OnInitThreadStream s0 \<in> set (sink_calls w')" "stream_id s0 = stream_id s"
    "list_all2 (\<lambda>b. thread_event.represents (su_abi (he_su henv)) (eb_events b)) bs ess" "concat ess = spans tid"
    "map eb_event_offset bs = map (\<lambda>i. length (concat (take i ess))) [0..<length bs]"
    using stopped_thread_calls [OF assms(1-4) _ _ assms(7)] assms(5,6) unfolding assms(16) TracingThreadGuard_drop_def TracingSystemGuard_drop_def by blast
  obtain s1 where s1: "stream_id s1 = stream_id s"
    "stream_sent henv info ProcessThreadBlock (sent_thread_stream henv s1) bs (sent_events henv (sink_calls w'))"
    using thread_sent [OF calls(1,4,5)] calls(2,3) assms(14,15) unfolding assms(16) by metis
  have lake: "lake_holds env henv (sent_events henv (sink_calls w')) rqs (serve_all env (he_addr henv) rqs lake_init)"
    by (rule serve_all_holds [OF assms(8,11-13)])
  obtain rows l' where rows: "map unplaced rows = events"
    "query_thread_events (Suc (Suc stack)) env ar xxh32 limit (stream_id s) t1 t2 (serve_all env (he_addr henv) rqs lake_init)
      = (Inr (thread_events_batch_of (query_ticks env info) (take (nat (sint limit))
        (rows_in_range (event_time (query_ticks env info)) (query_nanos env info (thread_begin env info t1))
          (query_nanos env info (thread_end env info t2 bs)) rows))), l')"
    using query_thread_events_finds [OF assms(8,9) s1(2) assms(11) lake calls(6) _ calls(8) assms(18,17) _ assms(21), where limit = limit and stack = stack and ?xxh32.0 = xxh32]
      assms(10,19) calls(7) s1(1) by auto
  have "map (\<lambda>r. sint (event_time (query_ticks env info) r)) events = map (\<lambda>r. sint (event_time (query_ticks env info) r)) rows"
    unfolding rows(1) [symmetric] by (simp add: unplaced_def event_time_def)
  then show ?thesis using rows rows_in_range_sorted [of "event_time (query_ticks env info)" rows] assms(20) by auto
qed

end
