(* ===== verification/Sample_Pipeline.thy ===== *)
theory Sample_Pipeline
  imports Sample_Threads Thread_Pipeline
begin

text \<open>
  A process with a thread that records the begin of a span, whose guard is the last one to be dropped.
\<close>

definition sample_thread :: EventStream where
  "sample_thread = EventStream_new sample_alloc 4 (sample_time 5) 1024 1 [''cpu''] [''thread-id'' \<mapsto> ''7'', ''thread-name'' \<mapsto> ''main'']"

definition sample_spanned :: world where
  "sample_spanned = sample_next (PushThread 0 sample_span_event) sample_registered"

definition sample_later :: clock where
  "sample_later = sample_clock\<lparr>ck_end := sample_time 10\<rparr>"

definition sample_left :: world where
  "sample_left = (case TracingThreadGuard_drop sample_surroundings sample_later 0 sample_spanned of Inr w \<Rightarrow> w | Inl _ \<Rightarrow> sample_spanned)"

definition sample_gone :: world where
  "sample_gone = (case TracingSystemGuard_drop sample_surroundings sample_clock sample_clock sample_left of Inr w \<Rightarrow> w | Inl _ \<Rightarrow> sample_left)"

lemma sample_thread_registered:
  "G_DISPATCH sample_registered = Some (sample_dispatch\<lparr>thread_streams := [0]\<rparr>)" "LOCAL_THREAD_STREAM sample_registered = [0 \<mapsto> sample_thread]"
  "sink_calls sample_registered = [OnStartup sample_info, OnInitLogStream sample_log_stream, OnInitMetricsStream sample_metrics_stream, OnInitThreadStream sample_thread]"
  by (simp_all add: sample_registered_def sample_next_def init_thread_stream_def Dispatch_init_thread_stream_def Let_def notify_eq sample_started_state
      sample_registered_state(1) sample_dispatch_def sample_thread_def sample_clock_def sample_surroundings_def fun_eq_iff)

lemma sample_spanned_reach: "reach sample_surroundings sample_spanned [] [] (\<lambda>t. if t = 0 then [sample_span_event] else [])"
proof -
  have su: "su_abi sample_surroundings = sample_abi" "su_alloc sample_surroundings = sample_alloc" by (simp_all add: sample_surroundings_def)
  have "reach sample_surroundings sample_started [] [] (\<lambda>_. [])"
    using reach_next [OF reach_init [of sample_surroundings None], of "Start sample_clock 1 2 3 1024 1024 1024"] sample_buffers
    by (simp add: sample_started_def su pushed_defs)
  from reach_next [OF this, of "RegisterThread sample_clock 4 0 ''7'' (Some ''main'')"]
  have r: "reach sample_surroundings sample_registered [] [] (\<lambda>_. [])"
    using sample_registered_state(1) by (simp add: sample_registered_def pushed_defs)
  have "pushed_spans sample_registered (PushThread 0 sample_span_event) = (\<lambda>t. if t = 0 then [sample_span_event] else [])"
    by (auto simp: pushed_spans_def sample_thread_registered fun_eq_iff)
  then show ?thesis
    using reach_next [OF r, of "PushThread 0 sample_span_event"] sample_events_valid by (simp add: su sample_spanned_def pushed_logs_def pushed_metrics_def)
qed

lemma sample_spanned_state:
  "\<exists>s. G_DISPATCH sample_spanned = Some (sample_dispatch\<lparr>thread_streams := [0]\<rparr>) \<and> LOCAL_THREAD_STREAM sample_spanned 0 = Some s
    \<and> sink_calls sample_spanned = sink_calls sample_registered \<and> thread_event.stream_holds sample_abi 0 [sample_span_event] s
    \<and> stream_id s = 4 \<and> eb_begin (get_block_ref s) = sample_time 5"
proof -
  have "thread_event.stream_holds sample_abi 0 [] sample_thread" unfolding sample_thread_def by (rule thread_event.stream_holds_new)
  from thread_event.stream_push_holds [OF this sample_events_valid(3), of sample_alloc] obtain s where
    s: "stream_push sample_alloc (ThreadEventQueue_items sample_abi) ThreadEventQueue_type_index sample_span_event sample_thread = Inr s"
    "thread_event.stream_holds sample_abi 0 [sample_span_event] s" "es_stream_desc s = es_stream_desc sample_thread" by auto
  have "stream_id s = 4" using s(3) by (simp add: stream_id_def sample_thread_def EventStream_new_def Let_def StreamDesc_new_def)
  moreover have "eb_begin (get_block_ref s) = sample_time 5"
    using s(1) by (auto simp: stream_push_def and_then_eq_Inr put_events_def get_block_ref_def sample_thread_def
      EventStream_new_def Let_def arc_new_def EventBlock_new_def)
  ultimately show ?thesis
    using s sample_thread_registered by (simp add: sample_spanned_def sample_next_def push_thread_event_def sample_surroundings_def)
qed

lemma sample_gone_state:
  "\<exists>s b. G_DISPATCH sample_spanned = Some (sample_dispatch\<lparr>thread_streams := [0]\<rparr>) \<and> LOCAL_THREAD_STREAM sample_spanned 0 = Some s \<and> stream_id s = 4
    \<and> TracingThreadGuard_drop sample_surroundings sample_later 0 sample_spanned = Inr sample_left
    \<and> TracingSystemGuard_drop sample_surroundings sample_clock sample_clock sample_left = Inr sample_gone
    \<and> sink_calls sample_gone = [OnStartup sample_info, OnInitLogStream sample_log_stream, OnInitMetricsStream sample_metrics_stream,
        OnInitThreadStream sample_thread, OnProcessThreadBlock b, OnShutdown]
    \<and> thread_event.represents sample_abi (eb_events b) [sample_span_event] \<and> eb_begin b = sample_time 5 \<and> eb_end b = Some (sample_time 10)
    \<and> eb_stream_id b = 4"
proof -
  obtain s where s: "G_DISPATCH sample_spanned = Some (sample_dispatch\<lparr>thread_streams := [0]\<rparr>)" "LOCAL_THREAD_STREAM sample_spanned 0 = Some s"
    "sink_calls sample_spanned = sink_calls sample_registered" "thread_event.stream_holds sample_abi 0 [sample_span_event] s" "stream_id s = 4"
    "eb_begin (get_block_ref s) = sample_time 5" using sample_spanned_state by blast
  from thread_event.flush_stream_block [OF s(4) _ sample_buffers, of "sample_time 5" "sample_time 10" 1] obtain s' b where
    b: "flush_stream sample_alloc (sample_time 5) (sample_time 10) 1024 1 s = Inr (s', Some b)"
    "thread_event.represents sample_abi (eb_events b) [sample_span_event]" "eb_end b = Some (sample_time 10)" "eb_begin b = sample_time 5"
    using s(6) by auto
  have "named sample_spanned (sample_dispatch\<lparr>thread_streams := [0]\<rparr>)" using reach_identified [OF sample_spanned_reach s(1)] by blast
  then have "owned 1 s" using s(2) by (simp add: named_def sample_dispatch_def)
  from owned_flush [OF b(1) this] have id: "eb_stream_id b = 4" using s(5) by auto
  have left: "TracingThreadGuard_drop sample_surroundings sample_later 0 sample_spanned = Inr sample_left"
    "G_DISPATCH sample_left = Some (sample_dispatch\<lparr>thread_streams := [0]\<rparr>)" "sink_calls sample_left = sink_calls sample_registered @ [OnProcessThreadBlock b]"
    using s b(1)
    by (simp_all add: sample_left_def TracingThreadGuard_drop_def flush_thread_buffer_def Dispatch_flush_thread_buffer_def notify_eq sample_dispatch_def
        sample_surroundings_def sample_later_def sample_clock_def)
  have "flush_stream al t1 t2 n pid sample_log_stream = Inr (sample_log_stream, None)"
    "flush_stream al t1 t2 n pid sample_metrics_stream = Inr (sample_metrics_stream, None)" for al t1 t2 n pid
    by (simp_all add: sample_log_stream_def sample_metrics_stream_def log_msg.flush_stream_empty [OF log_msg.stream_holds_new]
        metrics_msg.flush_stream_empty [OF metrics_msg.stream_holds_new])
  then have "\<exists>w. TracingSystemGuard_drop sample_surroundings sample_clock sample_clock sample_left = Inr w
      \<and> sink_calls w = sink_calls sample_left @ [OnShutdown]"
    using left(2)
    by (simp add: TracingSystemGuard_drop_def shutdown_telemetry_def run_defs Dispatch_flush_log_buffer_def Dispatch_flush_metrics_buffer_def Dispatch_shutdown_def
        notify_eq sample_dispatch_def sample_surroundings_def sample_clock_def)
  then show ?thesis using s b id left sample_thread_registered(3) by (auto simp: sample_gone_def)
qed

definition sample_gone_block :: EventBlock where
  "sample_gone_block = hd (thread_blocks (sink_calls sample_gone))"

lemma sample_gone_calls:
  "sink_calls sample_gone = [OnStartup sample_info, OnInitLogStream sample_log_stream, OnInitMetricsStream sample_metrics_stream,
     OnInitThreadStream sample_thread, OnProcessThreadBlock sample_gone_block, OnShutdown]"
  "thread_event.represents sample_abi (eb_events sample_gone_block) [sample_span_event]" "eb_begin sample_gone_block = sample_time 5"
  "eb_end sample_gone_block = Some (sample_time 10)" "eb_stream_id sample_gone_block = 4"
  "blocks_of_stream 4 (thread_blocks (sink_calls sample_gone)) = [sample_gone_block]"
  using sample_gone_state by (auto simp: sample_gone_block_def thread_blocks_def blocks_of_stream_def)

section \<open>Its requests\<close>

definition sample_gone_deps :: hqueue where
  "sample_gone_deps = (case ThreadEventQueue_extract sample_alloc sample_abi sample_memory sample_spans sample_locations (eb_events sample_gone_block) of
     Inr q \<Rightarrow> q | Inl _ \<Rightarrow> queue_new sample_alloc 0)"

definition sample_gone_blocks :: "Block list" where
  "sample_gone_blocks = [(sample_sent_block 12 sample_gone_block sample_gone_deps)\<lparr>bl_end_ticks := 5\<rparr>]"

definition sample_gone_streams :: "StreamInfo list" where
  "sample_gone_streams = sample_streams @ [thread_stream_info id sample_abi sample_thread]"

definition sample_gone_formats :: wire where
  "sample_gone_formats = sample_wire [sample_info] sample_gone_streams sample_gone_blocks"

definition sample_gone_requests :: "request list" where
  "sample_gone_requests =
     [\<lparr>rq_url = ''http://host/ingestion/insert_process'', rq_body = sample_encode finite_processes [sample_info] sample_info\<rparr>,
      \<lparr>rq_url = ''http://host/ingestion/insert_stream'', rq_body = sample_encode finite_streams sample_gone_streams (sample_gone_streams ! 0)\<rparr>,
      \<lparr>rq_url = ''http://host/ingestion/insert_stream'', rq_body = sample_encode finite_streams sample_gone_streams (sample_gone_streams ! 1)\<rparr>,
      \<lparr>rq_url = ''http://host/ingestion/insert_stream'', rq_body = sample_encode finite_streams sample_gone_streams (sample_gone_streams ! 2)\<rparr>,
      \<lparr>rq_url = ''http://host/ingestion/insert_block'', rq_body = sample_encode UNIV sample_gone_blocks (sample_gone_blocks ! 0)\<rparr>]"

lemma sample_spans_ok: "thread_metadata_ok (sample_http wi)" "span_events_ok (sample_http wi) [sample_span_event]"
proof -
  show "thread_metadata_ok (sample_http wi)"
    by (simp add: thread_metadata_ok_def sample_http_def sample_surroundings_def sample_layouts is_shuffle_def)
  have "consistent_actions ThreadDepsQueue_dep_id ThreadDepsQueue_refs (concat (map (span_actions sample_spans sample_locations) [sample_span_event]))"
    by (auto simp: sample_span_event_def consistent_actions_def scope_actions_def sample_spans_def sample_span_def sample_location_def
        span_strings_def location_strings_def span_record_def Let_def sample_str_def StaticString_from_StringId_def inj_on_def)
  then show "span_events_ok (sample_http wi) [sample_span_event]"
    by (simp add: span_events_ok_def sample_http_def sample_surroundings_def sample_sites_def)
      (simp add: sample_span_event_def scope_ok_def sample_spans_def sample_span_def sample_location_def span_strings_def location_strings_def sample_str_ok)
qed

lemma sample_gone_extracts:
  "ThreadEventQueue_extract sample_alloc sample_abi sample_memory sample_spans sample_locations (eb_events sample_gone_block) = Inr sample_gone_deps"
proof -
  let ?udts = "stream_metadata id (ThreadEventQueue_reflect_contained sample_abi)"
  let ?deps = "stream_metadata id (ThreadDepsQueue_reflect_contained sample_abi)"
  have "ThreadEventQueue_ready sample_abi sample_memory sample_spans sample_locations ?udts ?deps sample_span_event"
    using sample_spans_ok(2) by (intro span_ready sample_layouts sample_events_valid)
      (simp_all add: span_events_ok_def sample_http_def sample_surroundings_def sample_sites_def is_shuffle_def)
  then have "span_block.objects.represents sample_abi sample_memory sample_spans sample_locations ?udts ?deps (eb_events sample_gone_block) [sample_span_event]"
    using sample_gone_calls(2) by (simp add: thread_event.represents_def span_block.objects.represents_def)
  from span_block.extract_represents [OF this, of sample_alloc] show ?thesis by (auto simp: sample_gone_deps_def)
qed

lemma sample_gone_answered:
  "list_all2 (answered (sample_http sample_gone_formats) sample_info) (sent_events (sample_http sample_gone_formats) (sink_calls sample_gone)) sample_gone_requests"
proof -
  let ?h = "sample_http sample_gone_formats"
  have "ThreadBlock_encode_bin (he_wire ?h) (he_su ?h) (he_sites ?h) 12 sample_info sample_gone_block = Inr (sample_encode UNIV sample_gone_blocks (sample_gone_blocks ! 0))"
    using sample_gone_extracts sample_gone_calls(3,4)
    by (simp add: ThreadBlock_encode_bin_def encode_block_def compress_def sample_http_def sample_surroundings_def sample_sites_def sample_gone_formats_def
        sample_wire_def sample_gone_blocks_def sample_sent_block_def sample_time_def sample_info_def make_process_info_def sample_clock_def)
  then show ?thesis
    by (auto simp: sample_gone_calls(1) sent_events_def sample_gone_requests_def answered_def insert_url_def sample_gone_streams_def sample_streams_def)
      (auto simp: sample_http_def sample_gone_formats_def sample_wire_def sample_gone_streams_def sample_streams_def sample_surroundings_def)
qed

lemma sample_gone_requests_ok:
  "list_all2 request_ok (sent_events (sample_http sample_gone_formats) (sink_calls sample_gone)) sample_gone_requests"
proof -
  have "finite (dom (pi_properties sample_info))" by (simp add: sample_info_def make_process_info_def)
  moreover have "finite (dom (si_properties (log_stream_info f abi sample_log_stream)))"
    "finite (dom (si_properties (metrics_stream_info f abi sample_metrics_stream)))" "finite (dom (si_properties (thread_stream_info f abi sample_thread)))" for f abi
    by (simp_all add: log_stream_info_def metrics_stream_info_def thread_stream_info_def make_stream_info_def Let_def sample_log_stream_def
        sample_metrics_stream_def sample_thread_def desc_new)
  moreover have "length sample_gone_streams \<le> 3" "sample_gone_streams ! 0 \<in> set sample_gone_streams" "sample_gone_streams ! 1 \<in> set sample_gone_streams"
    "sample_gone_streams ! 2 \<in> set sample_gone_streams" "length sample_gone_blocks \<le> 3" "sample_gone_blocks ! 0 \<in> set sample_gone_blocks"
    by (simp_all add: sample_gone_streams_def sample_streams_def sample_gone_blocks_def)
  ultimately show ?thesis
    by (simp add: sample_gone_calls(1) sent_events_def sample_gone_requests_def request_ok_def sample_encode_body sample_info_fits)
qed

lemma sample_gone_served:
  "hd (sink_calls sample_gone) = OnStartup sample_info"
  "server_ok (sample_lake sample_gone_formats (\<lambda>_. False)) (sample_http sample_gone_formats)"
  "distinct (map block_key (concat (map (request_block sample_gone_formats ''http://host'') sample_gone_requests)))"
proof -
  show "hd (sink_calls sample_gone) = OnStartup sample_info" by (simp add: sample_gone_calls(1))
  show "server_ok (sample_lake sample_gone_formats (\<lambda>_. False)) (sample_http sample_gone_formats)"
    unfolding server_ok_def sample_environment using sample_lake_ok sample_wire_ok by (simp add: sample_gone_formats_def)
  show "distinct (map block_key (concat (map (request_block sample_gone_formats ''http://host'') sample_gone_requests)))"
    by (simp add: sample_gone_requests_def request_block_def sample_gone_formats_def sample_wire_def sample_codec countable_blocks)
qed

section \<open>The range of the query\<close>

lemma sample_gone_range:
  "thread_begin (sample_lake wi fails) sample_info 0 = 0" "thread_end (sample_lake wi fails) sample_info 1000000000 [sample_gone_block] = 5"
  "ticks_cover sample_info 0 1000 [sample_gone_block]"
proof -
  have "max 0 (le_timestamptz (sample_lake wi fails) (pi_start_time sample_info)) = 0"
    by (simp add: sample_lake_def sample_info_def make_process_info_def sample_clock_def)
  then show "thread_begin (sample_lake wi fails) sample_info 0 = 0" by (simp add: thread_begin_def sample_query_tick)
  have "pi_start_ticks sample_info = 5" by (simp add: sample_info_def make_process_info_def sample_clock_def)
  then show "thread_end (sample_lake wi fails) sample_info 1000000000 [sample_gone_block] = 5"
    by (simp add: thread_end_def sample_query_tick sample_gone_calls(4) sample_time_def min_i64_def)
  show "ticks_cover sample_info 0 1000 [sample_gone_block]"
    by (simp add: ticks_cover_def sample_gone_calls sample_time_def sample_info_def make_process_info_def sample_clock_def)
qed

lemma sample_gone_times:
  "query_nanos (sample_lake wi fails) sample_info 0 = 0" "query_nanos (sample_lake wi fails) sample_info 5 = 5000000"
  "ticks_to_nanoseconds (query_ticks (sample_lake wi fails) sample_info) 9 = 4000000"
proof -
  have "pi_start_ticks sample_info = 5" by (simp add: sample_info_def make_process_info_def sample_clock_def)
  moreover have "\<lfloor>1 / 2 :: rat\<rfloor> = 0" "\<lfloor>10000001 / 2 :: rat\<rfloor> = 5000000" "\<lfloor>8000001 / 2 :: rat\<rfloor> = 4000000" by (simp_all add: floor_eq_iff)
  ultimately show "query_nanos (sample_lake wi fails) sample_info 0 = 0" "query_nanos (sample_lake wi fails) sample_info 5 = 5000000"
    "ticks_to_nanoseconds (query_ticks (sample_lake wi fails) sample_info) 9 = 4000000"
    using fround_int [of 1000] fround_int [of 5] fround_int [of 4] fround_int [of 0] fround_int [of 1000000] fround_int [of 5000000] fround_int [of 4000000]
    by (simp_all add: query_nanos_def ticks_to_nanoseconds_def query_ticks_def sample_lake_def sample_info_def make_process_info_def sample_surroundings_def
        sample_clock_def f64_of_int_def f64_of_i64_def NANOS_PER_SEC_def ConvertTicks_new_def from_meta_data_def get_tsc_frequency_inverse_ns_def
        timestamp_nanos_def round_away_def clamp_i64_def Let_def)
qed

definition sample_event_row :: ThreadEventRow where
  "sample_event_row = \<lparr>te_id = 0, te_event_type = ''begin'', te_ts = 9, te_scope = sample_scope, te_block_id = []\<rparr>"

lemma sample_event_rows: "thread_rows sample_hash sample_memory sample_spans sample_locations [sample_span_event] = [sample_event_row]"
  using sample_texts by (simp add: thread_rows_def sample_span_event_def span_scope_def sample_spans_def sample_span_def sample_location_def Let_def
      sample_scope_def sample_event_row_def map_filter_simps)

end
