(* ===== verification/Spec2Isabelle.thy ===== *)
theory Spec2Isabelle
  imports Sample_Pipeline
begin

text \<open>
  \<^bold>\<open>Micromegas: in-process telemetry, its transport, and the queries on what it collected.\<close>

  A program that uses Micromegas (\<open>src/rust\<close>) records logs, metrics and spans into buffers of its own
  process. Buffers are handed block by block to a sink, which sends them to an ingestion server; the
  server stores payloads in an object store and one row per block in a database; queries find the
  blocks of a stream, parse their payloads and return tables. This library models these parts in the
  order in which an event travels through them, each theory beside the crate that it translates:

  \<^item> \<open>Prelude\<close>: results with errors as values (\<open>Panic\<close>, undefined behaviour \<open>UB\<close>, reported errors
    \<open>Err\<close>), lists of bytes, machine words.
  \<^item> Crate \<open>transit\<close>. \<open>Transit_Serialize\<close> (\<open>serialize.rs\<close>, \<open>parse_string.rs\<close>), \<open>Transit_Queue\<close>
    (\<open>heterogeneous_queue.rs\<close>), \<open>Transit_Reflect\<close> (\<open>reflect.rs\<close> and the derive macro; a reference to a slice, a \<open>str\<close> or a trait object takes two words), \<open>Transit_Parser\<close>
    (\<open>parser.rs\<close>), \<open>Transit_Codec\<close> (strings with a codec). The contracts are the locales
    \<open>in_proc_serialize\<close>, \<open>hetero_queue\<close> and \<open>parsed_queue\<close>: what is pushed is what is iterated over and
    what is parsed.
  \<^item> Crate \<open>tracing\<close>, data. \<open>Levels\<close>, \<open>Log_Filter\<close> (the cell that caches the filter of a call site,
    under all interleavings), \<open>Tracing_Strings\<close>, \<open>Dependencies\<close>, \<open>Metrics\<close>, \<open>Logs\<close>, \<open>Spans\<close>: the
    events, their layouts, and the dependencies that a block of them needs. \<open>Block_Codec\<close> proves once,
    in the locale \<open>block_codec\<close>, that a block survives its trip; the three kinds of blocks interpret it.
  \<^item> Crate \<open>tracing\<close>, state. \<open>Event_Stream\<close> (blocks and streams), \<open>Dispatch\<close> (\<open>dispatch.rs\<close>, the macros),
    \<open>Guards\<close> (guards, panic hook, flush monitor). \<open>Dispatch_History\<close> splits every operation into the
    sections that run under one lock, lets the sections of all threads interleave (\<open>reach\<close>), and proves
    the invariant that relates each stream to what was pushed to it and what the sink received.
    \<open>Stream_Identity\<close> adds whose calls these are.
  \<^item> Crate \<open>telemetry-sink\<close>. \<open>Composite_Sink\<close> (\<open>composite_event_sink.rs\<close>), \<open>Http_Sink\<close> (\<open>http_event_sink.rs\<close>: the
    senders and the worker interleave in \<open>http_reach\<close>; the worker alone, after the drop, is \<open>worker_step\<close>), \<open>Wire\<close> and \<open>Stream_Info\<close> (what leaves the process),
    \<open>Interop\<close> (\<open>log_interop.rs\<close>, \<open>tracing_interop.rs\<close>, \<open>local_event_sink.rs\<close>), \<open>Telemetry_Guard\<close> (\<open>lib.rs\<close>, the
    decorators of requests: the builder and its guards, which the threads build and drop in any order, with the
    panics and the Ctrl+C that stop the dispatcher in between).
  \<^item> Server and lake. \<open>Data_Lake\<close> (crate \<open>ingestion\<close>, \<open>blob_storage.rs\<close>, \<open>metadata.rs\<close>: every external call
    may fail, and a process with a text longer than its column is refused, \<open>process_fits\<close>; the triples of that theory
    say what holds whatever fails), \<open>Ingestion\<close> (the routes of the
    server, and what the lake holds after it served a process).
  \<^item> Crate \<open>analytics\<close>, rows of events. \<open>Float64\<close>, \<open>Float_Bits\<close> and \<open>Convert_Ticks\<close> (\<open>time.rs\<close>, doubles and
    their bits), \<open>Arrow\<close> (columns and record batches), \<open>Row_Scan\<close> (the locale of the queries that read
    block after block until the limit or the end of the range), \<open>Log_Query\<close>, \<open>Metrics_Query\<close> and \<open>Thread_Events\<close>
    (one query each, with its table), which interpret it.
  \<^item> Crate \<open>analytics\<close>, spans. \<open>Thread_Blocks\<close> (\<open>thread_block_processor.rs\<close>), \<open>Call_Tree\<close> (\<open>call_tree.rs\<close>, for
    any blocks), \<open>Call_Tree_Window\<close> (for the blocks of a window of a well nested trace: the tree that the
    window stands for), \<open>Span_Table\<close> (\<open>span_table.rs\<close>), \<open>Query_Spans\<close> (\<open>query_spans.rs\<close>).
  \<^item> Crate \<open>analytics\<close>, metadata and service. \<open>Sql_Arrow\<close> (\<open>sql_arrow_bridge.rs\<close>: rows of the database as
    record batches), \<open>Analytics_Service\<close> (\<open>analytics_service.rs\<close>, the queries for processes, streams and
    blocks, and the routes of \<open>analytics-srv\<close>: what was announced to the ingestion server is what they find).
  \<^item> Composition. \<open>Pipeline\<close> relates what a stopped process sent to what a query finds, for any kind of
    stream; \<open>Log_Pipeline\<close>, \<open>Metrics_Pipeline\<close> and \<open>Thread_Pipeline\<close> conclude for each kind that what a process
    recorded is what a query returns.
  \<^item> \<open>Sample\<close>, \<open>Sample_Services\<close>, \<open>Sample_Threads\<close>, \<open>Sample_Pipeline\<close>: the concrete processes, formats, network
    and lake of the witnesses.

  The properties are numbered C1, C2, \<dots> where they are stated; those that span several theories, and
  all witnesses, are in this theory.

  \<^bold>\<open>What is a parameter.\<close> Code outside of the repository is an argument, with what the code relies on as a
  named hypothesis: the layout of structures (\<open>abi\<close>, \<open>layout_ok\<close>), the growth of vectors (\<open>vec_alloc\<close>), the
  memory behind static strings (\<open>memory\<close>), clocks, identifiers, host data and the answers of a sink
  (\<open>surroundings\<close>), the iteration order of hash sets (\<open>is_shuffle\<close>), lz4, CBOR and dates (\<open>wire\<close>, \<open>wire_ok\<close>),
  the HTTP client (\<open>http_env\<close>, \<open>http_works\<close>), the database and the object store (\<open>lake_env\<close>, \<open>reliable\<close>,
  \<open>paths_ok\<close>, \<open>names_ok\<close>, \<open>iter_ok\<close>), Arrow dictionaries (\<open>arrow\<close>), the hash of a scope (\<open>xxhash\<close>), the decoders of
  requests and the Parquet writer of the analytics server, and the environment variables and the
  global subscriber that the start-up finds (\<open>start_env\<close>).

  \<^bold>\<open>Bounds.\<close> Parsing an object takes a bound on the depth of the stack; two levels are enough for every
  event of the crates, and the round trips are proved for every bound of at least two. Arithmetic is
  that of a release build: machine integers wrap. Doubles are rationals rounded to 53 significant bits;
  their exponents are not bounded, which is far from the range of ticks and times. A sink does not
  call back into the dispatcher from within a call, and \<open>reach\<close> has no section for a thread that ends
  (\<open>exited_thread_dangles\<close> shows what follows when one does). Stopping the dispatcher is one section of its own
  (\<open>Stop\<close>): the code swaps the sink of the static dispatcher without a lock, so a swap that another thread
  sees in part is outside of the model. Rows that a query orders by equal keys keep the order in which they were inserted,
  of which the database says nothing. Times that are stored or bound to a query have the precision of the
  database (\<open>le_timestamptz\<close>).

  \<^bold>\<open>Not modelled.\<close> Reading the clock of the processor (\<open>tracing/src/time.rs\<close>), which is only an effect; the
  command lines of the binaries and the connections to services; the attribute macros
  (\<open>tracing/proc-macros\<close>), which insert a call of a macro that is modelled; the text form of identifiers
  (\<open>transit/src/uuid_utils.rs\<close>), which is part of the formats; the functions of \<open>analytics/src/lib.rs\<close> that no
  service calls and whose queries the database does not accept; the sources under \<open>analytics-srv/src\<close> that
  belong to no crate (an older lakehouse, not compiled); the administration command line; re-exports,
  tests and benchmarks.
\<close>

section \<open>Blocks of events, end to end\<close>

text \<open>
  C1. A block of metrics survives its trip. Pushing any events into a queue succeeds, the
  dependencies that the queue extracts are accepted by the reader, and parsing the buffer against
  them and against the metadata that the stream announces shows the reader every event, in order,
  with its call site and its texts resolved.
\<close>

theorem metrics_block_roundtrip:
  assumes "layout_ok abi IntegerMetricEvent_decl" and "layout_ok abi FloatMetricEvent_decl"
    and "layout_ok abi MetricMetadataRecord_decl"
    and "list_all (\<lambda>e. \<exists>m. descs (metric_desc e) = Some m \<and> list_all (str_ok mem) (metric_strings m)) es"
    and "consistent_actions MetricsDepsQueue_dep_id MetricsDepsQueue_refs (concat (map (metric_actions descs) es))"
  shows "\<exists>q dq h. push_all al (MetricsMsgQueue_items abi) MetricsMsgQueue_type_index es (queue_new al n) = Inr q
    \<and> MetricsMsgQueue_extract al abi mem descs q = Inr dq
    \<and> read_dependencies (Suc (Suc stack)) (stream_metadata dep_shuffle (MetricsDepsQueue_reflect_contained abi)) (q_buffer dq) = Inr h
    \<and> parse_object_buffer (Suc (Suc stack)) h (stream_metadata shuffle (MetricsMsgQueue_reflect_contained abi)) (q_buffer q) f s
        = feed f s (map (metric_meaning mem descs) es)"
proof -
  let ?ready = "MetricsMsgQueue_ready abi mem descs (stream_metadata shuffle (MetricsMsgQueue_reflect_contained abi))
    (stream_metadata dep_shuffle (MetricsDepsQueue_reflect_contained abi))"
  have "list_all ?ready es" using assms metric_ready by (fastforce simp: list_all_iff)
  then show ?thesis by (rule metrics_block.full_roundtrip [OF _ assms(5)])
qed

theorem metrics_block_roundtrip_witness:
  "\<exists>q dq h. push_all sample_alloc (MetricsMsgQueue_items sample_abi) MetricsMsgQueue_type_index
      [IntegerMetricEvent \<lparr>ime_desc = 100, ime_value = 5, ime_time = 10\<rparr>,
       FloatMetricEvent \<lparr>fme_desc = 100, fme_value = 6, fme_time = 11\<rparr>] (queue_new sample_alloc 1024) = Inr q
    \<and> MetricsMsgQueue_extract sample_alloc sample_abi sample_memory sample_metrics q = Inr dq
    \<and> read_dependencies 2 (stream_metadata id (MetricsDepsQueue_reflect_contained sample_abi)) (q_buffer dq) = Inr h
    \<and> parse_object_buffer 2 h (stream_metadata id (MetricsMsgQueue_reflect_contained sample_abi)) (q_buffer q)
        (\<lambda>seen v. Inr (seen @ [v], True)) []
      = Inr (map (metric_meaning sample_memory sample_metrics)
         [IntegerMetricEvent \<lparr>ime_desc = 100, ime_value = 5, ime_time = 10\<rparr>,
          FloatMetricEvent \<lparr>fme_desc = 100, fme_value = 6, fme_time = 11\<rparr>], True)"
proof -
  let ?es = "[IntegerMetricEvent \<lparr>ime_desc = 100, ime_value = 5, ime_time = 10\<rparr>,
    FloatMetricEvent \<lparr>fme_desc = 100, fme_value = 6, fme_time = 11\<rparr>]"
  have "list_all (\<lambda>e. \<exists>m. sample_metrics (metric_desc e) = Some m \<and> list_all (str_ok sample_memory) (metric_strings m)) ?es"
    by (simp add: sample_metrics_def sample_metric_def metric_strings_def sample_str_ok)
  moreover have "consistent_actions MetricsDepsQueue_dep_id MetricsDepsQueue_refs (concat (map (metric_actions sample_metrics) ?es))"
    by (auto simp: consistent_actions_def metric_actions_def sample_metrics_def sample_metric_def metric_strings_def
        metric_record_def sample_str_def inj_on_def)
  ultimately show ?thesis
    using metrics_block_roundtrip [OF sample_layouts(2-4), of sample_metrics sample_memory ?es sample_alloc 1024 0 id id
        "\<lambda>seen v. Inr (seen @ [v], True)" "[]"]
    by (simp add: numeral_2_eq_2)
qed

text \<open>
  C2. A block of logs survives its trip, whatever mix of static strings, formatted strings and
  records of foreign loggers it holds.
\<close>

theorem log_block_roundtrip:
  assumes "layout_ok abi StringId_decl" and "layout_ok abi LogMetadataRecord_decl" and "is_shuffle shuffle"
    and "list_all (LogMsgQueue_valid abi) es" and "list_all (log_refs_ok mem descs) es"
    and "consistent_actions LogDepsQueue_dep_id LogDepsQueue_refs (concat (map (log_actions descs) es))"
  shows "\<exists>q dq h. push_all al (LogMsgQueue_items abi) LogMsgQueue_type_index es (queue_new al n) = Inr q
    \<and> LogMsgQueue_extract al abi mem descs q = Inr dq
    \<and> read_dependencies (Suc (Suc stack)) (stream_metadata dep_shuffle (LogDepsQueue_reflect_contained abi)) (q_buffer dq) = Inr h
    \<and> parse_object_buffer (Suc (Suc stack)) h (stream_metadata shuffle (LogMsgQueue_reflect_contained abi)) (q_buffer q) f s
        = feed f s (map (log_meaning mem descs) es)"
proof -
  let ?ready = "LogMsgQueue_ready abi mem descs (stream_metadata shuffle (LogMsgQueue_reflect_contained abi))
    (stream_metadata dep_shuffle (LogDepsQueue_reflect_contained abi))"
  have "list_all ?ready es" using assms(4,5) log_ready [OF assms(1-3)] by (simp add: list_all_iff)
  then show ?thesis by (rule log_block.full_roundtrip [OF _ assms(6)])
qed

theorem log_block_roundtrip_witness:
  "\<exists>q dq h. push_all sample_alloc (LogMsgQueue_items sample_abi) LogMsgQueue_type_index
      [LogStringEvent \<lparr>ls_desc = 100, ls_time = 10, ls_dyn_str = ''hi''\<rparr>,
       LogStringInteropEvent \<lparr>li_time = 11, li_level = 2, li_target = \<lparr>sid_ptr = 9, sid_len = 1\<rparr>, li_msg = ''yo''\<rparr>]
      (queue_new sample_alloc 1024) = Inr q
    \<and> LogMsgQueue_extract sample_alloc sample_abi sample_memory sample_logs q = Inr dq
    \<and> read_dependencies 2 (stream_metadata id (LogDepsQueue_reflect_contained sample_abi)) (q_buffer dq) = Inr h
    \<and> parse_object_buffer 2 h (stream_metadata id (LogMsgQueue_reflect_contained sample_abi)) (q_buffer q)
        (\<lambda>seen v. Inr (seen @ [v], True)) []
      = Inr (map (log_meaning sample_memory sample_logs)
         [LogStringEvent \<lparr>ls_desc = 100, ls_time = 10, ls_dyn_str = ''hi''\<rparr>,
          LogStringInteropEvent \<lparr>li_time = 11, li_level = 2, li_target = \<lparr>sid_ptr = 9, sid_len = 1\<rparr>, li_msg = ''yo''\<rparr>], True)"
proof -
  let ?es = "[LogStringEvent \<lparr>ls_desc = 100, ls_time = 10, ls_dyn_str = ''hi''\<rparr>,
    LogStringInteropEvent \<lparr>li_time = 11, li_level = 2, li_target = \<lparr>sid_ptr = 9, sid_len = 1\<rparr>, li_msg = ''yo''\<rparr>]"
  have ascii: "is_utf8 (bytes_of_string ''hi'')" "is_utf8 (bytes_of_string ''yo'')"
    by (rule is_utf8_ascii; code_simp)+
  have "abi_size sample_abi ''StringId'' = 16" by (simp add: sample_abi_def)
  then have valid: "list_all (LogMsgQueue_valid sample_abi) ?es"
    by (simp add: LogStringEvent_valid_def LogStringInteropEvent_valid_def sample_layouts ascii)
  have refs: "list_all (log_refs_ok sample_memory sample_logs) ?es"
    by (simp add: log_desc_ok_def sample_logs_def sample_log_def log_strings_def sample_str_ok sample_readable)
  have "consistent_actions LogDepsQueue_dep_id LogDepsQueue_refs (concat (map (log_actions sample_logs) ?es))"
    by (auto simp: consistent_actions_def log_desc_actions_def sample_logs_def sample_log_def log_strings_def
        log_record_def sample_str_def StaticString_from_StringId_def inj_on_def)
  from log_block_roundtrip [OF sample_layouts(1,7) _ valid refs this, of id sample_alloc 1024 0 id
      "\<lambda>seen v. Inr (seen @ [v], True)" "[]"]
  show ?thesis by (simp add: numeral_2_eq_2 is_shuffle_def)
qed

text \<open>
  C3. A block of thread spans survives its trip: begin and end events of synchronous and
  asynchronous spans, named or not.
\<close>

theorem span_block_roundtrip:
  assumes "layout_ok abi SpanRecord_decl" and "layout_ok abi SpanLocationRecord_decl" and "is_shuffle shuffle"
    and "list_all (ThreadEventQueue_valid abi) es" and "list_all (span_refs_ok mem spans locations) es"
    and "consistent_actions ThreadDepsQueue_dep_id ThreadDepsQueue_refs (concat (map (span_actions spans locations) es))"
  shows "\<exists>q dq h. push_all al (ThreadEventQueue_items abi) ThreadEventQueue_type_index es (queue_new al n) = Inr q
    \<and> ThreadEventQueue_extract al abi mem spans locations q = Inr dq
    \<and> read_dependencies (Suc (Suc stack)) (stream_metadata dep_shuffle (ThreadDepsQueue_reflect_contained abi)) (q_buffer dq) = Inr h
    \<and> parse_object_buffer (Suc (Suc stack)) h (stream_metadata shuffle (ThreadEventQueue_reflect_contained abi)) (q_buffer q) f s
        = feed f s (map (span_meaning mem spans locations) es)"
proof -
  let ?ready = "ThreadEventQueue_ready abi mem spans locations (stream_metadata shuffle (ThreadEventQueue_reflect_contained abi))
    (stream_metadata dep_shuffle (ThreadDepsQueue_reflect_contained abi))"
  have "list_all ?ready es" using assms(4,5) span_ready [OF assms(1-3)] by (simp add: list_all_iff)
  then show ?thesis by (rule span_block.full_roundtrip [OF _ assms(6)])
qed

theorem span_block_roundtrip_witness:
  "\<exists>q dq h. push_all sample_alloc (ThreadEventQueue_items sample_abi) ThreadEventQueue_type_index
      [BeginThreadSpanEvent \<lparr>ts_thread_span_desc = 100, ts_time = 10\<rparr>,
       BeginThreadNamedSpanEvent \<lparr>tn_thread_span_location = 200, tn_name = \<lparr>sid_ptr = 9, sid_len = 1\<rparr>, tn_time = 11\<rparr>]
      (queue_new sample_alloc 1024) = Inr q
    \<and> ThreadEventQueue_extract sample_alloc sample_abi sample_memory sample_spans sample_locations q = Inr dq
    \<and> read_dependencies 2 (stream_metadata id (ThreadDepsQueue_reflect_contained sample_abi)) (q_buffer dq) = Inr h
    \<and> parse_object_buffer 2 h (stream_metadata id (ThreadEventQueue_reflect_contained sample_abi)) (q_buffer q)
        (\<lambda>seen v. Inr (seen @ [v], True)) []
      = Inr (map (span_meaning sample_memory sample_spans sample_locations)
         [BeginThreadSpanEvent \<lparr>ts_thread_span_desc = 100, ts_time = 10\<rparr>,
          BeginThreadNamedSpanEvent \<lparr>tn_thread_span_location = 200, tn_name = \<lparr>sid_ptr = 9, sid_len = 1\<rparr>, tn_time = 11\<rparr>], True)"
proof -
  let ?es = "[BeginThreadSpanEvent \<lparr>ts_thread_span_desc = 100, ts_time = 10\<rparr>,
    BeginThreadNamedSpanEvent \<lparr>tn_thread_span_location = 200, tn_name = \<lparr>sid_ptr = 9, sid_len = 1\<rparr>, tn_time = 11\<rparr>]"
  have valid: "list_all (ThreadEventQueue_valid sample_abi) ?es"
    by (simp add: ThreadEventQueue_valid_def sample_layouts)
  have refs: "list_all (span_refs_ok sample_memory sample_spans sample_locations) ?es"
    by (simp add: scope_ok_def named_scope_ok_def sample_spans_def sample_span_def sample_locations_def sample_location_def
        span_strings_def location_strings_def sample_str_ok sample_readable)
  have "consistent_actions ThreadDepsQueue_dep_id ThreadDepsQueue_refs (concat (map (span_actions sample_spans sample_locations) ?es))"
    by (auto simp: consistent_actions_def scope_actions_def named_scope_actions_def sample_spans_def sample_span_def
        sample_locations_def sample_location_def span_strings_def location_strings_def span_record_def span_location_record_def
        Let_def sample_str_def StaticString_from_StringId_def inj_on_def)
  from span_block_roundtrip [OF sample_layouts(8,9) _ valid refs this, of id sample_alloc 1024 0 id
      "\<lambda>seen v. Inr (seen @ [v], True)" "[]"]
  show ?thesis by (simp add: numeral_2_eq_2 is_shuffle_def)
qed

section \<open>The dispatcher under any interleaving\<close>

text \<open>
  C4. In every state that the threads of a process can reach, the sink accounts for the events of
  each stream: what it received of the logs, of the metrics and of every thread is the beginning of
  what was pushed there, in order, with offsets that say where each block starts; while the sink
  is connected, the rest is in the current block.
\<close>

theorem dispatcher_accounts:
  assumes "reach su w logs metrics spans" and "G_DISPATCH w = Some d"
  shows "accounted (LogMsgQueue_items (su_abi su)) (live d) (log_blocks (sink_calls w)) logs (log_stream d)
    \<and> accounted (MetricsMsgQueue_items (su_abi su)) (live d) (metrics_blocks (sink_calls w)) metrics (metrics_stream d)
    \<and> (\<forall>t s. LOCAL_THREAD_STREAM w t = Some s \<longrightarrow>
         accounted (ThreadEventQueue_items (su_abi su)) (live d)
           (blocks_of_stream (stream_id s) (thread_blocks (sink_calls w))) (spans t) s)"
proof -
  have "dispatcher_inv su d (sink_calls w) logs metrics spans (LOCAL_THREAD_STREAM w)"
    using reach_inv [OF assms(1)] assms(2) by (simp add: world_inv_def)
  then show ?thesis
    by (auto simp: dispatcher_inv_def threads_inv_def log_msg.delivers_read metrics_msg.delivers_read thread_event.delivers_read)
qed

lemma sample_dispatch: "\<exists>d. G_DISPATCH sample_world = Some d \<and> live d"
  using sample_reach by (auto simp: get_sink_def)

theorem dispatcher_accounts_witness:
  "\<exists>d. G_DISPATCH sample_world = Some d
    \<and> accounted (LogMsgQueue_items sample_abi) True (log_blocks (sink_calls sample_world)) [sample_log_event] (log_stream d)
    \<and> accounted (MetricsMsgQueue_items sample_abi) True (metrics_blocks (sink_calls sample_world)) [sample_metric_event]
        (metrics_stream d)"
proof -
  obtain d where d: "G_DISPATCH sample_world = Some d" "live d" using sample_dispatch by blast
  have "su_abi sample_surroundings = sample_abi" by (simp add: sample_surroundings_def)
  then show ?thesis using dispatcher_accounts [OF conjunct1 [OF sample_reach] d(1)] d by auto
qed

text \<open>
  C5. A metric is recorded: once the dispatcher exists, recording an integer or a float never fails,
  however full the stream is, and adds exactly that event to the metrics of the process.
\<close>

theorem metrics_recorded:
  assumes "reach su w logs metrics spans" and "G_DISPATCH w \<noteq> None"
    and "layout_ok (su_abi su) IntegerMetricEvent_decl" and "layout_ok (su_abi su) FloatMetricEvent_decl"
  shows "\<exists>w1 w2. int_metric su ck desc val w = Inr w1
    \<and> reach su w1 logs (metrics @ [IntegerMetricEvent \<lparr>ime_desc = desc, ime_value = val, ime_time = ck_now ck\<rparr>]) spans
    \<and> float_metric su ck desc val w = Inr w2
    \<and> reach su w2 logs (metrics @ [FloatMetricEvent \<lparr>fme_desc = desc, fme_value = val, fme_time = ck_now ck\<rparr>]) spans"
proof -
  have "MetricsMsgQueue_valid (su_abi su) (IntegerMetricEvent \<lparr>ime_desc = desc, ime_value = val, ime_time = ck_now ck\<rparr>)"
    "MetricsMsgQueue_valid (su_abi su) (FloatMetricEvent \<lparr>fme_desc = desc, fme_value = val, fme_time = ck_now ck\<rparr>)"
    using assms(3,4) by (simp_all add: MetricsMsgQueue_valid_def)
  then show ?thesis
    using push_metric_reach [OF assms(1) _ assms(2), of _ ck] unfolding metric_sections by blast
qed

theorem metrics_recorded_witness:
  "\<exists>w1. int_metric sample_surroundings sample_clock 100 42 sample_world = Inr w1
    \<and> reach sample_surroundings w1 [sample_log_event]
        [sample_metric_event, IntegerMetricEvent \<lparr>ime_desc = 100, ime_value = 42, ime_time = 5\<rparr>]
        (\<lambda>t. if t = 0 then [sample_span_event] else [])"
proof -
  have "layout_ok (su_abi sample_surroundings) IntegerMetricEvent_decl" "layout_ok (su_abi sample_surroundings) FloatMetricEvent_decl"
    using sample_layouts by (simp_all add: sample_surroundings_def)
  from metrics_recorded [OF conjunct1 [OF sample_reach] _ this, of sample_clock 100 42] show ?thesis
    using sample_dispatch by (auto simp: sample_clock_def)
qed

text \<open>
  C6. A logging macro never fails, and it records its event exactly when the level passes the static
  maximum and the maximum of the process, the dispatcher is connected and the sink wants the log.
\<close>

theorem log_macro_records:
  assumes "reach su w logs metrics spans" and "LogMsgQueue_valid (su_abi su) (log_event ck desc args)"
  shows "\<exists>w'. log_macro su ck desc m args w = Inr w'
    \<and> reach su w' (if Level_as_u32 (lm_level m) \<le> LevelFilter_as_u32 (su_static_max_level su)
        \<and> Level_as_u32 (lm_level m) \<le> MAX_LEVEL_FILTER (MAXIMA w)
        \<and> (\<exists>d. G_DISPATCH w = Some d \<and> live d \<and> su_log_enabled su (sink_calls w) m)
      then logs @ [log_event ck desc args] else logs) metrics spans"
  using log_macro_reach [OF assms, of m] by (auto simp: records_log_def split: if_splits)

theorem log_macro_records_witness:
  "\<exists>w'. log_macro sample_surroundings sample_clock 100 sample_log (Literal (sample_str 1)) sample_world = Inr w'
    \<and> reach sample_surroundings w' (if Level_as_u32 Warn \<le> MAX_LEVEL_FILTER (MAXIMA sample_world)
        then [sample_log_event, LogStaticStrEvent \<lparr>lse_desc = 100, lse_time = 5\<rparr>] else [sample_log_event])
        [sample_metric_event] (\<lambda>t. if t = 0 then [sample_span_event] else [])"
proof -
  let ?args = "Literal (sample_str 1)"
  have e: "log_event sample_clock 100 ?args = LogStaticStrEvent \<lparr>lse_desc = 100, lse_time = 5\<rparr>"
    by (simp add: log_event_def sample_clock_def)
  have "LogMsgQueue_valid (su_abi sample_surroundings) (log_event sample_clock 100 ?args)"
    unfolding e using sample_layouts(5) by (simp add: sample_surroundings_def)
  moreover have "lm_level sample_log = Warn" "su_static_max_level sample_surroundings = FilterTrace"
    "su_log_enabled sample_surroundings = (\<lambda>_ _. True)" by (simp_all add: sample_log_def sample_surroundings_def)
  ultimately show ?thesis
    using log_macro_records [OF conjunct1 [OF sample_reach], of sample_clock 100 ?args sample_log] sample_dispatch
    by (auto simp: e split: if_splits)
qed

text \<open>
  C7. A span guard of a registered thread brackets what happens between its creation and its end:
  creating it adds the begin event of its span to the events of the thread, and dropping it, in
  whatever state, adds the end event of the same span.
\<close>

theorem span_guard_brackets:
  assumes "reach su w logs metrics spans" and "LOCAL_THREAD_STREAM w t \<noteq> None"
    and "ThreadEventQueue_valid (su_abi su) (BeginThreadSpanEvent \<lparr>ts_thread_span_desc = desc, ts_time = ck_now ck\<rparr>)"
    and "ThreadEventQueue_valid (su_abi su) (EndThreadSpanEvent \<lparr>ts_thread_span_desc = desc, ts_time = ck_now ck'\<rparr>)"
  shows "\<exists>g w1. ThreadSpanGuard_new su ck t desc w = Inr (g, w1)
    \<and> reach su w1 logs metrics
        (spans(t := spans t @ [BeginThreadSpanEvent \<lparr>ts_thread_span_desc = desc, ts_time = ck_now ck\<rparr>]))
    \<and> (\<forall>w2 logs2 metrics2 spans2. reach su w2 logs2 metrics2 spans2 \<longrightarrow> LOCAL_THREAD_STREAM w2 t \<noteq> None \<longrightarrow>
         (\<exists>w3. ThreadSpanGuard_drop su ck' t g w2 = Inr w3 \<and> reach su w3 logs2 metrics2
           (spans2(t := spans2 t @ [EndThreadSpanEvent \<lparr>ts_thread_span_desc = desc, ts_time = ck_now ck'\<rparr>]))))"
proof -
  obtain w1 where "on_begin_scope su ck t desc w = Inr w1"
    "reach su w1 logs metrics (spans(t := spans t @ [BeginThreadSpanEvent \<lparr>ts_thread_span_desc = desc, ts_time = ck_now ck\<rparr>]))"
    using on_thread_event_reach [OF assms(1,3,2), of ck] by (auto simp: on_begin_scope_def)
  then show ?thesis
    using on_thread_event_reach [OF _ assms(4)]
    by (auto simp: ThreadSpanGuard_new_def ThreadSpanGuard_drop_def on_end_scope_def)
qed

theorem span_guard_brackets_witness:
  "\<exists>g w1 w3. ThreadSpanGuard_new sample_surroundings sample_clock 0 100 sample_world = Inr (g, w1)
    \<and> ThreadSpanGuard_drop sample_surroundings sample_clock 0 g sample_world = Inr w3"
proof -
  have "ThreadEventQueue_valid (su_abi sample_surroundings) (BeginThreadSpanEvent \<lparr>ts_thread_span_desc = 100, ts_time = ck_now sample_clock\<rparr>)"
    "ThreadEventQueue_valid (su_abi sample_surroundings) (EndThreadSpanEvent \<lparr>ts_thread_span_desc = 100, ts_time = ck_now sample_clock\<rparr>)"
    using sample_layouts by (simp_all add: ThreadEventQueue_valid_def sample_surroundings_def)
  from span_guard_brackets [OF _ _ this, of sample_world _ _ _ 0] show ?thesis using sample_reach by blast
qed

section \<open>The life cycle\<close>

theorem shutdown_delivers_witness:
  "\<exists>w' lss. shutdown_telemetry sample_surroundings sample_clock sample_clock sample_world = Inr w'
    \<and> traverse (\<lambda>b. queue_iter (LogMsgQueue_items sample_abi) (eb_events b)) (log_blocks (sink_calls w')) = Inr lss
    \<and> concat lss = [sample_log_event] \<and> last (sink_calls w') = OnShutdown"
proof -
  obtain d where d: "G_DISPATCH sample_world = Some d" "live d" using sample_dispatch by blast
  have "su_abi sample_surroundings = sample_abi" by (simp add: sample_surroundings_def)
  then show ?thesis
    using shutdown_delivers [OF conjunct1 [OF sample_reach] d, of sample_clock sample_clock] by auto
qed

theorem sections_stopped_witness:
  "\<exists>w1 w2. shutdown_dispatch sample_world = Inr w1
    \<and> fold_res (run_section sample_surroundings) [PushLog sample_log_event, FlushLog sample_clock] w1 = Inr w2
    \<and> sink_calls w2 = sink_calls sample_world @ [OnShutdown] \<and> log_enabled sample_surroundings sample_log w2 = (False, w2)"
proof -
  obtain d where d: "G_DISPATCH sample_world = Some d" "live d" using sample_dispatch by blast
  obtain w1 where w1: "shutdown_dispatch sample_world = Inr w1"
    "reach sample_surroundings w1 [sample_log_event] [sample_metric_event] (\<lambda>t. if t = 0 then [sample_span_event] else [])"
    using reach_quiet [OF conjunct1 [OF sample_reach], of Stop] by (auto simp: quiet_def)
  have "section_ok sample_surroundings w1 (PushLog sample_log_event)"
    using sample_events_valid by (simp add: sample_surroundings_def)
  then obtain w2 where w2: "run_section sample_surroundings (PushLog sample_log_event) w1 = Inr w2"
    "reach sample_surroundings w2 ([sample_log_event] @ pushed_logs w1 (PushLog sample_log_event))
      ([sample_metric_event] @ pushed_metrics w1 (PushLog sample_log_event))
      (\<lambda>t. (if t = 0 then [sample_span_event] else []) @ pushed_spans w1 (PushLog sample_log_event) t)"
    using reach_step [OF w1(2)] by blast
  then obtain w3 where "run_section sample_surroundings (FlushLog sample_clock) w2 = Inr w3"
    using reach_step [OF w2(2), of "FlushLog sample_clock"] by auto
  with w2 have "fold_res (run_section sample_surroundings) [PushLog sample_log_event, FlushLog sample_clock] w1 = Inr w3" by simp
  with sections_stopped [OF d w1(1) this] w1(1) show ?thesis by blast
qed

text \<open>
  C10. A due tick of the flush monitor empties the log and metrics streams, and makes every
  registered thread hand over its block with its next event, whatever that event is.
\<close>

theorem tick_flushes:
  assumes "reach su w logs metrics spans" and "G_DISPATCH w = Some d" and "LOCAL_THREAD_STREAM w t \<noteq> None"
    and "sint (time_to_flush_seconds now1 fm) \<le> 0" and "\<not> sink_is_busy su (sink_calls w) (sink d)"
    and "ThreadEventQueue_valid (su_abi su) e"
  shows "\<exists>w1 d1 w2 s2. tick su now1 now2 ck1 ck2 fm w = Inr (fm\<lparr>last_flush := now2\<rparr>, w1)
    \<and> G_DISPATCH w1 = Some d1 \<and> is_empty (log_stream d1) \<and> is_empty (metrics_stream d1)
    \<and> on_thread_event su ck t e w1 = Inr w2 \<and> LOCAL_THREAD_STREAM w2 t = Some s2 \<and> is_empty s2
    \<and> reach su w2 logs metrics (spans(t := spans t @ [e]))"
proof -
  obtain w1 d1 where w1: "tick su now1 now2 ck1 ck2 fm w = Inr (fm\<lparr>last_flush := now2\<rparr>, w1)"
    "reach su w1 logs metrics spans" "G_DISPATCH w1 = Some d1" "is_empty (log_stream d1)" "is_empty (metrics_stream d1)"
    "dom (LOCAL_THREAD_STREAM w1) = dom (LOCAL_THREAD_STREAM w)"
    "\<forall>t s. LOCAL_THREAD_STREAM w1 t = Some s \<longrightarrow> es_full_threshold s = 0"
    using tick_due [OF assms(1,2,4,5)] by blast
  have "t \<in> dom (LOCAL_THREAD_STREAM w1)" unfolding w1(6) using assms(3) by (simp add: domIff)
  then obtain s where s: "LOCAL_THREAD_STREAM w1 t = Some s" by blast
  moreover have "es_full_threshold s = 0" using w1(7) s by blast
  ultimately have s: "LOCAL_THREAD_STREAM w1 t = Some s" "es_full_threshold s = 0" by simp_all
  from full_thread_event [OF w1(2) s assms(6)] w1 show ?thesis by blast
qed

theorem tick_flushes_witness:
  "\<exists>w1 w2 s2. tick sample_surroundings 100 101 sample_clock sample_clock (FlushMonitor_default 30) sample_world
      = Inr ((FlushMonitor_default 30)\<lparr>last_flush := 101\<rparr>, w1)
    \<and> on_thread_event sample_surroundings sample_clock 0 sample_span_event w1 = Inr w2
    \<and> LOCAL_THREAD_STREAM w2 0 = Some s2 \<and> is_empty s2"
proof -
  obtain d where d: "G_DISPATCH sample_world = Some d" "live d" using sample_dispatch by blast
  have due: "sint (time_to_flush_seconds 100 (FlushMonitor_default 30)) \<le> 0"
    by (simp add: time_to_flush_seconds_def FlushMonitor_default_def FlushMonitor_new_def)
  have "\<not> sink_is_busy sample_surroundings (sink_calls sample_world) (sink d)"
    "ThreadEventQueue_valid (su_abi sample_surroundings) sample_span_event"
    using d(2) sample_events_valid by (simp_all add: sink_is_busy_def sample_surroundings_def)
  from tick_flushes [OF conjunct1 [OF sample_reach] d(1) _ due this, of 0] show ?thesis using sample_reach by blast
qed

theorem async_ids_differ_witness:
  "\<exists>a b w1 w2. on_begin_async_scope sample_surroundings sample_clock 1 100 (world_init None) = Inr (a, w1)
    \<and> on_begin_async_named_scope sample_surroundings sample_clock 2 100 (sample_str 1) w1 = Inr (b, w2) \<and> b \<noteq> a"
proof -
  let ?w1 = "(world_init None)\<lparr>G_ASYNC_SPAN_COUNTER := 1\<rparr>"
  have runs: "on_begin_async_scope sample_surroundings sample_clock 1 100 (world_init None) = Inr (0, ?w1)"
    "on_begin_async_named_scope sample_surroundings sample_clock 2 100 (sample_str 1) ?w1 = Inr (1, ?w1\<lparr>G_ASYNC_SPAN_COUNTER := 2\<rparr>)"
    by (simp_all add: on_begin_async_scope_def on_begin_async_named_scope_def next_span_id_def on_thread_event_unregistered world_init_def)
  from async_ids_differ [OF begins_scope [OF runs(1)], of "[]" ?w1] begins_named [OF runs(2)] runs show ?thesis by auto
qed

theorem init_twice_witness:
  "\<exists>w'. init_telemetry sample_surroundings sample_clock 9 9 9 1024 1024 1024 sample_world = Inr (Inl AlreadyInitialized, w')
    \<and> get_process_id w' = get_process_id sample_world"
proof -
  obtain d where d: "G_DISPATCH sample_world = Some d" using sample_dispatch by blast
  have "layout_ok (su_abi sample_surroundings) LogStaticStrEvent_decl"
    using sample_layouts(5) by (simp add: sample_surroundings_def)
  from init_twice [OF conjunct1 [OF sample_reach] d this, of sample_clock 9 9 9 1024 1024 1024] d show ?thesis
    by (auto simp: get_process_id_def)
qed

text \<open>
  C13. A thread that recorded spans and ended leaves its address behind: from then on, walking over
  the streams of the threads, which every due tick of the flush monitor does, reads memory that is
  gone.
\<close>

theorem exited_thread_dangles:
  assumes "reach su w logs metrics spans" and "LOCAL_THREAD_STREAM w t \<noteq> None"
  shows "for_each_thread_stream f (thread_exit t w) = Inl UB"
proof -
  obtain d where "G_DISPATCH w = Some d" "t \<in> set (thread_streams d)"
    using reach_inv [OF assms(1)] assms(2) by (auto simp: world_inv_def dispatcher_inv_def split: option.splits)
  then show ?thesis
    using at_missing_stream [of "thread_exit t w" t "thread_streams d" f]
    by (simp add: for_each_thread_stream_def thread_exit_def)
qed

theorem exited_thread_dangles_witness:
  "for_each_thread_stream set_full (thread_exit 0 sample_world) = Inl UB"
  using exited_thread_dangles [OF conjunct1 [OF sample_reach], of 0 set_full] sample_reach by blast

section \<open>Filters, levels and strings\<close>

text \<open>
  C14. The cached filter of a call site is never older than a call of \<open>set_level_filter\<close> that has
  returned, whatever the threads do, and a value that differs from the initial one is read back as
  the filter that some returned call has set.
\<close>

theorem level_filter_cache:
  assumes "filter_reach call cell0 (cell, pcs)"
  shows "(pcs i = Returned \<longrightarrow> fst (call i) \<le> generation_of cell)
    \<and> (cell \<noteq> cell0 \<longrightarrow> (\<exists>j. pcs j = Returned \<and> generation_of cell = fst (call j)
         \<and> level_filter (fst (call j)) cell = (case snd (call j) of None \<Rightarrow> NotSet | Some f \<Rightarrow> SetTo f)))"
proof -
  have inv: "filter_inv call cell0 (cell, pcs)" by (rule filter_reach_inv [OF assms])
  have "fst (call i) \<le> generation_of cell" if "pcs i = Returned"
    using inv that unfolding filter_inv_def by (auto split: filter_pc.splits)
  moreover have "\<exists>j. pcs j = Returned \<and> cell = filter_word (fst (call j)) (snd (call j))" if "cell \<noteq> cell0"
    using inv that by (auto simp: filter_inv_def)
  moreover have "generation_of cell = fst (call j)
      \<and> level_filter (fst (call j)) cell = (case snd (call j) of None \<Rightarrow> NotSet | Some f \<Rightarrow> SetTo f)"
    if "cell = filter_word (fst (call j)) (snd (call j))" for j by (simp add: that level_filter_word)
  ultimately show ?thesis by blast
qed

theorem level_filter_cache_witness:
  "(1 :: u16) \<le> generation_of (filter_word 1 (Some FilterWarn)) \<and> level_filter 1 (filter_word 1 (Some FilterWarn)) = SetTo FilterWarn"
proof -
  let ?call = "\<lambda>_ :: nat. (1 :: u16, Some FilterWarn)"
  let ?w = "filter_word 1 (Some FilterWarn)"
  have step: "filter_step ?call (c, pcs) (c', pcs(0 := pc'))"
    if "set_level_filter_step 1 (Some FilterWarn) c (pcs 0) = (c', pc')" for c c' pcs pc'
    using filter_step.run [of ?call 0 c pcs c' pc'] that by simp
  have r1: "filter_reach ?call 0 (0, (\<lambda>_. Entry)(0 := Looping 0))"
    by (rule filter_reach.step [OF filter_reach.init step]) (simp add: generation_of_def)
  have "filter_reach ?call 0 (?w, ((\<lambda>_. Entry)(0 := Looping 0))(0 := Returned))"
    by (rule filter_reach.step [OF r1 step]) simp
  then have r: "filter_reach ?call 0 (?w, (\<lambda>_. Entry)(0 := Returned))" by simp
  have "generation_of ?w = 1" by simp
  then have "?w \<noteq> 0" by (auto simp: generation_of_def)
  with level_filter_cache [OF r, of 0] show ?thesis by auto
qed

theorem retry_decreases_witness:
  "retries_left (\<lambda>_. (3, None)) 0 (snd (set_level_filter_step 3 None 0 Entry)) < retries_left (\<lambda>_. (3, None)) 0 Entry"
  using retry_decreases [of "\<lambda>_. (3, None)" 0 0 "\<lambda>_. Entry" 0 0 "Looping 0"]
  by (simp add: filter_inv_def generation_of_def)

text \<open>
  C16. Names and values of the four enumerations correspond: parsing a text succeeds with a value
  exactly when the text is the printed name of that value up to the case of letters, and is
  refused otherwise.
\<close>

theorem level_names:
  "(Level_from_str t = Inr l \<longleftrightarrow> (\<exists>s. Level_as_str l = Inr s \<and> eq_ignore_ascii_case s t))
   \<and> (LevelFilter_from_str t = Inr f \<longleftrightarrow> (\<exists>s. LevelFilter_as_str f = Inr s \<and> eq_ignore_ascii_case s t))
   \<and> (Verbosity_from_str t = Inr v \<longleftrightarrow> (\<exists>s. Verbosity_as_str v = Inr s \<and> eq_ignore_ascii_case s t))
   \<and> (LodFilter_from_str t = Inr g \<longleftrightarrow> (\<exists>s. LodFilter_as_str g = Inr s \<and> eq_ignore_ascii_case s t))
   \<and> (\<exists>f. LevelFilter_from_str t \<in> {Inr f, Inl parse_level_error})"
  by (intro conjI Level_from_str_iff LevelFilter_from_str_iff Verbosity_from_str_iff LodFilter_from_str_iff)
    (auto simp: LevelFilter_from_str_cases Let_def)

theorem intern_string_ok_witness:
  "interner_ok [''a'' \<mapsto> \<lparr>str_ptr = 5, str_len = 1\<rparr>, ''bc'' \<mapsto> \<lparr>str_ptr = 7, str_len = 2\<rparr>]"
proof -
  let ?lock = "[''a'' \<mapsto> \<lparr>str_ptr = 5, str_len = 1\<rparr>]"
  have "fresh_address ?lock ((\<lambda>_ _. 7) ?lock ''bc'')" "interner_ok ?lock"
    by (auto simp: fresh_address_def interner_ok_def split: if_splits)
  from intern_string_ok [OF this, where input = "''bc''" and v = "\<lparr>str_ptr = 7, str_len = 2\<rparr>"
      and lock' = "[''a'' \<mapsto> \<lparr>str_ptr = 5, str_len = 1\<rparr>, ''bc'' \<mapsto> \<lparr>str_ptr = 7, str_len = 2\<rparr>]"]
  show ?thesis by (simp add: intern_string_def Let_def eval_nat_numeral)
qed

theorem parse_string_utf8_witness:
  "parse_string ([1, 2] @ 2 # write_u32 2 @ bytes_of_string ''hi'' @ [9]) 2 = Inr (''hi'', 9)"
proof -
  have "is_utf8 (bytes_of_string ''hi'')" by (rule is_utf8_ascii; code_simp)
  from parse_string_utf8 [OF this, of 2 "[1, 2]" "[9]"] show ?thesis by (simp flip: numeral_2_eq_2)
qed


section \<open>Sinks, the lake, and queries\<close>

theorem target_filter_is_longest_witness:
  "\<exists>m'. target_max_level sample_memory
      \<lparr>cs_sinks = [(FilterError, sample_subsink)], cs_target_level_filters = sample_targets\<rparr> sample_log = (Some FilterInfo, m')
    \<and> target_max_level sample_memory
      \<lparr>cs_sinks = [(FilterError, sample_subsink)], cs_target_level_filters = sample_targets\<rparr> m' = (Some FilterInfo, m')"
proof -
  let ?cs = "\<lparr>cs_sinks = [(FilterError, sample_subsink)], cs_target_level_filters = sample_targets\<rparr>"
  obtain lf m' where m': "target_max_level sample_memory ?cs sample_log = (lf, m')" by (cases "target_max_level sample_memory ?cs sample_log")
  have "list_all (\<lambda>(t, _). t \<noteq> [] \<and> length t < 2 ^ 63) sample_targets" by (simp add: sample_targets_def)
  from target_filter_is_longest [OF sample_composite this sample_cache m'] sample_target_text m' show ?thesis
    by (cases lf) (auto simp: sample_targets_def)
qed

theorem max_level_hides_nothing_witness:
  "Level_as_u32 Level.Info \<le> MAX_LEVEL_FILTER (set_max_level FilterInfo (MAXIMA (world_init None)))"
proof -
  let ?m = "sample_log\<lparr>lm_level := Level.Info\<rparr>"
  let ?cs = "\<lparr>cs_sinks = [(FilterError, sample_subsink)], cs_target_level_filters = sample_targets\<rparr>"
  have c: "cache_ok sample_memory ?cs ?m" by (simp add: cache_ok_def sample_log_def generation_of_def)
  have "target_filter sample_memory ?cs ?m = Some FilterInfo"
    using sample_target_text by (simp add: target_filter_def sample_targets_def)
  then have "fst (composite_on_log_enabled sample_memory ?m ?cs)"
    using target_max_level_cached [OF c]
    by (simp add: composite_on_log_enabled_def passes_def Level_PartialOrd_LevelFilter_def sample_subsink_def sub_on_log_enabled_def)
  from max_level_hides_nothing [OF sample_composite c this] show ?thesis by simp
qed

theorem http_channel_witness:
  "sint (hs_queue_size (sample_sink (sample_http (sample_wire [] [] [])) [Startup sample_info])) = 1
   \<and> http_is_busy (sample_sink (sample_http (sample_wire [] [] [])) [Startup sample_info])"
proof -
  let ?henv = "sample_http (sample_wire [] [] [])"
  have r: "he_client ?henv = Inr ()" by (simp add: sample_http_def)
  note s = sample_sink_reach [OF r, of "[Startup sample_info]"]
  show ?thesis using http_channel [OF conjunct1 [OF s]] s by (simp add: outstanding_def)
qed

theorem http_drop_delivers_witness:
  "\<exists>h es n. es = [Startup sample_info, InitStream (log_stream_info id sample_abi (log_stream (the (G_DISPATCH sample_world))))]
    \<and> h = (worker_step (sample_http (sample_wire [] [] [])) None ^^ n) (HttpEventSink_drop (sample_sink (sample_http (sample_wire [] [] [])) es))
    \<and> hs_worker h = Gone \<and> list_all2 (answered (sample_http (sample_wire [] [] [])) sample_info) es (hs_requests h)"
proof -
  let ?henv = "sample_http (sample_wire [] [] [])"
  let ?es = "[Startup sample_info, InitStream (log_stream_info id sample_abi (log_stream (the (G_DISPATCH sample_world))))]"
  have "he_client ?henv = Inr ()" by (simp add: sample_http_def)
  from sample_sink_reach [OF this, of ?es] have s: "http_reach ?henv (sample_sink ?henv ?es) ?es [] 0 0" "hs_sender (sample_sink ?henv ?es)"
    "hs_sending (sample_sink ?henv ?es) = None" "outstanding (sample_sink ?henv ?es) = 2"
    by (simp_all add: outstanding_def)
  have e: "announced sample_info ?es" "list_all (sendable ?henv sample_info) ?es"
    by (simp add: announced_def) (simp add: sendable_def sample_http_def sample_wire_def)
  have "he_max_queue_size ?henv = 16" by (simp add: sample_http_def)
  with http_drop_delivers [OF sample_http_works s(1-3) e, of None] s(4) show ?thesis by (auto simp: Let_def)
qed

theorem migrate_all_or_nothing_witness:
  "schema_ok (snd (migrate_db (sample_lake (sample_wire [] [] []) (\<lambda>n. n = 3)) (lake_init\<lparr>la_objects := [], la_version := []\<rparr>)))"
proof -
  let ?l = "lake_init\<lparr>la_objects := [], la_version := []\<rparr>"
  let ?env = "sample_lake (sample_wire [] [] []) (\<lambda>n. n = 3)"
  have "schema_ok ?l" by (simp add: schema_ok_def)
  from migrate_all_or_nothing [OF this, of ?env "fst (migrate_db ?env ?l)" "snd (migrate_db ?env ?l)"] show ?thesis by simp
qed

theorem insert_block_keeps_payloads_witness:
  "\<exists>l' row. insert_block (sample_lake sample_gone_formats (\<lambda>_. False)) (sample_encode UNIV sample_gone_blocks (sample_gone_blocks ! 0)) lake_init = (Inr (), l')
    \<and> la_blocks l' = [row] \<and> row_of (sample_lake sample_gone_formats (\<lambda>_. False)) (sample_gone_blocks ! 0) row
    \<and> stored (sample_lake sample_gone_formats (\<lambda>_. False)) l' (row_key row) = Some (bl_payload (sample_gone_blocks ! 0))"
proof -
  let ?env = "sample_lake sample_gone_formats (\<lambda>_. False)" and ?body = "sample_encode UNIV sample_gone_blocks (sample_gone_blocks ! 0)"
  have wire: "wire_ok (le_wire ?env)" using sample_wire_ok by (simp add: sample_lake_def sample_gone_formats_def)
  have read: "wi_read_block (le_wire ?env) ?body = Inr (sample_gone_blocks ! 0)"
    by (simp add: sample_lake_def sample_gone_formats_def sample_wire_def sample_codec countable_blocks)
  have times: "\<exists>t. wi_from_rfc3339 (le_wire ?env) s = Inr t" for s by (simp add: sample_lake_def sample_gone_formats_def sample_wire_def)
  obtain t1 t2 where "wi_from_rfc3339 (le_wire ?env) (bl_begin_time (sample_gone_blocks ! 0)) = Inr t1"
    "wi_from_rfc3339 (le_wire ?env) (bl_end_time (sample_gone_blocks ! 0)) = Inr t2" using times by metis
  then obtain l' where l': "insert_block ?env ?body lake_init = (Inr (), l')"
    using insert_block_works [OF sample_lake_ok(3) wire sample_lake_ok(1) read] by blast
  have "payloads_ok ?env (\<lambda>_. bl_payload (sample_gone_blocks ! 0)) lake_init" by (simp add: payloads_ok_def lake_init_def)
  from insert_block_keeps_payloads [OF sample_names_ok wire this l'] read l' show ?thesis
    by (auto simp: payloads_ok_def lake_init_def)
qed

theorem ticks_to_nanoseconds_mono_witness:
  "sint (ticks_to_nanoseconds (from_meta_data 5 100 1000) 7) \<le> sint (ticks_to_nanoseconds (from_meta_data 5 100 1000) 9)"
proof -
  have "ns_since_start 1000 4 = 4000000" using fround_int [of 1000] fround_int [of 1000000] fround_int [of 4] fround_int [of 4000000]
    by (simp add: ns_since_start_def round_away_def floor_eq_iff)
  then show ?thesis
    using ticks_to_nanoseconds_mono [of 1000 5 7 9 100] by (simp add: clamp_i64_def)
qed

theorem ticks_to_nanoseconds_accurate_witness:
  "\<bar>of_int (sint (ticks_to_nanoseconds (from_meta_data 5 100 3000000000) 8) - 100) - (1 :: rat)\<bar> \<le> 1 / 2 + 1 / 2 ^ 51"
  using ticks_to_nanoseconds_accurate [of 3000000000 8 5 100] by simp

theorem logs_end_to_end_witness:
  "\<exists>l'. query_log_entries 2 (sample_lake sample_formats (\<lambda>_. False)) \<lparr>ar_keys8 = 256, ar_keys16 = 65536\<rparr> 2 0 1000000000 10
      (serve_all (sample_lake sample_formats (\<lambda>_. False)) ''http://host'' sample_requests lake_init)
    = (Inr (log_batch_of [sample_row]), l')"
proof -
  let ?henv = "sample_http sample_formats" and ?env = "sample_lake sample_formats (\<lambda>_. False)"
  let ?ar = "\<lparr>ar_keys8 = 256, ar_keys16 = 65536\<rparr>"
  obtain d where d: "G_DISPATCH sample_recorded = Some d" "live d" "stream_id (log_stream d) = 2" using sample_stopped_block(1) by blast
  have other: "\<forall>b \<in> set (other_blocks (sink_calls sample_stopped)). eb_stream_id b \<noteq> stream_id (log_stream d)"
    unfolding sample_stopped_blocks d(3) by (simp add: sample_stopped_ids)
  have rows: "[sample_row] = map (log_entry_of (su_memory (he_su ?henv)) (cs_logs (he_sites ?henv)) (query_ticks ?env sample_info)) [sample_log_event]"
    by (simp add: sample_environment sample_entry sample_surroundings_def sample_sites_def)
  from logs_end_to_end [where henv = ?henv and env = ?env, unfolded sample_environment, OF sample_recorded_reach d(1,2) sample_stopped_block(2) sample_served(1,2) sample_log_ok
      sample_answered sample_requests_ok sample_served(3) other sample_covered(1) rows [unfolded sample_environment], of ?ar 0 10]
  show ?thesis
    by (simp add: d(3) numeral_2_eq_2 sample_row_def timestamp_nanos_def)
qed

theorem metrics_end_to_end_witness:
  "\<exists>l'. query_metrics 2 (sample_lake sample_formats (\<lambda>_. False)) \<lparr>ar_keys8 = 256, ar_keys16 = 65536\<rparr> 10 3 0 1000000000
      (serve_all (sample_lake sample_formats (\<lambda>_. False)) ''http://host'' sample_requests lake_init)
    = (Inr (metrics_batch_of [sample_measure]), l')"
proof -
  let ?henv = "sample_http sample_formats" and ?env = "sample_lake sample_formats (\<lambda>_. False)"
  let ?ar = "\<lparr>ar_keys8 = 256, ar_keys16 = 65536\<rparr>"
  obtain d where d: "G_DISPATCH sample_recorded = Some d" "live d" "stream_id (log_stream d) = 2" "stream_id (metrics_stream d) = 3"
    using sample_stopped_block(1) by blast
  have other: "stream_id (log_stream d) \<noteq> stream_id (metrics_stream d)"
    "\<forall>b \<in> set (thread_blocks (sink_calls sample_stopped)). eb_stream_id b \<noteq> stream_id (metrics_stream d)"
    unfolding sample_stopped_blocks d(3,4) by simp_all
  have rows: "[sample_measure] = map (measure_of (su_memory (he_su ?henv)) (cs_metrics (he_sites ?henv)) (query_ticks ?env sample_info)) [sample_metric_event]"
    by (simp add: sample_environment sample_measured sample_surroundings_def sample_sites_def)
  from metrics_end_to_end [where henv = ?henv and env = ?env, unfolded sample_environment, OF sample_recorded_reach d(1,2) sample_stopped_block(2) sample_served(1,2) sample_metrics_ok
      sample_answered sample_requests_ok sample_served(3) other sample_covered(2) rows [unfolded sample_environment], of ?ar 0 10]
  show ?thesis
    by (simp add: d(4) numeral_2_eq_2 sample_measure_def timestamp_nanos_def metrics_rows_fit_def)
qed

theorem call_tree_nodes_ok_witness:
  "\<exists>tree l'. make_call_tree 2 sample_env sample_hash [sample_thread_block 11 0 10] 0 10000000 10 (ConvertTicks_new sample_info)
      sample_thread_stream sample_thread_lake = (Inr tree, l')
    \<and> every_node (node_within (tr_scopes tree) 0 10000000) sample_window_root"
proof -
  obtain tree l' where tree: "make_call_tree 2 sample_env sample_hash [sample_thread_block 11 0 10] 0 10000000 10 (ConvertTicks_new sample_info)
      sample_thread_stream sample_thread_lake = (Inr tree, l')" "tr_call_tree_root tree = Some sample_window_root" using sample_tree_made by (auto simp: sample_tree_def)
  from call_tree_nodes_ok [OF tree(1) _ tree(2)] show ?thesis using tree(1) by simp
qed

theorem call_tree_of_window_witness:
  "\<exists>tree l'. make_call_tree 2 sample_env sample_hash [sample_thread_block 11 0 10] 0 10000000 10 (ConvertTicks_new sample_info)
      sample_thread_stream sample_thread_lake = (Inr tree, l') \<and> tr_call_tree_root tree = Some sample_window_root
    \<and> tr_scopes tree 119168 = Some sample_thread_scope \<and> tr_scopes tree 30787 = Some sample_scope"
  using call_tree_of_window [OF sample_lake_ok(3) sample_block_reads [of _ 0 10] sample_window(1-5)] sample_window(6)
  by (auto simp: sample_thread_hash sample_scope_hash sample_window_root_def)

theorem call_tree_table_witness:
  "builder_append_call_tree \<lparr>ar_keys8 = 256, ar_keys16 = 65536\<rparr> sample_tree (span_builder_of []) = Inr (span_builder_of (tree_rows sample_tree))
    \<and> map (\<lambda>r. (sp_id r, sp_parent r, sp_depth r, sp_begin r, sp_end r)) (tree_rows sample_tree)
      = [(- 1, 0, 0, 0, 10000000), (0, - 1, 1, 0, 2000000), (1, - 1, 1, 3000000, 10000000)]"
proof -
  obtain l' where tree: "make_call_tree 2 sample_env sample_hash [sample_thread_block 11 0 10] 0 10000000 10 (ConvertTicks_new sample_info)
      sample_thread_stream sample_thread_lake = (Inr sample_tree, l')" using sample_tree_made by blast
  have "span_rows_fit \<lparr>ar_keys8 = 256, ar_keys16 = 65536\<rparr> ([] @ tree_rows sample_tree)"
    using tree_rows_fit [where tree = sample_tree and ar = "\<lparr>ar_keys8 = 256, ar_keys16 = 65536\<rparr>"] by (simp add: sample_tree_def sample_window_root_def)
  from call_tree_table [OF tree _ this] show ?thesis
    by (simp add: tree_rows_def sample_tree_def sample_window_root_def span_rows_def visited_row_def shown_id_def shown_parent_def)
qed

theorem span_query_of_window_witness:
  "\<exists>l'. spans_record_batch 2 sample_env \<lparr>ar_keys8 = 256, ar_keys16 = 65536\<rparr> sample_hash sample_info 0 1000 10 sample_thread_stream
      [sample_thread_block 11 0 10] sample_thread_lake = (Inr (span_batch_of (tree_rows sample_tree)), l')"
  using span_query_of_window [OF sample_lake_ok(3) sample_block_reads _ _ refl sample_tree_range [symmetric] _ sample_window(1-5) _ refl _ refl,
      of "\<lparr>ar_keys8 = 256, ar_keys16 = 65536\<rparr>"] sample_window(6)
  by (simp add: contiguous_def sample_thread_hash tree_rows_def sample_tree_def sample_window_root_def span_rows_def [abs_def] scope_table_def)


theorem thread_events_in_range_witness:
  "\<exists>l'. make_thread_events_record_batch 2 sample_env \<lparr>ar_keys8 = 256, ar_keys16 = 65536\<rparr> sample_hash [sample_thread_block 11 0 10] 1 0 10000000
      (ConvertTicks_new sample_info) sample_thread_stream sample_thread_lake
    = (Inr (thread_events_batch_of (ConvertTicks_new sample_info)
        [\<lparr>te_id = 0, te_event_type = ''end'', te_ts = 7, te_scope = sample_scope, te_block_id = sample_uuid_to_string 11\<rparr>]), l')"
  using thread_events_in_range [where ?t1.0 = 0 and ?t2.0 = 10000000, OF sample_lake_ok(3) sample_block_reads [of _ 0 10], where ar = "\<lparr>ar_keys8 = 256, ar_keys16 = 65536\<rparr>"
    and ct = "ConvertTicks_new sample_info" and limit = 1]
  by (simp add: sample_calls_def map_filter_simps event_rows_fit_def event_time_def sample_thread_time)

theorem query_streams_wanted_witness:
  "AnalyticsService_query_streams sample_service [] (lake_init\<lparr>la_streams := [sample_stream_row\<lparr>sw_process_id := 2\<rparr>, sample_stream_row]\<rparr>)
    = (Inr [0, 0, 0, 0], lake_init\<lparr>la_streams := [sample_stream_row\<lparr>sw_process_id := 2\<rparr>, sample_stream_row], la_calls := 2\<rparr>)"
proof -
  let ?l = "lake_init\<lparr>la_streams := [sample_stream_row\<lparr>sw_process_id := 2\<rparr>, sample_stream_row]\<rparr>"
  have "[sample_stream_row] = take (nat (sint (qs_limit sample_streams_request)))
      (sort_key sw_insert_time (filter (stream_wanted (le_timestamptz (as_lake sample_service)) None None sample_streams_request) (la_streams ?l)))"
    by (simp add: sample_streams_request_def stream_wanted_def sample_stream_row_def insort_key_def)
  from query_streams_wanted [where sv = sample_service and body = "[]" and l = ?l, OF _ _ _ _ _ _ this] show ?thesis
    using sample_lake_ok(3)
    by (simp add: sample_service_def sample_streams_request_def parse_opt_time_def serialize_record_batch_def streams_columns_def lake_init_def)
qed

theorem announced_process_found_witness:
  "fst (analytics_serve sample_service ''/analytics/find_process'' [] (serve_http sample_env ''http://host'' (sample_requests ! 0) lake_init))
    = Response 200 [0, 0, 0, 0, 0, 0, 0, 0, 0, 0, 0, 0, 0]"
proof -
  have finite: "finite (dom (pi_properties sample_info))" by (simp add: sample_info_def make_process_info_def)
  then have "sample_info \<in> finite_processes" by (simp add: finite_processes_def)
  note codec = sample_codec [OF countable_processes this]
  have lake: "as_lake sample_service = sample_env" by (simp add: sample_service_def)
  have parquet: "as_parquet sample_service batch = Inr (replicate (length batch) 0)" for batch by (simp add: sample_service_def)
  have body: "wi_read_process (le_wire sample_env) (rq_body (sample_requests ! 0)) = Inr sample_info"
    "rq_url (sample_requests ! 0) = ''http://host'' @ ''/ingestion/insert_process''" "length (rq_body (sample_requests ! 0)) \<le> body_limit"
    by (simp_all add: sample_requests_def sample_lake_def sample_formats_def sample_wire_def codec sample_encode_body)
  have info: "pi_process_id sample_info = 1" by (simp add: sample_info_def make_process_info_def)
  have "as_read_find_process sample_service [] = Inr \<lparr>fp_process_id = 1\<rparr>" "length [] \<le> as_body_limit sample_service"
    "pi_process_id sample_info \<notin> pw_process_id ` set (la_processes lake_init)" by (simp_all add: sample_service_def lake_init_def)
  from announced_process_found [of sample_service, unfolded lake, OF sample_lake_ok(3,2) body(1) finite sample_info_fits body(2,3) this refl refl] info
  show ?thesis by (auto simp: parquet bytes_response_def)
qed

theorem guards_lifecycle_witness:
  "\<exists>t t1 t2. t = telemetry_init None
    \<and> TelemetryGuardBuilder_build sample_start_env sample_surroundings sample_clock sample_ids sample_thread_ref sample_builder t = Inr (Inr (), t1)
    \<and> get_sink (tg_world t1) = Some AppSink \<and> length (filter is_startup (sink_calls (tg_world t1))) = 1
    \<and> TelemetryGuard_drop sample_surroundings sample_clock sample_clock sample_clock 0 t1 = Inr t2
    \<and> get_sink (tg_world t2) = Some NullEventSink"
proof -
  have layouts: "log_layouts sample_surroundings"
    by (simp add: log_layouts_def sample_surroundings_def sample_layouts) (simp add: sample_abi_def)
  let ?t = "telemetry_init None"
  have ok: "build_ok sample_surroundings sample_ids sample_builder ?t"
    by (simp add: build_ok_def sample_builder_def sample_surroundings_def sample_buffers telemetry_init_def world_init_def)
  have works: "tb_install_tracing_capture sample_builder \<longrightarrow> se_subscriber_works sample_start_env" by (simp add: sample_start_env_def)
  have "get_sink (tg_world ?t) = None" by (simp add: telemetry_init_def world_init_def get_sink_def)
  then obtain t1 where t1: "TelemetryGuardBuilder_build sample_start_env sample_surroundings sample_clock sample_ids sample_thread_ref sample_builder ?t = Inr (Inr (), t1)"
    "tg_strong t1 = 1"
    using guards_lifecycle [OF layouts guard_init [of _ None], where u = sample_ids and b = sample_builder and env = sample_start_env and ck = sample_clock and th = sample_thread_ref] ok works by blast
  have "guard_reach sample_surroundings t1 False" by (rule guard_build [OF guard_init ok t1(1)])
  note life = guards_lifecycle [OF layouts this, where ck = sample_clock and ?ck1.0 = sample_clock and ?ck2.0 = sample_clock and tid = 0]
  then have sink: "get_sink (tg_world t1) = Some AppSink" using t1(2) by (metis zero_less_one)
  then have "length (filter is_startup (sink_calls (tg_world t1))) = 1" using life by (auto simp: get_sink_None [symmetric])
  moreover obtain t2 where "TelemetryGuard_drop sample_surroundings sample_clock sample_clock sample_clock 0 t1 = Inr t2"
    "get_sink (tg_world t2) = Some NullEventSink" using life t1(2) by (metis zero_less_one)
  ultimately show ?thesis using t1(1) sink by blast
qed

theorem spans_end_to_end_witness:
  "\<exists>r l'. unplaced r = sample_event_row
    \<and> query_thread_events 2 (sample_lake sample_gone_formats (\<lambda>_. False)) \<lparr>ar_keys8 = 256, ar_keys16 = 65536\<rparr> sample_hash 10 4 0 1000000000
      (serve_all (sample_lake sample_gone_formats (\<lambda>_. False)) ''http://host'' sample_gone_requests lake_init)
    = (Inr (thread_events_batch_of (query_ticks (sample_lake sample_gone_formats (\<lambda>_. False)) sample_info) [r]), l')"
proof -
  let ?henv = "sample_http sample_gone_formats" and ?env = "sample_lake sample_gone_formats (\<lambda>_. False)"
  let ?ar = "\<lparr>ar_keys8 = 256, ar_keys16 = 65536\<rparr>" and ?spans = "\<lambda>t :: nat. if t = 0 then [sample_span_event] else []"
  obtain s where s: "G_DISPATCH sample_spanned = Some (sample_dispatch\<lparr>thread_streams := [0]\<rparr>)" "LOCAL_THREAD_STREAM sample_spanned 0 = Some s" "stream_id s = 4"
    "TracingThreadGuard_drop sample_surroundings sample_later 0 sample_spanned = Inr sample_left"
    "TracingSystemGuard_drop sample_surroundings sample_clock sample_clock sample_left = Inr sample_gone" using sample_gone_state by blast
  have others: "live (sample_dispatch\<lparr>thread_streams := [0]\<rparr>)" "stream_id (log_stream (sample_dispatch\<lparr>thread_streams := [0]\<rparr>)) \<noteq> stream_id s"
    "stream_id (metrics_stream (sample_dispatch\<lparr>thread_streams := [0]\<rparr>)) \<noteq> stream_id s"
    unfolding s(3) by (simp_all add: sample_dispatch_def sample_log_stream_def sample_metrics_stream_def stream_id_def EventStream_new_def Let_def StreamDesc_new_def)
  have blocks: "[sample_gone_block] = blocks_of_stream (stream_id s) (thread_blocks (sink_calls sample_gone))" by (simp add: s(3) sample_gone_calls(6))
  have cover: "ticks_cover sample_info (thread_begin ?env sample_info 0) (query_tick ?env sample_info 1000000000) [sample_gone_block]"
    by (simp add: sample_gone_range sample_query_tick)
  have rows: "[sample_event_row] = thread_rows sample_hash sample_memory sample_spans sample_locations (?spans 0)" by (simp add: sample_event_rows)
  have fit: "event_rows_fit ?ar [sample_event_row]" by (simp add: event_rows_fit_def)
  have parts: "su_memory sample_surroundings = sample_memory" "cs_spans sample_sites = sample_spans" "cs_locations sample_sites = sample_locations"
    by (simp_all add: sample_surroundings_def sample_sites_def)
  have "span_events_ok ?henv (?spans 0)" by (simp add: sample_spans_ok(2))
  note query = spans_end_to_end [where henv = ?henv and env = ?env and info = sample_info and bs = "[sample_gone_block]" and ar = ?ar and stack = 0 and limit = 10,
      unfolded sample_environment parts, OF sample_spanned_reach s(1) others(1) s(2,4,5) sample_gone_served(1,2) sample_spans_ok(1) this
      sample_gone_answered sample_gone_requests_ok sample_gone_served(3) others(2,3) blocks _ cover rows _ fit]
  then obtain r l' where r: "map unplaced [r] = [sample_event_row]" and
    l': "query_thread_events (Suc (Suc 0)) ?env ?ar sample_hash 10 4 0 1000000000 (serve_all ?env ''http://host'' sample_gone_requests lake_init)
      = (Inr (thread_events_batch_of (query_ticks ?env sample_info) (take (nat (sint (10 :: i64)))
        (filter (\<lambda>r. sint (query_nanos ?env sample_info 0) \<le> sint (event_time (query_ticks ?env sample_info) r)
          \<and> sint (event_time (query_ticks ?env sample_info) r) \<le> sint (query_nanos ?env sample_info 5)) [r]))), l')"
    by (auto simp: s(3) sample_gone_range)
  have "te_ts r = te_ts (unplaced r)" by (simp add: unplaced_def)
  then have "event_time (query_ticks ?env sample_info) r = 4000000" using r by (simp add: event_time_def sample_event_row_def sample_gone_times)
  then show ?thesis using r l' by (auto simp: sample_gone_times numeral_2_eq_2)
qed

end
